(* ===== verification/Prelude.thy ===== *)
theory Prelude
  imports Main "HOL-Library.Char_ord" "HOL-Library.List_Lexorder" "HOL-Library.Product_Lexorder"
    "HOL-Library.Option_ord"
begin

text \<open>
  Shared vocabulary of the development: results and actions (an exception is \<open>Inl\<close>, and an
  action returns the state it leaves behind in both cases), Python's truth tests on optional
  strings, SQL's \<open>UPDATE\<close>, \<open>DELETE\<close>, \<open>ORDER BY\<close> and \<open>COALESCE\<close> on a table kept as the list of
  its rows in insertion order, and the interface of a table with a unique key.
\<close>

named_theorems row_simps \<open>reading a table after a write\<close>
named_theorems act_simps \<open>running actions\<close>

section \<open>Results and actions\<close>

type_synonym ('w, 'e, 'a) act = "'w \<Rightarrow> ('e + 'a) \<times> 'w"

definition ok :: "'a \<Rightarrow> ('w, 'e, 'a) act" where
  "ok a w = (Inr a, w)"

definition raise :: "'e \<Rightarrow> ('w, 'e, 'a) act" where
  "raise e w = (Inl e, w)"

definition andthen :: "('w, 'e, 'a) act \<Rightarrow> ('a \<Rightarrow> ('w, 'e, 'b) act) \<Rightarrow> ('w, 'e, 'b) act" where
  "andthen m k w = (case m w of (Inl e, w') \<Rightarrow> (Inl e, w') | (Inr a, w') \<Rightarrow> k a w')"

lemma andthen_Inl [act_simps]: "m w = (Inl e, w') \<Longrightarrow> andthen m k w = (Inl e, w')"
  by (simp add: andthen_def)

lemma andthen_Inr [act_simps]: "m w = (Inr a, w') \<Longrightarrow> andthen m k w = k a w'"
  by (simp add: andthen_def)

lemma andthen_InrE:
  assumes "andthen m k w = (Inr b, w'')"
  obtains a w' where "m w = (Inr a, w')" and "k a w' = (Inr b, w'')"
  using assms by (auto simp: andthen_def split: prod.splits sum.splits)

lemma ok_eq [act_simps]: "ok a w = (Inr a, w)"
  by (simp add: ok_def)

lemma raise_eq [act_simps]: "raise e w = (Inl e, w)"
  by (simp add: raise_def)

lemma ok_eq_iff [act_simps]: "ok a w = (r, w') \<longleftrightarrow> r = Inr a \<and> w' = w"
  by (auto simp: ok_def)

lemma raise_eq_iff [act_simps]: "raise e w = (r, w') \<longleftrightarrow> r = Inl e \<and> w' = w"
  by (auto simp: raise_def)

definition is_ok :: "'e + 'a \<Rightarrow> bool" where
  "is_ok r = (case r of Inl _ \<Rightarrow> False | Inr _ \<Rightarrow> True)"

lemma is_ok_simps [simp]: "is_ok (Inr a)" "\<not> is_ok (Inl e)"
  by (simp_all add: is_ok_def)

lemma is_ok_iff: "is_ok r \<longleftrightarrow> (\<exists>a. r = Inr a)"
  by (cases r) auto

text \<open>A step of a computation that changes no state, and ends with the first exception.\<close>

fun try_then :: "'e + 'a \<Rightarrow> ('a \<Rightarrow> 'e + 'b) \<Rightarrow> 'e + 'b" where
  "try_then (Inl e) f = Inl e"
| "try_then (Inr x) f = f x"

lemma try_then_Inr: "try_then r f = Inr y \<longleftrightarrow> (\<exists>x. r = Inr x \<and> f x = Inr y)"
  by (cases r) auto

section \<open>Optional values\<close>

text \<open>\<open>bool(x)\<close> for an optional string: None and the empty string are false.\<close>

fun truthy :: "'a list option \<Rightarrow> bool" where
  "truthy None = False"
| "truthy (Some s) = (s \<noteq> [])"

text \<open>\<open>x or y\<close> for an optional string \<open>x\<close>.\<close>

definition or_else :: "'a list option \<Rightarrow> 'a list \<Rightarrow> 'a list" where
  "or_else x y = (case x of Some s \<Rightarrow> (if s = [] then y else s) | None \<Rightarrow> y)"

text \<open>SQL's \<open>COALESCE(?, column)\<close>.\<close>

definition coalesce :: "'a option \<Rightarrow> 'a option \<Rightarrow> 'a option" where
  "coalesce x y = (case x of Some _ \<Rightarrow> x | None \<Rightarrow> y)"

lemma coalesce_simps [simp]: "coalesce (Some a) y = Some a" "coalesce None y = y"
  by (simp_all add: coalesce_def)

lemma coalesce_eq_None [simp]: "coalesce x y = None \<longleftrightarrow> x = None \<and> y = None"
  by (cases x) auto

lemma or_else_None [simp]: "or_else None y = y"
  by (simp add: or_else_def)

section \<open>Tables\<close>

definition update_where :: "('r \<Rightarrow> bool) \<Rightarrow> ('r \<Rightarrow> 'r) \<Rightarrow> 'r list \<Rightarrow> 'r list" where
  "update_where P f rows = map (\<lambda>r. if P r then f r else r) rows"

definition delete_where :: "('r \<Rightarrow> bool) \<Rightarrow> 'r list \<Rightarrow> 'r list" where
  "delete_where P rows = filter (\<lambda>r. \<not> P r) rows"

definition rowcount :: "('r \<Rightarrow> bool) \<Rightarrow> 'r list \<Rightarrow> nat" where
  "rowcount P rows = length (filter P rows)"

definition order_by :: "('r \<Rightarrow> 'k::linorder) \<Rightarrow> 'r list \<Rightarrow> 'r list" where
  "order_by k rows = sort_key k rows"

text \<open>Descending order; the sort keys end in the row id, so ties do not arise.\<close>

definition order_by_desc :: "('r \<Rightarrow> 'k::linorder) \<Rightarrow> 'r list \<Rightarrow> 'r list" where
  "order_by_desc k rows = rev (sort_key k rows)"

lemma set_update_where: "set (update_where P f rows) = f ` {r \<in> set rows. P r} \<union> {r \<in> set rows. \<not> P r}"
  by (auto simp: update_where_def)

lemma in_update_where:
  "r \<in> set (update_where P f rows) \<longleftrightarrow>
     (\<exists>r0 \<in> set rows. r = (if P r0 then f r0 else r0))"
  by (auto simp: update_where_def)

lemma in_delete_where [simp]: "r \<in> set (delete_where P rows) \<longleftrightarrow> r \<in> set rows \<and> \<not> P r"
  by (auto simp: delete_where_def)

lemma length_update_where [simp]: "length (update_where P f rows) = length rows"
  by (simp add: update_where_def)

lemma update_where_none: "\<forall>r \<in> set rows. \<not> P r \<Longrightarrow> update_where P f rows = rows"
  unfolding update_where_def by (rule map_idI) simp

lemma map_update_where_same:
  "(\<And>r. g (f r) = g r) \<Longrightarrow> map g (update_where P f rows) = map g rows"
  by (simp add: update_where_def)

lemma update_where_all_same: "(\<And>r. P r \<Longrightarrow> f r = r) \<Longrightarrow> update_where P f rows = rows"
  unfolding update_where_def by (rule map_idI) simp

lemma rowcount_0_iff: "rowcount P rows = 0 \<longleftrightarrow> (\<forall>r \<in> set rows. \<not> P r)"
  by (simp add: rowcount_def filter_empty_conv)

lemma find_key_update_where_same [row_simps]:
  "(\<And>r. key (f r) = key r) \<Longrightarrow>
   List.find (\<lambda>r. key r = k) (update_where (\<lambda>r. key r = k) f rows) =
   map_option f (List.find (\<lambda>r. key r = k) rows)"
  by (induction rows) (auto simp: update_where_def)

lemma find_key_update_where_other [row_simps]:
  "(\<And>r. key (f r) = key r) \<Longrightarrow> k \<noteq> k' \<Longrightarrow>
   List.find (\<lambda>r. key r = k') (update_where (\<lambda>r. key r = k) f rows) =
   List.find (\<lambda>r. key r = k') rows"
  by (induction rows) (auto simp: update_where_def)

lemma find_append: "List.find P (xs @ ys) = (case List.find P xs of Some x \<Rightarrow> Some x | None \<Rightarrow> List.find P ys)"
  by (induction xs) auto

lemma find_Some_in: "List.find P xs = Some x \<Longrightarrow> x \<in> set xs \<and> P x"
  by (induction xs) (auto split: if_splits)

lemma find_None_all: "List.find P xs = None \<longleftrightarrow> (\<forall>x \<in> set xs. \<not> P x)"
  by (induction xs) auto

lemma find_distinct_key:
  "distinct (map key rows) \<Longrightarrow> r \<in> set rows \<Longrightarrow> List.find (\<lambda>x. key x = key r) rows = Some r"
  by (induction rows) (auto simp: image_iff)

text \<open>An \<open>UPDATE\<close> that selects by key and by a test on the row, when the key is unique.\<close>

lemma update_where_conj_key:
  assumes "distinct (map key rows)" and "List.find (\<lambda>r. key r = k) rows = Some r" and "Q r"
  shows "update_where (\<lambda>x. key x = k \<and> Q x) f rows = update_where (\<lambda>x. key x = k) f rows"
proof -
  have "\<forall>x \<in> set rows. key x = k \<longrightarrow> Q x"
    using assms by (auto dest: find_Some_in) (metis find_Some_in find_distinct_key option.inject)
  then show ?thesis by (auto simp: update_where_def)
qed

lemma update_where_conj_key_none:
  assumes "distinct (map key rows)" and "List.find (\<lambda>r. key r = k) rows = Some r" and "\<not> Q r"
  shows "update_where (\<lambda>x. key x = k \<and> Q x) f rows = rows"
    and "rowcount (\<lambda>x. key x = k \<and> Q x) rows = 0"
proof -
  have none: "\<forall>x \<in> set rows. \<not> (key x = k \<and> Q x)"
    using assms by (metis find_distinct_key option.inject)
  then show "update_where (\<lambda>x. key x = k \<and> Q x) f rows = rows"
    by (rule update_where_none)
  show "rowcount (\<lambda>x. key x = k \<and> Q x) rows = 0"
    using none by (simp add: rowcount_0_iff)
qed

lemma rowcount_conj_key:
  assumes "distinct (map key rows)" and "List.find (\<lambda>r. key r = k) rows = Some r" and "Q r"
  shows "rowcount (\<lambda>x. key x = k \<and> Q x) rows = 1"
  using assms
proof (induction rows)
  case (Cons a rows)
  show ?case
  proof (cases "key a = k")
    case True
    with Cons.prems have "a = r" and "\<forall>x \<in> set rows. key x \<noteq> k" by (auto simp: image_iff)
    with True Cons.prems(3) show ?thesis by (auto simp: rowcount_def filter_empty_conv)
  next
    case False
    with Cons show ?thesis by (simp add: rowcount_def)
  qed
qed simp

section \<open>The interface of a table with a unique key\<close>

text \<open>
  What the services rely on when they read one row by its unique key and write it back:
  \<open>get\<close> is \<open>SELECT ... WHERE key = ?\<close> with \<open>fetchone\<close>, \<open>put k f\<close> is \<open>UPDATE ... WHERE key = ?\<close>
  for a column assignment \<open>f\<close>. \<open>keeps f\<close> says that \<open>f\<close> leaves the key column alone.
\<close>

locale row_store =
  fixes get :: "'k \<Rightarrow> 's \<Rightarrow> 'r option"
    and put :: "'k \<Rightarrow> ('r \<Rightarrow> 'r) \<Rightarrow> 's \<Rightarrow> 's"
    and keeps :: "('r \<Rightarrow> 'r) \<Rightarrow> bool"
  assumes get_put_same: "keeps f \<Longrightarrow> get k (put k f s) = map_option f (get k s)"
    and get_put_other: "keeps f \<Longrightarrow> k' \<noteq> k \<Longrightarrow> get k' (put k f s) = get k' s"
begin

definition every :: "('k \<Rightarrow> 'r \<Rightarrow> bool) \<Rightarrow> 's \<Rightarrow> bool" where
  "every P s \<longleftrightarrow> (\<forall>k r. get k s = Some r \<longrightarrow> P k r)"

lemma get_put: "keeps f \<Longrightarrow> get k' (put k f s) = (if k' = k then map_option f (get k s) else get k' s)"
  by (simp add: get_put_same get_put_other)

lemma put_missing: "keeps f \<Longrightarrow> get k s = None \<Longrightarrow> get k' (put k f s) = get k' s"
  by (simp add: get_put)

lemma every_put:
  assumes "every P s" and "keeps f" and "\<And>r. get k s = Some r \<Longrightarrow> P k r \<Longrightarrow> P k (f r)"
  shows "every P (put k f s)"
  using assms by (auto simp: every_def get_put)

end

text \<open>A table that also takes new rows and loses rows.\<close>

locale row_table = row_store get put keeps
  for get :: "'k \<Rightarrow> 's \<Rightarrow> 'r option" and put :: "'k \<Rightarrow> ('r \<Rightarrow> 'r) \<Rightarrow> 's \<Rightarrow> 's"
    and keeps :: "('r \<Rightarrow> 'r) \<Rightarrow> bool" +
  fixes add :: "'r \<Rightarrow> 's \<Rightarrow> 's" and remove :: "('r \<Rightarrow> bool) \<Rightarrow> 's \<Rightarrow> 's"
    and keyof :: "'r \<Rightarrow> 'k" and uniq :: "'s \<Rightarrow> bool"
  assumes get_add: "get (keyof r) s = None \<Longrightarrow> get k (add r s) = (if k = keyof r then Some r else get k s)"
    and get_remove: "uniq s \<Longrightarrow> get k (remove P s) = (case get k s of Some r \<Rightarrow> if P r then None else Some r | None \<Rightarrow> None)"
    and uniq_add: "uniq s \<Longrightarrow> get (keyof r) s = None \<Longrightarrow> uniq (add r s)"
    and uniq_put: "uniq s \<Longrightarrow> keeps f \<Longrightarrow> uniq (put k f s)"
    and uniq_remove: "uniq s \<Longrightarrow> uniq (remove P s)"
begin

lemma every_add: "every P s \<Longrightarrow> get (keyof r) s = None \<Longrightarrow> P (keyof r) r \<Longrightarrow> every P (add r s)"
  by (auto simp: every_def get_add)

lemma every_remove: "uniq s \<Longrightarrow> every P s \<Longrightarrow> every P (remove Q s)"
  by (auto simp: every_def get_remove split: option.splits if_splits)

lemma get_add_old: "get (keyof r) s = None \<Longrightarrow> get k s = Some r' \<Longrightarrow> get k (add r s) = Some r'"
  by (auto simp: get_add)

end

lemma find_delete_where:
  assumes "distinct (map key s)"
  shows "List.find (\<lambda>r. key r = k) (delete_where P s) =
    (case List.find (\<lambda>r. key r = k) s of Some r \<Rightarrow> if P r then None else Some r | None \<Rightarrow> None)"
proof (cases "List.find (\<lambda>r. key r = k) s")
  case None
  then have "List.find (\<lambda>r. key r = k) (delete_where P s) = None" by (simp add: find_None_all)
  with None show ?thesis by simp
next
  case (Some r)
  then have r: "r \<in> set s" "key r = k" by (auto dest: find_Some_in)
  have only: "\<forall>x \<in> set s. key x = k \<longrightarrow> x = r"
    using assms r by (metis find_distinct_key option.inject)
  show ?thesis
  proof (cases "P r")
    case True
    with only have "List.find (\<lambda>r. key r = k) (delete_where P s) = None" by (auto simp: find_None_all)
    with True Some show ?thesis by simp
  next
    case False
    have "distinct (map key (delete_where P s))"
      using assms by (simp add: delete_where_def distinct_map_filter)
    with False Some r show ?thesis
      using find_distinct_key [of key "delete_where P s" r] by simp
  qed
qed

text \<open>The laws hold of a list of rows read by \<open>List.find\<close>; the tables of the database use this.\<close>

lemma table_row_table:
  "row_table (\<lambda>k. List.find (\<lambda>r. key r = k)) (\<lambda>k f. update_where (\<lambda>r. key r = k) f)
     (\<lambda>f. \<forall>r. key (f r) = key r) (\<lambda>r s. s @ [r]) delete_where key (\<lambda>s. distinct (map key s))"
proof (unfold_locales, goal_cases)
  case (3 r s k)
  then show ?case by (cases "k = key r") (auto simp: find_append split: option.split)
next
  case (4 s k P)
  then show ?case by (rule find_delete_where)
next
  case (7 s P)
  then show ?case by (simp add: delete_where_def distinct_map_filter)
qed (auto simp: row_simps find_None_all map_update_where_same)

end
