(* ===== verification/Py_Time.thy ===== *)
theory Py_Time
  imports Prelude
begin

text \<open>
  The part of Python's \<open>datetime\<close> module that the control plane uses. An instant is a number of
  microseconds since 0001-01-01T00:00:00 UTC; \<open>isoformat\<close> writes one the way
  \<open>datetime.isoformat\<close> writes an aware UTC datetime, \<open>fromisoformat\<close> reads the extended ISO 8601
  format (date, any separator, hours with optional minutes, seconds and fraction, optional
  \<open>Z\<close> or numeric offset). The basic format without hyphens and the week-date format, which
  Python also reads, are taken as errors here; the program writes neither.

  The database compares timestamps as text. The main result, \<open>isoformat_less_iff\<close>, is that for
  whole seconds the text order is the order in time.
\<close>

type_synonym instant = int
type_synonym iso = string

abbreviation usec_per_sec :: int where "usec_per_sec \<equiv> 1000000"
abbreviation usec_per_day :: int where "usec_per_day \<equiv> 86400000000"

definition seconds :: "int \<Rightarrow> int" where "seconds n = n * 1000000"
definition minutes :: "int \<Rightarrow> int" where "minutes n = n * 60000000"
definition days :: "int \<Rightarrow> int" where "days n = n * 86400000000"

section \<open>The proleptic Gregorian calendar\<close>

definition leap :: "int \<Rightarrow> bool" where
  "leap y \<longleftrightarrow> y mod 4 = 0 \<and> (y mod 100 \<noteq> 0 \<or> y mod 400 = 0)"

definition days_before_year :: "int \<Rightarrow> int" where
  "days_before_year y = (y - 1) * 365 + (y - 1) div 4 - (y - 1) div 100 + (y - 1) div 400"

definition days_in_month :: "bool \<Rightarrow> int \<Rightarrow> int" where
  "days_in_month lp m =
     (if m = 2 then (if lp then 29 else 28)
      else if m = 4 \<or> m = 6 \<or> m = 9 \<or> m = 11 then 30 else 31)"

definition days_before_month :: "bool \<Rightarrow> int \<Rightarrow> int" where
  "days_before_month lp m =
     (let k = (if lp then 1 else 0) in
      if m \<le> 1 then 0 else if m = 2 then 31 else if m = 3 then 59 + k else if m = 4 then 90 + k
      else if m = 5 then 120 + k else if m = 6 then 151 + k else if m = 7 then 181 + k
      else if m = 8 then 212 + k else if m = 9 then 243 + k else if m = 10 then 273 + k
      else if m = 11 then 304 + k else 334 + k)"

text \<open>Days since 0001-01-01, which is day 0.\<close>

definition day_number :: "int \<Rightarrow> int \<Rightarrow> int \<Rightarrow> int" where
  "day_number y m d = days_before_year y + days_before_month (leap y) m + (d - 1)"

definition valid_ymd :: "int \<Rightarrow> int \<Rightarrow> int \<Rightarrow> bool" where
  "valid_ymd y m d \<longleftrightarrow> 1 \<le> y \<and> 1 \<le> m \<and> m \<le> 12 \<and> 1 \<le> d \<and> d \<le> days_in_month (leap y) m"

definition month_day :: "bool \<Rightarrow> int \<Rightarrow> int \<times> int" where
  "month_day lp r =
     (let k = (if lp then 1 else 0) in
      if r < 31 then (1, r + 1) else if r < 59 + k then (2, r - 30)
      else if r < 90 + k then (3, r - 58 - k) else if r < 120 + k then (4, r - 89 - k)
      else if r < 151 + k then (5, r - 119 - k) else if r < 181 + k then (6, r - 150 - k)
      else if r < 212 + k then (7, r - 180 - k) else if r < 243 + k then (8, r - 211 - k)
      else if r < 273 + k then (9, r - 242 - k) else if r < 304 + k then (10, r - 272 - k)
      else if r < 334 + k then (11, r - 303 - k) else (12, r - 333 - k))"

text \<open>The year and the day of the year (from 0) of a day number: 400, 100, 4 and 1 year cycles.\<close>

definition year_day :: "int \<Rightarrow> int \<times> int" where
  "year_day n =
     (let q400 = n div 146097; r400 = n mod 146097;
          q100 = min 3 (r400 div 36524); r100 = r400 - q100 * 36524;
          q4 = r100 div 1461; r4 = r100 mod 1461;
          q1 = min 3 (r4 div 365); r1 = r4 - q1 * 365
      in (400 * q400 + 100 * q100 + 4 * q4 + q1 + 1, r1))"

definition civil :: "int \<Rightarrow> int \<times> int \<times> int" where
  "civil n = (let (y, r) = year_day n; (m, d) = month_day (leap y) r in (y, m, d))"

lemma min_div_rem:
  assumes "0 < k" and "0 \<le> r" and "r \<le> 4 * k" and "b = min 3 (r div k)"
  shows "0 \<le> b" and "b \<le> 3" and "0 \<le> r - b * k" and "r - b * k \<le> k"
    and "b < 3 \<longrightarrow> r - b * k < (k::int)"
proof -
  define q where "q = r div k"
  define s where "s = r mod k"
  have s: "0 \<le> s" "s < k" and r: "r = q * k + s" and q: "0 \<le> q"
    using assms(1,2) by (simp_all add: q_def s_def pos_imp_zdiv_nonneg_iff)
  show "0 \<le> b" and "b \<le> 3" using assms(4) q by (simp_all flip: q_def)
  show "0 \<le> r - b * k" and "r - b * k \<le> k" and "b < 3 \<longrightarrow> r - b * k < k"
  proof (atomize (full), cases "q \<le> 3")
    case True
    then have "b = q" using assms(4) by (simp flip: q_def)
    with r s show "0 \<le> r - b * k \<and> r - b * k \<le> k \<and> (b < 3 \<longrightarrow> r - b * k < k)" by simp
  next
    case False
    then have b: "b = 3" using assms(4) by (simp flip: q_def)
    have "3 * k \<le> q * k" using False assms(1) by (intro mult_right_mono) auto
    then have "0 \<le> r - 3 * k" and "r - 3 * k \<le> k" using r s assms(3) by linarith+
    with b show "0 \<le> r - b * k \<and> r - b * k \<le> k \<and> (b < 3 \<longrightarrow> r - b * k < k)" by simp
  qed
qed

lemma year_day_correct:
  assumes "0 \<le> n" and "year_day n = (y, r)"
  shows "1 \<le> y" and "0 \<le> r" and "r < 365 + (if leap y then 1 else 0)"
    and "days_before_year y + r = n"
proof -
  define a where "a = n div 146097"
  define r400 where "r400 = n mod 146097"
  define b where "b = min 3 (r400 div 36524)"
  define r100 where "r100 = r400 - b * 36524"
  define c where "c = r100 div 1461"
  define r4 where "r4 = r100 mod 1461"
  define d where "d = min 3 (r4 div 365)"
  have yd: "year_day n = (400 * a + 100 * b + 4 * c + d + 1, r4 - d * 365)"
    unfolding year_day_def Let_def a_def b_def c_def d_def r400_def r100_def r4_def by (rule refl)
  have y: "y = 400 * a + 100 * b + 4 * c + d + 1" and r: "r = r4 - d * 365"
    using assms(2) yd by simp_all
  have a0: "0 \<le> a" and n: "n = 146097 * a + r400" and r400: "0 \<le> r400" "r400 < 146097"
    using assms(1) by (simp_all add: a_def r400_def pos_imp_zdiv_nonneg_iff)
  note B = min_div_rem [of 36524 r400 b, OF _ r400(1) _ b_def, simplified]
  have b: "0 \<le> b" "b \<le> 3" and r100: "0 \<le> r100" "r100 \<le> 36524" "b < 3 \<longrightarrow> r100 < 36524"
    using B r400(2) by (simp_all add: r100_def)
  have c: "0 \<le> c" "c \<le> 24" and r100': "r100 = 1461 * c + r4" and r4: "0 \<le> r4" "r4 < 1461"
    using r100 by (auto simp: c_def r4_def pos_imp_zdiv_nonneg_iff)
  note D = min_div_rem [of 365 r4 d, OF _ r4(1) _ d_def, simplified]
  have d: "0 \<le> d" "d \<le> 3"
    and rb: "0 \<le> r4 - d * 365" "r4 - d * 365 \<le> 365" "d < 3 \<longrightarrow> r4 - d * 365 < 365"
    using D r4(2) by simp_all
  show "1 \<le> y" using y a0 b c d by simp
  show "0 \<le> r" using rb r by simp
  have Y: "y - 1 = 400 * a + 100 * b + 4 * c + d" using y by simp
  have d4: "(y - 1) div 4 = 100 * a + 25 * b + c"
    by (rule int_div_pos_eq [of _ _ _ d]) (use Y d in simp_all)
  have d100: "(y - 1) div 100 = 4 * a + b"
    by (rule int_div_pos_eq [of _ _ _ "4 * c + d"]) (use Y c d in simp_all)
  have d400: "(y - 1) div 400 = a"
    by (rule int_div_pos_eq [of _ _ _ "100 * b + 4 * c + d"]) (use Y b c d in simp_all)
  show "days_before_year y + r = n"
    unfolding days_before_year_def d4 d100 d400 using Y n r r100' r100_def by simp
  show "r < 365 + (if leap y then 1 else 0)"
  proof (cases "d = 3")
    case True
    have "leap y \<or> r < 365"
    proof (rule ccontr)
      assume "\<not> (leap y \<or> r < 365)"
      then have nl: "\<not> leap y" and "r4 = 1460" using rb r True r4 by auto
      have y4: "y = 4 * (100 * a + 25 * b + c + 1)" using y True by simp
      then have "y mod 4 = 0" by simp
      with nl have y100: "y mod 100 = 0" and y400: "y mod 400 \<noteq> 0" by (auto simp: leap_def)
      have "y mod 100 = (4 * c + 4) mod 100"
        using mod_mult_self1 [of "4 * c + 4" "4 * a + b" 100] y4 by (simp add: algebra_simps)
      with y100 c have c24: "c = 24" by (cases "c = 24") simp_all
      have "b \<noteq> 3"
      proof
        assume "b = 3"
        with c24 y4 have "y = 400 * (a + 1)" by simp
        with y400 show False by simp
      qed
      with c24 show False using r100 r100' \<open>r4 = 1460\<close> b by simp
    qed
    then show ?thesis using rb r by auto
  next
    case False
    then show ?thesis using rb r d by auto
  qed
qed

lemma month_day_correct:
  assumes "0 \<le> r" and "r < 365 + (if lp then 1 else 0)" and "month_day lp r = (m, d)"
  shows "1 \<le> m \<and> m \<le> 12 \<and> 1 \<le> d \<and> d \<le> days_in_month lp m \<and> days_before_month lp m + (d - 1) = r"
  using assms by (auto simp: month_day_def days_in_month_def days_before_month_def Let_def split: if_splits)

lemma civil_correct:
  assumes "0 \<le> n" and "civil n = (y, m, d)"
  shows "valid_ymd y m d" and "day_number y m d = n"
proof -
  obtain r where yd: "year_day n = (y, r)" and md: "month_day (leap y) r = (m, d)"
    using assms(2) by (auto simp: civil_def Let_def split: prod.splits)
  note Y = year_day_correct [OF assms(1) yd]
  note M = month_day_correct [OF Y(2,3) md]
  show "valid_ymd y m d" using Y(1) M by (simp add: valid_ymd_def)
  show "day_number y m d = n" using Y(4) M by (simp add: day_number_def)
qed

lemma div_step:
  assumes "0 < k"
  shows "y div k = (y - 1) div k + (if y mod k = 0 then 1 else (0::int))"
proof -
  define q where "q = (y - 1) div k"
  define r where "r = (y - 1) mod k"
  have r: "0 \<le> r" "r < k" and y: "y = k * q + (r + 1)"
    using assms by (simp_all add: q_def r_def algebra_simps)
  show ?thesis
  proof (cases "r + 1 = k")
    case True
    with y have "y = k * (q + 1)" by (simp add: algebra_simps)
    with assms have "y div k = q + 1" and "y mod k = 0" by simp_all
    then show ?thesis by (simp flip: q_def)
  next
    case False
    with r have "0 \<le> r + 1" "r + 1 < k" by auto
    with y have "y div k = q" and "y mod k = r + 1"
      using int_div_pos_eq [of y k q "r + 1"] int_mod_pos_eq [of y k q "r + 1"] by simp_all
    with r show ?thesis by (simp flip: q_def)
  qed
qed

lemma leap_count:
  "(q \<longrightarrow> p) \<Longrightarrow> (r \<longrightarrow> q) \<Longrightarrow>
   (if p then 1 else 0) - (if q then 1 else 0) + (if r then 1 else 0) = (if p \<and> (\<not> q \<or> r) then 1 else (0::int))"
  by (cases p; cases q; cases r) simp_all

lemma days_before_year_arith:
  "d1 = y * 365 + p - q + r \<Longrightarrow> d0 = (y - 1) * 365 + A - B + C \<Longrightarrow> p = A + i \<Longrightarrow> q = B + j \<Longrightarrow>
   r = C + k \<Longrightarrow> i - j + k = l \<Longrightarrow> d1 = d0 + 365 + (l::int)"
  by simp

lemma days_before_year_Suc: "days_before_year (y + 1) = days_before_year y + 365 + (if leap y then 1 else 0)"
proof (rule days_before_year_arith)
  show "days_before_year (y + 1) = y * 365 + y div 4 - y div 100 + y div 400"
    by (simp add: days_before_year_def)
  show "days_before_year y = (y - 1) * 365 + (y - 1) div 4 - (y - 1) div 100 + (y - 1) div 400"
    by (rule days_before_year_def)
  show "y div 4 = (y - 1) div 4 + (if y mod 4 = 0 then 1 else 0)"
    and "y div 100 = (y - 1) div 100 + (if y mod 100 = 0 then 1 else 0)"
    and "y div 400 = (y - 1) div 400 + (if y mod 400 = 0 then 1 else 0)"
    by (rule div_step, simp)+
  have "y mod 100 = 0 \<longrightarrow> y mod 4 = 0" "y mod 400 = 0 \<longrightarrow> y mod 100 = 0"
    unfolding mod_eq_0_iff_dvd by (auto intro: dvd_trans)
  from leap_count [OF this] show "(if y mod 4 = 0 then 1 else 0) - (if y mod 100 = 0 then 1 else 0) +
      (if y mod 400 = 0 then 1 else 0) = (if leap y then 1 else (0::int))"
    unfolding leap_def .
qed

lemma days_before_year_mono: "y \<le> y' \<Longrightarrow> days_before_year y \<le> days_before_year y'"
proof (induction y' rule: int_ge_induct)
  case (step i)
  then show ?case by (simp add: days_before_year_Suc split: if_splits)
qed simp

lemma month_cases:
  "1 \<le> m \<Longrightarrow> m \<le> 12 \<Longrightarrow> m = 1 \<or> m = 2 \<or> m = 3 \<or> m = 4 \<or> m = 5 \<or> m = 6 \<or>
     m = 7 \<or> m = 8 \<or> m = 9 \<or> m = 10 \<or> m = 11 \<or> m = (12::int)"
  by presburger

lemma valid_month: "valid_ymd y m d \<Longrightarrow> m \<in> {1, 2, 3, 4, 5, 6, 7, 8, 9, 10, 11, 12}"
  by (simp only: valid_ymd_def insert_iff empty_iff simp_thms) (elim conjE, drule (1) month_cases, simp)

lemma day_of_year_bounds:
  assumes "valid_ymd y m d"
  shows "0 \<le> days_before_month (leap y) m + (d - 1)"
    and "days_before_month (leap y) m + (d - 1) < 365 + (if leap y then 1 else 0)"
proof -
  have m: "m \<in> {1, 2, 3, 4, 5, 6, 7, 8, 9, 10, 11, 12}" using assms by (rule valid_month)
  show "0 \<le> days_before_month (leap y) m + (d - 1)"
    using m assms by (elim insertE) (simp_all add: valid_ymd_def days_before_month_def)
  show "days_before_month (leap y) m + (d - 1) < 365 + (if leap y then 1 else 0)"
    using m assms by (elim insertE; cases "leap y") (simp_all add: valid_ymd_def days_before_month_def days_in_month_def)
qed

lemma days_before_month_Suc:
  "1 \<le> m \<Longrightarrow> m \<le> 11 \<Longrightarrow> days_before_month lp (m + 1) = days_before_month lp m + days_in_month lp m"
  by (drule month_cases, simp, elim disjE) (simp_all add: days_before_month_def days_in_month_def)

lemma days_in_month_pos: "1 \<le> days_in_month lp m"
  by (simp add: days_in_month_def)

lemma days_before_month_mono:
  "1 \<le> m \<Longrightarrow> m + 1 \<le> m' \<Longrightarrow> m' \<le> 12 \<Longrightarrow>
   days_before_month lp m + days_in_month lp m \<le> days_before_month lp m'"
proof (rotate_tac 1, induction m' rule: int_ge_induct)
  case base
  then show ?case by (simp add: days_before_month_Suc)
next
  case (step i)
  then show ?case using days_before_month_Suc [of i lp] days_in_month_pos [of lp i] by simp
qed

lemma day_number_month_mono:
  assumes "valid_ymd y m d" and "valid_ymd y m' d'" and "m < m'"
  shows "day_number y m d < day_number y m' d'"
  using assms days_before_month_mono [of m m' "leap y"] by (simp add: day_number_def valid_ymd_def)

lemma day_number_strict_mono:
  assumes "valid_ymd y m d" and "valid_ymd y' m' d'"
    and "y < y' \<or> y = y' \<and> (m < m' \<or> m = m' \<and> d < d')"
  shows "day_number y m d < day_number y' m' d'"
proof (cases "y < y'")
  case True
  then have "days_before_year (y + 1) \<le> days_before_year y'" by (intro days_before_year_mono) simp
  then show ?thesis
    using day_of_year_bounds [OF assms(1)] day_of_year_bounds(1) [OF assms(2)]
    by (simp add: day_number_def days_before_year_Suc)
next
  case False
  then show ?thesis using assms day_number_month_mono by (auto simp: day_number_def)
qed

lemma civil_less_iff:
  assumes "0 \<le> n" and "0 \<le> n'" and "civil n = (y, m, d)" and "civil n' = (y', m', d')"
  shows "n < n' \<longleftrightarrow> (y < y' \<or> y = y' \<and> (m < m' \<or> m = m' \<and> d < d'))"
proof -
  note v = civil_correct(1) [OF assms(1,3)] civil_correct(1) [OF assms(2,4)]
  note e = civil_correct(2) [OF assms(1,3)] civil_correct(2) [OF assms(2,4)]
  show ?thesis
    using day_number_strict_mono [OF v] day_number_strict_mono [OF v(2) v(1)] e
    by (metis less_linear not_less_iff_gr_or_eq)
qed

section \<open>Decimal fields\<close>

definition digit :: "nat \<Rightarrow> char" where
  "digit n = char_of (48 + n)"

text \<open>The \<open>k\<close> low decimal digits, zero padded: Python's format \<open>%0kd\<close>.\<close>

fun pad :: "nat \<Rightarrow> nat \<Rightarrow> string" where
  "pad 0 n = []"
| "pad (Suc k) n = pad k (n div 10) @ [digit (n mod 10)]"

definition digit_val :: "char \<Rightarrow> nat option" where
  "digit_val c = (let n = of_char c in if 48 \<le> n \<and> n \<le> 57 then Some (n - 48) else None)"

fun parse_digits :: "nat \<Rightarrow> nat \<Rightarrow> string \<Rightarrow> (nat \<times> string) option" where
  "parse_digits 0 acc s = Some (acc, s)"
| "parse_digits (Suc k) acc [] = None"
| "parse_digits (Suc k) acc (c # s) =
     (case digit_val c of None \<Rightarrow> None | Some d \<Rightarrow> parse_digits k (acc * 10 + d) s)"

lemma of_char_digit: "n < 10 \<Longrightarrow> of_char (digit n) = 48 + n"
  by (simp add: digit_def)

lemma digit_val_digit [simp]: "n < 10 \<Longrightarrow> digit_val (digit n) = Some n"
  by (simp add: digit_val_def of_char_digit)

lemma digit_less: "m < 10 \<Longrightarrow> n < 10 \<Longrightarrow> digit m < digit n \<longleftrightarrow> m < n"
  by (simp add: less_char_def of_char_digit)

lemma digit_inj: "m < 10 \<Longrightarrow> n < 10 \<Longrightarrow> digit m = digit n \<longleftrightarrow> m = n"
  by (metis digit_val_digit option.inject)

lemma length_pad [simp]: "length (pad k n) = k"
  by (induction k arbitrary: n) auto

lemma append_less_iff:
  fixes xs ys :: "'a::linorder list"
  shows "length xs = length ys \<Longrightarrow> xs @ us < ys @ vs \<longleftrightarrow> xs < ys \<or> xs = ys \<and> us < vs"
  by (induction xs ys rule: list_induct2) auto

lemma pad_inj: "m < 10 ^ k \<Longrightarrow> n < 10 ^ k \<Longrightarrow> pad k m = pad k n \<longleftrightarrow> m = n"
proof (induction k arbitrary: m n)
  case (Suc k)
  have "m div 10 < 10 ^ k" "n div 10 < 10 ^ k" using Suc.prems by (simp_all add: less_mult_imp_div_less)
  then have "pad (Suc k) m = pad (Suc k) n \<longleftrightarrow> m div 10 = n div 10 \<and> m mod 10 = n mod 10"
    using Suc.IH by (simp add: digit_inj)
  also have "\<dots> \<longleftrightarrow> m = n" by (metis div_mult_mod_eq)
  finally show ?case .
qed simp

lemma lex_ten: "b < 10 \<Longrightarrow> d < 10 \<Longrightarrow> 10 * a + b < 10 * c + d \<longleftrightarrow> a < c \<or> a = c \<and> b < (d::nat)"
  by (cases a c rule: linorder_cases) simp_all

lemma pad_less: "m < 10 ^ k \<Longrightarrow> n < 10 ^ k \<Longrightarrow> pad k m < pad k n \<longleftrightarrow> m < n"
proof (induction k arbitrary: m n)
  case (Suc k)
  have b: "m div 10 < 10 ^ k" "n div 10 < 10 ^ k" using Suc.prems by (simp_all add: less_mult_imp_div_less)
  have "pad (Suc k) m < pad (Suc k) n \<longleftrightarrow>
      m div 10 < n div 10 \<or> m div 10 = n div 10 \<and> m mod 10 < n mod 10"
    using b Suc.IH by (simp add: append_less_iff pad_inj digit_less)
  also have "\<dots> \<longleftrightarrow> m < n"
    using lex_ten [of "m mod 10" "n mod 10" "m div 10" "n div 10"] by simp
  finally show ?case .
qed simp

lemma parse_digits_snoc:
  "parse_digits k acc s = Some (v, c # r) \<Longrightarrow> digit_val c = Some d \<Longrightarrow>
   parse_digits (Suc k) acc s = Some (v * 10 + d, r)"
proof (induction k acc s rule: parse_digits.induct)
  case (3 k acc c' s)
  then show ?case by (simp split: option.splits)
qed simp_all

lemma parse_pad: "n < 10 ^ k \<Longrightarrow> parse_digits k 0 (pad k n @ s) = Some (n, s)"
proof (induction k arbitrary: n s)
  case (Suc k)
  have "n div 10 < 10 ^ k" using Suc.prems by (simp add: less_mult_imp_div_less)
  from Suc.IH [OF this, of "digit (n mod 10) # s"]
  have "parse_digits (Suc k) 0 (pad k (n div 10) @ digit (n mod 10) # s) =
      Some (n div 10 * 10 + n mod 10, s)"
    by (rule parse_digits_snoc) simp
  then show ?case by simp
qed simp

section \<open>Writing timestamps\<close>

definition date_str :: "int \<times> int \<times> int \<Rightarrow> string" where
  "date_str ymd = (case ymd of (y, m, d) \<Rightarrow>
     pad 4 (nat y) @ ''-'' @ pad 2 (nat m) @ ''-'' @ pad 2 (nat d))"

definition clock_str :: "int \<Rightarrow> string" where
  "clock_str s = pad 2 (nat (s div 3600)) @ '':'' @ pad 2 (nat (s div 60 mod 60)) @ '':'' @ pad 2 (nat (s mod 60))"

text \<open>\<open>isoformat()\<close> of an aware UTC datetime: the fraction is left out when it is zero.\<close>

definition isoformat :: "instant \<Rightarrow> iso" where
  "isoformat t =
     (let us = t mod 86400000000 in
      date_str (civil (t div 86400000000)) @ ''T'' @ clock_str (us div 1000000) @
      (if us mod 1000000 = 0 then [] else ''.'' @ pad 6 (nat (us mod 1000000))) @ ''+00:00'')"

text \<open>\<open>t.replace(microsecond=0)\<close>\<close>

definition floor_sec :: "instant \<Rightarrow> instant" where
  "floor_sec t = t - t mod 1000000"

text \<open>\<open>utc_now_iso()\<close> of \<open>app/db.py\<close>, at the time \<open>now\<close>.\<close>

definition utc_now_iso :: "instant \<Rightarrow> iso" where
  "utc_now_iso now = isoformat (floor_sec now)"

text \<open>The instants Python can represent: years 1 to 9999.\<close>

definition in_range :: "instant \<Rightarrow> bool" where
  "in_range t \<longleftrightarrow> 0 \<le> t \<and> t < 315537897600000000"

definition whole_sec :: "instant \<Rightarrow> bool" where
  "whole_sec t \<longleftrightarrow> t mod 1000000 = 0"

lemma whole_sec_floor_sec [simp]: "whole_sec (floor_sec t)"
  by (simp add: whole_sec_def floor_sec_def)

lemma floor_sec_le: "floor_sec t \<le> t"
  by (simp add: floor_sec_def)

lemma in_range_floor_sec [simp]: "in_range t \<Longrightarrow> in_range (floor_sec t)"
  using floor_sec_le [of t]
  by (auto simp: in_range_def floor_sec_def minus_mod_eq_mult_div pos_imp_zdiv_nonneg_iff)

lemma floor_sec_mono: "s \<le> t \<Longrightarrow> floor_sec s \<le> floor_sec t"
  by (simp add: floor_sec_def minus_mod_eq_mult_div zdiv_mono1)

section \<open>Reading timestamps\<close>

fun expect :: "char \<Rightarrow> string \<Rightarrow> string option" where
  "expect c [] = None"
| "expect c (x # s) = (if x = c then Some s else None)"

definition parse_date :: "string \<Rightarrow> (int \<times> string) option" where
  "parse_date s =
     Option.bind (parse_digits 4 0 s) (\<lambda>(y, s). Option.bind (expect CHR ''-'' s) (\<lambda>s.
     Option.bind (parse_digits 2 0 s) (\<lambda>(m, s). Option.bind (expect CHR ''-'' s) (\<lambda>s.
     Option.bind (parse_digits 2 0 s) (\<lambda>(d, s).
       if valid_ymd (int y) (int m) (int d) then Some (day_number (int y) (int m) (int d), s) else None)))))"

fun span_digits :: "string \<Rightarrow> nat list \<times> string" where
  "span_digits [] = ([], [])"
| "span_digits (c # s) = (case digit_val c of None \<Rightarrow> ([], c # s)
     | Some d \<Rightarrow> (let (ds, r) = span_digits s in (d # ds, r)))"

text \<open>A fraction of a second: digits after the sixth are dropped.\<close>

definition parse_fraction :: "string \<Rightarrow> (int \<times> string) option" where
  "parse_fraction s = (case s of
       c # s' \<Rightarrow> if c = CHR ''.'' \<or> c = CHR '','' then
           (case span_digits s' of
              ([], _) \<Rightarrow> None
            | (ds, r) \<Rightarrow> Some (int (foldl (\<lambda>a d. a * 10 + d) 0 (take 6 (ds @ replicate 6 0))), r))
         else Some (0, s)
     | [] \<Rightarrow> Some (0, s))"

text \<open>\<open>HH[:MM[:SS[.ffffff]]]\<close>, in microseconds.\<close>

definition parse_clock :: "string \<Rightarrow> (int \<times> string) option" where
  "parse_clock s =
     Option.bind (parse_digits 2 0 s) (\<lambda>(h, s). if 23 < h then None else
     case expect CHR '':'' s of None \<Rightarrow> Some (int h * 3600000000, s) | Some s \<Rightarrow>
     Option.bind (parse_digits 2 0 s) (\<lambda>(mi, s). if 59 < mi then None else
     case expect CHR '':'' s of None \<Rightarrow> Some (int h * 3600000000 + int mi * 60000000, s) | Some s \<Rightarrow>
     Option.bind (parse_digits 2 0 s) (\<lambda>(sec, s). if 59 < sec then None else
     Option.bind (parse_fraction s) (\<lambda>(us, s).
       Some (int h * 3600000000 + int mi * 60000000 + int sec * 1000000 + us, s)))))"

text \<open>The offset from UTC at the end of the text; \<open>Some None\<close> for a naive datetime.\<close>

definition parse_offset :: "string \<Rightarrow> int option option" where
  "parse_offset s = (case s of [] \<Rightarrow> Some None
     | c # s' \<Rightarrow>
       if c = CHR ''Z'' then (if s' = [] then Some (Some 0) else None)
       else if c = CHR ''+'' \<or> c = CHR ''-'' then
         (case parse_clock s' of
            Some (us, []) \<Rightarrow> Some (Some (if c = CHR ''+'' then us else - us))
          | _ \<Rightarrow> None)
       else None)"

text \<open>
  \<open>datetime.fromisoformat\<close>: the local time as an instant and the offset, None for ValueError.
\<close>

definition fromisoformat :: "string \<Rightarrow> (instant \<times> int option) option" where
  "fromisoformat s =
     Option.bind (parse_date s) (\<lambda>(day, s).
     case s of [] \<Rightarrow> Some (day * 86400000000, None) | sep # s \<Rightarrow>
     Option.bind (parse_clock s) (\<lambda>(us, s).
     Option.bind (parse_offset s) (\<lambda>off. Some (day * 86400000000 + us, off))))"

text \<open>
  A parsed value with \<open>if tzinfo is None: replace(tzinfo=UTC)\<close> and \<open>astimezone(UTC)\<close>: the instant.
\<close>

definition to_utc :: "instant \<times> int option \<Rightarrow> instant" where
  "to_utc p = (case p of (t, None) \<Rightarrow> t | (t, Some off) \<Rightarrow> t - off)"

definition parse_utc :: "string \<Rightarrow> instant option" where
  "parse_utc s = map_option to_utc (fromisoformat s)"

text \<open>\<open>raw.replace("Z", "+00:00")\<close>\<close>

definition replace_Z :: "string \<Rightarrow> string" where
  "replace_Z s = concat (map (\<lambda>c. if c = CHR ''Z'' then ''+00:00'' else [c]) s)"

section \<open>Text order is order in time\<close>

lemma civil_bounds:
  assumes "0 \<le> n" and "n < 3652059" and "civil n = (y, m, d)"
  shows "1 \<le> y" "y < 10000" "1 \<le> m" "m < 100" "1 \<le> d" "d < 100"
proof -
  note C = civil_correct [OF assms(1,3)]
  show "1 \<le> y" "1 \<le> m" "m < 100" "1 \<le> d" using C(1) by (simp_all add: valid_ymd_def)
  have "days_in_month (leap y) m \<le> 31" by (simp add: days_in_month_def)
  then show "d < 100" using C(1) by (simp add: valid_ymd_def)
  show "y < 10000"
  proof (rule ccontr)
    assume "\<not> y < 10000"
    then have "days_before_year 10000 \<le> days_before_year y" by (intro days_before_year_mono) simp
    moreover have "days_before_year 10000 = 3652059" by (simp add: days_before_year_def)
    ultimately show False
      using C day_of_year_bounds(1) [OF C(1)] assms(2) by (simp add: day_number_def)
  qed
qed

lemma date_str_less:
  assumes "0 \<le> n" "n < 3652059" "0 \<le> n'" "n' < 3652059"
  shows "date_str (civil n) < date_str (civil n') \<longleftrightarrow> n < n'"
    and "date_str (civil n) = date_str (civil n') \<longleftrightarrow> n = n'"
proof -
  obtain y m d where c: "civil n = (y, m, d)" by (cases "civil n") auto
  obtain y' m' d' where c': "civil n' = (y', m', d')" by (cases "civil n'") auto
  note b = civil_bounds [OF assms(1,2) c] and b' = civil_bounds [OF assms(3,4) c']
  show less: "date_str (civil n) < date_str (civil n') \<longleftrightarrow> n < n'"
    unfolding civil_less_iff [OF assms(1,3) c c'] c c' date_str_def
    using b b' by (simp add: append_less_iff pad_less pad_inj nat_less_eq_zless eq_nat_nat_iff del: zless_nat_conj)
  have "date_str (civil n) = date_str (civil n') \<longleftrightarrow> y = y' \<and> m = m' \<and> d = d'"
    unfolding c c' date_str_def using b b' by (simp add: pad_inj eq_nat_nat_iff)
  also have "\<dots> \<longleftrightarrow> n = n'"
    using civil_correct(2) [OF assms(1) c] civil_correct(2) [OF assms(3) c'] c c' by (metis prod.inject)
  finally show "date_str (civil n) = date_str (civil n') \<longleftrightarrow> n = n'" .
qed

lemma split_arith: "q = r \<Longrightarrow> x = 60 * p + c \<Longrightarrow> p = 60 * r + b \<Longrightarrow> x = 3600 * q + 60 * b + (c::int)"
  by simp

lemma div_less_mult:
  assumes "0 < k" and "x < n * k"
  shows "x div k < (n::int)"
proof (rule ccontr)
  assume "\<not> x div k < n"
  then have "n * k \<le> (x div k) * k" using assms(1) by (simp add: mult_right_mono)
  moreover have "(x div k) * k \<le> x"
    using div_mult_mod_eq [of x k] pos_mod_sign [OF assms(1), of x] by linarith
  ultimately show False using assms(2) by simp
qed

lemma clock_less:
  assumes "0 \<le> s" "s < 86400" "0 \<le> s'" "s' < 86400"
  shows "clock_str s < clock_str s' \<longleftrightarrow> s < s'"
proof -
  have h: "0 \<le> s div 3600" "s div 3600 < 100" "0 \<le> s' div 3600" "s' div 3600 < 100"
    using assms by (simp_all add: pos_imp_zdiv_nonneg_iff div_less_mult)
  have mi: "0 \<le> x div 60 mod 60" "x div 60 mod 60 < 100" for x :: int
    using pos_mod_bound [of 60 "x div 60"] by simp_all
  have sec: "0 \<le> x mod 60" "x mod 60 < 100" for x :: int
    using pos_mod_bound [of 60 x] by simp_all
  have split: "x = 3600 * (x div 3600) + 60 * (x div 60 mod 60) + x mod 60" for x :: int
    by (rule split_arith [of _ "x div 60 div 60" _ "x div 60"])
      (use zdiv_zmult2_eq [of 60 x 60] in simp, (rule mult_div_mod_eq [symmetric])+)
  have lt60: "x div 60 mod 60 < 60" "x mod 60 < 60" for x :: int by simp_all
  have lex: "s < s' \<longleftrightarrow> s div 3600 < s' div 3600 \<or> s div 3600 = s' div 3600 \<and>
      (s div 60 mod 60 < s' div 60 mod 60 \<or> s div 60 mod 60 = s' div 60 mod 60 \<and> s mod 60 < s' mod 60)"
    (is "_ \<longleftrightarrow> ?r")
  proof -
    have arith: "3600 * a + 60 * b + c < 3600 * a' + 60 * b' + c' \<longleftrightarrow>
        a < a' \<or> a = a' \<and> (b < b' \<or> b = b' \<and> c < c')"
      if "0 \<le> b" "b < 60" "0 \<le> c" "c < 60" "0 \<le> b'" "b' < 60" "0 \<le> c'" "c' < 60" for a b c a' b' c' :: int
      using that by (cases a a' rule: linorder_cases; cases b b' rule: linorder_cases) simp_all
    have "s < s' \<longleftrightarrow> 3600 * (s div 3600) + 60 * (s div 60 mod 60) + s mod 60 <
        3600 * (s' div 3600) + 60 * (s' div 60 mod 60) + s' mod 60"
      by (rule arg_cong2 [OF split [of s] split [of s'], of "(<)"])
    also have "\<dots> \<longleftrightarrow> ?r" by (rule arith) simp_all
    finally show ?thesis .
  qed
  show ?thesis
    unfolding lex clock_str_def
    using h mi sec by (simp add: append_less_iff pad_less pad_inj nat_less_eq_zless eq_nat_nat_iff del: zless_nat_conj)
qed

lemma isoformat_whole:
  assumes "whole_sec t"
  shows "isoformat t = date_str (civil (t div 86400000000)) @ ''T'' @
    clock_str (t mod 86400000000 div 1000000) @ ''+00:00''"
proof -
  have "t mod 86400000000 mod 1000000 = t mod 1000000" by (rule mod_mod_cancel) simp
  then show ?thesis using assms by (simp add: isoformat_def whole_sec_def Let_def)
qed

lemma day_part_bounds:
  assumes "in_range t"
  shows "0 \<le> t div 86400000000" "t div 86400000000 < 3652059"
    "0 \<le> t mod 86400000000 div 1000000" "t mod 86400000000 div 1000000 < 86400"
  using assms by (simp_all add: in_range_def pos_imp_zdiv_nonneg_iff div_less_mult)

lemma whole_sec_split:
  assumes "whole_sec t"
  shows "t = 86400000000 * (t div 86400000000) + 1000000 * (t mod 86400000000 div 1000000)"
proof -
  have "t mod 86400000000 mod 1000000 = t mod 1000000" by (rule mod_mod_cancel) simp
  then have "t mod 86400000000 = 1000000 * (t mod 86400000000 div 1000000)"
    using assms mult_div_mod_eq [of 1000000 "t mod 86400000000"] by (simp add: whole_sec_def)
  then show ?thesis using mult_div_mod_eq [of 86400000000 t] by simp
qed

lemma isoformat_less_iff:
  assumes "in_range s" "in_range t" "whole_sec s" "whole_sec t"
  shows "isoformat s < isoformat t \<longleftrightarrow> s < t"
proof -
  define a b where "a = s div 86400000000" and "b = s mod 86400000000 div 1000000"
  define c d where "c = t div 86400000000" and "d = t mod 86400000000 div 1000000"
  note B = day_part_bounds [OF assms(1), folded a_def b_def] day_part_bounds [OF assms(2), folded c_def d_def]
  have "s < t \<longleftrightarrow> 86400000000 * a + 1000000 * b < 86400000000 * c + 1000000 * d"
    using whole_sec_split [OF assms(3)] whole_sec_split [OF assms(4)] by (simp add: a_def b_def c_def d_def)
  also have "\<dots> \<longleftrightarrow> a < c \<or> a = c \<and> b < d"
    using B by (cases a c rule: linorder_cases) simp_all
  also have "\<dots> \<longleftrightarrow> isoformat s < isoformat t"
  proof -
    have len: "length (date_str x) = length (date_str y)" "length (clock_str u) = length (clock_str v)" for x y u v
      by (auto simp: date_str_def clock_str_def split: prod.splits)
    show ?thesis
      unfolding isoformat_whole [OF assms(3)] isoformat_whole [OF assms(4)]
      using B by (simp add: append_less_iff [OF len(1)] append_less_iff [OF len(2)] date_str_less clock_less
          flip: a_def b_def c_def d_def)
  qed
  finally show ?thesis by simp
qed

lemma isoformat_inj:
  assumes "in_range s" "in_range t" "whole_sec s" "whole_sec t"
  shows "isoformat s = isoformat t \<longleftrightarrow> s = t"
  using isoformat_less_iff [OF assms] isoformat_less_iff [OF assms(2,1,4,3)]
  by (metis less_irrefl linorder_less_linear)

section \<open>Reading back what was written\<close>

lemma parse_date_civil:
  assumes "0 \<le> n" "n < 3652059"
  shows "parse_date (date_str (civil n) @ s) = Some (n, s)"
proof -
  obtain y m d where c: "civil n = (y, m, d)" by (cases "civil n") auto
  note b = civil_bounds [OF assms c]
  have "nat y < 10 ^ 4" "nat m < 10 ^ 2" "nat d < 10 ^ 2" using b by simp_all
  then show ?thesis
    using civil_correct [OF assms(1) c] b
    by (simp add: parse_date_def c date_str_def parse_pad del: pad.simps parse_digits.simps)
qed

lemma parse_clock_str:
  assumes "0 \<le> s" "s < 86400"
  shows "parse_clock (clock_str s @ ''+00:00'') = Some (s * 1000000, ''+00:00'')"
proof -
  define h mi sec where "h = s div 3600" and "mi = s div 60 mod 60" and "sec = s mod 60"
  have h: "0 \<le> h" "h < 24" using assms by (simp_all add: h_def pos_imp_zdiv_nonneg_iff div_less_mult)
  have mi: "0 \<le> mi" "mi < 60" and sec: "0 \<le> sec" "sec < 60" by (simp_all add: mi_def sec_def)
  have s: "s = 3600 * h + 60 * mi + sec"
    unfolding h_def mi_def sec_def
    by (rule split_arith [of _ "s div 60 div 60" _ "s div 60"])
      (use zdiv_zmult2_eq [of 60 s 60] in simp, (rule mult_div_mod_eq [symmetric])+)
  have n: "nat h < 10 ^ 2" "nat mi < 10 ^ 2" "nat sec < 10 ^ 2" using h mi sec by simp_all
  have le: "nat h \<le> 23" "nat mi \<le> 59" "nat sec \<le> 59" using h mi sec by simp_all
  have "clock_str s = pad 2 (nat h) @ '':'' @ pad 2 (nat mi) @ '':'' @ pad 2 (nat sec)"
    by (simp add: clock_str_def h_def mi_def sec_def)
  then show ?thesis
    using h mi sec s le by (simp add: not_less parse_clock_def parse_fraction_def parse_pad [OF n(1)]
      parse_pad [OF n(2)] parse_pad [OF n(3)] del: pad.simps parse_digits.simps)
qed

lemma parse_offset_utc: "parse_offset ''+00:00'' = Some (Some 0)"
  by (simp add: parse_offset_def parse_clock_def digit_val_def numeral_2_eq_2)

lemma fromisoformat_isoformat:
  assumes "in_range t" and "whole_sec t"
  shows "fromisoformat (isoformat t) = Some (t, Some 0)"
proof -
  note B = day_part_bounds [OF assms(1)]
  show ?thesis
    using whole_sec_split [OF assms(2)]
    by (simp add: isoformat_whole [OF assms(2)] fromisoformat_def parse_date_civil [OF B(1,2)]
        parse_clock_str [OF B(3,4)] parse_offset_utc)
qed

lemma parse_utc_isoformat: "in_range t \<Longrightarrow> whole_sec t \<Longrightarrow> parse_utc (isoformat t) = Some t"
  by (simp add: parse_utc_def fromisoformat_isoformat to_utc_def)

lemma utc_now_iso_parses: "in_range now \<Longrightarrow> parse_utc (utc_now_iso now) = Some (floor_sec now)"
  by (simp add: utc_now_iso_def parse_utc_isoformat)

lemma utc_now_iso_less_iff:
  "in_range s \<Longrightarrow> in_range t \<Longrightarrow> utc_now_iso s < utc_now_iso t \<longleftrightarrow> floor_sec s < floor_sec t"
  by (simp add: utc_now_iso_def isoformat_less_iff)

lemma isoformat_not_Nil [simp]: "isoformat t \<noteq> []"
  by (simp add: isoformat_def Let_def)

lemma utc_now_iso_not_Nil [simp]: "utc_now_iso t \<noteq> []"
  by (simp add: utc_now_iso_def)

lemma iso_example: "isoformat 63902822400000000 = ''2026-01-01T00:00:00+00:00''"
  by code_simp

end
