(* ===== verification/Config.thy ===== *)
theory Config
  imports Complex_Main Py_Time
begin

text \<open>
  JSON values, text and byte strings, the settings of the control plane (\<open>app/config.py\<close>) and the
  observations that the code hands to its metrics (\<open>app/metrics.py\<close>).

  A Python float of a JSON document is kept as its value and its \<open>repr\<close>. Identifiers, names and
  timestamps are \<open>string\<close> (one character per byte; the program's own are ASCII); the text of a task
  log, where code points and UTF-8 bytes must be told apart, is a list of code points. A column
  written with \<open>dumps_json\<close> and read with \<open>json.loads\<close> is kept as the JSON value.
\<close>

section \<open>Values\<close>

datatype json =
  JNull | JBool bool | JInt int | JFloat rat string | JStr string
| JList "json list" | JObj "(string \<times> json) list"

type_synonym dict = "(string \<times> json) list"
type_synonym utext = "nat list"

definition dict_get :: "dict \<Rightarrow> string \<Rightarrow> json option" where
  "dict_get d k = map_of d k"

text \<open>\<open>bool(v)\<close> of a JSON value.\<close>

fun json_truth :: "json \<Rightarrow> bool" where
  "json_truth JNull = False"
| "json_truth (JBool b) = b"
| "json_truth (JInt i) = (i \<noteq> 0)"
| "json_truth (JFloat v _) = (v \<noteq> 0)"
| "json_truth (JStr s) = (s \<noteq> [])"
| "json_truth (JList xs) = (xs \<noteq> [])"
| "json_truth (JObj d) = (d \<noteq> [])"

fun opt_json :: "('a \<Rightarrow> json) \<Rightarrow> 'a option \<Rightarrow> json" where
  "opt_json f None = JNull"
| "opt_json f (Some a) = f a"

section \<open>Decimal text of integers\<close>

fun nat_digits :: "nat \<Rightarrow> string" where
  "nat_digits n = (if n < 10 then [digit n] else nat_digits (n div 10) @ [digit (n mod 10)])"

declare nat_digits.simps [simp del]

definition int_str :: "int \<Rightarrow> string" where
  "int_str i = (if i < 0 then ''-'' @ nat_digits (nat (- i)) else nat_digits (nat i))"

lemma nat_digits_less_10 [simp]: "n < 10 \<Longrightarrow> nat_digits n = [digit n]"
  by (subst nat_digits.simps) simp

lemma nat_digits_not_Nil [simp]: "nat_digits n \<noteq> []"
  by (subst nat_digits.simps) simp

section \<open>Settings\<close>

record settings =
  environment :: string
  storage_path :: string
  jwt_secret :: string
  access_token_expire_minutes :: int
  refresh_token_expire_minutes :: int
  node_key_encryption_secret :: string
  node_key_v1_fallback_enabled :: bool
  default_admin_username :: string
  default_admin_password :: string
  node_allowed_clock_skew_sec :: int
  nonce_ttl_sec :: int
  max_status_history_per_node :: int
  max_artifact_bytes :: int
  snapshot_retention_days :: int
  task_log_retention_days :: int
  artifact_retention_days :: int
  task_log_stream_max_bytes :: int
  storage_quota_bytes :: int
  review_llm_api_key :: string
  review_llm_model :: string
  public_base_url :: string
  instance_name :: string
  webhook_url :: string
  webhook_secret :: string
  webhook_events :: "string list"
  webhook_timeout_sec :: int
  metrics_token :: "string option"

definition sentinel :: string where
  "sentinel = ''__NOT_SET__''"

definition default_settings :: settings where
  "default_settings = \<lparr>
     environment = ''development'',
     storage_path = ''data/storage'',
     jwt_secret = sentinel,
     access_token_expire_minutes = 60,
     refresh_token_expire_minutes = 60 * 24 * 7,
     node_key_encryption_secret = sentinel,
     node_key_v1_fallback_enabled = True,
     default_admin_username = ''admin'',
     default_admin_password = sentinel,
     node_allowed_clock_skew_sec = 300,
     nonce_ttl_sec = 120,
     max_status_history_per_node = 200,
     max_artifact_bytes = 500 * 1024 * 1024,
     snapshot_retention_days = 7,
     task_log_retention_days = 30,
     artifact_retention_days = 30,
     task_log_stream_max_bytes = 100 * 1024 * 1024,
     storage_quota_bytes = 5 * 1024 * 1024 * 1024,
     review_llm_api_key = [],
     review_llm_model = ''gpt-5.4'',
     public_base_url = [],
     instance_name = ''gpufleet-dev'',
     webhook_url = [],
     webhook_secret = [],
     webhook_events = [''task.failed'', ''task.lost'', ''storage.quota_exceeded''],
     webhook_timeout_sec = 5,
     metrics_token = None \<rparr>"

text \<open>
  \<open>get_settings\<close>: the required secrets that are still the sentinel. The process exits with status
  1 when there is one.
\<close>

definition missing_settings :: "settings \<Rightarrow> string list" where
  "missing_settings s =
     (if jwt_secret s = sentinel then [''GPUFLEET_JWT_SECRET''] else []) @
     (if default_admin_password s = sentinel then [''GPUFLEET_DEFAULT_ADMIN_PASSWORD''] else []) @
     (if node_key_encryption_secret s = sentinel then [''GPUFLEET_NODE_KEY_ENCRYPTION_SECRET''] else [])"

definition get_settings :: "settings \<Rightarrow> string list + settings" where
  "get_settings s = (if missing_settings s \<noteq> [] then Inl (missing_settings s) else Inr s)"

lemma get_settings_ok:
  "get_settings s = Inr s' \<longleftrightarrow> s' = s \<and> jwt_secret s \<noteq> sentinel \<and>
     default_admin_password s \<noteq> sentinel \<and> node_key_encryption_secret s \<noteq> sentinel"
  by (auto simp: get_settings_def missing_settings_def)

section \<open>Metrics\<close>

text \<open>
  One constructor per metric that the modelled code feeds; the argument list is the label values
  and the observed value. Durations are in microseconds.
\<close>

datatype metric =
  TASK_CLAIM_LATENCY int
| TASK_COMPLETED string
| TASK_DURATION string int
| TASK_CREATED string
| REVIEW_DECISION string string
| NODE_HEARTBEAT string string
| NODE_KEY_FALLBACK string
| ARTIFACT_UPLOAD string
| ARTIFACT_UPLOAD_BYTES int
| WEBHOOK_SEND string string
| BACKGROUND_JOB_ERROR string
| NODES_TOTAL string nat
| TASKS_BY_STATUS string nat
| REVIEW_PENDING nat
| NODE_ONLINE_SECONDS string int
| STORAGE_BYTES string nat

text \<open>The status counts as the gauges are refreshed (\<open>counts.get(status, 0)\<close>).\<close>

definition count_of :: "(string \<times> nat) list \<Rightarrow> string \<Rightarrow> nat" where
  "count_of counts k = (case map_of counts k of Some n \<Rightarrow> n | None \<Rightarrow> 0)"

definition update_nodes_by_status :: "(string \<times> nat) list \<Rightarrow> metric list" where
  "update_nodes_by_status counts =
     map (\<lambda>s. NODES_TOTAL s (count_of counts s)) [''online'', ''offline'', ''disabled'', ''never_seen'']"

definition known_statuses :: "string list" where
  "known_statuses = [''pending'', ''claimed'', ''running'', ''succeeded'', ''failed'', ''cancelled'',
     ''timeout'', ''lost'', ''reviewing'', ''rejected'', ''review_expired'']"

definition update_tasks_by_status :: "(string \<times> nat) list \<Rightarrow> metric list" where
  "update_tasks_by_status counts = map (\<lambda>s. TASKS_BY_STATUS s (count_of counts s)) known_statuses"

end
