(* ===== verification/Task_Utils.thy ===== *)
theory Task_Utils
  imports Config
begin

text \<open>
  \<open>app/task_utils.py\<close>: the task statuses and their classes, the task types by level, the events
  that a node reports and the statuses from which each is accepted, and the checks that task
  creation makes on a command, a working directory and a timeout.
\<close>

section \<open>Statuses\<close>

text \<open>The values the \<open>status\<close> column of \<open>tasks\<close> takes.\<close>

datatype task_status =
  Reviewing | Pending | Claimed | Running | Cancel_Requested
| Succeeded | Failed | Timeout | Cancelled | Lost | Rejected | Review_Expired

fun status_str :: "task_status \<Rightarrow> string" where
  "status_str Reviewing = ''reviewing''"
| "status_str Pending = ''pending''"
| "status_str Claimed = ''claimed''"
| "status_str Running = ''running''"
| "status_str Cancel_Requested = ''cancel_requested''"
| "status_str Succeeded = ''succeeded''"
| "status_str Failed = ''failed''"
| "status_str Timeout = ''timeout''"
| "status_str Cancelled = ''cancelled''"
| "status_str Lost = ''lost''"
| "status_str Rejected = ''rejected''"
| "status_str Review_Expired = ''review_expired''"

lemma status_str_inj [simp]: "status_str a = status_str b \<longleftrightarrow> a = b"
  by (cases a; cases b) simp_all

text \<open>Statuses are ordered as their names are, which is how \<open>sorted\<close> orders them.\<close>

instantiation task_status :: linorder
begin

definition less_eq_task_status :: "task_status \<Rightarrow> task_status \<Rightarrow> bool" where
  "less_eq_task_status a b \<longleftrightarrow> status_str a \<le> status_str b"

definition less_task_status :: "task_status \<Rightarrow> task_status \<Rightarrow> bool" where
  "less_task_status a b \<longleftrightarrow> status_str a < status_str b"

instance
proof
  fix x y z :: task_status
  show "x < y \<longleftrightarrow> x \<le> y \<and> \<not> y \<le> x"
    by (simp add: less_eq_task_status_def less_task_status_def less_le_not_le)
  show "x \<le> x" by (simp add: less_eq_task_status_def)
  show "x \<le> y \<Longrightarrow> y \<le> z \<Longrightarrow> x \<le> z" by (auto simp: less_eq_task_status_def)
  show "x \<le> y \<Longrightarrow> y \<le> x \<Longrightarrow> x = y"
    using status_str_inj [of x y] by (auto simp: less_eq_task_status_def intro: antisym)
  show "x \<le> y \<or> y \<le> x" by (simp add: less_eq_task_status_def linear)
qed

end

definition ACTIVE_TASK_STATUSES :: "task_status set" where
  "ACTIVE_TASK_STATUSES = {Claimed, Running, Cancel_Requested}"

definition RESULT_ACCEPTING_TASK_STATUSES :: "task_status set" where
  "RESULT_ACCEPTING_TASK_STATUSES = {Claimed, Running, Cancel_Requested}"

definition REVIEW_STATUSES :: "task_status set" where
  "REVIEW_STATUSES = {Reviewing}"

definition TERMINAL_TASK_STATUSES :: "task_status set" where
  "TERMINAL_TASK_STATUSES = {Succeeded, Failed, Timeout, Cancelled, Lost, Rejected, Review_Expired}"

lemmas status_sets = ACTIVE_TASK_STATUSES_def RESULT_ACCEPTING_TASK_STATUSES_def
  TERMINAL_TASK_STATUSES_def REVIEW_STATUSES_def

lemma status_classes:
  "s = Pending \<or> s \<in> REVIEW_STATUSES \<or> s \<in> ACTIVE_TASK_STATUSES \<or> s \<in> TERMINAL_TASK_STATUSES"
  by (cases s) (simp_all add: status_sets)

lemma active_not_terminal: "s \<in> ACTIVE_TASK_STATUSES \<Longrightarrow> s \<notin> TERMINAL_TASK_STATUSES"
  by (auto simp: status_sets)

section \<open>Events\<close>

text \<open>
  The events of \<open>transition_task\<close>. The keys of \<open>TASK_EVENT_TRANSITIONS\<close> are the seven statuses a
  node may report; \<open>Ev_Other\<close> is any other text.
\<close>

datatype task_event =
  Ev_Claimed | Ev_Running | Ev_Cancelled | Ev_Failed | Ev_Timeout | Ev_Succeeded | Ev_Lost
| Ev_Cancel | Ev_Review_Escalate | Ev_Review_Approve | Ev_Review_Reject | Ev_Review_Expire
| Ev_Background_Timeout | Ev_Background_Lost | Ev_Other string

text \<open>The table: the target status (the event's own name) and the statuses it is accepted from.\<close>

fun TASK_EVENT_TRANSITIONS :: "task_event \<Rightarrow> (task_status \<times> task_status set) option" where
  "TASK_EVENT_TRANSITIONS Ev_Claimed = Some (Claimed, {Claimed})"
| "TASK_EVENT_TRANSITIONS Ev_Running = Some (Running, {Claimed, Running})"
| "TASK_EVENT_TRANSITIONS Ev_Cancelled = Some (Cancelled, {Cancel_Requested, Running, Claimed})"
| "TASK_EVENT_TRANSITIONS Ev_Failed = Some (Failed, {Running, Cancel_Requested, Claimed})"
| "TASK_EVENT_TRANSITIONS Ev_Timeout = Some (Timeout, {Running, Cancel_Requested, Claimed})"
| "TASK_EVENT_TRANSITIONS Ev_Succeeded = Some (Succeeded, {Running, Cancel_Requested, Claimed})"
| "TASK_EVENT_TRANSITIONS Ev_Lost = Some (Lost, {Claimed, Running, Cancel_Requested})"
| "TASK_EVENT_TRANSITIONS _ = None"

section \<open>Task types\<close>

definition TASK_TYPE_LEVEL_L0 :: "string set" where
  "TASK_TYPE_LEVEL_L0 = {''health_check''}"

definition TASK_TYPE_LEVEL_L1 :: "string set" where
  "TASK_TYPE_LEVEL_L1 = {''file_mkdir'', ''file_write'', ''file_patch_text'', ''file_move'', ''file_delete'',
     ''file_extract'', ''file_preview'', ''download_file'', ''upload_and_unpack'', ''git_pull'', ''pip_install''}"

definition TASK_TYPE_LEVEL_L2 :: "string set" where
  "TASK_TYPE_LEVEL_L2 = {''shell'', ''python_script'', ''modal_command''}"

definition SHELL_TASK_TYPES :: "string set" where
  "SHELL_TASK_TYPES = {''shell'', ''python_script''}"

definition MODAL_TASK_TYPES :: "string set" where
  "MODAL_TASK_TYPES = {''modal_command''}"

text \<open>The schema's \<open>TaskType\<close> literal (\<open>app/schemas.py\<close>).\<close>

definition TaskType :: "string list" where
  "TaskType = [''shell'', ''python_script'', ''health_check'', ''git_pull'', ''pip_install'', ''download_file'',
     ''upload_and_unpack'', ''modal_command'', ''file_mkdir'', ''file_write'', ''file_patch_text'', ''file_move'',
     ''file_delete'', ''file_extract'', ''file_preview'']"

lemma TaskType_levels:
  "set TaskType = TASK_TYPE_LEVEL_L0 \<union> TASK_TYPE_LEVEL_L1 \<union> TASK_TYPE_LEVEL_L2"
  by (auto simp: TaskType_def TASK_TYPE_LEVEL_L0_def TASK_TYPE_LEVEL_L1_def TASK_TYPE_LEVEL_L2_def)

lemma L2_split: "TASK_TYPE_LEVEL_L2 = SHELL_TASK_TYPES \<union> MODAL_TASK_TYPES"
  by (auto simp: TASK_TYPE_LEVEL_L2_def SHELL_TASK_TYPES_def MODAL_TASK_TYPES_def)

section \<open>Timeouts\<close>

definition DEFAULT_TIMEOUT_BY_TYPE :: "(string \<times> int) list" where
  "DEFAULT_TIMEOUT_BY_TYPE = [(''health_check'', 300), (''git_pull'', 600), (''pip_install'', 1200),
     (''download_file'', 900), (''upload_and_unpack'', 1800), (''start_training'', 21600), (''modal_command'', 7200)]"

definition normalize_timeout :: "string \<Rightarrow> int option \<Rightarrow> int" where
  "normalize_timeout task_type timeout_sec =
     (case timeout_sec of Some t \<Rightarrow> t
      | None \<Rightarrow> (case map_of DEFAULT_TIMEOUT_BY_TYPE task_type of Some t \<Rightarrow> t | None \<Rightarrow> 3600))"

section \<open>The keyword blacklist\<close>

definition DANGEROUS_COMMAND_SNIPPETS :: "string list" where
  "DANGEROUS_COMMAND_SNIPPETS = [''shutdown'', ''reboot'', ''systemctl'', ''service '', ''sc.exe'', ''net stop'',
     ''net start'', ''mkfs'', ''fdisk'', ''useradd'', ''usermod'', ''passwd'', ''sudo '', ''runas '']"

text \<open>\<open>str.lower\<close> on ASCII.\<close>

definition lower_char :: "char \<Rightarrow> char" where
  "lower_char c = (let n = (of_char c :: nat) in if 65 \<le> n \<and> n \<le> 90 then char_of (n + 32) else c)"

definition lower :: "string \<Rightarrow> string" where
  "lower s = map lower_char s"

text \<open>\<open>sub in s\<close>\<close>

fun starts_with :: "'a list \<Rightarrow> 'a list \<Rightarrow> bool" where
  "starts_with [] s = True"
| "starts_with (a # p) [] = False"
| "starts_with (a # p) (b # s) = (a = b \<and> starts_with p s)"

fun contains :: "'a list \<Rightarrow> 'a list \<Rightarrow> bool" where
  "contains p [] = (p = [])"
| "contains p (c # s) = (starts_with p (c # s) \<or> contains p s)"

lemma starts_with_iff: "starts_with p s \<longleftrightarrow> (\<exists>r. s = p @ r)"
  by (induction p s rule: starts_with.induct) auto

lemma contains_iff: "contains p s \<longleftrightarrow> (\<exists>l r. s = l @ p @ r)"
proof (induction s)
  case Nil
  then show ?case by auto
next
  case (Cons c s)
  show ?case
  proof
    assume "contains p (c # s)"
    then consider "starts_with p (c # s)" | "contains p s" by auto
    then show "\<exists>l r. c # s = l @ p @ r"
    proof cases
      case 1
      then show ?thesis by (metis append_Nil starts_with_iff)
    next
      case 2
      then show ?thesis using Cons.IH by (metis append_Cons)
    qed
  next
    assume "\<exists>l r. c # s = l @ p @ r"
    then obtain l r where lr: "c # s = l @ p @ r" by auto
    show "contains p (c # s)"
    proof (cases l)
      case Nil
      with lr have "starts_with p (c # s)" by (metis append_Nil starts_with_iff)
      then show ?thesis by simp
    next
      case (Cons a l')
      with lr Cons.IH show ?thesis by auto
    qed
  qed
qed

text \<open>
  \<open>repr\<close> and \<open>str\<close> of a JSON value. A string inside a list or dictionary is quoted with single
  quotes, or double quotes when it has a single and no double quote.
\<close>

definition hex_digit :: "nat \<Rightarrow> char" where
  "hex_digit n = (if n < 10 then char_of (48 + n) else char_of (87 + n))"

definition repr_char :: "char \<Rightarrow> char \<Rightarrow> string" where
  "repr_char q c = (let n = (of_char c :: nat) in
     if c = q \<or> n = 92 then [CHR 92, c]
     else if n = 10 then [CHR 92, CHR ''n''] else if n = 13 then [CHR 92, CHR ''r'']
     else if n = 9 then [CHR 92, CHR ''t'']
     else if n < 32 \<or> n = 127 then [CHR 92, CHR ''x'', hex_digit (n div 16), hex_digit (n mod 16)]
     else [c])"

definition repr_string :: "string \<Rightarrow> string" where
  "repr_string s =
     (let q = (if CHR 39 \<in> set s \<and> CHR 34 \<notin> set s then CHR 34 else CHR 39)
      in q # concat (map (repr_char q) s) @ [q])"

fun join :: "'a list \<Rightarrow> 'a list list \<Rightarrow> 'a list" where
  "join sep [] = []"
| "join sep [x] = x"
| "join sep (x # y # xs) = x @ sep @ join sep (y # xs)"

fun py_repr :: "json \<Rightarrow> string" where
  "py_repr JNull = ''None''"
| "py_repr (JBool b) = (if b then ''True'' else ''False'')"
| "py_repr (JInt i) = int_str i"
| "py_repr (JFloat _ r) = r"
| "py_repr (JStr s) = repr_string s"
| "py_repr (JList xs) = ''['' @ join '', '' (map py_repr xs) @ '']''"
| "py_repr (JObj d) = ''{'' @ join '', '' (map (\<lambda>(k, v). repr_string k @ '': '' @ py_repr v) d) @ ''}''"

definition py_str :: "json \<Rightarrow> string" where
  "py_str v = (case v of JStr s \<Rightarrow> s | _ \<Rightarrow> py_repr v)"

definition command_parts :: "dict \<Rightarrow> string list" where
  "command_parts payload =
     concat (map (\<lambda>key. case dict_get payload key of
         Some (JStr s) \<Rightarrow> [lower s]
       | Some (JList items) \<Rightarrow> map (\<lambda>i. lower (py_str i)) items
       | _ \<Rightarrow> []) [''command'', ''script'', ''args'', ''entrypoint''])"

definition detect_dangerous_command :: "string \<Rightarrow> dict \<Rightarrow> string option" where
  "detect_dangerous_command task_type payload =
     (if task_type \<notin> {''shell'', ''python_script'', ''modal_command''} then None
      else List.find (\<lambda>snippet. contains snippet (join '' '' (command_parts payload)))
             DANGEROUS_COMMAND_SNIPPETS)"

lemma detect_dangerous_None_iff:
  assumes "task_type \<in> TASK_TYPE_LEVEL_L2"
  shows "detect_dangerous_command task_type payload = None \<longleftrightarrow>
    (\<forall>sn \<in> set DANGEROUS_COMMAND_SNIPPETS. \<not> contains sn (join '' '' (command_parts payload)))"
  using assms by (auto simp: detect_dangerous_command_def TASK_TYPE_LEVEL_L2_def find_None_all)

section \<open>Working directories\<close>

text \<open>\<open>s.split(sep)\<close>\<close>

fun split_on :: "'a \<Rightarrow> 'a list \<Rightarrow> 'a list list" where
  "split_on c [] = [[]]"
| "split_on c (x # xs) =
     (if x = c then [] # split_on c xs
      else (case split_on c xs of [] \<Rightarrow> [[x]] | y # ys \<Rightarrow> (x # y) # ys))"

text \<open>
  \<open>PurePath(s).parts\<close> on a POSIX host: the root (one slash, or two when the text starts with
  exactly two), then the components without empty ones and single dots. \<open>..\<close> stays.
\<close>

definition posix_root :: "string \<Rightarrow> string list" where
  "posix_root s =
     (if starts_with ''//'' s \<and> \<not> starts_with ''///'' s then [''//'']
      else if starts_with ''/'' s then [''/''] else [])"

definition path_parts :: "string \<Rightarrow> string list" where
  "path_parts s = posix_root s @ filter (\<lambda>c. c \<noteq> [] \<and> c \<noteq> ''.'') (split_on CHR ''/'' s)"

lemma split_on_no_sep: "c \<in> set (split_on x s) \<Longrightarrow> x \<notin> set c"
  by (induction s arbitrary: c) (auto split: list.splits if_splits)

definition proper_name :: "string \<Rightarrow> bool" where
  "proper_name c \<longleftrightarrow> c \<noteq> [] \<and> c \<noteq> ''.'' \<and> c \<noteq> ''..'' \<and> CHR ''/'' \<notin> set c"

lemma split_on_plain: "CHR ''/'' \<notin> set c \<Longrightarrow> split_on (CHR ''/'') (c @ CHR ''/'' # s) = c # split_on (CHR ''/'') s"
  by (induction c) auto

lemma split_on_last: "CHR ''/'' \<notin> set c \<Longrightarrow> split_on (CHR ''/'') c = [c]"
  by (induction c) auto

lemma split_on_absolute:
  "cs \<noteq> [] \<Longrightarrow> \<forall>c \<in> set cs. CHR ''/'' \<notin> set c \<Longrightarrow> split_on (CHR ''/'') (concat (map ((#) (CHR ''/'')) cs)) = [] # cs"
proof (induction cs)
  case (Cons c cs)
  show ?case
  proof (cases cs)
    case Nil
    then show ?thesis using Cons.prems by (simp add: split_on_last)
  next
    case (Cons d ds)
    have "split_on (CHR ''/'') (concat (map ((#) (CHR ''/'')) cs)) = [] # cs"
      using Cons.IH Cons.prems Cons by simp
    then have "split_on (CHR ''/'') (d @ concat (map ((#) (CHR ''/'')) ds)) = cs" by (simp add: Cons)
    then show ?thesis using Cons.prems split_on_plain [of c] by (simp add: Cons)
  qed
qed simp

lemma posix_root_absolute:
  assumes "cs \<noteq> []" and "\<forall>c \<in> set cs. c \<noteq> [] \<and> CHR ''/'' \<notin> set c"
  shows "posix_root (concat (map ((#) (CHR ''/'')) cs)) = [''/'']"
proof -
  obtain c cs' where cs: "cs = c # cs'" using assms(1) by (cases cs) auto
  obtain x c' where "c = x # c'" "x \<noteq> CHR ''/''" using assms(2) by (cases c) (auto simp: cs)
  then show ?thesis by (simp add: posix_root_def cs)
qed

lemma posix_root_not_Nil: "posix_root s = [''/''] \<Longrightarrow> s \<noteq> []"
  by (auto simp: posix_root_def)

lemma path_parts_absolute:
  assumes "cs \<noteq> []" and "\<forall>c \<in> set cs. c \<noteq> [] \<and> c \<noteq> ''.'' \<and> CHR ''/'' \<notin> set c"
  shows "path_parts (concat (map ((#) (CHR ''/'')) cs)) = ''/'' # cs"
proof -
  have "filter (\<lambda>c. c \<noteq> [] \<and> c \<noteq> ''.'') cs = cs"
    by (rule filter_True) (use assms(2) in auto)
  moreover have "split_on (CHR ''/'') (concat (map ((#) (CHR ''/'')) cs)) = [] # cs"
    by (rule split_on_absolute) (use assms in auto)
  ultimately show ?thesis using posix_root_absolute [OF assms(1)] assms(2) by (simp add: path_parts_def)
qed

definition ensure_workdir_allowed :: "string option \<Rightarrow> string list \<Rightarrow> bool" where
  "ensure_workdir_allowed workdir allowed_workdirs =
     (if \<not> truthy workdir then True
      else if allowed_workdirs = [] then True
      else (let target_parts = path_parts (the workdir) in
        list_ex (\<lambda>allowed. let allowed_parts = path_parts allowed in
          length allowed_parts \<le> length target_parts \<and>
          take (length allowed_parts) target_parts = allowed_parts) allowed_workdirs))"

lemma take_prefix_iff: "length a \<le> length t \<and> take (length a) t = a \<longleftrightarrow> (\<exists>rest. t = a @ rest)"
  by (metis append_eq_conv_conj append_take_drop_id length_append le_add1)

lemma ensure_workdir_allowed_iff:
  assumes "w \<noteq> []" and "allowed \<noteq> []"
  shows "ensure_workdir_allowed (Some w) allowed \<longleftrightarrow>
    (\<exists>a \<in> set allowed. \<exists>rest. path_parts w = path_parts a @ rest)"
  using assms by (simp add: ensure_workdir_allowed_def list_ex_iff Let_def take_prefix_iff)

section \<open>Properties\<close>

text \<open>The working directory check is a comparison of whole path components: a working directory passes
  exactly when its components start with those of an allowed directory, so \<open>/data2\<close> is not below
  \<open>/data\<close>; \<open>..\<close> is an ordinary component, so any directory can be named through an allowed one.\<close>

theorem workdir_check_by_components:
  assumes "w \<noteq> []" and "allowed \<noteq> []"
  shows "ensure_workdir_allowed (Some w) allowed \<longleftrightarrow>
      (\<exists>a \<in> set allowed. \<exists>rest. path_parts w = path_parts a @ rest)"
  by (rule ensure_workdir_allowed_iff [OF assms])

lemma workdir_check_by_components_witness:
  "\<not> ensure_workdir_allowed (Some ''/data2/x'') [''/data''] \<and> ensure_workdir_allowed (Some ''/data/../etc'') [''/data'']"
  unfolding workdir_check_by_components [of "''/data2/x''" "[''/data'']", simplified]
    workdir_check_by_components [of "''/data/../etc''" "[''/data'']", simplified]
  by (simp add: path_parts_def posix_root_def)

text \<open>A shell or modal task is stopped as dangerous exactly when one of the listed snippets occurs in its
  joined and lowered command; a task of another type never is.\<close>

theorem dangerous_command_exact:
  "detect_dangerous_command task_type payload \<noteq> None \<longleftrightarrow>
     task_type \<in> TASK_TYPE_LEVEL_L2 \<and>
     (\<exists>sn \<in> set DANGEROUS_COMMAND_SNIPPETS. \<exists>l r. join '' '' (command_parts payload) = l @ sn @ r)"
  using detect_dangerous_None_iff [of task_type payload]
  by (auto simp: detect_dangerous_command_def TASK_TYPE_LEVEL_L2_def contains_iff)

end
