(* ===== verification/Webhook.thy ===== *)
theory Webhook
  imports Config
begin

text \<open>
  \<open>app/webhook.py\<close>: the emitter's bounded queue, the global entry point \<open>emit_event\<close>, and the
  delivery loop with its retries. The receiver's answers are the environment: one outcome per
  attempt.
\<close>

section \<open>The queue\<close>

record envelope =
  ev_event :: string
  ev_timestamp :: iso
  ev_severity :: string
  ev_payload :: dict
  ev_control_plane :: string

record emitter =
  em_enabled :: bool
  em_allowed :: "string list"
  em_queue :: "envelope list"
  em_instance :: string

definition QUEUE_CAPACITY :: nat where
  "QUEUE_CAPACITY = 1000"

definition new_emitter :: "settings \<Rightarrow> emitter" where
  "new_emitter s = \<lparr>em_enabled = (webhook_url s \<noteq> []), em_allowed = webhook_events s,
     em_queue = [], em_instance = instance_name s\<rparr>"

text \<open>\<open>isoformat(timespec="milliseconds")\<close> with the offset written \<open>Z\<close>.\<close>

definition isoformat_millis_Z :: "instant \<Rightarrow> iso" where
  "isoformat_millis_Z t =
     (let us = t mod 86400000000 in
      date_str (civil (t div 86400000000)) @ ''T'' @ clock_str (us div 1000000) @ ''.'' @
      pad 3 (nat (us mod 1000000 div 1000)) @ ''Z'')"

definition put_nowait :: "envelope \<Rightarrow> envelope list \<Rightarrow> envelope list option" where
  "put_nowait e q = (if QUEUE_CAPACITY \<le> length q then None else Some (q @ [e]))"

definition get_nowait :: "envelope list \<Rightarrow> envelope list" where
  "get_nowait q = tl q"

text \<open>\<open>WebhookEmitter.emit\<close>: the emitter afterwards and what it counted.\<close>

definition emit :: "instant \<Rightarrow> string \<Rightarrow> dict \<Rightarrow> string \<Rightarrow> emitter \<Rightarrow> emitter \<times> metric list" where
  "emit now event payload severity em =
     (if \<not> em_enabled em then (em, [])
      else if event \<notin> set (em_allowed em) then (em, [])
      else
        (let e = \<lparr>ev_event = event, ev_timestamp = isoformat_millis_Z now, ev_severity = severity,
                  ev_payload = payload, ev_control_plane = em_instance em\<rparr>
         in case put_nowait e (em_queue em) of
              Some q \<Rightarrow> (em\<lparr>em_queue := q\<rparr>, [])
            | None \<Rightarrow>
                (let q1 = get_nowait (em_queue em) in
                 case put_nowait e q1 of
                   Some q \<Rightarrow> (em\<lparr>em_queue := q\<rparr>, [WEBHOOK_SEND event ''dropped''])
                 | None \<Rightarrow> (em\<lparr>em_queue := q1\<rparr>, [WEBHOOK_SEND event ''dropped'']))))"

definition emitter_ok :: "emitter \<Rightarrow> bool" where
  "emitter_ok em \<longleftrightarrow> length (em_queue em) \<le> QUEUE_CAPACITY"

lemma emitter_ok_new: "emitter_ok (new_emitter s)"
  by (simp add: emitter_ok_def new_emitter_def)

lemma emit_ok: "emitter_ok em \<Longrightarrow> emitter_ok (fst (emit now ev p sev em))"
  by (auto simp: emit_def emitter_ok_def put_nowait_def get_nowait_def Let_def split: option.splits if_splits)

text \<open>
  The queue is the newest \<open>QUEUE_CAPACITY\<close> of the envelopes offered so far: an event is appended,
  and it is the oldest that goes when there is no room.
\<close>

definition keep_newest :: "nat \<Rightarrow> 'a list \<Rightarrow> 'a list" where
  "keep_newest n xs = drop (length xs - n) xs"

lemma keep_newest_snoc:
  "0 < n \<Longrightarrow> keep_newest n (xs @ [x]) =
     (if length (keep_newest n xs) < n then keep_newest n xs @ [x] else tl (keep_newest n xs) @ [x])"
  by (auto simp: keep_newest_def drop_Suc tl_drop Suc_diff_le not_less)

lemma length_keep_newest [simp]: "length (keep_newest n xs) = min n (length xs)"
  by (auto simp: keep_newest_def)

lemma emit_queue:
  assumes "em_queue em = keep_newest QUEUE_CAPACITY offered"
    and "em_enabled em" and "event \<in> set (em_allowed em)"
  shows "\<exists>e. ev_event e = event \<and> ev_payload e = payload \<and>
    em_queue (fst (emit now event payload sev em)) = keep_newest QUEUE_CAPACITY (offered @ [e])"
proof -
  define e where "e = \<lparr>ev_event = event, ev_timestamp = isoformat_millis_Z now, ev_severity = sev,
    ev_payload = payload, ev_control_plane = em_instance em\<rparr>"
  have "em_queue (fst (emit now event payload sev em)) = keep_newest QUEUE_CAPACITY (offered @ [e])"
    using assms keep_newest_snoc [of QUEUE_CAPACITY offered e]
    by (auto simp: emit_def e_def put_nowait_def get_nowait_def Let_def QUEUE_CAPACITY_def)
  then show ?thesis by (intro exI [of _ e]) (simp add: e_def)
qed

section \<open>Delivery\<close>

text \<open>What one POST gives: a status code, an \<open>httpx.HTTPError\<close>, or another exception.\<close>

datatype outcome = Http_Status int | Http_Error | Other_Exception

datatype delivery = Delivered | Dropped_After_Retries | Worker_Exception

definition RETRY_DELAYS_SEC :: "nat list" where
  "RETRY_DELAYS_SEC = [1, 2, 4]"

definition delivery_attempts :: "nat list" where
  "delivery_attempts = 0 # RETRY_DELAYS_SEC"

text \<open>
  The loop of \<open>_deliver\<close> over the remaining delays: the result, the number of POSTs made and the
  seconds slept, the outcome of attempt \<open>i\<close> being \<open>out i\<close>.
\<close>

fun deliver_loop :: "(nat \<Rightarrow> outcome) \<Rightarrow> nat \<Rightarrow> nat list \<Rightarrow> delivery \<times> nat \<times> nat" where
  "deliver_loop out i [] = (Dropped_After_Retries, 0, 0)"
| "deliver_loop out i (delay # ds) =
     (case out i of
        Http_Status c \<Rightarrow>
          if 200 \<le> c \<and> c < 300 then (Delivered, 1, delay)
          else (let (r, n, t) = deliver_loop out (Suc i) ds in (r, Suc n, delay + t))
      | Http_Error \<Rightarrow> (let (r, n, t) = deliver_loop out (Suc i) ds in (r, Suc n, delay + t))
      | Other_Exception \<Rightarrow> (Worker_Exception, 1, delay))"

definition deliver :: "(nat \<Rightarrow> outcome) \<Rightarrow> envelope \<Rightarrow> delivery \<times> nat \<times> nat \<times> metric list" where
  "deliver out e =
     (let (r, n, t) = deliver_loop out 0 delivery_attempts in
      (r, n, t, case r of Delivered \<Rightarrow> [WEBHOOK_SEND (ev_event e) ''ok'']
                | Dropped_After_Retries \<Rightarrow> [WEBHOOK_SEND (ev_event e) ''fail'']
                | Worker_Exception \<Rightarrow> []))"

text \<open>One turn of \<open>_run_worker\<close>: the oldest envelope is taken and delivered, whatever happens.\<close>

definition run_worker_step :: "(nat \<Rightarrow> outcome) \<Rightarrow> emitter \<Rightarrow> (emitter \<times> delivery \<times> metric list) option" where
  "run_worker_step out em =
     (case em_queue em of [] \<Rightarrow> None
      | e # q \<Rightarrow> (let (r, n, t, ms) = deliver out e in Some (em\<lparr>em_queue := q\<rparr>, r, ms)))"

definition delivers :: "outcome \<Rightarrow> bool" where
  "delivers o' = (case o' of Http_Status c \<Rightarrow> 200 \<le> c \<and> c < 300 | _ \<Rightarrow> False)"

definition retried :: "outcome \<Rightarrow> bool" where
  "retried o' = (case o' of Http_Status c \<Rightarrow> \<not> (200 \<le> c \<and> c < 300) | Http_Error \<Rightarrow> True | Other_Exception \<Rightarrow> False)"

lemma deliver_loop_bounds:
  "deliver_loop out i ds = (r, n, t) \<Longrightarrow> n \<le> length ds \<and> t \<le> sum_list ds"
proof (induction ds arbitrary: i r n t)
  case (Cons d ds)
  then show ?case by (fastforce split: outcome.splits if_splits prod.splits)
qed simp

lemma deliver_loop_delivered:
  "fst (deliver_loop out i ds) = Delivered \<longleftrightarrow>
     (\<exists>k < length ds. delivers (out (i + k)) \<and> (\<forall>j < k. retried (out (i + j))))"
proof (induction ds arbitrary: i)
  case (Cons d ds)
  have shift: "(\<exists>k < length (d # ds). delivers (out (i + k)) \<and> (\<forall>j < k. retried (out (i + j)))) \<longleftrightarrow>
      delivers (out i) \<or> retried (out i) \<and>
      (\<exists>k < length ds. delivers (out (Suc i + k)) \<and> (\<forall>j < k. retried (out (Suc i + j))))"
    (is "?l \<longleftrightarrow> ?r")
  proof
    assume ?l
    then obtain k where k: "k < length (d # ds)" "delivers (out (i + k))" "\<forall>j < k. retried (out (i + j))" by blast
    show ?r
    proof (cases k)
      case 0
      with k show ?thesis by simp
    next
      case (Suc m)
      then have "retried (out i)" using k(3) by force
      moreover have "\<forall>j < m. retried (out (Suc i + j))" using k(3) Suc by auto
      ultimately show ?thesis using k Suc by auto
    qed
  next
    assume ?r
    then show ?l
    proof (elim disjE conjE exE)
      assume "delivers (out i)"
      then show ?l by (intro exI [of _ 0]) simp
    next
      fix k
      assume r: "retried (out i)" and k: "k < length ds" "delivers (out (Suc i + k))"
        "\<forall>j < k. retried (out (Suc i + j))"
      have "\<forall>j < Suc k. retried (out (i + j))"
        using r k(3) by (auto simp: less_Suc_eq_0_disj)
      then show ?l using k by (intro exI [of _ "Suc k"]) simp
    qed
  qed
  show ?case
    unfolding shift Cons.IH [of "Suc i", symmetric]
    by (auto simp: delivers_def retried_def split: outcome.splits prod.splits)
qed simp

section \<open>Properties\<close>

definition emit_all :: "(instant \<times> string \<times> dict \<times> string) list \<Rightarrow> emitter \<Rightarrow> emitter" where
  "emit_all evs em = fold (\<lambda>(now, event, payload, sev) em. fst (emit now event payload sev em)) evs em"

definition envelope_of :: "emitter \<Rightarrow> instant \<times> string \<times> dict \<times> string \<Rightarrow> envelope" where
  "envelope_of em e = (case e of (now, event, payload, sev) \<Rightarrow>
     \<lparr>ev_event = event, ev_timestamp = isoformat_millis_Z now, ev_severity = sev, ev_payload = payload,
      ev_control_plane = em_instance em\<rparr>)"

definition allowed_event :: "emitter \<Rightarrow> instant \<times> string \<times> dict \<times> string \<Rightarrow> bool" where
  "allowed_event em e \<longleftrightarrow> fst (snd e) \<in> set (em_allowed em)"

lemma emit_fields [simp]:
  "em_enabled (fst (emit now ev p sev em)) = em_enabled em" "em_allowed (fst (emit now ev p sev em)) = em_allowed em"
  "em_instance (fst (emit now ev p sev em)) = em_instance em"
  by (simp_all add: emit_def Let_def split: option.split)

lemma emit_queue_next:
  assumes "em_queue em = keep_newest QUEUE_CAPACITY offered" and "em_enabled em"
  shows "em_queue (fst (emit now event payload sev em)) = keep_newest QUEUE_CAPACITY
    (offered @ (if event \<in> set (em_allowed em) then [envelope_of em (now, event, payload, sev)] else []))"
  using assms keep_newest_snoc [of QUEUE_CAPACITY offered "envelope_of em (now, event, payload, sev)"]
  by (auto simp: emit_def envelope_of_def put_nowait_def get_nowait_def Let_def QUEUE_CAPACITY_def)

lemma emit_all_queue:
  "em_queue em = keep_newest QUEUE_CAPACITY offered \<Longrightarrow> em_enabled em \<Longrightarrow>
   em_queue (emit_all evs em) = keep_newest QUEUE_CAPACITY (offered @ map (envelope_of em) (filter (allowed_event em) evs))"
proof (induction evs arbitrary: em offered)
  case (Cons e evs)
  obtain now event payload sev where e: "e = (now, event, payload, sev)" by (cases e) auto
  let ?em = "fst (emit now event payload sev em)"
  have same: "envelope_of ?em = envelope_of em" "allowed_event ?em = allowed_event em"
    by (rule ext, simp add: envelope_of_def allowed_event_def)+
  show ?case
    using Cons.IH [of ?em, OF emit_queue_next [OF Cons.prems]] Cons.prems(2)
    by (simp add: emit_all_def e same) (simp add: allowed_event_def)
qed (simp add: emit_all_def)

text \<open>The webhook queue keeps the newest events: after any sequence of emitted events the queue of an
  enabled emitter holds, in order, the last 1000 of those whose type is allowed.\<close>

theorem queue_keeps_newest:
  assumes "webhook_url s \<noteq> []"
  shows "em_queue (emit_all evs (new_emitter s)) =
    keep_newest QUEUE_CAPACITY (map (envelope_of (new_emitter s)) (filter (allowed_event (new_emitter s)) evs))"
  using emit_all_queue [of "new_emitter s" "[]" evs] assms by (simp add: new_emitter_def keep_newest_def)

lemma queue_keeps_newest_witness:
  "map ev_event (em_queue (emit_all [(0, ''task.lost'', [], ''warning''), (1, ''other'', [], ''info''), (2, ''task.failed'', [], ''warning'')]
     (new_emitter (default_settings\<lparr>webhook_url := ''https://h''\<rparr>)))) = [''task.lost'', ''task.failed'']"
  by (subst queue_keeps_newest)
    (simp_all add: default_settings_def new_emitter_def allowed_event_def envelope_of_def keep_newest_def QUEUE_CAPACITY_def)

text \<open>A delivery ends after at most four POSTs and seven seconds of waiting; it succeeds exactly when one
  of the first four attempts gets a 2xx answer and all before it failed in a way that is retried, and
  it is counted once unless an unexpected exception ended it.\<close>

theorem delivery_bounded:
  assumes "deliver out e = (r, n, waited, ms)"
  shows "n \<le> 4 \<and> waited \<le> 7 \<and>
    (r = Delivered \<longleftrightarrow> (\<exists>k < 4. delivers (out k) \<and> (\<forall>j < k. retried (out j)))) \<and>
    ms = (if r = Delivered then [WEBHOOK_SEND (ev_event e) ''ok'']
          else if r = Dropped_After_Retries then [WEBHOOK_SEND (ev_event e) ''fail''] else [])"
proof -
  obtain r0 n0 t0 where l: "deliver_loop out 0 delivery_attempts = (r0, n0, t0)" by (cases "deliver_loop out 0 delivery_attempts")
  have "r0 = r" "n0 = n" "t0 = waited" and ms: "ms = (case r of Delivered \<Rightarrow> [WEBHOOK_SEND (ev_event e) ''ok'']
      | Dropped_After_Retries \<Rightarrow> [WEBHOOK_SEND (ev_event e) ''fail''] | Worker_Exception \<Rightarrow> [])"
    using assms l by (auto simp: deliver_def)
  moreover have "n0 \<le> 4 \<and> t0 \<le> 7"
    using deliver_loop_bounds [OF l] by (simp add: delivery_attempts_def RETRY_DELAYS_SEC_def)
  moreover have "r0 = Delivered \<longleftrightarrow> (\<exists>k < 4. delivers (out k) \<and> (\<forall>j < k. retried (out j)))"
  proof -
    have "length delivery_attempts = 4" by (simp add: delivery_attempts_def RETRY_DELAYS_SEC_def)
    with deliver_loop_delivered [of out 0 delivery_attempts] l show ?thesis by simp
  qed
  ultimately show ?thesis by (auto split: delivery.splits)
qed

lemma delivery_bounded_witness:
  "fst (deliver (\<lambda>k :: nat. if k = 2 then Http_Status 204 else Http_Error)
     \<lparr>ev_event = ''task.lost'', ev_timestamp = [], ev_severity = ''critical'', ev_payload = [], ev_control_plane = []\<rparr>) = Delivered"
proof -
  let ?o = "\<lambda>k :: nat. if k = 2 then Http_Status 204 else Http_Error"
  let ?e = "\<lparr>ev_event = ''task.lost'', ev_timestamp = [], ev_severity = ''critical'', ev_payload = [], ev_control_plane = []\<rparr>"
  obtain r n t ms where d: "deliver ?o ?e = (r, n, t, ms)" by (cases "deliver ?o ?e")
  have "\<exists>k < 4. delivers (?o k) \<and> (\<forall>j < k. retried (?o j))"
    by (rule exI [of _ 2]) (simp add: delivers_def retried_def)
  with delivery_bounded [OF d] d show ?thesis by simp
qed

end
