(* ===== verification/Py_Bytes.thy ===== *)
theory Py_Bytes
  imports Config "HOL-Library.Word"
begin

text \<open>
  Byte strings and the UTF-8 encoding of text. A text is a list of Unicode code points without
  surrogates, which is what a decoded JSON request body holds.
\<close>

unbundle bit_operations_syntax

type_synonym bytes = "8 word list"

definition byte :: "nat \<Rightarrow> 8 word" where
  "byte n = of_nat n"

definition utf8_char :: "nat \<Rightarrow> bytes" where
  "utf8_char c =
     (if c < 128 then [byte c]
      else if c < 2048 then [byte (192 + c div 64), byte (128 + c mod 64)]
      else if c < 65536 then [byte (224 + c div 4096), byte (128 + c div 64 mod 64), byte (128 + c mod 64)]
      else [byte (240 + c div 262144), byte (128 + c div 4096 mod 64), byte (128 + c div 64 mod 64),
            byte (128 + c mod 64)])"

definition utf8_encode :: "utext \<Rightarrow> bytes" where
  "utf8_encode s = concat (map utf8_char s)"

lemma utf8_encode_simps [simp]:
  "utf8_encode [] = []"
  "utf8_encode (c # s) = utf8_char c @ utf8_encode s"
  "utf8_encode (s @ t) = utf8_encode s @ utf8_encode t"
  by (simp_all add: utf8_encode_def)

lemma utf8_char_length: "1 \<le> length (utf8_char c)" "length (utf8_char c) \<le> 4"
  by (simp_all add: utf8_char_def)

lemma utf8_char_not_Nil [simp]: "utf8_char c \<noteq> []"
  using utf8_char_length(1) [of c] by (auto simp: Suc_le_eq)

lemma utf8_encode_Nil_iff [simp]: "utf8_encode s = [] \<longleftrightarrow> s = []"
  by (cases s) auto

text \<open>Prefixes of a text encode to prefixes, so the encoded length grows with the prefix.\<close>

lemma utf8_take_mono: "m \<le> n \<Longrightarrow> length (utf8_encode (take m s)) \<le> length (utf8_encode (take n s))"
proof (induction s arbitrary: m n)
  case (Cons c s)
  then show ?case by (cases m; cases n) auto
qed simp

lemma utf8_take_strict:
  assumes "m < n" and "n \<le> length s"
  shows "length (utf8_encode (take m s)) < length (utf8_encode (take n s))"
  using assms
proof (induction s arbitrary: m n)
  case (Cons c s)
  from Cons.prems obtain n' where n: "n = Suc n'" by (cases n) auto
  show ?case
  proof (cases m)
    case 0
    then show ?thesis using utf8_char_length(1) [of c] n by simp
  next
    case (Suc m')
    then show ?thesis using Cons n by simp
  qed
qed simp

text \<open>The text of an ASCII string.\<close>

definition of_string :: "string \<Rightarrow> utext" where
  "of_string s = map of_char s"

end
