(* ===== verification/Store.thy ===== *)
theory Store
  imports Task_Utils Webhook Py_Bytes
begin

text \<open>
  The persistent and in-memory state of the control plane (\<open>app/db.py\<close>): one record per table row
  with the columns of \<open>init_schema\<close>, the database of all tables, the world (database, metrics,
  webhook emitter, storage directory and the fingerprint set of \<open>app.state\<close>), the transaction
  \<open>Database.connect\<close>, and the operations that \<open>Database\<close> itself offers.

  A table is the list of its rows in insertion order. \<open>d_seq\<close> holds the AUTOINCREMENT counters.
\<close>

section \<open>Rows\<close>

record admin_row =
  ad_id :: int
  ad_username :: string
  ad_password_hash :: string
  ad_is_active :: bool
  ad_created_at :: iso
  ad_updated_at :: iso
  ad_last_login_at :: "iso option"
  ad_tokens_invalidated_at :: "iso option"

record node_row =
  n_id :: int
  n_node_id :: string
  n_display_name :: string
  n_node_signing_key :: "string option"
  n_encrypted_signing_key :: "string option"
  n_onboarding_token_encrypted :: "string option"
  n_onboarding_token_created_at :: "iso option"
  n_onboarding_token_expires_at :: "iso option"
  n_node_type :: string
  n_os_type :: "string option"
  n_hostname :: "string option"
  n_heartbeat_interval_sec :: int
  n_allowed_workdirs :: "string list"
  n_tags :: "string list"
  n_allow_shell :: bool
  n_allow_modal :: bool
  n_is_enabled :: bool
  n_first_seen_at :: "iso option"
  n_last_seen_at :: "iso option"
  n_last_request_ts :: "string option"
  n_last_boot_id :: "string option"
  n_created_at :: iso
  n_updated_at :: iso

record snapshot_row =
  s_id :: int
  s_node_id :: string
  s_reported_at :: iso
  s_cpu_usage_percent :: "rat option"
  s_memory_usage_percent :: "rat option"
  s_gpu_utilization_percent :: "rat option"
  s_gpu_memory_percent :: "rat option"
  s_gpu_temperature_c :: "rat option"
  s_gpu_power_draw_w :: "rat option"
  s_cpu_json :: "json option"
  s_memory_json :: "json option"
  s_disk_json :: "json option"
  s_gpu_json :: "json option"
  s_python_env_json :: "json option"
  s_task_runtime_json :: "json option"
  s_raw_payload_json :: "json option"
  s_sample_gpus_json :: "json option"

record task_row =
  t_id :: int
  t_task_id :: string
  t_revision :: int
  t_idempotency_key :: string
  t_node_id :: string
  t_type :: string
  t_status :: task_status
  t_payload :: dict
  t_workdir :: "string option"
  t_env :: "(string \<times> string) list"
  t_requested_gpu_ids :: "int list"
  t_timeout_sec :: int
  t_kill_grace_sec :: int
  t_danger_level :: string
  t_created_by_admin_id :: "int option"
  t_created_at :: iso
  t_claimed_at :: "iso option"
  t_started_at :: "iso option"
  t_finished_at :: "iso option"
  t_result_locked_at :: "iso option"
  t_review_stage :: "int option"
  t_review_decision :: "string option"
  t_review_detail :: "json option"
  t_review_admin_id :: "int option"
  t_review_started_at :: "iso option"
  t_review_finished_at :: "iso option"

record attempt_row =
  at_id :: int
  at_task_id :: string
  at_node_id :: string
  at_agent_boot_id :: "string option"
  at_pid :: "int option"
  at_pgid_or_job_id :: "string option"
  at_status :: string
  at_started_at :: "iso option"
  at_finished_at :: "iso option"
  at_exit_code :: "int option"
  at_result_summary :: dict

datatype stream = Stdout | Stderr

fun stream_str :: "stream \<Rightarrow> string" where
  "stream_str Stdout = ''stdout''"
| "stream_str Stderr = ''stderr''"

text \<open>
  A path as its components, \<open>..\<close> resolved (the directories that the program makes on the way exist
  and are not links).
\<close>

type_synonym path = "string list"

definition resolve_path :: "path \<Rightarrow> path" where
  "resolve_path p = rev (foldl (\<lambda>acc c.
     if c = ''..'' then (case acc of [] \<Rightarrow> [c] | d # rest \<Rightarrow>
         if d = ''..'' then c # acc else if d = ''/'' then acc else rest)
     else (if c = ''//'' then ''/'' else c) # acc) [] p)"

lemma resolve_snoc: "c \<noteq> ''..'' \<Longrightarrow> c \<noteq> ''//'' \<Longrightarrow> resolve_path (p @ [c]) = resolve_path p @ [c]"
  by (simp add: resolve_path_def)

lemma resolve_append: "''..'' \<notin> set cs \<Longrightarrow> ''//'' \<notin> set cs \<Longrightarrow> resolve_path (p @ cs) = resolve_path p @ cs"
proof (induction cs rule: rev_induct)
  case (snoc c cs)
  then have "c \<noteq> ''..''" "c \<noteq> ''//''" by auto
  with snoc show ?case using resolve_snoc [of c "p @ cs"] by simp
qed simp

text \<open>Below a root, the result has none of the components that resolving removes.\<close>

lemma resolve_absolute:
  assumes "p \<noteq> []" and "hd p \<in> {''/'', ''//''}"
  shows "\<exists>cs. resolve_path p = ''/'' # cs \<and> ''..'' \<notin> set cs \<and> ''//'' \<notin> set cs"
proof -
  define step where "step = (\<lambda>acc c. if c = ''..'' then (case acc of [] \<Rightarrow> [c] | d # rest \<Rightarrow>
         if d = ''..'' then c # acc else if d = ''/'' then acc else rest) else (if c = ''//'' then ''/'' else c) # acc)"
  have rp: "resolve_path p = rev (foldl step [] p)" for p by (simp add: resolve_path_def step_def)
  have keep: "\<exists>cs. foldl step (cs0 @ [''/'']) qs = cs @ [''/''] \<and> ''..'' \<notin> set cs \<and> ''//'' \<notin> set cs"
    if "''..'' \<notin> set cs0" "''//'' \<notin> set cs0" for qs cs0
    using that
  proof (induction qs arbitrary: cs0)
    case (Cons q qs)
    have "\<exists>cs1. step (cs0 @ [''/'']) q = cs1 @ [''/''] \<and> ''..'' \<notin> set cs1 \<and> ''//'' \<notin> set cs1"
    proof (cases "q = ''..''")
      case True
      then show ?thesis using Cons.prems by (cases cs0) (auto simp: step_def)
    next
      case False
      then show ?thesis using Cons.prems by (auto simp: step_def intro: exI [of _ "''/'' # cs0"] exI [of _ "q # cs0"])
    qed
    then obtain cs1 where "step (cs0 @ [''/'']) q = cs1 @ [''/'']" "''..'' \<notin> set cs1" "''//'' \<notin> set cs1" by blast
    with Cons.IH [of cs1] show ?case by simp
  qed simp
  obtain q qs where p: "p = q # qs" "q \<in> {''/'', ''//''}" using assms by (cases p) auto
  from keep [of "[]" qs] obtain cs where "foldl step [''/''] qs = cs @ [''/'']" "''..'' \<notin> set cs" "''//'' \<notin> set cs" by auto
  moreover have "step [] q = [''/'']" using p(2) by (auto simp: step_def)
  ultimately have "resolve_path p = ''/'' # rev cs" by (simp add: rp p(1))
  with \<open>''..'' \<notin> set cs\<close> \<open>''//'' \<notin> set cs\<close> show ?thesis by auto
qed

lemma resolve_again:
  assumes "p \<noteq> []" and "hd p \<in> {''/'', ''//''}"
  shows "resolve_path (resolve_path p) = resolve_path p"
proof -
  obtain cs where cs: "resolve_path p = ''/'' # cs" "''..'' \<notin> set cs" "''//'' \<notin> set cs" using resolve_absolute [OF assms] by blast
  then have "resolve_path ([''/''] @ cs) = resolve_path [''/''] @ cs" by (intro resolve_append)
  moreover have "resolve_path [''/''] = [''/'']" by (simp add: resolve_path_def)
  ultimately show ?thesis by (simp add: cs(1))
qed

text \<open>\<open>base / s\<close>: an absolute right side replaces the left one.\<close>

definition join_path :: "path \<Rightarrow> string \<Rightarrow> path" where
  "join_path base s = (if posix_root s \<noteq> [] then path_parts s else base @ path_parts s)"

record log_row =
  l_id :: int
  l_task_id :: string
  l_stream :: stream
  l_last_offset :: int
  l_preview_text :: utext
  l_center_log_path :: "path option"
  l_is_truncated :: bool
  l_truncated_notice :: string
  l_updated_at :: iso

record artifact_row =
  f_id :: int
  f_task_id :: string
  f_artifact_name :: string
  f_artifact_type :: string
  f_content_type :: "string option"
  f_size_bytes :: int
  f_storage_path :: path
  f_preview :: dict
  f_created_at :: iso

record audit_row =
  e_id :: int
  e_actor_type :: string
  e_actor_id :: "string option"
  e_action :: string
  e_target_type :: string
  e_target_id :: "string option"
  e_request_ip :: "string option"
  e_detail :: dict
  e_created_at :: iso

record warning_row =
  w_id :: int
  w_source_type :: string
  w_source_id :: "string option"
  w_warning_type :: string
  w_command_excerpt :: "string option"
  w_detail :: dict
  w_created_at :: iso

record nonce_row =
  c_id :: int
  c_node_id :: string
  c_nonce :: string
  c_timestamp_utc :: string
  c_expires_at :: iso

record review_row =
  r_id :: int
  r_task_id :: string
  r_stage :: int
  r_reviewer_type :: string
  r_reviewer_id :: "string option"
  r_decision :: string
  r_risk_score :: "rat option"
  r_risk_factors :: "json option"
  r_reasoning :: "string option"
  r_duration_sec :: "rat option"
  r_created_at :: iso

record alert_row =
  al_id :: int
  al_alert_type :: string
  al_severity :: string
  al_title :: string
  al_summary :: "string option"
  al_detail :: "dict option"
  al_target_type :: "string option"
  al_target_id :: "string option"
  al_status :: string
  al_actioned_by :: "int option"
  al_actioned_at :: "iso option"
  al_expires_at :: "iso option"
  al_created_at :: iso

section \<open>The database and the world\<close>

datatype table = T_Admins | T_Nodes | T_Snapshots | T_Tasks | T_Attempts | T_Logs | T_Artifacts
  | T_Audits | T_Warnings | T_Nonces | T_Reviews | T_Alerts

record database =
  d_admins :: "admin_row list"
  d_nodes :: "node_row list"
  d_snapshots :: "snapshot_row list"
  d_tasks :: "task_row list"
  d_attempts :: "attempt_row list"
  d_logs :: "log_row list"
  d_artifacts :: "artifact_row list"
  d_audits :: "audit_row list"
  d_warnings :: "warning_row list"
  d_nonces :: "nonce_row list"
  d_reviews :: "review_row list"
  d_alerts :: "alert_row list"
  d_seq :: "table \<Rightarrow> int"

definition empty_database :: database where
  "empty_database = \<lparr>d_admins = [], d_nodes = [], d_snapshots = [], d_tasks = [], d_attempts = [],
     d_logs = [], d_artifacts = [], d_audits = [], d_warnings = [], d_nonces = [], d_reviews = [],
     d_alerts = [], d_seq = (\<lambda>_. 0)\<rparr>"

text \<open>The content of a file; an archive keeps the bytes that were compressed.\<close>

datatype stored_file = Plain bytes | Gz bytes

type_synonym file_tree = "(path \<times> stored_file) list"

record world =
  db :: database
  gm :: "metric list"
  hook :: "emitter option"
  files :: file_tree
  pending_fp :: "string list"

definition empty_world :: world where
  "empty_world = \<lparr>db = empty_database, gm = [], hook = None, files = [], pending_fp = []\<rparr>"

text \<open>The errors an endpoint raises: the code and the HTTP status of an \<open>ApiError\<close>, or any other exception.\<close>

datatype api_error = Api_Error string int | Unhandled string

definition observe :: "metric list \<Rightarrow> world \<Rightarrow> world" where
  "observe ms w = w\<lparr>gm := gm w @ ms\<rparr>"

text \<open>\<open>emit_event\<close> of \<open>app/webhook.py\<close>: silent without a global emitter.\<close>

definition emit_event :: "instant \<Rightarrow> string \<Rightarrow> dict \<Rightarrow> string \<Rightarrow> world \<Rightarrow> world" where
  "emit_event now event payload severity w =
     (case hook w of None \<Rightarrow> w
      | Some em \<Rightarrow> (let (em', ms) = emit now event payload severity em in
          (observe ms w)\<lparr>hook := Some em'\<rparr>))"

text \<open>
  \<open>Database.connect\<close> as a context manager: the database is put back when the body raises, and
  nothing else is.
\<close>

definition connect :: "(world, 'e, 'a) act \<Rightarrow> (world, 'e, 'a) act" where
  "connect body w =
     (case body w of (Inr a, w') \<Rightarrow> (Inr a, w') | (Inl e, w') \<Rightarrow> (Inl e, w'\<lparr>db := db w\<rparr>))"

lemma connect_Inl_db: "connect body w = (Inl e, w') \<Longrightarrow> db w' = db w"
  by (auto simp: connect_def split: prod.splits sum.splits)

lemma connect_Inr: "connect body w = (Inr a, w') \<longleftrightarrow> body w = (Inr a, w')"
  by (auto simp: connect_def split: prod.splits sum.splits)

lemma observe_simps [simp]:
  "db (observe ms w) = db w" "hook (observe ms w) = hook w" "files (observe ms w) = files w"
  "pending_fp (observe ms w) = pending_fp w" "gm (observe ms w) = gm w @ ms"
  by (simp_all add: observe_def)

lemma emit_event_simps [simp]:
  "db (emit_event now ev p sev w) = db w" "files (emit_event now ev p sev w) = files w"
  "pending_fp (emit_event now ev p sev w) = pending_fp w"
  by (auto simp: emit_event_def split: option.splits prod.splits)

section \<open>SQL on the tables\<close>

definition next_id :: "table \<Rightarrow> database \<Rightarrow> int" where
  "next_id t d = d_seq d t + 1"

definition bump :: "table \<Rightarrow> database \<Rightarrow> database" where
  "bump t d = d\<lparr>d_seq := (d_seq d)(t := d_seq d t + 1)\<rparr>"

definition upd_tasks :: "(task_row list \<Rightarrow> task_row list) \<Rightarrow> world \<Rightarrow> world" where
  "upd_tasks f w = w\<lparr>db := (db w)\<lparr>d_tasks := f (d_tasks (db w))\<rparr>\<rparr>"

definition upd_nodes :: "(node_row list \<Rightarrow> node_row list) \<Rightarrow> world \<Rightarrow> world" where
  "upd_nodes f w = w\<lparr>db := (db w)\<lparr>d_nodes := f (d_nodes (db w))\<rparr>\<rparr>"

definition upd_alerts :: "(alert_row list \<Rightarrow> alert_row list) \<Rightarrow> world \<Rightarrow> world" where
  "upd_alerts f w = w\<lparr>db := (db w)\<lparr>d_alerts := f (d_alerts (db w))\<rparr>\<rparr>"

definition upd_admins :: "(admin_row list \<Rightarrow> admin_row list) \<Rightarrow> world \<Rightarrow> world" where
  "upd_admins f w = w\<lparr>db := (db w)\<lparr>d_admins := f (d_admins (db w))\<rparr>\<rparr>"

definition upd_logs :: "(log_row list \<Rightarrow> log_row list) \<Rightarrow> world \<Rightarrow> world" where
  "upd_logs f w = w\<lparr>db := (db w)\<lparr>d_logs := f (d_logs (db w))\<rparr>\<rparr>"

definition upd_artifacts :: "(artifact_row list \<Rightarrow> artifact_row list) \<Rightarrow> world \<Rightarrow> world" where
  "upd_artifacts f w = w\<lparr>db := (db w)\<lparr>d_artifacts := f (d_artifacts (db w))\<rparr>\<rparr>"

definition upd_attempts :: "(attempt_row list \<Rightarrow> attempt_row list) \<Rightarrow> world \<Rightarrow> world" where
  "upd_attempts f w = w\<lparr>db := (db w)\<lparr>d_attempts := f (d_attempts (db w))\<rparr>\<rparr>"

definition upd_snapshots :: "(snapshot_row list \<Rightarrow> snapshot_row list) \<Rightarrow> world \<Rightarrow> world" where
  "upd_snapshots f w = w\<lparr>db := (db w)\<lparr>d_snapshots := f (d_snapshots (db w))\<rparr>\<rparr>"

definition upd_nonces :: "(nonce_row list \<Rightarrow> nonce_row list) \<Rightarrow> world \<Rightarrow> world" where
  "upd_nonces f w = w\<lparr>db := (db w)\<lparr>d_nonces := f (d_nonces (db w))\<rparr>\<rparr>"

lemmas upd_defs = upd_tasks_def upd_nodes_def upd_alerts_def upd_admins_def upd_logs_def
  upd_artifacts_def upd_attempts_def upd_snapshots_def upd_nonces_def

text \<open>The insert of one audit event, which every admin operation ends with.\<close>

definition insert_audit ::
  "string \<Rightarrow> string option \<Rightarrow> string \<Rightarrow> string \<Rightarrow> string option \<Rightarrow> string option \<Rightarrow> dict \<Rightarrow> iso \<Rightarrow> world \<Rightarrow> world" where
  "insert_audit actor_type actor_id action target_type target_id ip detail created_at w =
     w\<lparr>db := bump T_Audits ((db w)\<lparr>d_audits := d_audits (db w) @
        [\<lparr>e_id = next_id T_Audits (db w), e_actor_type = actor_type, e_actor_id = actor_id,
          e_action = action, e_target_type = target_type, e_target_id = target_id,
          e_request_ip = ip, e_detail = detail, e_created_at = created_at\<rparr>]\<rparr>)\<rparr>"

lemma bump_simps [simp]:
  "d_admins (bump t d) = d_admins d" "d_nodes (bump t d) = d_nodes d" "d_snapshots (bump t d) = d_snapshots d"
  "d_tasks (bump t d) = d_tasks d" "d_attempts (bump t d) = d_attempts d" "d_logs (bump t d) = d_logs d"
  "d_artifacts (bump t d) = d_artifacts d" "d_audits (bump t d) = d_audits d" "d_warnings (bump t d) = d_warnings d"
  "d_nonces (bump t d) = d_nonces d" "d_reviews (bump t d) = d_reviews d" "d_alerts (bump t d) = d_alerts d"
  "d_seq (bump t d) = (d_seq d)(t := d_seq d t + 1)"
  by (simp_all add: bump_def)

lemma insert_audit_simps [simp]:
  "d_admins (db (insert_audit a b c d e f g h w)) = d_admins (db w)"
  "d_nodes (db (insert_audit a b c d e f g h w)) = d_nodes (db w)"
  "d_snapshots (db (insert_audit a b c d e f g h w)) = d_snapshots (db w)"
  "d_tasks (db (insert_audit a b c d e f g h w)) = d_tasks (db w)"
  "d_attempts (db (insert_audit a b c d e f g h w)) = d_attempts (db w)"
  "d_logs (db (insert_audit a b c d e f g h w)) = d_logs (db w)"
  "d_artifacts (db (insert_audit a b c d e f g h w)) = d_artifacts (db w)"
  "d_nonces (db (insert_audit a b c d e f g h w)) = d_nonces (db w)"
  "d_reviews (db (insert_audit a b c d e f g h w)) = d_reviews (db w)"
  "d_alerts (db (insert_audit a b c d e f g h w)) = d_alerts (db w)"
  "gm (insert_audit a b c d e f g h w) = gm w" "hook (insert_audit a b c d e f g h w) = hook w"
  "files (insert_audit a b c d e f g h w) = files w" "pending_fp (insert_audit a b c d e f g h w) = pending_fp w"
  by (simp_all add: insert_audit_def)

lemma upd_tasks_simps [simp]:
  "d_tasks (db (upd_tasks f w)) = f (d_tasks (db w))" "d_nodes (db (upd_tasks f w)) = d_nodes (db w)"
  "d_attempts (db (upd_tasks f w)) = d_attempts (db w)" "d_logs (db (upd_tasks f w)) = d_logs (db w)"
  "d_artifacts (db (upd_tasks f w)) = d_artifacts (db w)" "d_audits (db (upd_tasks f w)) = d_audits (db w)"
  "d_alerts (db (upd_tasks f w)) = d_alerts (db w)" "d_nonces (db (upd_tasks f w)) = d_nonces (db w)"
  "d_snapshots (db (upd_tasks f w)) = d_snapshots (db w)" "d_admins (db (upd_tasks f w)) = d_admins (db w)"
  "d_reviews (db (upd_tasks f w)) = d_reviews (db w)" "d_seq (db (upd_tasks f w)) = d_seq (db w)"
  "gm (upd_tasks f w) = gm w" "hook (upd_tasks f w) = hook w" "files (upd_tasks f w) = files w"
  "pending_fp (upd_tasks f w) = pending_fp w"
  by (simp_all add: upd_tasks_def)

lemma upd_nodes_simps [simp]:
  "d_nodes (db (upd_nodes f w)) = f (d_nodes (db w))" "d_tasks (db (upd_nodes f w)) = d_tasks (db w)"
  "d_attempts (db (upd_nodes f w)) = d_attempts (db w)" "d_logs (db (upd_nodes f w)) = d_logs (db w)"
  "d_artifacts (db (upd_nodes f w)) = d_artifacts (db w)" "d_audits (db (upd_nodes f w)) = d_audits (db w)"
  "d_alerts (db (upd_nodes f w)) = d_alerts (db w)" "d_nonces (db (upd_nodes f w)) = d_nonces (db w)"
  "d_snapshots (db (upd_nodes f w)) = d_snapshots (db w)" "d_admins (db (upd_nodes f w)) = d_admins (db w)"
  "d_reviews (db (upd_nodes f w)) = d_reviews (db w)" "d_seq (db (upd_nodes f w)) = d_seq (db w)"
  "gm (upd_nodes f w) = gm w" "hook (upd_nodes f w) = hook w" "files (upd_nodes f w) = files w"
  "pending_fp (upd_nodes f w) = pending_fp w"
  by (simp_all add: upd_nodes_def)

section \<open>Tables with a unique column as keyed tables\<close>

definition get_task :: "string \<Rightarrow> task_row list \<Rightarrow> task_row option" where
  "get_task k rows = List.find (\<lambda>r. t_task_id r = k) rows"

definition put_task :: "string \<Rightarrow> (task_row \<Rightarrow> task_row) \<Rightarrow> task_row list \<Rightarrow> task_row list" where
  "put_task k f rows = update_where (\<lambda>r. t_task_id r = k) f rows"

definition get_node :: "string \<Rightarrow> node_row list \<Rightarrow> node_row option" where
  "get_node k rows = List.find (\<lambda>r. n_node_id r = k) rows"

definition put_node :: "string \<Rightarrow> (node_row \<Rightarrow> node_row) \<Rightarrow> node_row list \<Rightarrow> node_row list" where
  "put_node k f rows = update_where (\<lambda>r. n_node_id r = k) f rows"

interpretation task_tab: row_table get_task put_task "\<lambda>f. \<forall>r. t_task_id (f r) = t_task_id r"
  "\<lambda>r s. s @ [r]" delete_where t_task_id "\<lambda>s. distinct (map t_task_id s)"
  using table_row_table [of t_task_id] by (simp add: get_task_def [abs_def] put_task_def [abs_def])

interpretation node_tab: row_table get_node put_node "\<lambda>f. \<forall>r. n_node_id (f r) = n_node_id r"
  "\<lambda>r s. s @ [r]" delete_where n_node_id "\<lambda>s. distinct (map n_node_id s)"
  using table_row_table [of n_node_id] by (simp add: get_node_def [abs_def] put_node_def [abs_def])

lemma get_task_in: "get_task k rows = Some r \<Longrightarrow> r \<in> set rows \<and> t_task_id r = k"
  unfolding get_task_def by (rule find_Some_in)

lemma get_task_None: "get_task k rows = None \<longleftrightarrow> (\<forall>r \<in> set rows. t_task_id r \<noteq> k)"
  unfolding get_task_def by (rule find_None_all)

lemma get_task_unique: "distinct (map t_task_id rows) \<Longrightarrow> r \<in> set rows \<Longrightarrow> get_task (t_task_id r) rows = Some r"
  unfolding get_task_def by (rule find_distinct_key)

lemma get_node_in: "get_node k rows = Some r \<Longrightarrow> r \<in> set rows \<and> n_node_id r = k"
  unfolding get_node_def by (rule find_Some_in)

section \<open>The operations of \<open>Database\<close>\<close>

text \<open>\<open>trim_node_status_history\<close>: the rows of a node that are not among its \<open>keep\<close> newest go.\<close>

definition newest_snapshots :: "string \<Rightarrow> nat \<Rightarrow> snapshot_row list \<Rightarrow> snapshot_row list" where
  "newest_snapshots node keep rows =
     take keep (order_by_desc (\<lambda>r. (s_reported_at r, s_id r)) (filter (\<lambda>r. s_node_id r = node) rows))"

text \<open>A negative limit is no limit in SQLite.\<close>

definition trim_node_status_history :: "string \<Rightarrow> int \<Rightarrow> world \<Rightarrow> world" where
  "trim_node_status_history node keep w =
     upd_snapshots (\<lambda>rows.
       let kept = (if keep < 0 then filter (\<lambda>r. s_node_id r = node) rows
                   else newest_snapshots node (nat keep) rows)
       in delete_where (\<lambda>r. s_node_id r = node \<and> s_id r \<notin> s_id ` set kept) rows) w"

definition prune_expired_nonces :: "iso \<Rightarrow> world \<Rightarrow> world" where
  "prune_expired_nonces now_iso w = upd_nonces (delete_where (\<lambda>r. c_expires_at r < now_iso)) w"

text \<open>
  \<open>claim_next_task_for_node\<close>: the oldest pending task of the node, when the node has no active
  task. The statement returns the row it claimed.
\<close>

definition node_has_active :: "string \<Rightarrow> task_row list \<Rightarrow> bool" where
  "node_has_active node rows \<longleftrightarrow>
     (\<exists>r \<in> set rows. t_node_id r = node \<and> t_status r \<in> {Claimed, Running, Cancel_Requested})"

definition next_pending :: "string \<Rightarrow> task_row list \<Rightarrow> task_row option" where
  "next_pending node rows =
     (if node_has_active node rows then None
      else (case order_by (\<lambda>r. (t_created_at r, t_id r))
                  (filter (\<lambda>r. t_node_id r = node \<and> t_status r = Pending) rows) of
              [] \<Rightarrow> None | r # _ \<Rightarrow> Some r))"

definition claim_next_task_for_node :: "string \<Rightarrow> iso \<Rightarrow> world \<Rightarrow> task_row option \<times> world" where
  "claim_next_task_for_node node claimed_at w =
     (case next_pending node (d_tasks (db w)) of
        None \<Rightarrow> (None, w)
      | Some r \<Rightarrow>
          (let w' = upd_tasks (update_where (\<lambda>x. t_task_id x = t_task_id r \<and> t_status x = Pending)
                      (\<lambda>x. x\<lparr>t_status := Claimed, t_claimed_at := Some claimed_at\<rparr>)) w
           in (get_task (t_task_id r) (d_tasks (db w')), w')))"

text \<open>\<open>sync_reported_active_task\<close>: the task a node says it runs, claimed when it was still pending.\<close>

definition sync_reported_active_task ::
  "string \<Rightarrow> string option \<Rightarrow> iso \<Rightarrow> world \<Rightarrow> task_row option \<times> world" where
  "sync_reported_active_task node active_task_id claimed_at w =
     (if \<not> truthy active_task_id then (None, w)
      else
        (let tid = the active_task_id;
             sel = List.find (\<lambda>r. t_node_id r = node \<and> t_task_id r = tid)
         in case sel (d_tasks (db w)) of
              None \<Rightarrow> (None, w)
            | Some row \<Rightarrow>
                if t_status row = Pending then
                  (let w' = upd_tasks (put_task tid (\<lambda>x. x\<lparr>t_status := Claimed,
                              t_claimed_at := coalesce (t_claimed_at x) (Some claimed_at)\<rparr>)) w
                   in (sel (d_tasks (db w')), w'))
                else (Some row, w)))"

end
