(* ===== verification/Examples.thy ===== *)
theory Examples
  imports Store
begin

text \<open>
  Concrete rows and worlds at which the witnesses of the development apply its theorems. None of
  them models code.
\<close>

definition sample_task :: "string \<Rightarrow> string \<Rightarrow> task_status \<Rightarrow> int \<Rightarrow> task_row" where
  "sample_task task_id node st i = \<lparr>t_id = i, t_task_id = task_id, t_revision = 1, t_idempotency_key = task_id,
     t_node_id = node, t_type = ''shell_exec'', t_status = st, t_payload = [], t_workdir = None, t_env = [],
     t_requested_gpu_ids = [], t_timeout_sec = 60, t_kill_grace_sec = 10, t_danger_level = ''normal'',
     t_created_by_admin_id = None, t_created_at = ''2026-01-01T00:00:00+00:00'', t_claimed_at = None,
     t_started_at = None, t_finished_at = None, t_result_locked_at = None, t_review_stage = None,
     t_review_decision = None, t_review_detail = None, t_review_admin_id = None, t_review_started_at = None,
     t_review_finished_at = None\<rparr>"

definition sample_node :: "string \<Rightarrow> int \<Rightarrow> node_row" where
  "sample_node node i = \<lparr>n_id = i, n_node_id = node, n_display_name = node, n_node_signing_key = Some ''key'',
     n_encrypted_signing_key = None, n_onboarding_token_encrypted = None, n_onboarding_token_created_at = None,
     n_onboarding_token_expires_at = None, n_node_type = ''gpu'', n_os_type = None, n_hostname = None,
     n_heartbeat_interval_sec = 30, n_allowed_workdirs = [], n_tags = [], n_allow_shell = True,
     n_allow_modal = True, n_is_enabled = True, n_first_seen_at = None, n_last_seen_at = None,
     n_last_request_ts = None, n_last_boot_id = None, n_created_at = ''2026-01-01T00:00:00+00:00'',
     n_updated_at = ''2026-01-01T00:00:00+00:00''\<rparr>"

definition sample_world :: "node_row list \<Rightarrow> task_row list \<Rightarrow> world" where
  "sample_world ns ts = empty_world\<lparr>db := empty_database\<lparr>d_nodes := ns, d_tasks := ts\<rparr>\<rparr>"

lemma sample_world_simps [simp]:
  "d_tasks (db (sample_world ns ts)) = ts" "d_nodes (db (sample_world ns ts)) = ns"
  "files (sample_world ns ts) = []" "hook (sample_world ns ts) = None" "d_logs (db (sample_world ns ts)) = []"
  by (simp_all add: sample_world_def empty_world_def empty_database_def)

lemma sample_task_simps [simp]:
  "t_task_id (sample_task k n s i) = k" "t_node_id (sample_task k n s i) = n" "t_status (sample_task k n s i) = s"
  "t_id (sample_task k n s i) = i" "t_result_locked_at (sample_task k n s i) = None"
  "t_started_at (sample_task k n s i) = None" "t_finished_at (sample_task k n s i) = None"
  "t_claimed_at (sample_task k n s i) = None" "t_created_at (sample_task k n s i) = ''2026-01-01T00:00:00+00:00''"
  "t_review_stage (sample_task k n s i) = None"
  by (simp_all add: sample_task_def)

lemma sample_node_simps [simp]:
  "n_node_id (sample_node k i) = k" "n_id (sample_node k i) = i" "n_is_enabled (sample_node k i)"
  "n_last_request_ts (sample_node k i) = None"
  by (simp_all add: sample_node_def)

end
