(* ===== verification/Task_State.thy ===== *)
theory Task_State
  imports Store Examples
begin

text \<open>
  \<open>app/services/task_state.py\<close>: every change of a task's status. \<open>transition_task\<close> and
  \<open>finalize_task_result\<close> follow the source statement by statement; \<open>row_step\<close> is the state machine
  they implement, a function on one row, and \<open>transition_refines\<close> is the refinement: a transition
  answers as \<open>row_step\<close> does and writes its result into that row and no other.
\<close>

section \<open>Errors and metrics\<close>

datatype task_state_error =
  Task_Not_Found
| Invalid_Transition task_status task_event
| Already_Terminal
| Cannot_Cancel_Now
| Not_Under_Review
| Already_Human_Stage
| Not_Awaiting_Human
| Cannot_Accept_Result task_status
| Unsupported_Event task_event

text \<open>
  \<open>_seconds_between\<close>, in microseconds: \<open>Inl\<close> is the TypeError of subtracting a naive from an aware
  datetime, \<open>Inr None\<close> the missing or unreadable timestamp.
\<close>

definition seconds_between :: "iso option \<Rightarrow> iso option \<Rightarrow> unit + int option" where
  "seconds_between start finish =
     (if \<not> truthy start \<or> \<not> truthy finish then Inr None
      else (case (fromisoformat (the finish), fromisoformat (the start)) of
              (Some (e, eo), Some (s, so)) \<Rightarrow>
                if (eo = None) \<noteq> (so = None) then Inl ()
                else Inr (Some (max 0 (to_utc (e, eo) - to_utc (s, so))))
            | _ \<Rightarrow> Inr None))"

fun terminal_result :: "task_status \<Rightarrow> string" where
  "terminal_result Succeeded = ''success''"
| "terminal_result Failed = ''fail''"
| "terminal_result Timeout = ''timeout''"
| "terminal_result Lost = ''lost''"
| "terminal_result Cancelled = ''cancelled''"
| "terminal_result Rejected = ''fail''"
| "terminal_result Review_Expired = ''timeout''"
| "terminal_result _ = ''fail''"

definition record_task_transition_metrics :: "task_row \<Rightarrow> task_status \<Rightarrow> iso \<Rightarrow> world \<Rightarrow> world" where
  "record_task_transition_metrics row target observed_at w =
     observe
       ((if target = Claimed then
           (case seconds_between (Some (t_created_at row)) (Some observed_at) of
              Inr (Some l) \<Rightarrow> [TASK_CLAIM_LATENCY l] | _ \<Rightarrow> [])
         else []) @
        (if target \<in> TERMINAL_TASK_STATUSES then
           TASK_COMPLETED (terminal_result target) #
           (case seconds_between (t_claimed_at row) (Some observed_at) of
              Inr (Some d) \<Rightarrow> [TASK_DURATION (terminal_result target) d] | _ \<Rightarrow> [])
         else [])) w"

lemma record_metrics_simps [simp]:
  "db (record_task_transition_metrics row t o' w) = db w"
  "hook (record_task_transition_metrics row t o' w) = hook w"
  "files (record_task_transition_metrics row t o' w) = files w"
  "pending_fp (record_task_transition_metrics row t o' w) = pending_fp w"
  by (simp_all add: record_task_transition_metrics_def)

section \<open>Transitions\<close>

definition get_task_row :: "string \<Rightarrow> (world, task_state_error, task_row) act" where
  "get_task_row task_id w =
     (case get_task task_id (d_tasks (db w)) of None \<Rightarrow> (Inl Task_Not_Found, w) | Some r \<Rightarrow> (Inr r, w))"

definition transition_task ::
  "string \<Rightarrow> task_event \<Rightarrow> iso \<Rightarrow> iso option \<Rightarrow> iso option \<Rightarrow> int option \<Rightarrow> string option \<Rightarrow>
   (world, task_state_error, task_row) act" where
  "transition_task task_id event now_iso started_at finished_at review_admin_id danger_level w =
     (case get_task task_id (d_tasks (db w)) of
        None \<Rightarrow> (Inl Task_Not_Found, w)
      | Some row \<Rightarrow>
        (case TASK_EVENT_TRANSITIONS event of
           Some (target, from) \<Rightarrow>
             if t_status row \<notin> from then (Inl (Invalid_Transition (t_status row) event), w)
             else
               (let eff_started = (if event = Ev_Running \<and> t_started_at row = None
                                   then Some (or_else started_at now_iso) else t_started_at row);
                    eff_finished = (if target \<in> TERMINAL_TASK_STATUSES \<and> t_finished_at row = None
                                    then Some (or_else finished_at now_iso) else t_finished_at row);
                    w1 = upd_tasks (put_task task_id (\<lambda>r. r\<lparr>t_status := target,
                           t_started_at := eff_started, t_finished_at := eff_finished\<rparr>)) w
                in get_task_row task_id
                     (record_task_transition_metrics row target (or_else eff_finished now_iso) w1))
         | None \<Rightarrow>
        (case event of
           Ev_Cancel \<Rightarrow>
             if t_status row \<in> TERMINAL_TASK_STATUSES then (Inl Already_Terminal, w)
             else if t_status row = Pending then
               (let w1 = upd_tasks (put_task task_id (\<lambda>r. r\<lparr>t_status := Cancelled,
                           t_finished_at := Some (or_else finished_at now_iso)\<rparr>)) w
                in get_task_row task_id
                     (record_task_transition_metrics row Cancelled (or_else finished_at now_iso) w1))
             else if t_status row \<in> ACTIVE_TASK_STATUSES then
               get_task_row task_id
                 (upd_tasks (put_task task_id (\<lambda>r. r\<lparr>t_status := Cancel_Requested,
                    t_finished_at := coalesce finished_at (t_finished_at r)\<rparr>)) w)
             else (Inl Cannot_Cancel_Now, w)
         | Ev_Review_Escalate \<Rightarrow>
             if t_status row \<noteq> Reviewing then (Inl Not_Under_Review, w)
             else if t_review_stage row = Some 3 then (Inl Already_Human_Stage, w)
             else get_task_row task_id
               (upd_tasks (put_task task_id (\<lambda>r. r\<lparr>t_review_stage := Some 3,
                  t_review_decision := Some ''pending_human'', t_review_started_at := Some now_iso,
                  t_review_finished_at := None\<rparr>)) w)
         | Ev_Review_Approve \<Rightarrow>
             if t_status row \<noteq> Reviewing \<or> t_review_stage row \<noteq> Some 3 then (Inl Not_Awaiting_Human, w)
             else get_task_row task_id
               (upd_tasks (update_where (\<lambda>r. t_task_id r = task_id \<and> t_status r = Reviewing)
                  (\<lambda>r. r\<lparr>t_status := Pending, t_review_decision := Some ''human_approved'',
                     t_danger_level := or_else danger_level ''human_approved'',
                     t_review_admin_id := review_admin_id, t_review_finished_at := Some now_iso\<rparr>)) w)
         | Ev_Review_Reject \<Rightarrow>
             if t_status row \<noteq> Reviewing then (Inl Not_Under_Review, w)
             else
               (let w1 = upd_tasks (update_where (\<lambda>r. t_task_id r = task_id \<and> t_status r = Reviewing)
                  (\<lambda>r. r\<lparr>t_status := Rejected, t_review_decision := Some ''human_rejected'',
                     t_review_admin_id := review_admin_id, t_review_finished_at := Some now_iso\<rparr>)) w
                in get_task_row task_id (record_task_transition_metrics row Rejected now_iso w1))
         | Ev_Review_Expire \<Rightarrow>
             if t_status row \<noteq> Reviewing then (Inl Not_Under_Review, w)
             else
               (let w1 = upd_tasks (update_where (\<lambda>r. t_task_id r = task_id \<and> t_status r = Reviewing)
                  (\<lambda>r. r\<lparr>t_status := Review_Expired, t_review_decision := Some ''expired'',
                     t_review_finished_at := Some now_iso\<rparr>)) w
                in get_task_row task_id (record_task_transition_metrics row Review_Expired now_iso w1))
         | Ev_Background_Timeout \<Rightarrow>
             (let w1 = upd_tasks (put_task task_id (\<lambda>r. r\<lparr>t_status := Timeout,
                         t_finished_at := Some (or_else finished_at now_iso)\<rparr>)) w
              in get_task_row task_id
                   (record_task_transition_metrics row Timeout (or_else finished_at now_iso) w1))
         | Ev_Background_Lost \<Rightarrow>
             (let w1 = upd_tasks (put_task task_id (\<lambda>r. r\<lparr>t_status := Lost,
                         t_finished_at := Some (or_else finished_at now_iso)\<rparr>)) w
              in get_task_row task_id
                   (record_task_transition_metrics row Lost (or_else finished_at now_iso) w1))
         | _ \<Rightarrow> (Inl (Unsupported_Event event), w))))"

text \<open>
  \<open>finalize_task_result\<close>: the row and whether the result is a duplicate. The update is guarded in
  SQL by the lock column and the status.
\<close>

definition result_open :: "task_row \<Rightarrow> bool" where
  "result_open r \<longleftrightarrow> t_result_locked_at r = None \<and> t_status r \<in> {Claimed, Running, Cancel_Requested}"

definition finalize_task_result ::
  "string \<Rightarrow> task_status \<Rightarrow> iso \<Rightarrow> iso \<Rightarrow> iso \<Rightarrow> (world, task_state_error, task_row \<times> bool) act" where
  "finalize_task_result task_id final_status started_at finished_at now_iso w =
     (case get_task task_id (d_tasks (db w)) of
        None \<Rightarrow> (Inl Task_Not_Found, w)
      | Some row \<Rightarrow>
        if t_status row \<notin> RESULT_ACCEPTING_TASK_STATUSES \<and> t_status row \<notin> TERMINAL_TASK_STATUSES
        then (Inl (Cannot_Accept_Result (t_status row)), w)
        else
          (let P = (\<lambda>r. t_task_id r = task_id \<and> result_open r);
               n = rowcount P (d_tasks (db w));
               w1 = upd_tasks (update_where P (\<lambda>r. r\<lparr>t_status := final_status,
                      t_started_at := Some started_at, t_finished_at := Some finished_at,
                      t_result_locked_at := Some now_iso\<rparr>)) w
           in if n \<noteq> 1 then
                (case get_task task_id (d_tasks (db w1)) of
                   None \<Rightarrow> (Inl Task_Not_Found, w1)
                 | Some row1 \<Rightarrow>
                     if t_status row1 \<in> TERMINAL_TASK_STATUSES then (Inr (row1, True), w1)
                     else (Inl (Cannot_Accept_Result (t_status row1)), w1))
              else
                (let w2 = record_task_transition_metrics row final_status finished_at w1 in
                 case get_task task_id (d_tasks (db w2)) of
                   None \<Rightarrow> (Inl Task_Not_Found, w2)
                 | Some row2 \<Rightarrow> (Inr (row2, False), w2))))"

section \<open>The state machine of one task\<close>

definition row_step ::
  "task_event \<Rightarrow> iso \<Rightarrow> iso option \<Rightarrow> iso option \<Rightarrow> int option \<Rightarrow> string option \<Rightarrow>
   task_row \<Rightarrow> task_state_error + task_row" where
  "row_step event now started finished admin danger r =
     (case TASK_EVENT_TRANSITIONS event of
        Some (target, from) \<Rightarrow>
          if t_status r \<notin> from then Inl (Invalid_Transition (t_status r) event)
          else Inr (r\<lparr>t_status := target,
            t_started_at := (if event = Ev_Running then coalesce (t_started_at r) (Some (or_else started now))
                             else t_started_at r),
            t_finished_at := (if target \<in> TERMINAL_TASK_STATUSES
                              then coalesce (t_finished_at r) (Some (or_else finished now))
                              else t_finished_at r)\<rparr>)
      | None \<Rightarrow>
     (case event of
        Ev_Cancel \<Rightarrow>
          if t_status r \<in> TERMINAL_TASK_STATUSES then Inl Already_Terminal
          else if t_status r = Pending then
            Inr (r\<lparr>t_status := Cancelled, t_finished_at := Some (or_else finished now)\<rparr>)
          else if t_status r \<in> ACTIVE_TASK_STATUSES then
            Inr (r\<lparr>t_status := Cancel_Requested, t_finished_at := coalesce finished (t_finished_at r)\<rparr>)
          else Inl Cannot_Cancel_Now
      | Ev_Review_Escalate \<Rightarrow>
          if t_status r \<noteq> Reviewing then Inl Not_Under_Review
          else if t_review_stage r = Some 3 then Inl Already_Human_Stage
          else Inr (r\<lparr>t_review_stage := Some 3, t_review_decision := Some ''pending_human'',
            t_review_started_at := Some now, t_review_finished_at := None\<rparr>)
      | Ev_Review_Approve \<Rightarrow>
          if t_status r = Reviewing \<and> t_review_stage r = Some 3 then
            Inr (r\<lparr>t_status := Pending, t_review_decision := Some ''human_approved'',
              t_danger_level := or_else danger ''human_approved'',
              t_review_admin_id := admin, t_review_finished_at := Some now\<rparr>)
          else Inl Not_Awaiting_Human
      | Ev_Review_Reject \<Rightarrow>
          if t_status r = Reviewing then
            Inr (r\<lparr>t_status := Rejected, t_review_decision := Some ''human_rejected'',
              t_review_admin_id := admin, t_review_finished_at := Some now\<rparr>)
          else Inl Not_Under_Review
      | Ev_Review_Expire \<Rightarrow>
          if t_status r = Reviewing then
            Inr (r\<lparr>t_status := Review_Expired, t_review_decision := Some ''expired'',
              t_review_finished_at := Some now\<rparr>)
          else Inl Not_Under_Review
      | Ev_Background_Timeout \<Rightarrow>
          Inr (r\<lparr>t_status := Timeout, t_finished_at := Some (or_else finished now)\<rparr>)
      | Ev_Background_Lost \<Rightarrow>
          Inr (r\<lparr>t_status := Lost, t_finished_at := Some (or_else finished now)\<rparr>)
      | _ \<Rightarrow> Inl (Unsupported_Event event)))"

text \<open>\<open>wrote_task tid row w w'\<close>: the row \<open>tid\<close> is now \<open>row\<close>; of the rest, only metrics were added.\<close>

definition wrote_task :: "string \<Rightarrow> task_row \<Rightarrow> world \<Rightarrow> world \<Rightarrow> bool" where
  "wrote_task tid row w w' \<longleftrightarrow>
     db w' = (db w)\<lparr>d_tasks := put_task tid (\<lambda>_. row) (d_tasks (db w))\<rparr> \<and>
     hook w' = hook w \<and> files w' = files w \<and> pending_fp w' = pending_fp w \<and>
     (\<exists>ms. gm w' = gm w @ ms)"

lemma put_task_const:
  assumes "distinct (map t_task_id rows)" and "get_task tid rows = Some row"
  shows "put_task tid f rows = put_task tid (\<lambda>_. f row) rows"
proof -
  have "\<forall>r \<in> set rows. t_task_id r = tid \<longrightarrow> r = row"
    using assms get_task_unique [OF assms(1)] by (metis option.inject)
  then show ?thesis by (auto simp: put_task_def update_where_def)
qed

lemma put_task_cond:
  assumes "distinct (map t_task_id rows)" and "get_task tid rows = Some row" and "Q row"
  shows "update_where (\<lambda>r. t_task_id r = tid \<and> Q r) f rows = put_task tid (\<lambda>_. f row) rows"
  using update_where_conj_key [of t_task_id rows tid row Q f] assms put_task_const [OF assms(1,2), of f]
  by (simp add: get_task_def put_task_def)

lemma get_put_task_other:
  assumes "t_task_id row' = tid" and "k \<noteq> tid"
  shows "get_task k (put_task tid (\<lambda>_. row') rows) = get_task k rows"
  using assms unfolding get_task_def put_task_def by (induction rows) (auto simp: update_where_def)

lemma get_put_task_same:
  assumes "t_task_id row' = tid" and "get_task tid rows = Some row"
  shows "get_task tid (put_task tid (\<lambda>_. row') rows) = Some row'"
  using assms unfolding get_task_def put_task_def
  by (induction rows) (auto simp: update_where_def split: if_splits)

lemma set_put_task:
  assumes "get_task tid rows = Some row"
  shows "set (put_task tid (\<lambda>_. row') rows) = insert row' {r \<in> set rows. t_task_id r \<noteq> tid}"
  using assms get_task_in [OF assms] by (auto simp: put_task_def set_update_where)

text \<open>What a statement of \<open>transition_task\<close> that writes one row and reads it back leaves behind.\<close>

lemma finish_put:
  assumes "distinct (map t_task_id (d_tasks (db w)))" and "get_task tid (d_tasks (db w)) = Some row"
    and "f row = row'" and "t_task_id row' = tid"
  shows "\<exists>w'. get_task_row tid (upd_tasks (put_task tid f) w) = (Inr row', w') \<and> wrote_task tid row' w w'"
    and "\<exists>w'. get_task_row tid (record_task_transition_metrics r t obs (upd_tasks (put_task tid f) w)) =
           (Inr row', w') \<and> wrote_task tid row' w w'"
  using assms get_put_task_same [OF assms(4,2)] put_task_const [OF assms(1,2), of f]
  by (simp_all add: get_task_row_def wrote_task_def upd_tasks_def record_task_transition_metrics_def observe_def)

lemma finish_put_cond:
  assumes "distinct (map t_task_id (d_tasks (db w)))" and "get_task tid (d_tasks (db w)) = Some row"
    and "Q row" and "f row = row'" and "t_task_id row' = tid"
  shows "\<exists>w'. get_task_row tid (upd_tasks (update_where (\<lambda>r. t_task_id r = tid \<and> Q r) f) w) =
           (Inr row', w') \<and> wrote_task tid row' w w'"
    and "\<exists>w'. get_task_row tid (record_task_transition_metrics r t obs
             (upd_tasks (update_where (\<lambda>r. t_task_id r = tid \<and> Q r) f) w)) =
           (Inr row', w') \<and> wrote_task tid row' w w'"
  using assms get_put_task_same [OF assms(5,2)] put_task_cond [of "d_tasks (db w)" tid row Q f, OF assms(1,2,3)]
  by (simp_all add: get_task_row_def wrote_task_def upd_tasks_def record_task_transition_metrics_def observe_def)

text \<open>The refinement.\<close>

lemma row_step_key: "row_step e now st fi ad da r = Inr r' \<Longrightarrow> t_task_id r' = t_task_id r"
  by (cases e) (auto simp: row_step_def split: if_splits)

lemma coalesce_if: "(if x = None then Some y else x) = coalesce x (Some y)"
  by (cases x) auto

lemma transition_refines_listed:
  assumes u: "distinct (map t_task_id (d_tasks (db w)))" and g: "get_task tid (d_tasks (db w)) = Some row"
    and t: "TASK_EVENT_TRANSITIONS event = Some (target, from)"
  shows "case row_step event now st fi ad da row of
      Inl err \<Rightarrow> transition_task tid event now st fi ad da w = (Inl err, w)
    | Inr row' \<Rightarrow> \<exists>w'. transition_task tid event now st fi ad da w = (Inr row', w') \<and> wrote_task tid row' w w'"
proof (cases "t_status row \<in> from")
  case False
  then show ?thesis by (simp add: row_step_def transition_task_def g t)
next
  case True
  have key: "t_task_id row = tid" using get_task_in [OF g] by simp
  define f where "f = (\<lambda>r :: task_row. r\<lparr>t_status := target,
      t_started_at := (if event = Ev_Running \<and> t_started_at row = None
                       then Some (or_else st now) else t_started_at row),
      t_finished_at := (if target \<in> TERMINAL_TASK_STATUSES \<and> t_finished_at row = None
                        then Some (or_else fi now) else t_finished_at row)\<rparr>)"
  have step: "row_step event now st fi ad da row = Inr (f row)"
    using True by (cases "t_started_at row"; cases "t_finished_at row") (simp_all add: row_step_def t f_def)
  have run: "\<exists>obs. transition_task tid event now st fi ad da w =
      get_task_row tid (record_task_transition_metrics row target obs (upd_tasks (put_task tid f) w))"
    using True by (simp only: transition_task_def g t f_def Let_def option.case prod.case) (simp, blast)
  have "t_task_id (f row) = tid" by (simp add: f_def key)
  with run step show ?thesis
    using finish_put(2) [OF u g, of f "f row" row target] by auto
qed

lemma transition_refines:
  assumes u: "distinct (map t_task_id (d_tasks (db w)))" and g: "get_task tid (d_tasks (db w)) = Some row"
  shows "case row_step event now st fi ad da row of
      Inl err \<Rightarrow> transition_task tid event now st fi ad da w = (Inl err, w)
    | Inr row' \<Rightarrow> \<exists>w'. transition_task tid event now st fi ad da w = (Inr row', w') \<and> wrote_task tid row' w w'"
proof (cases "TASK_EVENT_TRANSITIONS event")
  case (Some p)
  then show ?thesis using transition_refines_listed [OF u g] by (cases p) auto
next
  case None
  have key: "t_task_id row = tid" using get_task_in [OF g] by simp
  note d = row_step_def transition_task_def g None Let_def key
  show ?thesis
  proof (cases event)
    case Ev_Cancel
    then show ?thesis by (auto simp: d intro!: finish_put [OF u g] finish_put_cond [OF u g])
  next
    case Ev_Review_Escalate
    then show ?thesis by (auto simp: d intro!: finish_put [OF u g] finish_put_cond [OF u g])
  next
    case Ev_Review_Approve
    then show ?thesis by (auto simp: d intro!: finish_put [OF u g] finish_put_cond [OF u g])
  next
    case Ev_Review_Reject
    then show ?thesis by (auto simp: d intro!: finish_put [OF u g] finish_put_cond [OF u g])
  next
    case Ev_Review_Expire
    then show ?thesis by (auto simp: d intro!: finish_put [OF u g] finish_put_cond [OF u g])
  next
    case Ev_Background_Timeout
    then show ?thesis by (auto simp: d intro!: finish_put [OF u g] finish_put_cond [OF u g])
  next
    case Ev_Background_Lost
    then show ?thesis by (auto simp: d intro!: finish_put [OF u g] finish_put_cond [OF u g])
  next
    case (Ev_Other x)
    then show ?thesis by (simp add: d)
  qed (use None in simp_all)
qed

lemma transition_missing:
  "get_task tid (d_tasks (db w)) = None \<Longrightarrow>
   transition_task tid event now st fi ad da w = (Inl Task_Not_Found, w)"
  by (simp add: transition_task_def)

lemma transition_Inr:
  assumes u: "distinct (map t_task_id (d_tasks (db w)))"
    and t: "transition_task tid event now st fi ad da w = (Inr row', w')"
  obtains row where "get_task tid (d_tasks (db w)) = Some row"
    and "row_step event now st fi ad da row = Inr row'" and "wrote_task tid row' w w'"
proof (cases "get_task tid (d_tasks (db w))")
  case None
  with t show ?thesis by (simp add: transition_missing)
next
  case (Some row)
  show ?thesis
    using transition_refines [OF u Some, of event now st fi ad da] t that [OF Some]
    by (auto split: sum.splits)
qed

lemma transition_Inl:
  assumes u: "distinct (map t_task_id (d_tasks (db w)))"
    and t: "transition_task tid event now st fi ad da w = (Inl e, w')"
  shows "w' = w"
proof (cases "get_task tid (d_tasks (db w))")
  case None
  with t show ?thesis by (simp add: transition_missing)
next
  case (Some row)
  show ?thesis
    using transition_refines [OF u Some, of event now st fi ad da] t by (auto split: sum.splits)
qed

section \<open>The graph of the state machine\<close>

text \<open>\<open>task_edge from to\<close>: some event other than the two of the background loop leads from one to the other.\<close>

inductive task_edge :: "task_status \<Rightarrow> task_status \<Rightarrow> bool" where
  report: "TASK_EVENT_TRANSITIONS e = Some (b, S) \<Longrightarrow> a \<in> S \<Longrightarrow> task_edge a b"
| cancel_pending: "task_edge Pending Cancelled"
| cancel_active: "a \<in> ACTIVE_TASK_STATUSES \<Longrightarrow> task_edge a Cancel_Requested"
| escalate: "task_edge Reviewing Reviewing"
| approve: "task_edge Reviewing Pending"
| reject: "task_edge Reviewing Rejected"
| expire: "task_edge Reviewing Review_Expired"

definition background_events :: "task_event set" where
  "background_events = {Ev_Background_Timeout, Ev_Background_Lost}"

lemma row_step_edge:
  assumes "row_step e now st fi ad da r = Inr r'" and "e \<notin> background_events"
  shows "task_edge (t_status r) (t_status r')"
proof (cases "TASK_EVENT_TRANSITIONS e")
  case (Some p)
  then obtain b S where p: "TASK_EVENT_TRANSITIONS e = Some (b, S)" by (cases p) auto
  with assms(1) have "t_status r \<in> S" and "t_status r' = b" by (auto simp: row_step_def split: if_splits)
  with p show ?thesis by (auto intro: report)
next
  case None
  with assms show ?thesis
    by (cases e) (auto simp: row_step_def background_events_def intro: task_edge.intros split: if_splits)
qed

lemma listed_from_active:
  "TASK_EVENT_TRANSITIONS e = Some (b, S) \<Longrightarrow> a \<in> S \<Longrightarrow>
   a \<in> {Claimed, Running, Cancel_Requested} \<and> b \<notin> {Reviewing, Pending, Cancel_Requested}"
  by (cases e) auto

lemma edge_not_terminal: "task_edge a b \<Longrightarrow> a \<notin> TERMINAL_TASK_STATUSES"
  by (induction rule: task_edge.induct) (auto dest: listed_from_active simp: status_sets)

lemma edge_leaves_review: "task_edge a b \<Longrightarrow> a = Reviewing \<Longrightarrow> b \<in> {Reviewing, Pending, Rejected, Review_Expired}"
  by (induction rule: task_edge.induct) (auto dest: listed_from_active simp: ACTIVE_TASK_STATUSES_def)

lemma row_step_terminal:
  assumes "t_status r \<in> TERMINAL_TASK_STATUSES" and "e \<notin> background_events"
  shows "\<exists>err. row_step e now st fi ad da r = Inl err"
  using assms row_step_edge [of e now st fi ad da r] edge_not_terminal
  by (cases "row_step e now st fi ad da r") auto

text \<open>Only an administrator's approval takes a task out of review to the queue.\<close>

lemma row_step_out_of_review:
  assumes "row_step e now st fi ad da r = Inr r'" and "t_status r = Reviewing"
    and "t_status r' \<notin> {Reviewing, Rejected, Review_Expired}" and "e \<notin> background_events"
  shows "e = Ev_Review_Approve \<and> t_review_stage r = Some 3 \<and> t_status r' = Pending \<and>
    t_review_decision r' = Some ''human_approved'' \<and> t_review_admin_id r' = ad"
proof (cases "TASK_EVENT_TRANSITIONS e")
  case (Some p)
  then obtain b S where p: "TASK_EVENT_TRANSITIONS e = Some (b, S)" by (cases p) auto
  with assms(1,2) listed_from_active [OF p] show ?thesis
    by (auto simp: row_step_def ACTIVE_TASK_STATUSES_def split: if_splits)
next
  case None
  with assms show ?thesis
    by (cases e) (auto simp: row_step_def background_events_def ACTIVE_TASK_STATUSES_def split: if_splits)
qed

section \<open>Final results\<close>

text \<open>The row that an accepted result leaves.\<close>

definition with_result :: "task_status \<Rightarrow> iso \<Rightarrow> iso \<Rightarrow> iso \<Rightarrow> task_row \<Rightarrow> task_row" where
  "with_result final started finished now r = r\<lparr>t_status := final, t_started_at := Some started,
     t_finished_at := Some finished, t_result_locked_at := Some now\<rparr>"

lemma with_result_key [simp]: "t_task_id (with_result fs s f n r) = t_task_id r"
  by (simp add: with_result_def)

lemma task_conj_key:
  assumes "distinct (map t_task_id rows)" and "get_task tid rows = Some row"
  shows "Q row \<Longrightarrow> rowcount (\<lambda>r. t_task_id r = tid \<and> Q r) rows = 1"
    and "\<not> Q row \<Longrightarrow> rowcount (\<lambda>r. t_task_id r = tid \<and> Q r) rows = 0"
    and "\<not> Q row \<Longrightarrow> update_where (\<lambda>r. t_task_id r = tid \<and> Q r) f rows = rows"
  using rowcount_conj_key [OF assms(1), of tid row Q] update_where_conj_key_none [OF assms(1), of tid row Q] assms(2)
  by (simp_all add: get_task_def)

lemma upd_tasks_id [simp]: "upd_tasks (\<lambda>rows. rows) w = w"
  by (simp add: upd_tasks_def)

lemma upd_tasks_same: "f (d_tasks (db w)) = d_tasks (db w) \<Longrightarrow> upd_tasks f w = w"
  by (simp add: upd_tasks_def)

lemma finalize_accepts:
  assumes u: "distinct (map t_task_id (d_tasks (db w)))" and g: "get_task tid (d_tasks (db w)) = Some row"
    and ro: "result_open row"
  shows "\<exists>w'. finalize_task_result tid fs s f now w = (Inr (with_result fs s f now row, False), w') \<and>
    wrote_task tid (with_result fs s f now row) w w'"
proof -
  have st: "t_status row \<in> RESULT_ACCEPTING_TASK_STATUSES"
    using ro by (auto simp: result_open_def RESULT_ACCEPTING_TASK_STATUSES_def)
  have key: "t_task_id (with_result fs s f now row) = tid" using get_task_in [OF g] by simp
  have wr: "update_where (\<lambda>r. t_task_id r = tid \<and> result_open r) (with_result fs s f now) (d_tasks (db w)) =
      put_task tid (\<lambda>_. with_result fs s f now row) (d_tasks (db w))"
    by (rule put_task_cond [of _ _ row result_open, OF u g ro])
  show ?thesis
    using st task_conj_key(1) [of "d_tasks (db w)" tid row result_open, OF u g ro]
      get_put_task_same [OF key g] wr
    by (simp add: finalize_task_result_def g Let_def wrote_task_def upd_tasks_def with_result_def [abs_def]
        record_task_transition_metrics_def observe_def)
qed

lemma finalize_refuses:
  assumes u: "distinct (map t_task_id (d_tasks (db w)))" and g: "get_task tid (d_tasks (db w)) = Some row"
    and closed: "\<not> result_open row"
  shows "finalize_task_result tid fs s f now w =
    (if t_status row \<in> TERMINAL_TASK_STATUSES then Inr (row, True) else Inl (Cannot_Accept_Result (t_status row)), w)"
proof -
  let ?P = "\<lambda>r. t_task_id r = tid \<and> result_open r"
  have n: "rowcount ?P (d_tasks (db w)) = 0"
    by (rule task_conj_key(2) [of _ _ row result_open, OF u g closed])
  have same: "upd_tasks (update_where ?P g') w = w" for g'
    by (rule upd_tasks_same) (rule task_conj_key(3) [of _ _ row result_open, OF u g closed])
  show ?thesis
    by (simp add: finalize_task_result_def g Let_def n same)
qed

section \<open>Properties\<close>

text \<open>C1. \<open>transition_task\<close> refines the state machine of one task: it answers as \<open>row_step\<close> does on the
  task's row, an error leaves the whole world as it was, and a success writes the row that \<open>row_step\<close>
  gives into the table and touches no other row, table, file or queue.\<close>

theorem transition_task_refines:
  assumes "distinct (map t_task_id (d_tasks (db w)))" and "get_task tid (d_tasks (db w)) = Some row"
  shows "case row_step event now st fi ad da row of
      Inl err \<Rightarrow> transition_task tid event now st fi ad da w = (Inl err, w)
    | Inr row' \<Rightarrow> \<exists>w'. transition_task tid event now st fi ad da w = (Inr row', w') \<and> wrote_task tid row' w w'"
  by (rule transition_refines [OF assms])

lemma transition_task_refines_witness:
  "\<exists>w w'. transition_task ''a'' Ev_Succeeded ''2026-01-02T00:00:00+00:00'' None None None None w =
     (Inr ((sample_task ''a'' ''n'' Running 1)\<lparr>t_status := Succeeded,
        t_finished_at := Some ''2026-01-02T00:00:00+00:00''\<rparr>), w') \<and> d_tasks (db w) \<noteq> d_tasks (db w')"
proof -
  let ?r = "sample_task ''a'' ''n'' Running 1"
  let ?w = "sample_world [] [?r]"
  have g: "distinct (map t_task_id (d_tasks (db ?w)))" "get_task ''a'' (d_tasks (db ?w)) = Some ?r"
    by (simp_all add: get_task_def)
  have s: "row_step Ev_Succeeded ''2026-01-02T00:00:00+00:00'' None None None None ?r =
      Inr (?r\<lparr>t_status := Succeeded, t_finished_at := Some ''2026-01-02T00:00:00+00:00''\<rparr>)"
    by (simp add: row_step_def TERMINAL_TASK_STATUSES_def)
  from transition_task_refines [OF g, of Ev_Succeeded "''2026-01-02T00:00:00+00:00''" None None None None]
  obtain w' where "transition_task ''a'' Ev_Succeeded ''2026-01-02T00:00:00+00:00'' None None None None ?w =
      (Inr (?r\<lparr>t_status := Succeeded, t_finished_at := Some ''2026-01-02T00:00:00+00:00''\<rparr>), w')"
    and "wrote_task ''a'' (?r\<lparr>t_status := Succeeded, t_finished_at := Some ''2026-01-02T00:00:00+00:00''\<rparr>) ?w w'"
    unfolding s by auto
  then show ?thesis
    by (intro exI [of _ ?w] exI [of _ w'])
      (auto simp: wrote_task_def put_task_def update_where_def sample_task_def)
qed

text \<open>C10. A task in a terminal status keeps it: every event but the two verdicts of the background
  loop is refused and changes nothing.\<close>

theorem terminal_task_refuses:
  assumes "distinct (map t_task_id (d_tasks (db w)))" and "get_task tid (d_tasks (db w)) = Some row"
    and "t_status row \<in> TERMINAL_TASK_STATUSES" and "event \<notin> background_events"
  shows "\<exists>err. transition_task tid event now st fi ad da w = (Inl err, w)"
  using row_step_terminal [OF assms(3,4), of now st fi ad da]
    transition_refines [OF assms(1,2), of event now st fi ad da] by auto

lemma terminal_task_refuses_witness:
  "\<exists>err. transition_task ''a'' Ev_Cancel ''2026-01-02T00:00:00+00:00'' None None None None
     (sample_world [] [sample_task ''a'' ''n'' Failed 1]) = (Inl err, sample_world [] [sample_task ''a'' ''n'' Failed 1])"
  by (rule terminal_task_refuses [where row = "sample_task ''a'' ''n'' Failed 1"])
    (simp_all add: get_task_def TERMINAL_TASK_STATUSES_def background_events_def)

text \<open>C8. Only an administrator releases a task from review into the queue: a transition by any event but the two verdicts of the
  background scan (timeout and lost, \<open>background_events\<close>, which \<open>transition_task\<close> itself applies to a row of any
  status; the scan gives them to claimed and active tasks only) that takes a task under review to any
  status but rejected or expired is an approval of a task at the human stage; it puts the task into the
  queue and records the decision and the administrator.\<close>

theorem review_left_by_approval:
  assumes "distinct (map t_task_id (d_tasks (db w)))" and "get_task tid (d_tasks (db w)) = Some row"
    and "t_status row = Reviewing" and "event \<notin> background_events"
    and "transition_task tid event now st fi ad da w = (Inr row', w')"
    and "t_status row' \<notin> {Reviewing, Rejected, Review_Expired}"
  shows "event = Ev_Review_Approve \<and> t_review_stage row = Some 3 \<and> t_status row' = Pending \<and>
    t_review_decision row' = Some ''human_approved'' \<and> t_review_admin_id row' = ad \<and>
    get_task tid (d_tasks (db w')) = Some row'"
proof -
  obtain row0 where g: "get_task tid (d_tasks (db w)) = Some row0"
    and s: "row_step event now st fi ad da row0 = Inr row'" and wr: "wrote_task tid row' w w'"
    by (rule transition_Inr [OF assms(1,5)])
  have r: "row0 = row" using g assms(2) by simp
  have "t_task_id row' = tid" using row_step_key [OF s] get_task_in [OF g] by simp
  then have "get_task tid (d_tasks (db w')) = Some row'"
    using wr get_put_task_same [OF _ g] by (simp add: wrote_task_def)
  with row_step_out_of_review [OF s [unfolded r] assms(3,6,4)] show ?thesis by simp
qed

lemma review_left_by_approval_witness:
  "\<exists>row' w'. transition_task ''a'' Ev_Review_Approve ''2026-01-02T00:00:00+00:00'' None None (Some 7) None
      (sample_world [] [(sample_task ''a'' ''n'' Reviewing 1)\<lparr>t_review_stage := Some 3\<rparr>]) = (Inr row', w') \<and>
     t_status row' = Pending \<and> t_review_admin_id row' = Some 7"
proof -
  let ?r = "(sample_task ''a'' ''n'' Reviewing 1)\<lparr>t_review_stage := Some 3\<rparr>"
  let ?w = "sample_world [] [?r]"
  have g: "distinct (map t_task_id (d_tasks (db ?w)))" "get_task ''a'' (d_tasks (db ?w)) = Some ?r"
    by (simp_all add: get_task_def)
  have "\<exists>row' w'. transition_task ''a'' Ev_Review_Approve ''2026-01-02T00:00:00+00:00'' None None (Some 7) None ?w =
      (Inr row', w') \<and> t_status row' = Pending"
    using transition_refines [OF g, of Ev_Review_Approve "''2026-01-02T00:00:00+00:00''" None None "Some 7" None]
    by (auto simp: row_step_def)
  then obtain row' w' where t: "transition_task ''a'' Ev_Review_Approve ''2026-01-02T00:00:00+00:00'' None None (Some 7) None ?w =
      (Inr row', w')" and p: "t_status row' = Pending" by blast
  from review_left_by_approval [OF g _ _ t] t p show ?thesis by (simp add: background_events_def)
qed

text \<open>C7. A result counts once: after an accepted result, any further result for the task is answered as a
  duplicate with the row of the first one, and changes nothing.\<close>

theorem result_counts_once:
  assumes u: "distinct (map t_task_id (d_tasks (db w)))" and fs: "fs \<in> TERMINAL_TASK_STATUSES"
    and a: "finalize_task_result tid fs s f now w = (Inr (row, False), w')"
  shows "t_status row = fs \<and> t_finished_at row = Some f \<and>
    finalize_task_result tid fs' s' f' now' w' = (Inr (row, True), w')"
proof (cases "get_task tid (d_tasks (db w))")
  case None
  with a show ?thesis by (simp add: finalize_task_result_def)
next
  case (Some row0)
  have open0: "result_open row0"
    by (rule ccontr) (use a finalize_refuses [OF u Some, of fs s f now] in \<open>auto split: if_splits\<close>)
  from finalize_accepts [OF u Some open0, of fs s f now] a
  have row: "row = with_result fs s f now row0" and wr: "wrote_task tid row w w'" by auto
  have key: "t_task_id row = tid" using get_task_in [OF Some] by (simp add: row)
  have g': "get_task tid (d_tasks (db w')) = Some row"
    using wr get_put_task_same [OF key Some] by (simp add: wrote_task_def)
  have u': "distinct (map t_task_id (d_tasks (db w')))"
  proof -
    have "map t_task_id (put_task tid (\<lambda>_. row) (d_tasks (db w))) = map t_task_id (d_tasks (db w))"
      by (auto simp: put_task_def update_where_def key)
    with u wr show ?thesis by (simp add: wrote_task_def)
  qed
  show ?thesis
    using finalize_refuses [OF u' g', of fs' s' f' now'] fs
    by (simp add: row with_result_def result_open_def)
qed

lemma result_counts_once_witness:
  "\<exists>row w'. finalize_task_result ''a'' Succeeded ''s'' ''f'' ''n'' (sample_world [] [sample_task ''a'' ''n'' Running 1]) =
      (Inr (row, False), w') \<and>
     finalize_task_result ''a'' Failed ''s2'' ''f2'' ''n2'' w' = (Inr (row, True), w')"
proof -
  let ?w = "sample_world [] [sample_task ''a'' ''n'' Running 1]"
  have g: "distinct (map t_task_id (d_tasks (db ?w)))"
    "get_task ''a'' (d_tasks (db ?w)) = Some (sample_task ''a'' ''n'' Running 1)"
    by (simp_all add: get_task_def)
  from finalize_accepts [OF g, of Succeeded "''s''" "''f''" "''n''"]
  obtain row w' where a: "finalize_task_result ''a'' Succeeded ''s'' ''f'' ''n'' ?w = (Inr (row, False), w')"
    by (auto simp: result_open_def)
  from result_counts_once [OF g(1) _ a, of Failed "''s2''" "''f2''" "''n2''"] a show ?thesis
    by (auto simp: TERMINAL_TASK_STATUSES_def)
qed

end
