(* ===== verification/Task_Claim.thy ===== *)
theory Task_Claim
  imports Task_State Examples
begin

text \<open>
  What the two operations of \<open>app/db.py\<close> that hand tasks to nodes do: \<open>claim_next_task_for_node\<close>
  takes the oldest pending task of an idle node, \<open>sync_reported_active_task\<close> follows the node's report.
\<close>

section \<open>The head of an ordered table\<close>

lemma order_by_hd:
  assumes "order_by k rows = r # rest"
  shows "r \<in> set rows" and "x \<in> set rows \<Longrightarrow> k r \<le> k x"
proof -
  have s: "set (order_by k rows) = set rows" and srt: "sorted (map k (order_by k rows))"
    by (simp_all add: order_by_def)
  then show "r \<in> set rows" using assms by auto
  show "x \<in> set rows \<Longrightarrow> k r \<le> k x" using s srt assms by auto
qed

lemma order_by_Nil [simp]: "order_by k rows = [] \<longleftrightarrow> rows = []"
  by (metis length_0_conv length_sort order_by_def)

section \<open>Claims\<close>

definition queued :: "string \<Rightarrow> task_row \<Rightarrow> bool" where
  "queued node r \<longleftrightarrow> t_node_id r = node \<and> t_status r = Pending"

definition active_on :: "string \<Rightarrow> task_row \<Rightarrow> bool" where
  "active_on node r \<longleftrightarrow> t_node_id r = node \<and> t_status r \<in> {Claimed, Running, Cancel_Requested}"

definition claimed_row :: "iso \<Rightarrow> task_row \<Rightarrow> task_row" where
  "claimed_row now r = r\<lparr>t_status := Claimed, t_claimed_at := Some now\<rparr>"

lemma claimed_row_simps [simp]:
  "t_task_id (claimed_row now r) = t_task_id r" "t_node_id (claimed_row now r) = t_node_id r"
  "t_status (claimed_row now r) = Claimed" "t_type (claimed_row now r) = t_type r"
  "t_review_decision (claimed_row now r) = t_review_decision r"
  "t_review_stage (claimed_row now r) = t_review_stage r"
  by (simp_all add: claimed_row_def)

lemma next_pending_Some:
  assumes "next_pending node rows = Some r"
  shows "r \<in> set rows" and "queued node r" and "\<not> node_has_active node rows"
    and "x \<in> set rows \<Longrightarrow> queued node x \<Longrightarrow> (t_created_at r, t_id r) \<le> (t_created_at x, t_id x)"
proof -
  from assms have na: "\<not> node_has_active node rows"
    and "\<exists>rest. order_by (\<lambda>r. (t_created_at r, t_id r)) (filter (queued node) rows) = r # rest"
    by (auto simp: next_pending_def queued_def [abs_def] split: if_splits list.splits)
  then obtain rest where o: "order_by (\<lambda>r. (t_created_at r, t_id r)) (filter (queued node) rows) = r # rest" by blast
  show "\<not> node_has_active node rows" by (rule na)
  show "r \<in> set rows" and "queued node r" using order_by_hd(1) [OF o] by auto
  show "x \<in> set rows \<Longrightarrow> queued node x \<Longrightarrow> (t_created_at r, t_id r) \<le> (t_created_at x, t_id x)"
    using order_by_hd(2) [OF o, of x] by simp
qed

lemma next_pending_None:
  "next_pending node rows = None \<longleftrightarrow> node_has_active node rows \<or> (\<forall>r \<in> set rows. \<not> queued node r)"
  by (auto simp: next_pending_def queued_def filter_empty_conv split: list.splits dest: order_by_hd(1))
    (metis (mono_tags, lifting) filter_empty_conv list.distinct(1) order_by_Nil)

text \<open>The claim, opened once: what it wrote and what it returned.\<close>

lemma claim_Some:
  assumes u: "distinct (map t_task_id (d_tasks (db w)))" and n: "next_pending node (d_tasks (db w)) = Some r"
  shows "claim_next_task_for_node node now w =
    (Some (claimed_row now r), upd_tasks (put_task (t_task_id r) (\<lambda>_. claimed_row now r)) w)"
proof -
  note r = next_pending_Some [OF n]
  have g: "get_task (t_task_id r) (d_tasks (db w)) = Some r" by (rule get_task_unique [OF u r(1)])
  have "update_where (\<lambda>x. t_task_id x = t_task_id r \<and> t_status x = Pending)
      (\<lambda>x. x\<lparr>t_status := Claimed, t_claimed_at := Some now\<rparr>) (d_tasks (db w)) =
    put_task (t_task_id r) (\<lambda>_. claimed_row now r) (d_tasks (db w))"
    unfolding claimed_row_def
    by (rule put_task_cond [where Q = "\<lambda>x. t_status x = Pending", OF u g]) (use r(2) in \<open>simp add: queued_def\<close>)
  then show ?thesis
    using get_put_task_same [OF _ g, of "claimed_row now r"]
    by (simp add: claim_next_task_for_node_def n Let_def upd_tasks_def)
qed

lemma claim_None: "next_pending node (d_tasks (db w)) = None \<Longrightarrow> claim_next_task_for_node node now w = (None, w)"
  by (simp add: claim_next_task_for_node_def)

lemma claim_cases:
  assumes "distinct (map t_task_id (d_tasks (db w)))"
  obtains (none) "next_pending node (d_tasks (db w)) = None" "claim_next_task_for_node node now w = (None, w)"
  | (some) r where "next_pending node (d_tasks (db w)) = Some r"
      "claim_next_task_for_node node now w =
        (Some (claimed_row now r), upd_tasks (put_task (t_task_id r) (\<lambda>_. claimed_row now r)) w)"
  using assms claim_None claim_Some by (cases "next_pending node (d_tasks (db w))") auto

lemma node_has_active_iff: "node_has_active node rows \<longleftrightarrow> (\<exists>r \<in> set rows. active_on node r)"
  by (simp add: node_has_active_def active_on_def)

lemma filter_put_task:
  assumes "distinct (map t_task_id rows)" and "r \<in> set rows" and "\<forall>x \<in> set rows. \<not> P x" and "P r'"
  shows "filter P (put_task (t_task_id r) (\<lambda>_. r') rows) = [r']"
  using assms
proof (induction rows)
  case (Cons a rows)
  show ?case
  proof (cases "a = r")
    case True
    with Cons.prems(1) have "\<forall>x \<in> set rows. t_task_id x \<noteq> t_task_id r" by (auto simp: image_iff)
    then have "put_task (t_task_id r) (\<lambda>_. r') rows = rows" unfolding put_task_def by (rule update_where_none)
    with True Cons.prems(3,4) show ?thesis by (simp add: put_task_def update_where_def filter_empty_conv)
  next
    case False
    with Cons.prems have "r \<in> set rows" "t_task_id a \<noteq> t_task_id r" by (auto simp: image_iff)
    with Cons show ?thesis by (simp add: put_task_def update_where_def)
  qed
qed simp

section \<open>Properties\<close>

text \<open>C6. A claim hands out the oldest pending task of a node that has no active task: the row it returns
  was pending, no other pending task of that node was created before it, it is now the one active
  task of the node, and no other row changed.\<close>

theorem claim_oldest_when_idle:
  assumes u: "distinct (map t_task_id (d_tasks (db w)))"
    and c: "claim_next_task_for_node node now w = (Some r', w')"
  shows "\<exists>r \<in> set (d_tasks (db w)). queued node r \<and> r' = claimed_row now r \<and>
      (\<forall>x \<in> set (d_tasks (db w)). queued node x \<longrightarrow> (t_created_at r, t_id r) \<le> (t_created_at x, t_id x)) \<and>
      filter (active_on node) (d_tasks (db w)) = [] \<and> filter (active_on node) (d_tasks (db w')) = [r'] \<and>
      (\<forall>k. k \<noteq> t_task_id r \<longrightarrow> get_task k (d_tasks (db w')) = get_task k (d_tasks (db w)))"
proof -
  from claim_cases [OF u, of node now] c obtain r where n: "next_pending node (d_tasks (db w)) = Some r"
    and r': "r' = claimed_row now r" and w': "w' = upd_tasks (put_task (t_task_id r) (\<lambda>_. r')) w" by cases auto
  note r = next_pending_Some [OF n]
  have idle: "\<forall>x \<in> set (d_tasks (db w)). \<not> active_on node x" using r(3) by (simp add: node_has_active_iff)
  have "active_on node r'" using r(2) by (simp add: r' active_on_def queued_def)
  with filter_put_task [OF u r(1) idle] idle r show ?thesis
    by (intro bexI [of _ r]) (auto simp: r' w' filter_empty_conv upd_tasks_def get_put_task_other)
qed

lemma claim_oldest_when_idle_witness:
  "\<exists>w r' w'. claim_next_task_for_node ''n'' ''2026-01-02T00:00:00+00:00'' w = (Some r', w') \<and>
     t_task_id r' = ''a'' \<and> (\<exists>r \<in> set (d_tasks (db w)). queued ''n'' r \<and> r' = claimed_row ''2026-01-02T00:00:00+00:00'' r)"
proof -
  let ?w = "sample_world [] [sample_task ''b'' ''n'' Pending 2, sample_task ''a'' ''n'' Pending 1]"
  have c: "claim_next_task_for_node ''n'' ''2026-01-02T00:00:00+00:00'' ?w =
      (Some (claimed_row ''2026-01-02T00:00:00+00:00'' (sample_task ''a'' ''n'' Pending 1)),
       upd_tasks (put_task ''a'' (\<lambda>_. claimed_row ''2026-01-02T00:00:00+00:00'' (sample_task ''a'' ''n'' Pending 1))) ?w)"
    using claim_Some [of ?w "''n''" "sample_task ''a'' ''n'' Pending 1"]
    by (simp add: next_pending_def node_has_active_def order_by_def)
  have d: "distinct (map t_task_id (d_tasks (db ?w)))" by simp
  from claim_oldest_when_idle [OF d c] obtain r where r: "r \<in> set (d_tasks (db ?w))" "queued ''n'' r"
    "claimed_row ''2026-01-02T00:00:00+00:00'' (sample_task ''a'' ''n'' Pending 1) = claimed_row ''2026-01-02T00:00:00+00:00'' r"
    by blast
  show ?thesis
    by (intro exI conjI bexI) (rule c, simp, rule r(2), rule r(3), rule r(1))
qed

end
