(* ===== verification/Sha256.thy ===== *)
theory Sha256
  imports Task_Utils Py_Bytes
begin

text \<open>
  \<open>hashlib.sha256\<close>, \<open>hmac.new(key, msg, hashlib.sha256)\<close> and \<open>hashlib.pbkdf2_hmac("sha256", ...)\<close>
  on byte strings (FIPS 180-4, RFC 2104, RFC 8018), and the keystream that both sides of the
  program build from the HMAC.
\<close>

section \<open>SHA-256\<close>

type_synonym w32 = "32 word"

text \<open>The constants of the standard, in decimal.\<close>

definition sha_K :: "w32 list" where
  "sha_K = [
    1116352408, 1899447441, 3049323471, 3921009573, 961987163, 1508970993, 2453635748, 2870763221,
    3624381080, 310598401, 607225278, 1426881987, 1925078388, 2162078206, 2614888103, 3248222580,
    3835390401, 4022224774, 264347078, 604807628, 770255983, 1249150122, 1555081692, 1996064986,
    2554220882, 2821834349, 2952996808, 3210313671, 3336571891, 3584528711, 113926993, 338241895,
    666307205, 773529912, 1294757372, 1396182291, 1695183700, 1986661051, 2177026350, 2456956037,
    2730485921, 2820302411, 3259730800, 3345764771, 3516065817, 3600352804, 4094571909, 275423344,
    430227734, 506948616, 659060556, 883997877, 958139571, 1322822218, 1537002063, 1747873779,
    1955562222, 2024104815, 2227730452, 2361852424, 2428436474, 2756734187, 3204031479, 3329325298]"

definition sha_H0 :: "w32 list" where
  "sha_H0 = [1779033703, 3144134277, 1013904242, 2773480762, 1359893119, 2600822924, 528734635, 1541459225]"

definition rotr :: "nat \<Rightarrow> w32 \<Rightarrow> w32" where
  "rotr n x = drop_bit n x OR push_bit (32 - n) x"

definition bytes_w32 :: "bytes \<Rightarrow> w32" where
  "bytes_w32 bs = foldl (\<lambda>a b. a * 256 + ucast b) 0 bs"

definition w32_bytes :: "w32 \<Rightarrow> bytes" where
  "w32_bytes x = [ucast (drop_bit 24 x), ucast (drop_bit 16 x), ucast (drop_bit 8 x), ucast x]"

text \<open>Big-endian bytes of a length: \<open>n.to_bytes(k, "big")\<close> for \<open>n < 256 ^ k\<close>.\<close>

fun to_bytes_big :: "nat \<Rightarrow> nat \<Rightarrow> bytes" where
  "to_bytes_big 0 n = []"
| "to_bytes_big (Suc k) n = to_bytes_big k (n div 256) @ [byte (n mod 256)]"

lemma length_to_bytes_big [simp]: "length (to_bytes_big k n) = k"
  by (induction k arbitrary: n) simp_all

definition sha_pad :: "bytes \<Rightarrow> bytes" where
  "sha_pad m = m @ [0x80] @ replicate ((119 - length m mod 64) mod 64) 0 @ to_bytes_big 8 (8 * length m)"

text \<open>The message schedule, newest word first.\<close>

fun sha_extend :: "nat \<Rightarrow> w32 list \<Rightarrow> w32 list" where
  "sha_extend 0 ws = ws"
| "sha_extend (Suc n) ws =
     (let w15 = ws ! 14; w2 = ws ! 1;
          s0 = rotr 7 w15 XOR rotr 18 w15 XOR drop_bit 3 w15;
          s1 = rotr 17 w2 XOR rotr 19 w2 XOR drop_bit 10 w2
      in sha_extend n ((ws ! 15 + s0 + ws ! 6 + s1) # ws))"

fun groups :: "nat \<Rightarrow> 'a list \<Rightarrow> 'a list list" where
  "groups 0 xs = []"
| "groups (Suc k) xs = (if xs = [] then [] else take (Suc k) xs # groups (Suc k) (drop (Suc k) xs))"

fun sha_round :: "w32 \<times> w32 \<Rightarrow> w32 list \<Rightarrow> w32 list" where
  "sha_round (k, w) [a, b, c, d, e, f, g, h] =
     (let s1 = rotr 6 e XOR rotr 11 e XOR rotr 25 e;
          ch = (e AND f) XOR (NOT e AND g);
          t1 = h + s1 + ch + k + w;
          s0 = rotr 2 a XOR rotr 13 a XOR rotr 22 a;
          maj = (a AND b) XOR (a AND c) XOR (b AND c)
      in [t1 + (s0 + maj), a, b, c, d + t1, e, f, g])"
| "sha_round kw st = st"

definition sha_block :: "w32 list \<Rightarrow> bytes \<Rightarrow> w32 list" where
  "sha_block H block =
     (let ws = rev (sha_extend 48 (rev (map bytes_w32 (groups 4 block))))
      in map2 (+) H (fold sha_round (zip sha_K ws) H))"

definition sha256 :: "bytes \<Rightarrow> bytes" where
  "sha256 m = concat (map w32_bytes (foldl sha_block sha_H0 (groups 64 (sha_pad m))))"

lemma sha_round_length: "length (sha_round kw st) = length st"
  by (induction kw st rule: sha_round.induct) (auto simp: Let_def)

lemma fold_sha_round_length: "length (fold sha_round xs st) = length st"
  by (induction xs arbitrary: st) (auto simp: sha_round_length)

lemma sha_block_length: "length (sha_block H b) = length H"
  by (simp add: sha_block_def Let_def fold_sha_round_length)

lemma length_sha256 [simp]: "length (sha256 m) = 32"
proof -
  have "length (foldl sha_block H bs) = length H" for H bs
    by (induction bs arbitrary: H) (auto simp: sha_block_length)
  then have len: "length (foldl sha_block sha_H0 bs) = 8" for bs by (simp add: sha_H0_def)
  have "length (concat (map w32_bytes xs)) = 4 * length xs" for xs
    by (induction xs) (auto simp: w32_bytes_def)
  with len show ?thesis by (simp add: sha256_def)
qed

section \<open>HMAC and PBKDF2\<close>

definition xor_bytes :: "bytes \<Rightarrow> bytes \<Rightarrow> bytes" where
  "xor_bytes a b = map2 (XOR) a b"

definition hmac_sha256 :: "bytes \<Rightarrow> bytes \<Rightarrow> bytes" where
  "hmac_sha256 key msg =
     (let k = (if 64 < length key then sha256 key else key);
          k0 = k @ replicate (64 - length k) 0
      in sha256 (map (\<lambda>b. b XOR 0x5c) k0 @ sha256 (map (\<lambda>b. b XOR 0x36) k0 @ msg)))"

lemma length_hmac [simp]: "length (hmac_sha256 k m) = 32"
  by (simp add: hmac_sha256_def Let_def)

text \<open>\<open>pbkdf2_hmac("sha256", password, salt, iterations, dklen=32)\<close>: one block of output.\<close>

fun pbkdf2_iter :: "nat \<Rightarrow> bytes \<Rightarrow> bytes \<Rightarrow> bytes \<Rightarrow> bytes" where
  "pbkdf2_iter 0 pw u acc = acc"
| "pbkdf2_iter (Suc n) pw u acc =
     (let u' = hmac_sha256 pw u in pbkdf2_iter n pw u' (xor_bytes acc u'))"

definition pbkdf2_sha256_32 :: "bytes \<Rightarrow> bytes \<Rightarrow> nat \<Rightarrow> bytes" where
  "pbkdf2_sha256_32 pw salt iterations =
     (let u = hmac_sha256 pw (salt @ to_bytes_big 4 1) in pbkdf2_iter (iterations - 1) pw u u)"

section \<open>Hexadecimal text\<close>

definition hexdigest :: "bytes \<Rightarrow> string" where
  "hexdigest bs = concat (map (\<lambda>b. [hex_digit (unat b div 16), hex_digit (unat b mod 16)]) bs)"

lemma length_hexdigest [simp]: "length (hexdigest bs) = 2 * length bs"
  by (induction bs) (auto simp: hexdigest_def)

lemma hex_digit_inj: "a < 16 \<Longrightarrow> b < 16 \<Longrightarrow> hex_digit a = hex_digit b \<longleftrightarrow> a = b"
  by (auto simp: hex_digit_def split: if_splits dest: arg_cong [of _ _ "of_char :: char \<Rightarrow> nat"])

lemma hexdigest_inj: "hexdigest a = hexdigest b \<longleftrightarrow> a = b"
proof
  show "hexdigest a = hexdigest b \<Longrightarrow> a = b"
  proof (induction a arbitrary: b)
    case Nil
    then show ?case by (cases b) (auto simp: hexdigest_def)
  next
    case (Cons x a)
    then obtain y b' where b: "b = y # b'" by (cases b) (auto simp: hexdigest_def)
    have bound: "unat z div 16 < 16" for z :: "8 word"
      using unsigned_less [of z, where 'a = nat] by (simp add: less_mult_imp_div_less)
    from Cons.prems b have "unat x div 16 = unat y div 16" and "unat x mod 16 = unat y mod 16"
      and t: "hexdigest a = hexdigest b'"
      using bound by (auto simp: hexdigest_def hex_digit_inj)
    then have "unat x = unat y" by (metis div_mod_decomp)
    with t b Cons.IH show ?case by (simp add: word_unat_eq_iff)
  qed
qed simp

section \<open>The keystream\<close>

text \<open>
  \<open>_keystream_bytes\<close> of the agent, and the loop of \<open>_xor_with_keystream\<close> of the server: blocks are
  appended until there are enough bytes. \<open>counter.to_bytes(4, "big")\<close> fails from \<open>2 ^ 32\<close> blocks on,
  which is the value None.
\<close>

function keystream_loop :: "bytes \<Rightarrow> bytes \<Rightarrow> nat \<Rightarrow> nat \<Rightarrow> bytes \<Rightarrow> bytes option" where
  "keystream_loop key nonce need counter output =
     (if need \<le> length output then Some output
      else if 2 ^ 32 \<le> counter then None
      else keystream_loop key nonce need (Suc counter)
             (output @ hmac_sha256 key (nonce @ to_bytes_big 4 counter)))"
  by pat_completeness auto

termination
  by (relation "measure (\<lambda>(key, nonce, need, counter, output). need - length output)") auto

declare keystream_loop.simps [simp del]

definition keystream_bytes :: "bytes \<Rightarrow> bytes \<Rightarrow> nat \<Rightarrow> bytes option" where
  "keystream_bytes key nonce need = map_option (take need) (keystream_loop key nonce need 0 [])"

lemma keystream_loop_length:
  "keystream_loop key nonce need c out = Some ks \<Longrightarrow> need \<le> length ks"
proof (induction key nonce need c out rule: keystream_loop.induct)
  case (1 key nonce need c out)
  then show ?case by (subst (asm) keystream_loop.simps) (auto split: if_splits)
qed

lemma keystream_loop_total:
  "need \<le> length out + 32 * (2 ^ 32 - c) \<Longrightarrow> \<exists>ks. keystream_loop key nonce need c out = Some ks"
proof (induction key nonce need c out rule: keystream_loop.induct)
  case (1 key nonce need c out)
  show ?case
  proof (cases "need \<le> length out")
    case True
    then show ?thesis by (subst keystream_loop.simps) simp
  next
    case False
    with 1(2) have c: "\<not> 2 ^ 32 \<le> c" by auto
    have "\<exists>ks. keystream_loop key nonce need (Suc c) (out @ hmac_sha256 key (nonce @ to_bytes_big 4 c)) = Some ks"
      by (rule 1(1) [OF False c]) (use 1(2) c in auto)
    with False c show ?thesis by (subst keystream_loop.simps) simp
  qed
qed

lemma keystream_bytes_length: "keystream_bytes key nonce need = Some ks \<Longrightarrow> length ks = need"
  by (auto simp: keystream_bytes_def dest: keystream_loop_length)

lemma keystream_bytes_total: "need \<le> 32 * 2 ^ 32 \<Longrightarrow> \<exists>ks. keystream_bytes key nonce need = Some ks"
  using keystream_loop_total [of need "[]" 0 key nonce] by (auto simp: keystream_bytes_def)

lemma xor_bytes_length: "length (xor_bytes a b) = min (length a) (length b)"
  by (simp add: xor_bytes_def)

lemma xor_bytes_twice: "length a \<le> length b \<Longrightarrow> xor_bytes (xor_bytes a b) b = a"
  unfolding xor_bytes_def by (rule nth_equalityI) (auto simp: xor.assoc)

end
