(* ===== verification/Codec.thy ===== *)
theory Codec
  imports Task_Utils Py_Bytes
begin

text \<open>
  The codecs of the standard library that the program uses in both directions: \<open>bytes.decode("utf-8")\<close>
  (strict), \<open>base64.b64encode\<close>, \<open>base64.b64decode\<close> with and without validation, and the URL-safe
  alphabet. Decoding an encoded value gives the value back.
\<close>

section \<open>UTF-8\<close>

definition scalar :: "nat \<Rightarrow> bool" where
  "scalar c \<longleftrightarrow> c < 0xD800 \<or> 0xDFFF < c \<and> c < 0x110000"

definition continuation :: "8 word \<Rightarrow> nat option" where
  "continuation b = (let n = unat b in if 128 \<le> n \<and> n < 192 then Some (n - 128) else None)"

fun utf8_decode :: "bytes \<Rightarrow> utext option" where
  "utf8_decode [] = Some []"
| "utf8_decode (b # bs) =
     (let n = unat b in
      if n < 128 then map_option (Cons n) (utf8_decode bs)
      else if 194 \<le> n \<and> n < 224 then
        (case bs of
           b1 # r \<Rightarrow>
             (case continuation b1 of
                Some x \<Rightarrow> map_option (Cons ((n - 192) * 64 + x)) (utf8_decode r)
              | None \<Rightarrow> None)
         | [] \<Rightarrow> None)
      else if 224 \<le> n \<and> n < 240 then
        (case bs of
           b1 # b2 # r \<Rightarrow>
             (case (continuation b1, continuation b2) of
                (Some x, Some y) \<Rightarrow>
                  (let c = (n - 224) * 4096 + x * 64 + y in
                   if 2048 \<le> c \<and> scalar c then map_option (Cons c) (utf8_decode r) else None)
              | _ \<Rightarrow> None)
         | _ \<Rightarrow> None)
      else if 240 \<le> n \<and> n < 245 then
        (case bs of
           b1 # b2 # b3 # r \<Rightarrow>
             (case (continuation b1, continuation b2, continuation b3) of
                (Some x, Some y, Some z) \<Rightarrow>
                  (let c = (n - 240) * 262144 + x * 4096 + y * 64 + z in
                   if 65536 \<le> c \<and> scalar c then map_option (Cons c) (utf8_decode r) else None)
              | _ \<Rightarrow> None)
         | _ \<Rightarrow> None)
      else None)"

lemma unat_byte [simp]: "n < 256 \<Longrightarrow> unat (byte n) = n"
  by (simp add: byte_def unat_of_nat take_bit_eq_mod)

lemma continuation_byte [simp]: "x < 64 \<Longrightarrow> continuation (byte (128 + x)) = Some x"
  by (simp add: continuation_def Let_def)

lemma digits64:
  "c div 64 * 64 + c mod 64 = (c::nat)"
  "c div 4096 * 4096 + c div 64 mod 64 * 64 + c mod 64 = c"
  "c div 262144 * 262144 + c div 4096 mod 64 * 4096 + c div 64 mod 64 * 64 + c mod 64 = c"
proof -
  have "c div 64 div 64 = c div 4096" and "c div 4096 div 64 = c div 262144"
    by (simp_all add: div_mult2_eq [symmetric])
  then have a: "c div 64 = c div 4096 * 64 + c div 64 mod 64"
    and b: "c div 4096 = c div 262144 * 64 + c div 4096 mod 64"
    by (metis div_mult_mod_eq)+
  show 1: "c div 64 * 64 + c mod 64 = c" by simp
  show 2: "c div 4096 * 4096 + c div 64 mod 64 * 64 + c mod 64 = c" using 1 a by linarith
  show "c div 262144 * 262144 + c div 4096 mod 64 * 4096 + c div 64 mod 64 * 64 + c mod 64 = c"
    using 2 b by linarith
qed

lemma utf8_decode_char:
  assumes "scalar c"
  shows "utf8_decode (utf8_char c @ r) = map_option (Cons c) (utf8_decode r)"
proof -
  have max: "c < 1114112" using assms by (auto simp: scalar_def)
  consider "c < 128" | "128 \<le> c" "c < 2048" | "2048 \<le> c" "c < 65536" | "65536 \<le> c" by linarith
  then show ?thesis
  proof cases
    case 1
    then show ?thesis by (simp add: utf8_char_def Let_def)
  next
    case 2
    then have "2 \<le> c div 64" and "c div 64 < 32" by (simp_all add: div_less_iff_less_mult less_mult_imp_div_less)
    with 2 show ?thesis by (simp add: utf8_char_def Let_def digits64)
  next
    case 3
    then have "c div 4096 < 16" by (simp add: less_mult_imp_div_less)
    with 3 assms show ?thesis by (simp add: utf8_char_def Let_def digits64)
  next
    case 4
    then have "c div 262144 < 5" using max by (simp add: less_mult_imp_div_less)
    with 4 assms show ?thesis by (simp add: utf8_char_def Let_def digits64)
  qed
qed

lemma utf8_decode_encode: "\<forall>c \<in> set s. scalar c \<Longrightarrow> utf8_decode (utf8_encode s) = Some s"
  by (induction s) (auto simp: utf8_decode_char)

lemma scalar_of_string: "c \<in> set (of_string s) \<Longrightarrow> scalar c"
proof -
  assume "c \<in> set (of_string s)"
  then obtain x where "c = of_char x" by (auto simp: of_string_def)
  moreover have "of_char x < (256 :: nat)" by simp
  ultimately show ?thesis unfolding scalar_def by linarith
qed

section \<open>Base64\<close>

definition b64_char :: "nat \<Rightarrow> char" where
  "b64_char n = (if n < 26 then char_of (65 + n) else if n < 52 then char_of (71 + n)
     else if n < 62 then char_of (n - 4) else if n = 62 then CHR ''+'' else CHR ''/'')"

definition b64_val :: "char \<Rightarrow> nat option" where
  "b64_val c = (let n = of_char c in
     if 65 \<le> n \<and> n \<le> 90 then Some (n - 65) else if 97 \<le> n \<and> n \<le> 122 then Some (n - 71)
     else if 48 \<le> n \<and> n \<le> 57 then Some (n + 4) else if n = 43 then Some 62
     else if n = 47 then Some 63 else None)"

fun b64encode :: "bytes \<Rightarrow> string" where
  "b64encode [] = []"
| "b64encode [a] = [b64_char (unat a div 4), b64_char (unat a mod 4 * 16), CHR ''='', CHR ''='']"
| "b64encode [a, b] = [b64_char (unat a div 4), b64_char (unat a mod 4 * 16 + unat b div 16),
     b64_char (unat b mod 16 * 4), CHR ''='']"
| "b64encode (a # b # c # r) = [b64_char (unat a div 4), b64_char (unat a mod 4 * 16 + unat b div 16),
     b64_char (unat b mod 16 * 4 + unat c div 64), b64_char (unat c mod 64)] @ b64encode r"

text \<open>
  The loop of \<open>binascii.a2b_base64\<close>: the position in the group of four, the bits left over, the
  padding characters seen, and whether padding has started. \<open>strict\<close> is \<open>validate=True\<close>.
\<close>

fun b64_loop :: "bool \<Rightarrow> nat \<Rightarrow> nat \<Rightarrow> nat \<Rightarrow> bool \<Rightarrow> string \<Rightarrow> bytes option" where
  "b64_loop strict quad left pads padding [] = (if quad = 0 then Some [] else None)"
| "b64_loop strict quad left pads padding (ch # s) =
     (if ch = CHR ''='' then
        (if strict \<and> quad = 0 then None
         else if 2 \<le> quad then
           (if 4 \<le> quad + Suc pads then (if strict \<and> s \<noteq> [] then None else Some [])
            else b64_loop strict quad left (Suc pads) True s)
         else b64_loop strict quad left pads True s)
      else (case b64_val ch of
          None \<Rightarrow> if strict then None else b64_loop strict quad left pads padding s
        | Some v \<Rightarrow>
            if strict \<and> padding then None
            else if quad = 0 then b64_loop strict 1 v 0 padding s
            else if quad = 1 then
              map_option (Cons (byte (left * 4 + v div 16))) (b64_loop strict 2 (v mod 16) 0 padding s)
            else if quad = 2 then
              map_option (Cons (byte (left * 16 + v div 4))) (b64_loop strict 3 (v mod 4) 0 padding s)
            else map_option (Cons (byte (left * 64 + v))) (b64_loop strict 0 0 0 padding s)))"

definition b64decode :: "bool \<Rightarrow> string \<Rightarrow> bytes option" where
  "b64decode strict s = b64_loop strict 0 0 0 False s"

definition urlsafe :: "char \<Rightarrow> char" where
  "urlsafe c = (if c = CHR ''+'' then CHR ''-'' else if c = CHR ''/'' then CHR ''_'' else c)"

definition from_urlsafe :: "char \<Rightarrow> char" where
  "from_urlsafe c = (if c = CHR ''-'' then CHR ''+'' else if c = CHR ''_'' then CHR ''/'' else c)"

definition urlsafe_b64encode :: "bytes \<Rightarrow> string" where
  "urlsafe_b64encode bs = map urlsafe (b64encode bs)"

definition urlsafe_b64decode :: "string \<Rightarrow> bytes option" where
  "urlsafe_b64decode s = b64decode False (map from_urlsafe s)"

lemma b64_val_char [simp]: "n < 64 \<Longrightarrow> b64_val (b64_char n) = Some n"
proof -
  assume n: "n < 64"
  consider "n < 26" | "26 \<le> n" "n < 52" | "52 \<le> n" "n < 62" | "n = 62" | "n = 63" using n by linarith
  then show ?thesis
  proof cases
    case 3
    then have "48 \<le> n - 4" and "n - 4 \<le> 57" by linarith+
    with 3 show ?thesis by (simp add: b64_val_def b64_char_def Let_def)
  qed (simp_all add: b64_val_def b64_char_def Let_def)
qed

lemma b64_char_not_pad [simp]: "n < 64 \<Longrightarrow> b64_char n \<noteq> CHR ''=''"
  using b64_val_char [of n] by (auto simp: b64_val_def Let_def)

lemma unat_bound: "unat (b :: 8 word) < 256"
  using unsigned_less [of b, where 'a = nat] by simp

lemma byte_unat [simp]: "byte (unat b) = b"
  by (simp add: byte_def)

lemma six_bits:
  assumes "a < 256" and "b < 256" and "c < (256 :: nat)"
  shows "a div 4 < 64" "a mod 4 * 16 < 64" "a mod 4 * 16 + b div 16 < 64" "b mod 16 * 4 < 64"
    "b mod 16 * 4 + c div 64 < 64" "c mod 64 < 64"
    "a mod 4 * 16 div 16 = a mod 4" "(a mod 4 * 16 + b div 16) div 16 = a mod 4"
    "(a mod 4 * 16 + b div 16) mod 16 = b div 16"
    "b mod 16 * 4 div 4 = b mod 16" "(b mod 16 * 4 + c div 64) div 4 = b mod 16"
    "(b mod 16 * 4 + c div 64) mod 4 = c div 64"
    "a div 4 * 4 + a mod 4 = a" "b div 16 * 16 + b mod 16 = b" "c div 64 * 64 + c mod 64 = c"
proof -
  have b: "b div 16 < 16" and c: "c div 64 < 4" and a: "a div 4 < 64"
    using assms by (simp_all add: less_mult_imp_div_less)
  have "a mod 4 < 4" and "b mod 16 < 16" by simp_all
  with a b c show "a div 4 < 64" "a mod 4 * 16 < 64" "a mod 4 * 16 + b div 16 < 64"
    "b mod 16 * 4 < 64" "b mod 16 * 4 + c div 64 < 64" "c mod 64 < 64"
    by linarith+
qed (use assms in \<open>simp_all add: less_mult_imp_div_less\<close>)

lemma b64_loop_quad:
  assumes "v0 < 64" and "v1 < 64" and "v2 < 64" and "v3 < 64"
  shows "b64_loop strict 0 left pads False (b64_char v0 # b64_char v1 # b64_char v2 # b64_char v3 # s) =
    map_option (\<lambda>r. byte (v0 * 4 + v1 div 16) # byte (v1 mod 16 * 16 + v2 div 4) # byte (v2 mod 4 * 64 + v3) # r)
      (b64_loop strict 0 0 0 False s)"
  using assms by (simp add: option.map_comp comp_def)

lemma b64_loop_pad1:
  assumes "v0 < 64" and "v1 < 64" and "v2 < 64"
  shows "b64_loop strict 0 left pads False [b64_char v0, b64_char v1, b64_char v2, CHR ''=''] =
    Some [byte (v0 * 4 + v1 div 16), byte (v1 mod 16 * 16 + v2 div 4)]"
  using assms by simp

lemma b64_loop_pad2:
  assumes "v0 < 64" and "v1 < 64"
  shows "b64_loop strict 0 left pads False [b64_char v0, b64_char v1, CHR ''='', CHR ''=''] =
    Some [byte (v0 * 4 + v1 div 16)]"
  using assms by simp

lemma b64_loop_encode: "b64_loop strict 0 left 0 False (b64encode bs) = Some bs"
proof (induction bs arbitrary: left rule: b64encode.induct)
  case 1
  then show ?case by simp
next
  case (2 a)
  note s = six_bits [OF unat_bound [of a] unat_bound [of a] unat_bound [of a]]
  show ?case by (simp only: b64encode.simps b64_loop_pad2 s byte_unat)
next
  case (3 a b)
  note s = six_bits [OF unat_bound [of a] unat_bound [of b] unat_bound [of b]]
  show ?case by (simp only: b64encode.simps b64_loop_pad1 s byte_unat)
next
  case (4 a b c r)
  note s = six_bits [OF unat_bound [of a] unat_bound [of b] unat_bound [of c]]
  show ?case by (simp only: b64encode.simps append_Cons append_Nil b64_loop_quad s byte_unat 4 option.map)
qed

lemma b64decode_encode: "b64decode strict (b64encode bs) = Some bs"
  by (simp add: b64decode_def b64_loop_encode)

lemma b64_chars: "list_all (\<lambda>c. c = CHR ''='' \<or> b64_val c \<noteq> None) (b64encode bs)"
proof (induction bs rule: b64encode.induct)
  case 1
  then show ?case by simp
next
  case (2 a)
  note s = six_bits [OF unat_bound [of a] unat_bound [of a] unat_bound [of a]]
  show ?case by (simp only: b64encode.simps list.pred_inject b64_val_char s option.distinct simp_thms)
next
  case (3 a b)
  note s = six_bits [OF unat_bound [of a] unat_bound [of b] unat_bound [of b]]
  show ?case by (simp only: b64encode.simps list.pred_inject b64_val_char s option.distinct simp_thms)
next
  case (4 a b c r)
  note s = six_bits [OF unat_bound [of a] unat_bound [of b] unat_bound [of c]]
  show ?case
    by (simp only: b64encode.simps list.pred_inject append_Cons append_Nil b64_val_char s option.distinct simp_thms 4)
qed

lemma urlsafe_inverse: "c = CHR ''='' \<or> b64_val c \<noteq> None \<Longrightarrow> from_urlsafe (urlsafe c) = c"
  by (auto simp: from_urlsafe_def urlsafe_def b64_val_def)

lemma urlsafe_b64decode_encode: "urlsafe_b64decode (urlsafe_b64encode bs) = Some bs"
proof -
  have "map from_urlsafe (map urlsafe (b64encode bs)) = b64encode bs"
    using b64_chars [of bs] unfolding map_map list_all_iff by (intro map_idI) (simp add: urlsafe_inverse)
  then show ?thesis
    by (simp add: urlsafe_b64decode_def urlsafe_b64encode_def b64decode_encode)
qed

end
