(* ===== verification/Security.thy ===== *)
theory Security
  imports Store Sha256 Codec
begin

text \<open>
  \<open>app/security.py\<close>: tokens, the two formats of an encrypted node signing key, and the signature of
  a node request. Hashes, HMAC, base64 and UTF-8 are the ones of Sha256 and Codec. The third-party
  packages (PyJWT, passlib and the AES-GCM of cryptography) are the fields of the record \<open>crypto\<close>,
  a parameter of every definition that uses them; random bytes are arguments.
\<close>

section \<open>The third-party packages\<close>

record crypto =
  aes_encrypt :: "bytes \<Rightarrow> bytes \<Rightarrow> bytes \<Rightarrow> bytes \<Rightarrow> bytes"
  aes_decrypt :: "bytes \<Rightarrow> bytes \<Rightarrow> bytes \<Rightarrow> bytes \<Rightarrow> bytes option"
  jwt_encode :: "dict \<Rightarrow> string \<Rightarrow> string"
  jwt_decode :: "instant \<Rightarrow> string \<Rightarrow> string \<Rightarrow> dict option"
  pw_hash :: "string \<Rightarrow> string"
  pw_verify :: "string \<Rightarrow> string \<Rightarrow> bool"

text \<open>
  The documented behaviour that theorems name as hypotheses: AES-GCM opens what it sealed and adds a
  tag of 16 bytes; a token decodes, under the secret it was made with, from its issue time until it
  expires, to its payload; a password verifies against its own hash.
\<close>

definition aead_ok :: "crypto \<Rightarrow> bool" where
  "aead_ok cr \<longleftrightarrow> (\<forall>k n p a. aes_decrypt cr k n (aes_encrypt cr k n p a) a = Some p \<and>
     length (aes_encrypt cr k n p a) = length p + 16)"

definition jwt_ok :: "crypto \<Rightarrow> bool" where
  "jwt_ok cr \<longleftrightarrow> (\<forall>now sub ty i e secret.
     (62135596800 + i) * 1000000 \<le> now \<longrightarrow> now < (62135596800 + e) * 1000000 \<longrightarrow>
     jwt_decode cr now (jwt_encode cr [(''sub'', JStr sub), (''type'', JStr ty), (''iat'', JInt i), (''exp'', JInt e)] secret)
       secret = Some [(''sub'', JStr sub), (''type'', JStr ty), (''iat'', JInt i), (''exp'', JInt e)])"

definition pw_ok :: "crypto \<Rightarrow> bool" where
  "pw_ok cr \<longleftrightarrow> (\<forall>p. pw_verify cr p (pw_hash cr p))"

section \<open>Passwords and tokens\<close>

definition hash_password :: "crypto \<Rightarrow> string \<Rightarrow> string" where
  "hash_password cr password = pw_hash cr password"

definition verify_password :: "crypto \<Rightarrow> string \<Rightarrow> string \<Rightarrow> bool" where
  "verify_password cr password password_hash = pw_verify cr password password_hash"

text \<open>\<open>int(t.timestamp())\<close>: seconds since 1970, towards zero.\<close>

definition unix_epoch :: instant where
  "unix_epoch = 62135596800000000"

definition unix_seconds :: "instant \<Rightarrow> int" where
  "unix_seconds t = (if unix_epoch \<le> t then (t - unix_epoch) div 1000000 else - ((unix_epoch - t) div 1000000))"

definition create_token :: "crypto \<Rightarrow> instant \<Rightarrow> settings \<Rightarrow> string \<Rightarrow> string \<Rightarrow> int \<Rightarrow> string" where
  "create_token cr now settings subject token_type expires_minutes =
     jwt_encode cr [(''sub'', JStr subject), (''type'', JStr token_type), (''iat'', JInt (unix_seconds now)),
        (''exp'', JInt (unix_seconds (now + minutes expires_minutes)))] (jwt_secret settings)"

definition decode_token :: "crypto \<Rightarrow> instant \<Rightarrow> settings \<Rightarrow> string \<Rightarrow> string \<Rightarrow> dict option" where
  "decode_token cr now settings token expected_type =
     (case jwt_decode cr now token (jwt_secret settings) of
        None \<Rightarrow> None
      | Some payload \<Rightarrow> if dict_get payload ''type'' \<noteq> Some (JStr expected_type) then None else Some payload)"

definition create_access_token :: "crypto \<Rightarrow> instant \<Rightarrow> settings \<Rightarrow> string \<Rightarrow> string" where
  "create_access_token cr now settings subject =
     create_token cr now settings subject ''access'' (access_token_expire_minutes settings)"

definition create_refresh_token :: "crypto \<Rightarrow> instant \<Rightarrow> settings \<Rightarrow> string \<Rightarrow> string" where
  "create_refresh_token cr now settings subject =
     create_token cr now settings subject ''refresh'' (refresh_token_expire_minutes settings)"

section \<open>Node signing keys\<close>

text \<open>
  What the functions below raise: a ValueError (which includes the base64 and the Unicode errors),
  or another exception, such as the InvalidTag of AES-GCM.
\<close>

datatype key_error = Value_Error | Invalid_Tag | Overflow_Error

definition str_utf8 :: "string \<Rightarrow> bytes" where
  "str_utf8 s = utf8_encode (of_string s)"

text \<open>\<open>secrets.token_urlsafe(32)\<close> from 32 random bytes: the padding is stripped.\<close>

definition generate_node_secret :: "bytes \<Rightarrow> string" where
  "generate_node_secret rnd = rev (dropWhile (\<lambda>c. c = CHR ''='') (rev (urlsafe_b64encode rnd)))"

definition derive_node_signing_key :: "string \<Rightarrow> string" where
  "derive_node_signing_key node_secret = hexdigest (sha256 (str_utf8 node_secret))"

definition derive_encryption_key :: "string \<Rightarrow> bytes" where
  "derive_encryption_key secret = sha256 (str_utf8 secret)"

definition node_encryption_key :: "settings \<Rightarrow> key_error + bytes" where
  "node_encryption_key settings =
     (let secret = node_key_encryption_secret settings in
      if secret = [] \<or> secret = sentinel then Inl Value_Error else Inr (derive_encryption_key secret))"

text \<open>The keystream loop is the one of Sha256; \<open>to_bytes\<close> fails with an OverflowError.\<close>

definition xor_with_keystream :: "bytes \<Rightarrow> bytes \<Rightarrow> bytes \<Rightarrow> key_error + bytes" where
  "xor_with_keystream payload key nonce =
     (case keystream_bytes key nonce (length payload) of
        None \<Rightarrow> Inl Overflow_Error
      | Some ks \<Rightarrow> Inr (xor_bytes payload ks))"

definition key_aad :: bytes where
  "key_aad = str_utf8 ''gpufleet-node-key-v2''"

definition v1_context :: bytes where
  "v1_context = str_utf8 ''gpufleet-node-key-v1''"

definition encrypt_node_signing_key :: "crypto \<Rightarrow> settings \<Rightarrow> bytes \<Rightarrow> utext \<Rightarrow> key_error + string" where
  "encrypt_node_signing_key cr settings nonce signing_key =
     (case node_encryption_key settings of
        Inl e \<Rightarrow> Inl e
      | Inr key \<Rightarrow> Inr (''v2:'' @ urlsafe_b64encode
          (nonce @ aes_encrypt cr key nonce (utf8_encode signing_key) key_aad)))"

text \<open>\<open>urlsafe_b64decode(s[3:].encode("ascii"))\<close>\<close>

definition decode_envelope :: "string \<Rightarrow> bytes option" where
  "decode_envelope s =
     (if list_ex (\<lambda>c. 128 \<le> (of_char c :: nat)) (drop 3 s) then None else urlsafe_b64decode (drop 3 s))"

definition utf8_text :: "bytes \<Rightarrow> key_error + utext" where
  "utf8_text bs = (case utf8_decode bs of None \<Rightarrow> Inl Value_Error | Some t \<Rightarrow> Inr t)"

text \<open>The secrets a version 1 key may be under, in the order they are tried.\<close>

definition secrets_to_try :: "settings \<Rightarrow> (string \<times> string) list" where
  "secrets_to_try settings =
     (''node_key_encryption_secret'', node_key_encryption_secret settings) #
     (if node_key_v1_fallback_enabled settings \<and> jwt_secret settings \<noteq> node_key_encryption_secret settings
      then [(''jwt_secret'', jwt_secret settings)] else [])"

fun try_v1 :: "(string \<times> string) list \<Rightarrow> bytes \<Rightarrow> bytes \<Rightarrow> bytes \<Rightarrow> key_error + utext \<times> string" where
  "try_v1 [] nonce ciphertext tag = Inl Value_Error"
| "try_v1 ((source, secret) # rest) nonce ciphertext tag =
     (if secret = [] \<or> secret = sentinel then try_v1 rest nonce ciphertext tag
      else
        (let key = derive_encryption_key secret;
             expected_tag = hmac_sha256 key (v1_context @ nonce @ ciphertext)
         in if expected_tag = tag then
              (case xor_with_keystream ciphertext key nonce of
                 Inl e \<Rightarrow> Inl e
               | Inr plaintext \<Rightarrow> map_sum id (\<lambda>t. (t, source)) (utf8_text plaintext))
            else try_v1 rest nonce ciphertext tag))"

definition decrypt_node_signing_key_with_metadata ::
  "crypto \<Rightarrow> settings \<Rightarrow> string \<Rightarrow> key_error + utext \<times> string" where
  "decrypt_node_signing_key_with_metadata cr settings encrypted =
     (if starts_with ''v2:'' encrypted then
        (case decode_envelope encrypted of
           None \<Rightarrow> Inl Value_Error
         | Some raw \<Rightarrow>
             if length raw < 28 then Inl Value_Error
             else
               (case node_encryption_key settings of
                  Inl e \<Rightarrow> Inl e
                | Inr key \<Rightarrow>
                    (case aes_decrypt cr key (take 12 raw) (drop 12 raw) key_aad of
                       None \<Rightarrow> Inl Invalid_Tag
                     | Some plaintext \<Rightarrow>
                         map_sum id (\<lambda>t. (t, ''node_key_encryption_secret'')) (utf8_text plaintext))))
      else if \<not> starts_with ''v1:'' encrypted then Inl Value_Error
      else
        (case decode_envelope encrypted of
           None \<Rightarrow> Inl Value_Error
         | Some raw \<Rightarrow>
             if length raw < 48 then Inl Value_Error
             else try_v1 (secrets_to_try settings) (take 16 raw)
                    (drop 16 (take (length raw - 32) raw)) (drop (length raw - 32) raw)))"

definition decrypt_node_signing_key :: "crypto \<Rightarrow> settings \<Rightarrow> string \<Rightarrow> key_error + utext" where
  "decrypt_node_signing_key cr settings encrypted =
     map_sum id fst (decrypt_node_signing_key_with_metadata cr settings encrypted)"

definition encrypt_node_onboarding_token :: "crypto \<Rightarrow> settings \<Rightarrow> bytes \<Rightarrow> utext \<Rightarrow> key_error + string" where
  "encrypt_node_onboarding_token cr settings nonce node_secret =
     encrypt_node_signing_key cr settings nonce node_secret"

definition decrypt_node_onboarding_token :: "crypto \<Rightarrow> settings \<Rightarrow> string \<Rightarrow> key_error + utext" where
  "decrypt_node_onboarding_token cr settings encrypted_token = decrypt_node_signing_key cr settings encrypted_token"

lemma b64_ascii: "c \<in> set (urlsafe_b64encode bs) \<Longrightarrow> (of_char c :: nat) < 128"
proof -
  assume "c \<in> set (urlsafe_b64encode bs)"
  then obtain d where "d \<in> set (b64encode bs)" and c: "c = urlsafe d" by (auto simp: urlsafe_b64encode_def)
  then have "d = CHR ''='' \<or> b64_val d \<noteq> None" using b64_chars [of bs] by (auto simp: list_all_iff)
  then have "(of_char d :: nat) < 128" by (auto simp: b64_val_def Let_def split: if_splits)
  then show ?thesis by (simp add: c urlsafe_def)
qed

lemma decode_envelope_encode: "decode_envelope (''v'' @ d # CHR '':'' # urlsafe_b64encode bs) = Some bs"
  using b64_ascii by (auto simp: decode_envelope_def list_ex_iff urlsafe_b64decode_encode not_le)

lemma node_key_round_trip:
  assumes "aead_ok cr" and "length nonce = 12" and "\<forall>c \<in> set key. scalar c"
    and "encrypt_node_signing_key cr settings nonce key = Inr enc"
  shows "decrypt_node_signing_key_with_metadata cr settings enc = Inr (key, ''node_key_encryption_secret'')"
proof -
  from assms(4) obtain k where k: "node_encryption_key settings = Inr k"
    and enc: "enc = ''v2:'' @ urlsafe_b64encode (nonce @ aes_encrypt cr k nonce (utf8_encode key) key_aad)"
    by (auto simp: encrypt_node_signing_key_def split: sum.splits)
  have d: "decode_envelope enc = Some (nonce @ aes_encrypt cr k nonce (utf8_encode key) key_aad)"
    using decode_envelope_encode [of "CHR ''2''"] by (simp add: enc)
  have "starts_with ''v2:'' enc" by (simp add: enc)
  then show ?thesis
    using assms(1-3) by (simp add: decrypt_node_signing_key_with_metadata_def d k aead_ok_def utf8_text_def
        utf8_decode_encode)
qed

section \<open>Request signatures\<close>

definition hash_request_body :: "bytes \<Rightarrow> string" where
  "hash_request_body body = hexdigest (sha256 body)"

definition sign_node_request :: "utext \<Rightarrow> string \<Rightarrow> string \<Rightarrow> string \<Rightarrow> string \<Rightarrow> string" where
  "sign_node_request derived_signing_key node_id timestamp nonce body_hash =
     (let message = str_utf8 (join [CHR 10] [node_id, timestamp, nonce, body_hash])
      in hexdigest (hmac_sha256 (utf8_encode derived_signing_key) message))"

text \<open>\<open>hmac.compare_digest\<close> on two texts: a TypeError when either is not ASCII.\<close>

definition compare_digest :: "string \<Rightarrow> string \<Rightarrow> unit + bool" where
  "compare_digest a b =
     (if list_ex (\<lambda>c. 128 \<le> (of_char c :: nat)) (a @ b) then Inl () else Inr (a = b))"

definition verify_node_request_signature ::
  "utext \<Rightarrow> string \<Rightarrow> string \<Rightarrow> string \<Rightarrow> string \<Rightarrow> string \<Rightarrow> unit + bool" where
  "verify_node_request_signature derived_signing_key node_id timestamp nonce body_hash signature =
     compare_digest (sign_node_request derived_signing_key node_id timestamp nonce body_hash) signature"

lemma hex_ascii: "n < 16 \<Longrightarrow> (of_char (hex_digit n) :: nat) < 128"
  by (simp add: hex_digit_def)

lemma hexdigest_ascii: "c \<in> set (hexdigest bs) \<Longrightarrow> (of_char c :: nat) < 128"
proof -
  assume "c \<in> set (hexdigest bs)"
  then have "\<exists>b :: 8 word. c = hex_digit (unat b div 16) \<or> c = hex_digit (unat b mod 16)"
    unfolding hexdigest_def by auto
  then obtain b :: "8 word" where c: "c = hex_digit (unat b div 16) \<or> c = hex_digit (unat b mod 16)" ..
  have "unat b div 16 < 16" and "unat b mod 16 < 16"
    using unat_bound [of b] by (simp_all add: less_mult_imp_div_less)
  with c hex_ascii show ?thesis by auto
qed

lemma verify_own_signature:
  "verify_node_request_signature k n t x h (sign_node_request k n t x h) = Inr True"
  using hexdigest_ascii
  by (auto simp: verify_node_request_signature_def compare_digest_def sign_node_request_def Let_def
      list_ex_iff not_le)

lemma verify_iff:
  "verify_node_request_signature k n t x h sig = Inr True \<longleftrightarrow> sig = sign_node_request k n t x h"
proof
  assume "verify_node_request_signature k n t x h sig = Inr True"
  then show "sig = sign_node_request k n t x h"
    by (auto simp: verify_node_request_signature_def compare_digest_def split: if_splits)
next
  assume "sig = sign_node_request k n t x h"
  then show "verify_node_request_signature k n t x h sig = Inr True" by (simp add: verify_own_signature)
qed

section \<open>Properties\<close>

text \<open>What is encrypted under a node key secret is read back: with an AES-GCM that opens what it sealed,
  the version 2 envelope of a signing key decrypts to the key, under the current secret.\<close>

theorem encrypted_key_round_trip:
  assumes "aead_ok cr" and "length nonce = 12" and "\<forall>c \<in> set key. scalar c"
    and "encrypt_node_signing_key cr settings nonce key = Inr enc"
  shows "decrypt_node_signing_key_with_metadata cr settings enc = Inr (key, ''node_key_encryption_secret'')"
  by (rule node_key_round_trip [OF assms])

text \<open>An AEAD for the witness: it appends a tag of 16 bytes and drops it.\<close>

definition sample_crypto :: crypto where
  "sample_crypto = \<lparr>aes_encrypt = (\<lambda>k n p a. p @ replicate 16 0),
     aes_decrypt = (\<lambda>k n c a. Some (take (length c - 16) c)),
     jwt_encode = (\<lambda>p secret. ''token''), jwt_decode = (\<lambda>now tok secret. None),
     pw_hash = (\<lambda>p. p), pw_verify = (\<lambda>p h. p = h)\<rparr>"

lemma sample_crypto_ok: "aead_ok sample_crypto"
  by (simp add: aead_ok_def sample_crypto_def)

lemma encrypted_key_round_trip_witness:
  "\<exists>enc. encrypt_node_signing_key sample_crypto (default_settings\<lparr>node_key_encryption_secret := ''secret''\<rparr>)
      (replicate 12 0) (of_string ''abc'') = Inr enc \<and>
    decrypt_node_signing_key_with_metadata sample_crypto (default_settings\<lparr>node_key_encryption_secret := ''secret''\<rparr>) enc =
      Inr (of_string ''abc'', ''node_key_encryption_secret'')"
proof -
  let ?s = "default_settings\<lparr>node_key_encryption_secret := ''secret''\<rparr>"
  have e: "\<exists>enc. encrypt_node_signing_key sample_crypto ?s (replicate 12 0) (of_string ''abc'') = Inr enc"
    by (simp add: encrypt_node_signing_key_def node_encryption_key_def sentinel_def Let_def)
  then obtain enc where enc: "encrypt_node_signing_key sample_crypto ?s (replicate 12 0) (of_string ''abc'') = Inr enc" ..
  from encrypted_key_round_trip [OF sample_crypto_ok _ _ enc] enc scalar_of_string show ?thesis by fastforce
qed

text \<open>The signature check is exact: for an ASCII signature it answers whether the signature is the HMAC
  of these four header values under this key, and it raises exactly when the signature has a
  character outside ASCII.\<close>

theorem signature_check_exact:
  "verify_node_request_signature key node_id timestamp nonce body_hash signature =
     (if \<exists>c \<in> set signature. 128 \<le> (of_char c :: nat) then Inl ()
      else Inr (signature = sign_node_request key node_id timestamp nonce body_hash))"
proof -
  have "\<not> list_ex (\<lambda>c. 128 \<le> (of_char c :: nat)) (sign_node_request key node_id timestamp nonce body_hash)"
    using hexdigest_ascii by (auto simp: sign_node_request_def Let_def list_ex_iff not_le)
  then show ?thesis
    by (auto simp: verify_node_request_signature_def compare_digest_def list_ex_iff)
qed

end
