(* ===== verification/Node_Auth.thy ===== *)
theory Node_Auth
  imports Security Examples
begin

text \<open>
  \<open>authenticate_node\<close> of \<open>app/services/node_runtime_service.py\<close>: the checks of a signed node request
  and the two writes (the nonce and the node's last timestamp) that make a request count once. The
  contract of such a guard is the locale \<open>replay_guard\<close>; the facts about whole runs are proved there
  and hold of the model by the interpretation at the end. A handler reads the clock once, as \<open>now\<close>.
\<close>

section \<open>The interface of a replay guard\<close>

text \<open>
  \<open>accept\<close> is one accepted request, \<open>mark\<close> the last value a client has used, \<open>other\<close> any step of
  the rest of the system. An accepted request moves its client's mark strictly up and leaves the
  others; the rest of the system moves no mark down.
\<close>

locale replay_guard =
  fixes inv :: "'s \<Rightarrow> bool"
    and accept :: "'r \<Rightarrow> 's \<Rightarrow> 's option"
    and mark :: "'s \<Rightarrow> 'k \<Rightarrow> 't :: linorder option"
    and client :: "'r \<Rightarrow> 'k"
    and stamp :: "'r \<Rightarrow> 't"
    and other :: "'s \<Rightarrow> 's \<Rightarrow> bool"
  assumes accept_inv: "inv s \<Longrightarrow> accept r s = Some s' \<Longrightarrow> inv s'"
    and accept_above: "inv s \<Longrightarrow> accept r s = Some s' \<Longrightarrow> mark s (client r) < Some (stamp r)"
    and accept_mark: "inv s \<Longrightarrow> accept r s = Some s' \<Longrightarrow>
      mark s' k = (if k = client r then Some (stamp r) else mark s k)"
    and other_inv: "inv s \<Longrightarrow> other s s' \<Longrightarrow> inv s'"
    and other_mark: "inv s \<Longrightarrow> other s s' \<Longrightarrow> mark s k \<le> mark s' k"
begin

inductive run :: "'s \<Rightarrow> 'r list \<Rightarrow> 's \<Rightarrow> bool" where
  start: "run s [] s"
| accepted: "run s rs s' \<Longrightarrow> accept r s' = Some s'' \<Longrightarrow> run s (rs @ [r]) s''"
| elsewhere: "run s rs s' \<Longrightarrow> other s' s'' \<Longrightarrow> run s rs s''"

definition stamps :: "'k \<Rightarrow> 'r list \<Rightarrow> 't list" where
  "stamps k rs = map stamp (filter (\<lambda>r. client r = k) rs)"

lemma run_inv: "run s rs s' \<Longrightarrow> inv s \<Longrightarrow> inv s'"
  by (induction rule: run.induct) (auto intro: accept_inv other_inv)

lemma run_mark:
  "run s rs s' \<Longrightarrow> inv s \<Longrightarrow> sorted_wrt (<) (stamps k rs) \<and> (\<forall>t \<in> set (stamps k rs). Some t \<le> mark s' k) \<and>
     mark s k \<le> mark s' k"
proof (induction rule: run.induct)
  case (start s)
  then show ?case by (simp add: stamps_def)
next
  case (accepted s rs s' r s'')
  have inv: "inv s'" using run_inv [OF accepted(1)] accepted.prems .
  note IH = accepted.IH [OF accepted.prems]
  note m = accept_mark [OF inv accepted(2)] and a = accept_above [OF inv accepted(2)]
  show ?case
  proof (cases "client r = k")
    case True
    with a IH have "\<forall>t \<in> set (stamps k rs). t < stamp r" by (metis less_option_Some order_le_less_trans)
    with IH True a m [of k] show ?thesis
      by (auto simp: stamps_def sorted_wrt_append)
  next
    case False
    then show ?thesis using IH m [of k] by (auto simp: stamps_def)
  qed
next
  case (elsewhere s rs s' s'')
  have "mark s' k \<le> mark s'' k"
    using other_mark run_inv elsewhere by blast
  then show ?case using elsewhere.IH [OF elsewhere.prems] by fastforce
qed

text \<open>The accepted requests of one client carry strictly increasing stamps, so none counts twice.\<close>

lemma run_increasing: "run s rs s' \<Longrightarrow> inv s \<Longrightarrow> sorted_wrt (<) (stamps k rs)"
  using run_mark by blast

lemma run_distinct: "run s rs s' \<Longrightarrow> inv s \<Longrightarrow> distinct rs"
proof (induction rule: run.induct)
  case (accepted s rs s' r s'')
  have inv: "inv s'" using run_inv [OF accepted(1)] accepted.prems .
  have "r \<notin> set rs"
  proof
    assume "r \<in> set rs"
    then have "stamp r \<in> set (stamps (client r) rs)" by (simp add: stamps_def)
    then have "Some (stamp r) \<le> mark s' (client r)"
      using run_mark [OF accepted(1) accepted.prems] by blast
    with accept_above [OF inv accepted(2)] show False by simp
  qed
  with accepted show ?case by simp
qed auto

end

section \<open>Requests\<close>

record node_request =
  hdr_node_id :: "string option"
  hdr_timestamp :: "string option"
  hdr_nonce :: "string option"
  hdr_signature :: "string option"
  hdr_content_length :: "string option"
  rq_body :: bytes

definition unauthorized :: "string \<Rightarrow> api_error" where
  "unauthorized code = Api_Error code 401"

text \<open>\<open>astimezone(UTC)\<close> raises an OverflowError outside the years 1 to 9999.\<close>

definition parse_timestamp :: "string \<Rightarrow> api_error + instant" where
  "parse_timestamp raw =
     (case fromisoformat (replace_Z raw) of
        None \<Rightarrow> Inl (unauthorized ''ERR_AUTH_INVALID_TIMESTAMP'')
      | Some p \<Rightarrow> if in_range (to_utc p) then Inr (to_utc p) else Inl (Unhandled ''OverflowError''))"

definition find_enabled_node :: "string \<Rightarrow> node_row list \<Rightarrow> node_row option" where
  "find_enabled_node node_id rows = List.find (\<lambda>r. n_node_id r = node_id \<and> n_is_enabled r) rows"

text \<open>
  The signing key of a node: the decrypted one when an encrypted one is stored, else the plain
  column. A version 1 key that opened under the JWT secret is encrypted again under the node key
  secret; a ValueError of either step is the 401 of the source, any other exception is not caught.
\<close>

definition key_failure :: "key_error \<Rightarrow> api_error" where
  "key_failure e = (case e of Value_Error \<Rightarrow> unauthorized ''ERR_AUTH_SIGNING_KEY_UNAVAILABLE''
     | Invalid_Tag \<Rightarrow> Unhandled ''InvalidTag'' | Overflow_Error \<Rightarrow> Unhandled ''OverflowError'')"

definition node_stored_key ::
  "crypto \<Rightarrow> settings \<Rightarrow> instant \<Rightarrow> bytes \<Rightarrow> node_row \<Rightarrow> (world, api_error, utext) act" where
  "node_stored_key cr settings now rnd node w =
     (let stored = of_string (or_else (n_node_signing_key node) []);
          encrypted = or_else (n_encrypted_signing_key node) []
      in if encrypted = [] then (Inr stored, w)
         else
           (case decrypt_node_signing_key_with_metadata cr settings encrypted of
              Inl e \<Rightarrow> (Inl (key_failure e), w)
            | Inr (key, source) \<Rightarrow>
                if source = ''jwt_secret'' then
                  (let w1 = observe [NODE_KEY_FALLBACK ''jwt_secret''] w in
                   case encrypt_node_signing_key cr settings rnd key of
                     Inl e \<Rightarrow> (Inl (key_failure e), w1)
                   | Inr enc \<Rightarrow>
                       (Inr key, upd_nodes (update_where (\<lambda>r. n_id r = n_id node)
                          (\<lambda>r. r\<lparr>n_encrypted_signing_key := Some enc, n_updated_at := utc_now_iso now\<rparr>)) w1))
                else (Inr key, w)))"

definition nonce_used :: "string \<Rightarrow> string \<Rightarrow> nonce_row list \<Rightarrow> bool" where
  "nonce_used node_id nonce rows \<longleftrightarrow> (\<exists>r \<in> set rows. c_node_id r = node_id \<and> c_nonce r = nonce)"

definition insert_nonce :: "string \<Rightarrow> string \<Rightarrow> string \<Rightarrow> iso \<Rightarrow> world \<Rightarrow> world" where
  "insert_nonce node_id nonce timestamp expires_at w =
     w\<lparr>db := bump T_Nonces ((db w)\<lparr>d_nonces := d_nonces (db w) @
        [\<lparr>c_id = next_id T_Nonces (db w), c_node_id = node_id, c_nonce = nonce,
          c_timestamp_utc = timestamp, c_expires_at = expires_at\<rparr>]\<rparr>)\<rparr>"

text \<open>\<open>is_enabled = 1 AND (last_request_ts IS NULL OR last_request_ts < ?)\<close>\<close>

definition ts_advances :: "string \<Rightarrow> node_row \<Rightarrow> bool" where
  "ts_advances timestamp r \<longleftrightarrow> n_is_enabled r \<and>
     (case n_last_request_ts r of None \<Rightarrow> True | Some t \<Rightarrow> t < timestamp)"

definition accept_signed ::
  "settings \<Rightarrow> instant \<Rightarrow> string \<Rightarrow> string \<Rightarrow> string \<Rightarrow> string \<Rightarrow> bytes \<Rightarrow> utext \<Rightarrow> (world, api_error, unit) act" where
  "accept_signed settings now node_id timestamp nonce signature body key w =
     (if key = [] then (Inl (unauthorized ''ERR_AUTH_SIGNING_KEY_UNAVAILABLE''), w)
      else
        (case verify_node_request_signature key node_id timestamp nonce (hash_request_body body) signature of
           Inl _ \<Rightarrow> (Inl (Unhandled ''TypeError''), w)
         | Inr False \<Rightarrow> (Inl (unauthorized ''ERR_AUTH_INVALID_SIGNATURE''), w)
         | Inr True \<Rightarrow>
             if nonce_used node_id nonce (d_nonces (db w))
             then (Inl (Api_Error ''ERR_AUTH_NONCE_DUPLICATE'' 409), w)
             else
               (let expires_at = utc_now_iso (now + seconds (nonce_ttl_sec settings));
                    w1 = insert_nonce node_id nonce timestamp expires_at w;
                    P = (\<lambda>r. n_node_id r = node_id \<and> ts_advances timestamp r);
                    n = rowcount P (d_nodes (db w1));
                    w2 = upd_nodes (update_where P (\<lambda>r. r\<lparr>n_last_request_ts := Some timestamp,
                           n_updated_at := utc_now_iso now\<rparr>)) w1
                in if n \<noteq> 1 then (Inl (Api_Error ''ERR_AUTH_TIMESTAMP_REPLAY'' 409), w2)
                   else (Inr (), w2))))"

definition authenticate_node ::
  "crypto \<Rightarrow> settings \<Rightarrow> instant \<Rightarrow> bytes \<Rightarrow> node_request \<Rightarrow> (world, api_error, string \<times> node_row) act" where
  "authenticate_node cr settings now rnd req w =
     (if \<not> truthy (hdr_node_id req) \<or> \<not> truthy (hdr_timestamp req) \<or> \<not> truthy (hdr_nonce req) \<or>
         \<not> truthy (hdr_signature req)
      then (Inl (unauthorized ''ERR_AUTH_MISSING_HEADERS''), w)
      else
        (let node_id = the (hdr_node_id req); timestamp = the (hdr_timestamp req);
             nonce = the (hdr_nonce req); signature = the (hdr_signature req)
         in case parse_timestamp timestamp of
              Inl e \<Rightarrow> (Inl e, w)
            | Inr request_time \<Rightarrow>
                if seconds (node_allowed_clock_skew_sec settings) < \<bar>now - request_time\<bar>
                then (Inl (unauthorized ''ERR_AUTH_TIMESTAMP_SKEW''), w)
                else
                  connect (\<lambda>w.
                    case find_enabled_node node_id (d_nodes (db w)) of
                      None \<Rightarrow> (Inl (unauthorized ''ERR_AUTH_NODE_NOT_FOUND_OR_DISABLED''), w)
                    | Some node \<Rightarrow>
                        andthen (node_stored_key cr settings now rnd node) (\<lambda>key.
                        andthen (accept_signed settings now node_id timestamp nonce signature (rq_body req) key)
                          (\<lambda>_. ok (node_id, node))) w) w))"

section \<open>What the authentication of a request leaves alone\<close>

text \<open>
  The marks of node requests: nonces, and of the nodes' rows the last timestamp, the time of the update and the
  encrypted key; besides these only the metrics may differ.
\<close>

definition unmarked_node :: "node_row \<Rightarrow> node_row" where
  "unmarked_node r = r\<lparr>n_last_request_ts := None, n_updated_at := [], n_encrypted_signing_key := None\<rparr>"

definition same_but_marks :: "world \<Rightarrow> world \<Rightarrow> bool" where
  "same_but_marks w w' \<longleftrightarrow>
     files w' = files w \<and> hook w' = hook w \<and> pending_fp w' = pending_fp w \<and>
     d_admins (db w') = d_admins (db w) \<and> d_snapshots (db w') = d_snapshots (db w) \<and> d_tasks (db w') = d_tasks (db w) \<and>
     d_attempts (db w') = d_attempts (db w) \<and> d_logs (db w') = d_logs (db w) \<and> d_artifacts (db w') = d_artifacts (db w) \<and>
     d_audits (db w') = d_audits (db w) \<and> d_warnings (db w') = d_warnings (db w) \<and> d_reviews (db w') = d_reviews (db w) \<and>
     d_alerts (db w') = d_alerts (db w) \<and> (\<forall>t. t \<noteq> T_Nonces \<longrightarrow> d_seq (db w') t = d_seq (db w) t) \<and>
     map unmarked_node (d_nodes (db w')) = map unmarked_node (d_nodes (db w)) \<and>
     (\<exists>ns. d_nonces (db w') = d_nonces (db w) @ ns)"

lemma same_but_marks_refl [simp]: "same_but_marks w w"
  by (simp add: same_but_marks_def)

lemma same_but_marks_trans:
  assumes "same_but_marks a b" and "same_but_marks b c"
  shows "same_but_marks a c"
proof -
  have "\<exists>ns. d_nonces (db c) = d_nonces (db a) @ ns"
    using assms by (auto simp: same_but_marks_def)
  with assms show ?thesis by (simp add: same_but_marks_def)
qed

lemma same_but_marks_gm: "db w' = db w \<Longrightarrow> files w' = files w \<Longrightarrow> hook w' = hook w \<Longrightarrow> pending_fp w' = pending_fp w \<Longrightarrow> same_but_marks w w'"
  by (simp add: same_but_marks_def)

lemma marks_observe: "same_but_marks w (observe ms w)"
  by (rule same_but_marks_gm) (simp_all add: observe_def)

lemma marks_insert_nonce: "same_but_marks w (insert_nonce n x t e w)"
  by (simp add: same_but_marks_def insert_nonce_def bump_def)

lemma marks_nodes:
  assumes "\<And>r. unmarked_node (f r) = unmarked_node r"
  shows "same_but_marks w (upd_nodes (update_where P f) w)"
  using assms by (simp add: same_but_marks_def upd_nodes_def update_where_def)

lemma stored_key_marks:
  assumes "node_stored_key cr s now rnd node w = (r, w')"
  shows "same_but_marks w w'"
proof -
  have "same_but_marks w (upd_nodes (update_where P (\<lambda>r. r\<lparr>n_encrypted_signing_key := e, n_updated_at := u\<rparr>)) (observe ms w))" for P e u ms
    by (rule same_but_marks_trans [OF marks_observe marks_nodes]) (simp add: unmarked_node_def)
  then show ?thesis
    using assms by (auto simp: node_stored_key_def Let_def marks_observe split: if_splits sum.splits prod.splits)
qed

lemma accept_marks:
  assumes "accept_signed s now nid ts nonce sig body key w = (r, w')"
  shows "same_but_marks w w'"
proof -
  have "same_but_marks w (upd_nodes (update_where P (\<lambda>r. r\<lparr>n_last_request_ts := t, n_updated_at := u\<rparr>)) (insert_nonce n x y e w))" for P t u n x y e
    by (rule same_but_marks_trans [OF marks_insert_nonce marks_nodes]) (simp add: unmarked_node_def)
  then show ?thesis
    using assms by (auto simp: accept_signed_def Let_def split: if_splits sum.splits bool.splits)
qed

lemma connect_marks:
  assumes "same_but_marks w (snd (body w))"
  shows "same_but_marks w (snd (connect body w))"
  using assms by (cases "body w") (auto simp: connect_def same_but_marks_def split: sum.splits)

lemma authenticate_marks: "same_but_marks w (snd (authenticate_node cr s now rnd req w))"
proof -
  have "same_but_marks w (snd (andthen (node_stored_key cr s now rnd node) (\<lambda>key.
      andthen (accept_signed s now nid ts nonce sig body key) (\<lambda>_. ok (nid, node))) w))" for node nid ts nonce sig body
  proof -
    obtain k w1 where k: "node_stored_key cr s now rnd node w = (k, w1)" by fastforce
    obtain a w2 where a: "accept_signed s now nid ts nonce sig body (case k of Inr k \<Rightarrow> k | Inl _ \<Rightarrow> []) w1 = (a, w2)" by fastforce
    from same_but_marks_trans [OF stored_key_marks [OF k] accept_marks [OF a]] stored_key_marks [OF k] show ?thesis
      using k a by (cases k; cases a) (simp_all add: andthen_def ok_def)
  qed
  then show ?thesis
    by (auto simp: authenticate_node_def Let_def intro!: connect_marks split: sum.split option.split)
qed

lemma authenticate_marksD: "authenticate_node cr s now rnd req w = (r, w') \<Longrightarrow> same_but_marks w w'"
  by (metis authenticate_marks snd_conv)

section \<open>What a rejected and an accepted request do\<close>

text \<open>A rejected request leaves the database as it was.\<close>

lemma authenticate_Inl: "authenticate_node cr s now rnd req w = (Inl e, w') \<Longrightarrow> db w' = db w"
  by (auto simp: authenticate_node_def Let_def connect_Inl_db split: if_splits sum.splits)

definition node_ids :: "world \<Rightarrow> string list" where
  "node_ids w = map n_node_id (d_nodes (db w))"

definition last_request_ts :: "world \<Rightarrow> string \<Rightarrow> string option" where
  "last_request_ts w node_id = (case get_node node_id (d_nodes (db w)) of None \<Rightarrow> None | Some r \<Rightarrow> n_last_request_ts r)"

lemma insert_nonce_simps [simp]:
  "d_nodes (db (insert_nonce n x t e w)) = d_nodes (db w)" "d_tasks (db (insert_nonce n x t e w)) = d_tasks (db w)"
  "d_attempts (db (insert_nonce n x t e w)) = d_attempts (db w)" "d_logs (db (insert_nonce n x t e w)) = d_logs (db w)"
  "d_alerts (db (insert_nonce n x t e w)) = d_alerts (db w)" "d_admins (db (insert_nonce n x t e w)) = d_admins (db w)"
  "d_snapshots (db (insert_nonce n x t e w)) = d_snapshots (db w)"
  "d_artifacts (db (insert_nonce n x t e w)) = d_artifacts (db w)"
  "files (insert_nonce n x t e w) = files w" "gm (insert_nonce n x t e w) = gm w"
  "hook (insert_nonce n x t e w) = hook w" "pending_fp (insert_nonce n x t e w) = pending_fp w"
  by (simp_all add: insert_nonce_def)

text \<open>The key lookup writes at most the encrypted key: node ids and timestamps stay.\<close>

lemma node_stored_key_frame:
  assumes "node_stored_key cr s now rnd node w = (Inr key, w')"
  shows "map (\<lambda>r. (n_node_id r, n_last_request_ts r, n_is_enabled r)) (d_nodes (db w')) =
      map (\<lambda>r. (n_node_id r, n_last_request_ts r, n_is_enabled r)) (d_nodes (db w))"
    and "d_nonces (db w') = d_nonces (db w)" and "d_tasks (db w') = d_tasks (db w)"
    and "files w' = files w" and "hook w' = hook w" and "pending_fp w' = pending_fp w"
  using assms
  by (auto simp: node_stored_key_def Let_def update_where_def split: if_splits sum.splits prod.splits)

lemma find_enabled_get:
  assumes "distinct (map n_node_id rows)" and "find_enabled_node k rows = Some r"
  shows "get_node k rows = Some r" and "n_is_enabled r" and "n_node_id r = k"
proof -
  from assms(2) have r: "r \<in> set rows" "n_node_id r = k" "n_is_enabled r"
    by (auto simp: find_enabled_node_def dest: find_Some_in)
  then show "n_is_enabled r" "n_node_id r = k" by simp_all
  show "get_node k rows = Some r"
    using find_distinct_key [OF assms(1) r(1)] r(2) by (simp add: get_node_def)
qed

lemma get_node_proj:
  assumes "map (\<lambda>r. (n_node_id r, n_last_request_ts r, n_is_enabled r)) rows' =
      map (\<lambda>r. (n_node_id r, n_last_request_ts r, n_is_enabled r)) rows"
  shows "map_option (\<lambda>r. (n_last_request_ts r, n_is_enabled r)) (get_node k rows') =
    map_option (\<lambda>r. (n_last_request_ts r, n_is_enabled r)) (get_node k rows)"
  using assms
proof (induction rows' arbitrary: rows)
  case (Cons a rows')
  then obtain b rows'' where "rows = b # rows''" by (cases rows) auto
  with Cons show ?case by (auto simp: get_node_def)
qed (simp add: get_node_def)

lemma map_ids_proj:
  assumes "map (\<lambda>r. (n_node_id r, n_last_request_ts r, n_is_enabled r)) rows' =
      map (\<lambda>r. (n_node_id r, n_last_request_ts r, n_is_enabled r)) rows"
  shows "map n_node_id rows' = map n_node_id rows"
  using arg_cong [OF assms, of "map fst"] by (simp add: comp_def)

lemma accept_signed_Inr:
  assumes "accept_signed s now nid ts nonce sig body key w = (Inr u, w')"
  shows "key \<noteq> []" and "sig = sign_node_request key nid ts nonce (hash_request_body body)"
    and "\<not> nonce_used nid nonce (d_nonces (db w))"
    and "rowcount (\<lambda>r. n_node_id r = nid \<and> ts_advances ts r) (d_nodes (db w)) = 1"
    and "w' = upd_nodes (update_where (\<lambda>r. n_node_id r = nid \<and> ts_advances ts r)
       (\<lambda>r. r\<lparr>n_last_request_ts := Some ts, n_updated_at := utc_now_iso now\<rparr>))
       (insert_nonce nid nonce ts (utc_now_iso (now + seconds (nonce_ttl_sec s))) w)"
  using assms verify_iff
  by (auto simp: accept_signed_def Let_def split: if_splits sum.splits bool.splits)

text \<open>The accepted branch, opened once for every proof below.\<close>

lemma authenticate_Inr:
  assumes "authenticate_node cr s now rnd req w = (Inr (nid, node), w')"
  obtains ts nonce sig t key w1 where
    "hdr_node_id req = Some nid" and "hdr_timestamp req = Some ts" and "hdr_nonce req = Some nonce"
    and "hdr_signature req = Some sig"
    and "parse_timestamp ts = Inr t" and "\<bar>now - t\<bar> \<le> seconds (node_allowed_clock_skew_sec s)"
    and "find_enabled_node nid (d_nodes (db w)) = Some node"
    and "node_stored_key cr s now rnd node w = (Inr key, w1)"
    and "accept_signed s now nid ts nonce sig (rq_body req) key w1 = (Inr (), w')"
proof -
  from assms have h: "truthy (hdr_node_id req)" "truthy (hdr_timestamp req)" "truthy (hdr_nonce req)"
    "truthy (hdr_signature req)"
    by (auto simp: authenticate_node_def split: if_splits)
  then obtain n ts nonce sig where hs: "hdr_node_id req = Some n" "hdr_timestamp req = Some ts"
    "hdr_nonce req = Some nonce" "hdr_signature req = Some sig"
    by (metis option.exhaust truthy.simps(1))
  from assms h hs obtain t where t: "parse_timestamp ts = Inr t"
    "\<bar>now - t\<bar> \<le> seconds (node_allowed_clock_skew_sec s)"
    by (auto simp: authenticate_node_def Let_def split: if_splits sum.splits)
  from assms h hs t have "connect (\<lambda>w.
      case find_enabled_node n (d_nodes (db w)) of
        None \<Rightarrow> (Inl (unauthorized ''ERR_AUTH_NODE_NOT_FOUND_OR_DISABLED''), w)
      | Some node \<Rightarrow>
          andthen (node_stored_key cr s now rnd node) (\<lambda>key.
          andthen (accept_signed s now n ts nonce sig (rq_body req) key)
            (\<lambda>_. ok (n, node))) w) w = (Inr (nid, node), w')"
    by (simp add: authenticate_node_def)
  then have body: "n = nid" "find_enabled_node nid (d_nodes (db w)) = Some node"
    "\<exists>key w1. node_stored_key cr s now rnd node w = (Inr key, w1) \<and>
       accept_signed s now nid ts nonce sig (rq_body req) key w1 = (Inr (), w')"
    by (auto simp: connect_Inr andthen_def ok_def split: option.splits prod.splits sum.splits)
  from body(3) obtain key w1 where "node_stored_key cr s now rnd node w = (Inr key, w1)"
    "accept_signed s now nid ts nonce sig (rq_body req) key w1 = (Inr (), w')" by blast
  then show ?thesis using that [of ts nonce sig t key w1] hs t body(1,2) by simp
qed

lemma get_node_update_ts:
  fixes u :: iso
  assumes d: "distinct (map n_node_id rows)" and n: "rowcount (\<lambda>r. n_node_id r = nid \<and> ts_advances ts r) rows = 1"
  defines "rows' \<equiv> update_where (\<lambda>r. n_node_id r = nid \<and> ts_advances ts r)
      (\<lambda>r. r\<lparr>n_last_request_ts := Some ts, n_updated_at := u\<rparr>) rows"
  shows "map n_node_id rows' = map n_node_id rows"
    and "\<exists>r. get_node nid rows = Some r \<and> ts_advances ts r \<and>
      get_node nid rows' = Some (r\<lparr>n_last_request_ts := Some ts, n_updated_at := u\<rparr>)"
    and "k \<noteq> nid \<Longrightarrow> get_node k rows' = get_node k rows"
proof -
  from n obtain r where r: "r \<in> set rows" "n_node_id r = nid" "ts_advances ts r"
    using rowcount_0_iff [of "\<lambda>r. n_node_id r = nid \<and> ts_advances ts r" rows] by auto
  have g: "List.find (\<lambda>x. n_node_id x = nid) rows = Some r" using find_distinct_key [OF d r(1)] r(2) by simp
  have put: "rows' = put_node nid (\<lambda>r. r\<lparr>n_last_request_ts := Some ts, n_updated_at := u\<rparr>) rows"
    unfolding rows'_def put_node_def using update_where_conj_key [of n_node_id rows nid r "ts_advances ts"] d g r(3)
    by simp
  show "map n_node_id rows' = map n_node_id rows" by (simp add: rows'_def update_where_def)
  show "\<exists>r. get_node nid rows = Some r \<and> ts_advances ts r \<and>
      get_node nid rows' = Some (r\<lparr>n_last_request_ts := Some ts, n_updated_at := u\<rparr>)"
    using g r(3) node_tab.get_put [of "\<lambda>r. r\<lparr>n_last_request_ts := Some ts, n_updated_at := u\<rparr>"]
    by (simp add: put get_node_def)
  show "k \<noteq> nid \<Longrightarrow> get_node k rows' = get_node k rows"
    by (simp add: put node_tab.get_put)
qed

section \<open>The model is a replay guard\<close>

text \<open>One attempt, with everything the environment contributes to it.\<close>

type_synonym attempt = "crypto \<times> settings \<times> instant \<times> bytes \<times> node_request"

definition accept :: "attempt \<Rightarrow> world \<Rightarrow> world option" where
  "accept a w = (case a of (cr, s, now, rnd, req) \<Rightarrow>
     (case authenticate_node cr s now rnd req w of (Inr _, w') \<Rightarrow> Some w' | (Inl _, _) \<Rightarrow> None))"

definition attempt_node :: "attempt \<Rightarrow> string" where
  "attempt_node a = (case a of (_, _, _, _, req) \<Rightarrow> the (hdr_node_id req))"

definition attempt_ts :: "attempt \<Rightarrow> string" where
  "attempt_ts a = (case a of (_, _, _, _, req) \<Rightarrow> the (hdr_timestamp req))"

definition nodes_unique :: "world \<Rightarrow> bool" where
  "nodes_unique w \<longleftrightarrow> distinct (node_ids w)"

text \<open>Every step that keeps the nodes' ids apart and takes no last timestamp back.\<close>

definition keeps_marks :: "world \<Rightarrow> world \<Rightarrow> bool" where
  "keeps_marks w w' \<longleftrightarrow> nodes_unique w' \<and> (\<forall>k. last_request_ts w k \<le> last_request_ts w' k)"

lemma accept_facts:
  assumes u: "nodes_unique w" and a: "accept (cr, s, now, rnd, req) w = Some w'"
  shows "node_ids w' = node_ids w"
    and "last_request_ts w (the (hdr_node_id req)) < Some (the (hdr_timestamp req))"
    and "last_request_ts w' k = (if k = the (hdr_node_id req) then Some (the (hdr_timestamp req)) else last_request_ts w k)"
proof -
  from a obtain nid node where "authenticate_node cr s now rnd req w = (Inr (nid, node), w')"
    by (auto simp: accept_def split: sum.splits prod.splits)
  then obtain ts nonce sig t key w1 where h: "hdr_node_id req = Some nid" "hdr_timestamp req = Some ts"
    and k: "node_stored_key cr s now rnd node w = (Inr key, w1)"
    and acc: "accept_signed s now nid ts nonce sig (rq_body req) key w1 = (Inr (), w')"
    by (rule authenticate_Inr)
  note fr = node_stored_key_frame(1) [OF k]
  have ids: "map n_node_id (d_nodes (db w1)) = map n_node_id (d_nodes (db w))" by (rule map_ids_proj [OF fr])
  with u have d: "distinct (map n_node_id (d_nodes (db w1)))" by (simp add: nodes_unique_def node_ids_def)
  have same: "last_request_ts w1 j = last_request_ts w j" for j
    using get_node_proj [OF fr, of j] by (auto simp: last_request_ts_def split: option.splits)
  note upd = get_node_update_ts [OF d accept_signed_Inr(4) [OF acc], where u = "utc_now_iso now"]
  have nodes: "d_nodes (db w') = update_where (\<lambda>r. n_node_id r = nid \<and> ts_advances ts r)
      (\<lambda>r. r\<lparr>n_last_request_ts := Some ts, n_updated_at := utc_now_iso now\<rparr>) (d_nodes (db w1))"
    by (simp add: accept_signed_Inr(5) [OF acc])
  show "node_ids w' = node_ids w" using upd(1) ids by (simp add: node_ids_def nodes)
  from upd(2) obtain r where r: "get_node nid (d_nodes (db w1)) = Some r" "ts_advances ts r"
    "get_node nid (d_nodes (db w')) = Some (r\<lparr>n_last_request_ts := Some ts, n_updated_at := utc_now_iso now\<rparr>)"
    by (auto simp: nodes)
  have "last_request_ts w1 nid < Some ts"
    using r(1,2) by (auto simp: last_request_ts_def ts_advances_def split: option.splits)
  then show "last_request_ts w (the (hdr_node_id req)) < Some (the (hdr_timestamp req))" by (simp add: h same)
  show "last_request_ts w' k = (if k = the (hdr_node_id req) then Some (the (hdr_timestamp req)) else last_request_ts w k)"
    using r(3) upd(3) [where k = k] same [of k] by (auto simp: h last_request_ts_def nodes)
qed

interpretation auth_guard: replay_guard nodes_unique accept last_request_ts attempt_node attempt_ts keeps_marks
proof (unfold_locales, goal_cases)
  case (1 s r s')
  then show ?case by (cases r) (simp add: nodes_unique_def accept_facts(1))
next
  case (2 s r s')
  then show ?case by (cases r) (simp add: accept_facts(2) attempt_node_def attempt_ts_def)
next
  case (3 s r s' k)
  then show ?case by (cases r) (simp add: accept_facts(3) attempt_node_def attempt_ts_def)
qed (auto simp: keeps_marks_def)

section \<open>Properties\<close>

text \<open>A request that the model accepts, for the witnesses.\<close>

definition sample_instant :: instant where
  "sample_instant = 63902822400000000"

definition sample_request :: node_request where
  "sample_request = \<lparr>hdr_node_id = Some ''n'', hdr_timestamp = Some ''2026-01-01T00:00:00Z'', hdr_nonce = Some ''x'',
     hdr_signature = Some (sign_node_request (of_string ''key'') ''n'' ''2026-01-01T00:00:00Z'' ''x'' (hash_request_body [])),
     hdr_content_length = None, rq_body = []\<rparr>"

lemma sample_timestamp: "parse_timestamp ''2026-01-01T00:00:00Z'' = Inr sample_instant"
  by code_simp

lemma sample_accepted:
  "\<exists>w'. authenticate_node cr default_settings sample_instant [] sample_request (sample_world [sample_node ''n'' 1] []) =
     (Inr (''n'', sample_node ''n'' 1), w')"
proof -
  have key: "or_else (n_encrypted_signing_key (sample_node ''n'' 1)) [] = []"
    "or_else (n_node_signing_key (sample_node ''n'' 1)) [] = ''key''" by (simp_all add: sample_node_def or_else_def)
  have ne: "of_string ''key'' \<noteq> []" by (simp add: of_string_def)
  have sg: "sign_node_request k n t x h \<noteq> []" for k n t x h
    using length_hexdigest by (metis length_hmac length_0_conv mult_is_0 sign_node_request_def zero_neq_numeral)
  show ?thesis
    by (simp add: authenticate_node_def sample_request_def sample_timestamp default_settings_def seconds_def
        find_enabled_node_def node_stored_key_def key Let_def connect_def andthen_def accept_signed_def ne
        verify_own_signature nonce_used_def insert_nonce_def sample_world_def empty_world_def empty_database_def
        rowcount_def ts_advances_def ok_def sg)
qed

text \<open>C2. No request counts twice: along any run of the system in which node requests are accepted one
  after the other and the other operations take no node's last timestamp back, the accepted requests
  are pairwise different and those of one node carry strictly increasing timestamps.\<close>

theorem accepted_requests_increase:
  assumes "auth_guard.run w rs w'" and "nodes_unique w"
  shows "distinct rs \<and> sorted_wrt (<) (map attempt_ts (filter (\<lambda>a. attempt_node a = node) rs))"
  using auth_guard.run_distinct [OF assms] auth_guard.run_increasing [OF assms, of node]
  by (simp add: auth_guard.stamps_def)

lemma accepted_requests_increase_witness:
  "\<exists>w' a. accept a (sample_world [sample_node ''n'' 1] []) = Some w' \<and> accept a w' = None"
proof -
  let ?w = "sample_world [sample_node ''n'' 1] []"
  let ?a = "(undefined :: crypto, default_settings, sample_instant, [] :: bytes, sample_request)"
  from sample_accepted [of undefined] obtain w' where a: "accept ?a ?w = Some w'" by (auto simp: accept_def)
  have "accept ?a w' \<noteq> Some w''" for w''
  proof
    assume "accept ?a w' = Some w''"
    then have "auth_guard.run ?w ([] @ [?a] @ [?a]) w''"
      using a by (metis append_Nil auth_guard.run.accepted auth_guard.run.start append_assoc)
    from accepted_requests_increase [OF this, of "''n''"] show False
      by (simp add: nodes_unique_def node_ids_def)
  qed
  with a show ?thesis by (cases "accept ?a w'") blast+
qed

text \<open>A rejected request leaves the database as it was: whatever check fails, even after the nonce was
  inserted, no table keeps a trace of it.\<close>

theorem rejected_request_keeps_database:
  assumes "authenticate_node cr s now rnd req w = (Inl e, w')"
  shows "db w' = db w"
  by (rule authenticate_Inl [OF assms])

lemma rejected_request_keeps_database_witness:
  "\<forall>cr s now rnd w. \<exists>w' e. authenticate_node cr s now rnd (sample_request\<lparr>hdr_nonce := None\<rparr>) w = (Inl e, w') \<and> db w' = db w"
proof (intro allI)
  fix cr s now rnd w
  have "authenticate_node cr s now rnd (sample_request\<lparr>hdr_nonce := None\<rparr>) w =
      (Inl (unauthorized ''ERR_AUTH_MISSING_HEADERS''), w)"
    by (simp add: authenticate_node_def)
  from rejected_request_keeps_database [OF this] this
  show "\<exists>w' e. authenticate_node cr s now rnd (sample_request\<lparr>hdr_nonce := None\<rparr>) w = (Inl e, w') \<and> db w' = db w"
    by blast
qed

text \<open>C3. An accepted request is authentic and fresh: it names an enabled node, its timestamp is within the
  allowed skew and later than the node's last one, its nonce was not used, its signature is the one
  that the node's stored key gives for exactly these header values and this body; and the nonce and
  the timestamp are recorded.\<close>

theorem accepted_request_authentic:
  assumes u: "nodes_unique w" and a: "authenticate_node cr s now rnd req w = (Inr (nid, node), w')"
  shows "\<exists>ts nonce sig t key w1. hdr_node_id req = Some nid \<and> hdr_timestamp req = Some ts \<and>
      hdr_nonce req = Some nonce \<and> hdr_signature req = Some sig \<and>
      get_node nid (d_nodes (db w)) = Some node \<and> n_is_enabled node \<and>
      parse_timestamp ts = Inr t \<and> \<bar>now - t\<bar> \<le> seconds (node_allowed_clock_skew_sec s) \<and>
      node_stored_key cr s now rnd node w = (Inr key, w1) \<and> key \<noteq> [] \<and>
      sig = sign_node_request key nid ts nonce (hash_request_body (rq_body req)) \<and>
      \<not> nonce_used nid nonce (d_nonces (db w)) \<and> nonce_used nid nonce (d_nonces (db w')) \<and>
      last_request_ts w nid < Some ts \<and> last_request_ts w' nid = Some ts"
proof -
  from a obtain ts nonce sig t key w1 where h: "hdr_node_id req = Some nid" "hdr_timestamp req = Some ts"
    "hdr_nonce req = Some nonce" "hdr_signature req = Some sig"
    and t: "parse_timestamp ts = Inr t" "\<bar>now - t\<bar> \<le> seconds (node_allowed_clock_skew_sec s)"
    and n: "find_enabled_node nid (d_nodes (db w)) = Some node"
    and k: "node_stored_key cr s now rnd node w = (Inr key, w1)"
    and acc: "accept_signed s now nid ts nonce sig (rq_body req) key w1 = (Inr (), w')"
    by (rule authenticate_Inr)
  note node = find_enabled_get [OF u [unfolded nodes_unique_def node_ids_def] n]
  note sg = accept_signed_Inr [OF acc]
  have used: "nonce_used nid nonce (d_nonces (db w'))"
    by (simp add: sg(5) upd_nodes_def insert_nonce_def bump_def nonce_used_def)
  have "accept (cr, s, now, rnd, req) w = Some w'" using a by (simp add: accept_def)
  note m = accept_facts(2,3) [OF u this]
  show ?thesis
    using h t node k sg(1,2,3) used m(1) m(2) [of nid] node_stored_key_frame(2) [OF k]
    by (intro exI [of _ ts] exI [of _ nonce] exI [of _ sig] exI [of _ t] exI [of _ key] exI [of _ w1]) auto
qed

lemma accepted_request_authentic_witness:
  "\<exists>cr w w'. authenticate_node cr default_settings sample_instant [] sample_request w = (Inr (''n'', sample_node ''n'' 1), w') \<and>
     last_request_ts w' ''n'' = Some ''2026-01-01T00:00:00Z''"
proof -
  let ?w = "sample_world [sample_node ''n'' 1] []"
  fix cr from sample_accepted obtain w' where a: "authenticate_node cr default_settings sample_instant [] sample_request ?w =
      (Inr (''n'', sample_node ''n'' 1), w')" by blast
  have "nodes_unique ?w" by (simp add: nodes_unique_def node_ids_def)
  from accepted_request_authentic [OF this a] a show ?thesis by (fastforce simp: sample_request_def)
qed

end
