(* ===== verification/Log_Store.thy ===== *)
theory Log_Store
  imports Node_Auth
begin

text \<open>
  The storage of task logs on the server (\<open>app/services/node_runtime_service.py\<close>): a stream is a
  current file and numbered compressed archives; a chunk is cut into pieces of whole characters that
  fit, and the file is rotated when it is full. The size of an archive on disk is a parameter, as
  the compressor is; an archive keeps the bytes that went into it.
\<close>

section \<open>Files\<close>

fun file_put :: "path \<Rightarrow> stored_file \<Rightarrow> file_tree \<Rightarrow> file_tree" where
  "file_put p c [] = [(p, c)]"
| "file_put p c ((q, d) # fs) = (if q = p then (p, c) # fs else (q, d) # file_put p c fs)"

definition file_get :: "path \<Rightarrow> file_tree \<Rightarrow> stored_file option" where
  "file_get p fs = map_of fs p"

fun file_bytes :: "stored_file \<Rightarrow> bytes" where
  "file_bytes (Plain b) = b"
| "file_bytes (Gz b) = b"

definition read_file :: "path \<Rightarrow> file_tree \<Rightarrow> bytes" where
  "read_file p fs = (case file_get p fs of Some c \<Rightarrow> file_bytes c | None \<Rightarrow> [])"

definition stat_size :: "(bytes \<Rightarrow> nat) \<Rightarrow> stored_file \<Rightarrow> nat" where
  "stat_size gz c = (case c of Plain b \<Rightarrow> length b | Gz b \<Rightarrow> gz b)"

text \<open>\<open>storage_usage_bytes\<close>: the files anywhere below the storage directory.\<close>

definition below :: "path \<Rightarrow> path \<Rightarrow> bool" where
  "below base p \<longleftrightarrow> starts_with base p \<and> p \<noteq> base"

definition storage_usage_bytes :: "(bytes \<Rightarrow> nat) \<Rightarrow> path \<Rightarrow> file_tree \<Rightarrow> nat" where
  "storage_usage_bytes gz base fs = sum_list (map (\<lambda>(p, c). if below base p then stat_size gz c else 0) fs)"

lemma file_get_put [simp]: "file_get p (file_put q c fs) = (if p = q then Some c else file_get p fs)"
  by (induction q c fs rule: file_put.induct) (auto simp: file_get_def)

lemma read_file_put [simp]: "read_file p (file_put q c fs) = (if p = q then file_bytes c else read_file p fs)"
  by (simp add: read_file_def)

section \<open>Cutting a text at a byte limit\<close>

text \<open>The binary search for the longest prefix whose encoding fits.\<close>

function prefix_search :: "utext \<Rightarrow> int \<Rightarrow> nat \<Rightarrow> nat \<Rightarrow> nat" where
  "prefix_search str limit left right =
     (if left < right then
        (let mid = (left + right + 1) div 2 in
         if int (length (utf8_encode (take mid str))) \<le> limit
         then prefix_search str limit mid right
         else prefix_search str limit left (mid - 1))
      else left)"
  by pat_completeness auto

termination
  by (relation "measure (\<lambda>(str, limit, left, right). right - left)") auto

declare prefix_search.simps [simp del]

definition take_text_prefix_by_bytes :: "utext \<Rightarrow> int \<Rightarrow> utext \<times> utext" where
  "take_text_prefix_by_bytes str byte_limit =
     (if byte_limit \<le> 0 \<or> str = [] then ([], str)
      else if int (length (utf8_encode str)) \<le> byte_limit then (str, [])
      else (let left = prefix_search str byte_limit 0 (length str) in (take left str, drop left str)))"

lemma prefix_search_correct:
  assumes "left \<le> right" and "right \<le> length str"
    and "int (length (utf8_encode (take left str))) \<le> limit"
    and "\<forall>n. right < n \<and> n \<le> length str \<longrightarrow> limit < int (length (utf8_encode (take n str)))"
  defines "r \<equiv> prefix_search str limit left right"
  shows "r \<le> length str \<and> int (length (utf8_encode (take r str))) \<le> limit \<and>
    (\<forall>n. r < n \<and> n \<le> length str \<longrightarrow> limit < int (length (utf8_encode (take n str))))"
  using assms(1-4) unfolding r_def
proof (induction str limit left right rule: prefix_search.induct)
  case (1 str limit left right)
  show ?case
  proof (cases "left < right")
    case False
    with 1 have "left = right" by simp
    with 1 show ?thesis by (subst (1 2 3) prefix_search.simps) simp
  next
    case True
    define mid where "mid = (left + right + 1) div 2"
    have mid: "left < mid" "mid \<le> right" using True by (auto simp: mid_def)
    show ?thesis
    proof (cases "int (length (utf8_encode (take mid str))) \<le> limit")
      case fits: True
      have "prefix_search str limit left right = prefix_search str limit mid right"
        using True fits by (subst prefix_search.simps) (simp add: mid_def Let_def)
      moreover note 1(1) [OF True mid_def fits mid(2) 1(4) fits 1(6)]
      ultimately show ?thesis by simp
    next
      case big: False
      have step: "prefix_search str limit left right = prefix_search str limit left (mid - 1)"
        using True big by (subst prefix_search.simps) (simp add: mid_def Let_def)
      have "\<forall>n. mid - 1 < n \<and> n \<le> length str \<longrightarrow> limit < int (length (utf8_encode (take n str)))"
      proof (intro allI impI)
        fix n assume n: "mid - 1 < n \<and> n \<le> length str"
        then have "mid \<le> n" using mid by linarith
        then show "limit < int (length (utf8_encode (take n str)))"
          using utf8_take_mono [of mid n str] big by linarith
      qed
      moreover have "left \<le> mid - 1" and "mid - 1 \<le> length str" using mid 1(4) by simp_all
      moreover note 1(2) [OF True mid_def big]
      ultimately show ?thesis using step 1(5) by simp
    qed
  qed
qed

lemma take_text_prefix_split: "take_text_prefix_by_bytes str limit = (a, b) \<Longrightarrow> a @ b = str"
  by (auto simp: take_text_prefix_by_bytes_def Let_def split: if_splits)

lemma take_text_prefix_fits:
  assumes "0 \<le> limit" and "take_text_prefix_by_bytes str limit = (a, b)"
  shows "int (length (utf8_encode a)) \<le> limit"
    and "b = c # b' \<Longrightarrow> limit < int (length (utf8_encode (a @ [c])))"
proof -
  define r where "r = prefix_search str limit 0 (length str)"
  have s: "r \<le> length str \<and> int (length (utf8_encode (take r str))) \<le> limit \<and>
      (\<forall>n. r < n \<and> n \<le> length str \<longrightarrow> limit < int (length (utf8_encode (take n str))))"
    unfolding r_def using prefix_search_correct [of 0 "length str" str limit] assms(1) by simp
  have cases: "(limit \<le> 0 \<or> str = []) \<and> a = [] \<and> b = str \<or>
      int (length (utf8_encode str)) \<le> limit \<and> a = str \<and> b = [] \<or>
      0 < limit \<and> a = take r str \<and> b = drop r str"
    using assms(2) unfolding take_text_prefix_by_bytes_def r_def [symmetric] Let_def
    by (simp only: prod.inject split: if_splits) auto
  show "int (length (utf8_encode a)) \<le> limit"
    using cases s assms(1) by (elim disjE conjE) simp_all
  assume b: "b = c # b'"
  consider "limit = 0" "a = []" | "0 < limit" "a = take r str" "b = drop r str"
    using cases b assms(1) by (elim disjE conjE) simp_all
  then show "limit < int (length (utf8_encode (a @ [c])))"
  proof cases
    case 1
    then show ?thesis using utf8_char_length(1) [of c] by simp
  next
    case 2
    with b have r: "r < length str" by (metis drop_all linorder_not_less list.discI)
    moreover from this have "take (Suc r) str = a @ [c]"
      using 2 b by (metis take_Suc_conv_app_nth nth_via_drop)
    ultimately have "r < length str" "take (Suc r) str = a @ [c]" .
    with s show ?thesis by (metis Suc_leI lessI)
  qed
qed

lemma take_text_prefix_nonempty:
  assumes "4 \<le> limit" and "str \<noteq> []" and "take_text_prefix_by_bytes str limit = (a, b)"
  shows "a \<noteq> []"
proof
  assume a: "a = []"
  with assms take_text_prefix_split [OF assms(3)] obtain c b' where b: "b = c # b'" by (cases b) auto
  show False
    using take_text_prefix_fits(2) [OF _ assms(3) b] assms(1) utf8_char_length(2) [of c] by (simp add: a)
qed

section \<open>Rotation\<close>

definition log_name :: "stream \<Rightarrow> string" where
  "log_name st = stream_str st @ ''.log''"

definition archive_name :: "stream \<Rightarrow> nat \<Rightarrow> string" where
  "archive_name st i = stream_str st @ ''.'' @ pad 5 i @ ''.log.gz''"

definition log_dir :: "path \<Rightarrow> string \<Rightarrow> path" where
  "log_dir base task_id = resolve_path (join_path (base @ [''logs'']) task_id)"

function next_archive :: "path \<Rightarrow> stream \<Rightarrow> file_tree \<Rightarrow> nat \<Rightarrow> nat option" where
  "next_archive dir st fs index =
     (if 100000 \<le> index then None
      else if file_get (dir @ [archive_name st index]) fs = None then Some index
      else next_archive dir st fs (Suc index))"
  by pat_completeness auto

termination
  by (relation "measure (\<lambda>(dir, st, fs, index). 100000 - index)") auto

declare next_archive.simps [simp del]

definition next_log_archive_path :: "path \<Rightarrow> stream \<Rightarrow> file_tree \<Rightarrow> path option" where
  "next_log_archive_path dir st fs =
     map_option (\<lambda>i. dir @ [archive_name st i]) (next_archive dir st fs 1)"

text \<open>None is the RuntimeError of \<open>next_log_archive_path\<close>.\<close>

definition rotate_log_stream :: "path \<Rightarrow> stream \<Rightarrow> file_tree \<Rightarrow> file_tree option" where
  "rotate_log_stream dir st fs =
     (let log_path = dir @ [log_name st] in
      if read_file log_path fs = [] then Some fs
      else (case next_log_archive_path dir st fs of
              None \<Rightarrow> None
            | Some archive_path \<Rightarrow>
                Some (file_put log_path (Plain []) (file_put archive_path (Gz (read_file log_path fs)) fs))))"

text \<open>
  The loop of \<open>append_log_chunk\<close>. None: it does not return. \<open>Inl fs\<close>: it raised, leaving \<open>fs\<close>.
\<close>

partial_function (option) append_loop ::
  "path \<Rightarrow> stream \<Rightarrow> int \<Rightarrow> utext \<Rightarrow> file_tree \<Rightarrow> (file_tree + file_tree) option" where
  "append_loop dir st max_stream_bytes remaining_text fs =
     (if remaining_text = [] then Some (Inr fs)
      else
        (let log_path = dir @ [log_name st];
             remaining_bytes = max_stream_bytes - int (length (read_file log_path fs))
         in case (if remaining_bytes \<le> 0 then rotate_log_stream dir st fs else Some fs) of
              None \<Rightarrow> Some (Inl fs)
            | Some fs1 \<Rightarrow>
                (case take_text_prefix_by_bytes remaining_text
                        (if remaining_bytes \<le> 0 then max_stream_bytes else remaining_bytes) of
                   (chunk, rest) \<Rightarrow>
                     if chunk = [] then
                       (case rotate_log_stream dir st fs1 of
                          None \<Rightarrow> Some (Inl fs1)
                        | Some fs2 \<Rightarrow> append_loop dir st max_stream_bytes rest fs2)
                     else
                       (let fs2 = file_put log_path (Plain (read_file log_path fs1 @ utf8_encode chunk)) fs1 in
                        case (if max_stream_bytes \<le> int (length (read_file log_path fs2))
                              then rotate_log_stream dir st fs2 else Some fs2) of
                          None \<Rightarrow> Some (Inl fs2)
                        | Some fs3 \<Rightarrow> append_loop dir st max_stream_bytes rest fs3))))"

definition append_log_chunk ::
  "path \<Rightarrow> string \<Rightarrow> stream \<Rightarrow> utext \<Rightarrow> int \<Rightarrow> file_tree \<Rightarrow> (file_tree + file_tree) option" where
  "append_log_chunk base task_id st str max_stream_bytes fs =
     append_loop (log_dir base task_id) st max_stream_bytes str fs"

end
