(* ===== verification/Log_Append.thy ===== *)
theory Log_Append
  imports Log_Store
begin

text \<open>
  What \<open>append_log_chunk\<close> does to a stream: the file tree holds a list of archives and a current
  content; rotation and appending are simple operations on that pair, the loop ends when a file can
  hold one character, and the bytes of the stream are the old ones followed by those of the chunk.
\<close>

section \<open>The stream that a file tree holds\<close>

definition holds_stream :: "path \<Rightarrow> stream \<Rightarrow> bytes list \<Rightarrow> bytes \<Rightarrow> file_tree \<Rightarrow> bool" where
  "holds_stream dir st archives cur fs \<longleftrightarrow>
     length archives < 100000 \<and>
     (\<forall>i. 1 \<le> i \<and> i < 100000 \<longrightarrow> file_get (dir @ [archive_name st i]) fs =
        (if i \<le> length archives then Some (Gz (archives ! (i - 1))) else None)) \<and>
     read_file (dir @ [log_name st]) fs = cur"

definition stream_files :: "path \<Rightarrow> stream \<Rightarrow> path set" where
  "stream_files dir st = insert (dir @ [log_name st]) ((\<lambda>i. dir @ [archive_name st i]) ` {1..<100000})"

definition same_elsewhere :: "path \<Rightarrow> stream \<Rightarrow> file_tree \<Rightarrow> file_tree \<Rightarrow> bool" where
  "same_elsewhere dir st fs fs' \<longleftrightarrow> (\<forall>p. p \<notin> stream_files dir st \<longrightarrow> file_get p fs' = file_get p fs)"

lemma same_elsewhere_refl [simp]: "same_elsewhere dir st fs fs"
  by (simp add: same_elsewhere_def)

lemma same_elsewhere_trans: "same_elsewhere dir st fs fs' \<Longrightarrow> same_elsewhere dir st fs' fs'' \<Longrightarrow> same_elsewhere dir st fs fs''"
  by (simp add: same_elsewhere_def)

lemma stream_str_length [simp]: "length (stream_str st) = 6"
  by (cases st) simp_all

lemma stream_str_inj [simp]: "stream_str a = stream_str b \<longleftrightarrow> a = b"
  by (cases a; cases b) simp_all

lemma archive_name_inj: "i < 100000 \<Longrightarrow> j < 100000 \<Longrightarrow> archive_name st i = archive_name st' j \<longleftrightarrow> st = st' \<and> i = j"
  using pad_inj [of i 5 j] by (simp add: archive_name_def)

lemma archive_not_log [simp]: "archive_name st i \<noteq> log_name st'" "log_name st' \<noteq> archive_name st i"
proof -
  have "length (archive_name st i) \<noteq> length (log_name st')" by (simp add: archive_name_def log_name_def)
  then show "archive_name st i \<noteq> log_name st'" "log_name st' \<noteq> archive_name st i" by metis+
qed

lemma log_name_inj [simp]: "log_name a = log_name b \<longleftrightarrow> a = b"
  by (simp add: log_name_def)

lemma stream_files_disjoint: "st \<noteq> st' \<Longrightarrow> stream_files dir st \<inter> stream_files dir st' = {}"
  by (auto simp: stream_files_def archive_name_inj)

lemma next_archive_holds:
  assumes "holds_stream dir st archives cur fs" and "1 \<le> i" and "i \<le> Suc (length archives)"
  shows "next_archive dir st fs i =
    (if Suc (length archives) < 100000 then Some (Suc (length archives)) else None)"
  using assms(2,3)
proof (induction "Suc (length archives) - i" arbitrary: i)
  case 0
  then have i: "i = Suc (length archives)" by simp
  show ?case
  proof (cases "i < 100000")
    case True
    with assms(1) i have "file_get (dir @ [archive_name st i]) fs = None" by (simp add: holds_stream_def)
    with True i show ?thesis by (subst next_archive.simps) simp
  next
    case False
    with i show ?thesis by (subst next_archive.simps) simp
  qed
next
  case (Suc n)
  then have i: "i \<le> length archives" by simp
  with assms(1) Suc.prems have "i < 100000"
    and "file_get (dir @ [archive_name st i]) fs = Some (Gz (archives ! (i - 1)))"
    by (auto simp: holds_stream_def)
  moreover have "next_archive dir st fs (Suc i) =
      (if Suc (length archives) < 100000 then Some (Suc (length archives)) else None)"
    by (rule Suc.hyps(1)) (use Suc.hyps(2) i in auto)
  ultimately show ?case by (subst next_archive.simps) simp
qed

lemma rotate_empty: "holds_stream dir st archives [] fs \<Longrightarrow> rotate_log_stream dir st fs = Some fs"
  by (simp add: rotate_log_stream_def holds_stream_def)

lemma rotate_full:
  assumes h: "holds_stream dir st archives cur fs" and "cur \<noteq> []" and room: "length archives < 99999"
  shows "\<exists>fs'. rotate_log_stream dir st fs = Some fs' \<and> holds_stream dir st (archives @ [cur]) [] fs' \<and>
    same_elsewhere dir st fs fs'"
proof -
  let ?k = "Suc (length archives)"
  let ?fs' = "file_put (dir @ [log_name st]) (Plain []) (file_put (dir @ [archive_name st ?k]) (Gz cur) fs)"
  have cur: "read_file (dir @ [log_name st]) fs = cur" using h by (simp add: holds_stream_def)
  have "rotate_log_stream dir st fs = Some ?fs'"
    using next_archive_holds [OF h, of 1] room assms(2)
    by (simp add: rotate_log_stream_def next_log_archive_path_def Let_def cur)
  moreover have "holds_stream dir st (archives @ [cur]) [] ?fs'"
    unfolding holds_stream_def
  proof (intro conjI allI impI)
    fix i :: nat assume i: "1 \<le> i \<and> i < 100000"
    show "file_get (dir @ [archive_name st i]) ?fs' =
        (if i \<le> length (archives @ [cur]) then Some (Gz ((archives @ [cur]) ! (i - 1))) else None)"
    proof (cases "i = ?k")
      case True
      then show ?thesis by (simp add: nth_append)
    next
      case False
      with i room have "archive_name st i \<noteq> archive_name st ?k" by (simp add: archive_name_inj)
      moreover have "i \<le> length archives \<Longrightarrow> (archives @ [cur]) ! (i - 1) = archives ! (i - 1)"
        using i by (simp add: nth_append) linarith
      ultimately show ?thesis using h i False by (auto simp: holds_stream_def)
    qed
  qed (use room in auto)
  moreover have "same_elsewhere dir st fs ?fs'"
    using room by (auto simp: same_elsewhere_def stream_files_def)
  ultimately show ?thesis by blast
qed

lemma write_holds:
  assumes "holds_stream dir st archives cur fs"
  shows "holds_stream dir st archives cur' (file_put (dir @ [log_name st]) (Plain cur') fs)"
    and "same_elsewhere dir st fs (file_put (dir @ [log_name st]) (Plain cur') fs)"
  using assms by (auto simp: holds_stream_def same_elsewhere_def stream_files_def)

section \<open>The loop ends and keeps every byte\<close>

text \<open>
  \<open>has_room m archives cur n\<close>: the archive numbers suffice for \<open>n\<close> more bytes, every archive taking
  at least \<open>m - 3\<close> of them.
\<close>

definition has_room :: "nat \<Rightarrow> bytes list \<Rightarrow> bytes \<Rightarrow> nat \<Rightarrow> bool" where
  "has_room m archives cur n \<longleftrightarrow> length cur + n \<le> (99999 - length archives) * (m - 3)"

lemma has_room_rotate:
  assumes "4 \<le> m" and "has_room m archives cur n" and "m - 3 \<le> length cur"
  shows "length archives < 99999" and "has_room m (archives @ [cur]) [] n"
proof -
  have "1 \<le> length cur" using assms(1,3) by linarith
  then have "1 \<le> (99999 - length archives) * (m - 3)" using assms(2) unfolding has_room_def by linarith
  then show l: "length archives < 99999" by (cases "length archives < 99999") auto
  have "(99999 - length archives) * (m - 3) = (99999 - Suc (length archives)) * (m - 3) + (m - 3)"
    using l by (metis Suc_diff_Suc add.commute mult_Suc)
  with assms(2,3) have "n \<le> (99999 - Suc (length archives)) * (m - 3)" unfolding has_room_def by linarith
  then show "has_room m (archives @ [cur]) [] n" by (simp add: has_room_def)
qed

text \<open>What the loop leaves: \<open>new\<close> are the archives it made.\<close>

definition appended ::
  "path \<Rightarrow> stream \<Rightarrow> nat \<Rightarrow> bytes list \<Rightarrow> bytes \<Rightarrow> bytes \<Rightarrow> file_tree \<Rightarrow> file_tree \<Rightarrow> bool" where
  "appended dir st m archives cur new_bytes fs fs' \<longleftrightarrow>
     (\<exists>new cur'. holds_stream dir st (archives @ new) cur' fs' \<and>
        concat new @ cur' = cur @ new_bytes \<and>
        (\<forall>a \<in> set new. m - 3 \<le> length a \<and> (length cur \<le> m \<longrightarrow> length a \<le> m)) \<and>
        same_elsewhere dir st fs fs')"

lemma appended_refl: "holds_stream dir st archives cur fs \<Longrightarrow> appended dir st m archives cur [] fs fs"
  unfolding appended_def by (rule exI [of _ "[]"], rule exI [of _ cur]) simp

lemma appended_rotate:
  assumes "appended dir st m (archives @ [cur]) [] bs fs1 fs'" and "m - 3 \<le> length cur"
    and "same_elsewhere dir st fs fs1"
  shows "appended dir st m archives cur bs fs fs'"
proof -
  from assms(1) obtain new cur' where n: "holds_stream dir st ((archives @ [cur]) @ new) cur' fs'"
    "concat new @ cur' = bs" "\<forall>a \<in> set new. m - 3 \<le> length a \<and> length a \<le> m" "same_elsewhere dir st fs1 fs'"
    by (auto simp: appended_def)
  then show ?thesis
    unfolding appended_def using assms(2) same_elsewhere_trans [OF assms(3) n(4)]
    by (intro exI [of _ "cur # new"] exI [of _ cur']) auto
qed

lemma appended_write:
  assumes "appended dir st m archives (cur @ ch) bs fs1 fs'" and "length (cur @ ch) \<le> m"
    and "same_elsewhere dir st fs fs1"
  shows "appended dir st m archives cur (ch @ bs) fs fs'"
  using assms same_elsewhere_trans [OF assms(3)] unfolding appended_def by fastforce

lemma appended_cur:
  assumes "appended dir st m archives [] bs fs1 fs'" and "same_elsewhere dir st fs fs1"
  shows "appended dir st m archives [] bs fs fs'"
  using assms same_elsewhere_trans unfolding appended_def by blast

lemma append_loop_ends:
  assumes "4 \<le> m" and "holds_stream dir st archives cur fs"
    and "has_room m archives cur (length (utf8_encode str))"
  shows "\<exists>fs'. append_loop dir st (int m) str fs = Some (Inr fs') \<and>
    appended dir st m archives cur (utf8_encode str) fs fs'"
  using assms(2,3)
proof (induction "2 * length str + (if cur = [] then 0 else 1)" arbitrary: str archives cur fs rule: less_induct)
  case less
  note h = less.prems(1) and room = less.prems(2)
  have cur: "read_file (dir @ [log_name st]) fs = cur" using h by (simp add: holds_stream_def)
  show ?case
  proof (cases "str = []")
    case True
    then show ?thesis using appended_refl [OF h] by (subst append_loop.simps) simp
  next
    case False
    show ?thesis
    proof (cases "m \<le> length cur")
      case full: True
      \<comment> \<open>the file is full: it is rotated, and the whole limit is there for the chunk\<close>
      then have "cur \<noteq> []" and big: "m - 3 \<le> length cur" using assms(1) by auto
      then obtain fs1 where rot: "rotate_log_stream dir st fs = Some fs1"
        and h1: "holds_stream dir st (archives @ [cur]) [] fs1" and e1: "same_elsewhere dir st fs fs1"
        using rotate_full [OF h _ has_room_rotate(1) [OF assms(1) room big]] by auto
      have "append_loop dir st (int m) str fs = append_loop dir st (int m) str fs1"
      proof -
        have "read_file (dir @ [log_name st]) fs1 = []" using h1 by (simp add: holds_stream_def)
        then show ?thesis
          using False full cur rot assms(1) by (subst (1 2) append_loop.simps) (simp add: Let_def)
      qed
      moreover have "has_room m (archives @ [cur]) [] (length (utf8_encode str))"
        by (rule has_room_rotate(2) [OF assms(1) room]) (use full in simp)
      ultimately obtain fs' where "append_loop dir st (int m) str fs = Some (Inr fs')"
        "appended dir st m (archives @ [cur]) [] (utf8_encode str) fs1 fs'"
        using less.hyps [OF _ h1] \<open>cur \<noteq> []\<close> by auto
      then show ?thesis using appended_rotate [OF _ big e1] by auto
    next
      case fits: False
      let ?avail = "int m - int (length cur)"
      have avail: "0 < ?avail" using fits by simp
      obtain chunk rest where cut: "take_text_prefix_by_bytes str ?avail = (chunk, rest)"
        by (cases "take_text_prefix_by_bytes str ?avail")
      have split: "str = chunk @ rest" using take_text_prefix_split [OF cut] by simp
      show ?thesis
      proof (cases "chunk = []")
        case empty: True
        \<comment> \<open>the next character does not fit in what is left of the file\<close>
        have small: "?avail < 4" using take_text_prefix_nonempty [OF _ False cut] empty by linarith
        then have big: "m - 3 \<le> length cur" and ne: "cur \<noteq> []" using assms(1) fits by auto
        obtain fs1 where rot: "rotate_log_stream dir st fs = Some fs1"
          and h1: "holds_stream dir st (archives @ [cur]) [] fs1" and e1: "same_elsewhere dir st fs fs1"
          using rotate_full [OF h ne has_room_rotate(1) [OF assms(1) room big]] by auto
        have "append_loop dir st (int m) str fs = append_loop dir st (int m) str fs1"
          using False fits cur cut empty rot split by (subst append_loop.simps) (simp add: Let_def)
        moreover have "has_room m (archives @ [cur]) [] (length (utf8_encode str))"
          by (rule has_room_rotate(2) [OF assms(1) room big])
        ultimately obtain fs' where "append_loop dir st (int m) str fs = Some (Inr fs')"
          "appended dir st m (archives @ [cur]) [] (utf8_encode str) fs1 fs'"
          using less.hyps [OF _ h1] ne by auto
        then show ?thesis using appended_rotate [OF _ big e1] by auto
      next
        case some: False
        let ?cur = "cur @ utf8_encode chunk"
        let ?fs1 = "file_put (dir @ [log_name st]) (Plain ?cur) fs"
        have len: "length ?cur \<le> m" using take_text_prefix_fits(1) [OF _ cut] avail by simp
        have "length rest < length str" using split some by simp
        then have shorter: "2 * length rest + (if x = [] then 0 else 1) < 2 * length str + (if cur = [] then 0 else 1 :: nat)"
          for x :: bytes by auto
        have h1: "holds_stream dir st archives ?cur ?fs1" and e1: "same_elsewhere dir st fs ?fs1"
          using write_holds [OF h] by blast+
        have room1: "has_room m archives ?cur (length (utf8_encode rest))"
          using room by (simp add: has_room_def split)
        show ?thesis
        proof (cases "m \<le> length ?cur")
          case True
          then have ne: "?cur \<noteq> []" and big: "m - 3 \<le> length ?cur" using assms(1) by auto
          obtain fs2 where rot: "rotate_log_stream dir st ?fs1 = Some fs2"
            and h2: "holds_stream dir st (archives @ [?cur]) [] fs2" and e2: "same_elsewhere dir st ?fs1 fs2"
            using rotate_full [OF h1 ne has_room_rotate(1) [OF assms(1) room1 big]] by auto
          have "append_loop dir st (int m) str fs = append_loop dir st (int m) rest fs2"
            using False fits cur cut some rot True by (subst append_loop.simps) (simp add: Let_def)
          moreover note less.hyps [OF shorter h2 has_room_rotate(2) [OF assms(1) room1 big]]
          ultimately obtain fs' where a: "append_loop dir st (int m) str fs = Some (Inr fs')"
            "appended dir st m (archives @ [?cur]) [] (utf8_encode rest) fs2 fs'"
            by auto
          have "appended dir st m archives ?cur (utf8_encode rest) ?fs1 fs'"
            by (rule appended_rotate [OF a(2) big e2])
          from appended_write [OF this len e1] a(1) show ?thesis by (auto simp: split)
        next
          case no_rotation: False
          have "append_loop dir st (int m) str fs = append_loop dir st (int m) rest ?fs1"
            using False fits cur cut some no_rotation by (subst append_loop.simps) (simp add: Let_def)
          moreover obtain fs' where "append_loop dir st (int m) rest ?fs1 = Some (Inr fs')"
            "appended dir st m archives ?cur (utf8_encode rest) ?fs1 fs'"
            using less.hyps [OF shorter h1 room1] by blast
          ultimately show ?thesis using appended_write [OF _ len e1] by (auto simp: split)
        qed
      qed
    qed
  qed
qed

text \<open>A limit below the size of the next character: the loop rotates an empty file for ever.\<close>

definition stuck :: "path \<Rightarrow> stream \<Rightarrow> int \<Rightarrow> utext \<Rightarrow> file_tree \<Rightarrow> bool" where
  "stuck dir st m str fs \<longleftrightarrow> str \<noteq> [] \<and> 0 < m \<and> m < int (length (utf8_char (hd str))) \<and>
     read_file (dir @ [log_name st]) fs = []"

lemma stuck_cut: "stuck dir st m str fs \<Longrightarrow> take_text_prefix_by_bytes str m = ([], str)"
proof -
  assume s: "stuck dir st m str fs"
  obtain a b where cut: "take_text_prefix_by_bytes str m = (a, b)" by (cases "take_text_prefix_by_bytes str m")
  have "a = []"
    using take_text_prefix_fits(1) [OF _ cut] take_text_prefix_split [OF cut] s
    by (cases a) (auto simp: stuck_def)
  with cut take_text_prefix_split [OF cut] show ?thesis by simp
qed

lemma append_loop_stuck:
  assumes "append_loop dir st m str fs = Some r"
  shows "\<not> stuck dir st m str fs"
proof (rule append_loop.raw_induct [where P = "\<lambda>dir st m str fs r. \<not> stuck dir st m str fs", OF _ assms], rule notI)
  fix loop dir st m str fs r
  assume IH: "\<And>dir st m str fs r. loop dir st m str fs = Some r \<Longrightarrow> \<not> stuck dir st m str fs"
    and body: "(if str = [] then Some (Inr fs)
      else
        (let log_path = dir @ [log_name st];
             remaining_bytes = m - int (length (read_file log_path fs))
         in case (if remaining_bytes \<le> 0 then rotate_log_stream dir st fs else Some fs) of
              None \<Rightarrow> Some (Inl fs)
            | Some fs1 \<Rightarrow>
                (case take_text_prefix_by_bytes str (if remaining_bytes \<le> 0 then m else remaining_bytes) of
                   (chunk, rest) \<Rightarrow>
                     if chunk = [] then
                       (case rotate_log_stream dir st fs1 of
                          None \<Rightarrow> Some (Inl fs1)
                        | Some fs2 \<Rightarrow> loop dir st m rest fs2)
                     else
                       (let fs2 = file_put log_path (Plain (read_file log_path fs1 @ utf8_encode chunk)) fs1 in
                        case (if m \<le> int (length (read_file log_path fs2))
                              then rotate_log_stream dir st fs2 else Some fs2) of
                          None \<Rightarrow> Some (Inl fs2)
                        | Some fs3 \<Rightarrow> loop dir st m rest fs3)))) = Some r"
    and s: "stuck dir st m str fs"
  have "loop dir st m str fs = Some r"
    using body s stuck_cut [OF s] by (simp add: stuck_def rotate_log_stream_def Let_def)
  with IH s show False by blast
qed

end
