(* ===== verification/Log_Chunk.thy ===== *)
theory Log_Chunk
  imports Log_Append Examples
begin

text \<open>
  \<open>task_log_chunk\<close> of \<open>app/services/node_runtime_service.py\<close>: offsets, truncation, the storage quota and
  the row of the stream. The contract between the agent that uploads a log and the server that keeps
  it is the locale \<open>log_receiver\<close>; the interpretation at the end shows that the handler meets it.
\<close>

section \<open>The interface of a log receiver\<close>

text \<open>
  \<open>put e off t\<close> offers the text \<open>t\<close> that starts at offset \<open>off\<close> (\<open>e\<close> is what else the call depends on);
  \<open>have\<close> is the offset up to which the receiver has the text, \<open>content\<close> the bytes it has stored. An
  accepted chunk adds the part that was not there, a refused one adds nothing. The receiver holds
  at most \<open>cap\<close> bytes.
\<close>

locale log_receiver =
  fixes inv :: "'s \<Rightarrow> bool"
    and put :: "'e \<Rightarrow> nat \<Rightarrow> 'c list \<Rightarrow> 's \<Rightarrow> 's \<times> bool"
    and offset :: "'s \<Rightarrow> nat"
    and content :: "'s \<Rightarrow> 'b list"
    and enc :: "'c list \<Rightarrow> 'b list"
    and cap :: nat
  assumes enc_Nil: "enc [] = []"
    and enc_append: "enc (a @ b) = enc a @ enc b"
    and put_ok: "inv s \<Longrightarrow> put e off t s = (s', True) \<Longrightarrow>
      length (content s) + length (enc (drop (offset s - off) t)) \<le> cap \<Longrightarrow>
      inv s' \<and> off \<le> offset s \<and> offset s' = max (offset s) (off + length t) \<and>
      content s' = content s @ enc (drop (offset s - off) t)"
    and put_fail: "inv s \<Longrightarrow> put e off t s = (s', False) \<Longrightarrow>
      length (content s) + length (enc (drop (offset s - off) t)) \<le> cap \<Longrightarrow>
      inv s' \<and> offset s' = offset s \<and> content s' = content s"
begin

text \<open>The receiver has a prefix of the text \<open>full\<close>.\<close>

definition follows :: "'c list \<Rightarrow> 's \<Rightarrow> bool" where
  "follows full s \<longleftrightarrow> inv s \<and> offset s \<le> length full \<and> content s = enc (take (offset s) full)"

lemma enc_take: "length (enc (take n full)) \<le> length (enc full)"
  using enc_append [of "take n full" "drop n full"] by simp

text \<open>
  Any slice of the text, sent any number of times and in any order, leaves a prefix: repeats and
  overlaps are absorbed and gaps refused.
\<close>

lemma send_follows:
  assumes f: "follows full s" and t: "t = take n (drop off full)" and cap: "length (enc full) \<le> cap"
    and p: "put e off t s = (s', r)"
  shows "follows full s' \<and> offset s \<le> offset s' \<and> (r \<longrightarrow> off \<le> offset s \<and> off + length t \<le> offset s')"
proof -
  have inv: "inv s" and off: "offset s \<le> length full" and c: "content s = enc (take (offset s) full)"
    using f by (auto simp: follows_def)
  have new: "off \<le> offset s \<Longrightarrow> take (offset s) full @ drop (offset s - off) t = take (max (offset s) (off + length t)) full"
  proof -
    assume le: "off \<le> offset s"
    show ?thesis
    proof (cases "off + length t \<le> offset s")
      case True
      then show ?thesis by (simp add: max_def)
    next
      case False
      have len: "length t = min n (length full - off)" by (simp add: t)
      have "drop (offset s - off) t = take (n + off - offset s) (drop (offset s) full)"
        using le by (simp add: t drop_take)
      then have "take (offset s) full @ drop (offset s - off) t = take (offset s + (n + off - offset s)) full"
        by (simp add: take_add)
      also have "... = take (off + length t) full"
        using False len off by (auto simp: min_def add.commute)
      finally show ?thesis using False by (simp add: max_def)
    qed
  qed
  have joined: "content s @ enc (drop (offset s - off) t) = enc (take (max (offset s) (off + length t)) full)"
    if "off \<le> offset s"
    using new [OF that] by (simp add: c enc_append [symmetric])
  have room: "length (content s) + length (enc (drop (offset s - off) t)) \<le> cap"
  proof (cases "off \<le> offset s")
    case True
    from joined [OF this] enc_take [of "max (offset s) (off + length t)"] cap show ?thesis
      by (metis le_trans length_append)
  next
    case False
    then have "take (offset s) full = take (offset s) (take off full)" by (simp add: min_def)
    then have "take (offset s) full @ drop (offset s) (take off full) = take off full"
      by (metis append_take_drop_id)
    then have "take (offset s) full @ drop (offset s) (take off full) @ t = take (off + n) full"
      by (metis append_assoc t take_add)
    then have "enc (take (off + n) full) = content s @ enc (drop (offset s) (take off full)) @ enc t"
      by (metis c enc_append)
    then have "length (content s) + length (enc t) \<le> length (enc (take (off + n) full))" by simp
    with enc_take [of "off + n" full] cap False show ?thesis by simp
  qed
  show ?thesis
  proof (cases r)
    case True
    with p have p': "put e off t s = (s', True)" by simp
    note ok = put_ok [OF inv p' room]
    have "off + length t \<le> length full \<or> t = []" by (auto simp: t)
    then have "max (offset s) (off + length t) \<le> length full" using ok off by auto
    with ok new show ?thesis by (auto simp: follows_def c enc_append [symmetric])
  next
    case False
    with p have p': "put e off t s = (s', False)" by simp
    show ?thesis using put_fail [OF inv p' room] f False by (auto simp: follows_def)
  qed
qed

end

section \<open>The handler\<close>

definition load_task_for_node :: "string \<Rightarrow> string \<Rightarrow> (world, api_error, task_row) act" where
  "load_task_for_node node_id task_id w =
     (case List.find (\<lambda>r. t_task_id r = task_id \<and> t_node_id r = node_id) (d_tasks (db w)) of
        None \<Rightarrow> (Inl (Api_Error ''ERR_TASK_NOT_FOUND'' 404), w)
      | Some r \<Rightarrow> (Inr r, w))"

record log_payload =
  lp_task_id :: string
  lp_stream :: stream
  lp_offset_start :: int
  lp_text :: utext
  lp_is_final :: bool

definition find_log :: "string \<Rightarrow> stream \<Rightarrow> log_row list \<Rightarrow> log_row option" where
  "find_log task_id st rows = List.find (\<lambda>r. l_task_id r = task_id \<and> l_stream r = st) rows"

definition insert_log :: "string \<Rightarrow> stream \<Rightarrow> int \<Rightarrow> utext \<Rightarrow> path option \<Rightarrow> bool \<Rightarrow> string \<Rightarrow> iso \<Rightarrow> world \<Rightarrow> world" where
  "insert_log task_id st last_offset preview log_path truncated notice now_iso w =
     w\<lparr>db := bump T_Logs ((db w)\<lparr>d_logs := d_logs (db w) @
        [\<lparr>l_id = next_id T_Logs (db w), l_task_id = task_id, l_stream = st, l_last_offset = last_offset,
          l_preview_text = preview, l_center_log_path = log_path, l_is_truncated = truncated,
          l_truncated_notice = notice, l_updated_at = now_iso\<rparr>]\<rparr>)\<rparr>"

definition mark_log_truncated :: "string \<Rightarrow> stream \<Rightarrow> log_row option \<Rightarrow> iso \<Rightarrow> string \<Rightarrow> world \<Rightarrow> world" where
  "mark_log_truncated task_id st existing now_iso reason w =
     (case existing of
        None \<Rightarrow> insert_log task_id st 0 [] None True reason now_iso w
      | Some row \<Rightarrow> upd_logs (update_where (\<lambda>r. l_id r = l_id row)
          (\<lambda>r. r\<lparr>l_is_truncated := True, l_truncated_notice := reason, l_updated_at := now_iso\<rparr>)) w)"

text \<open>The part of the text that is not there yet; \<open>Inl\<close> is the error of a wrong offset.\<close>

definition chunk_to_append :: "log_row option \<Rightarrow> log_payload \<Rightarrow> api_error + utext" where
  "chunk_to_append existing p =
     (case existing of
        None \<Rightarrow> if lp_offset_start p \<noteq> 0 then Inl (Api_Error ''ERR_LOG_OFFSET_MUST_START_ZERO'' 409)
                else Inr (lp_text p)
      | Some row \<Rightarrow>
          if lp_offset_start p < l_last_offset row then
            (let overlap = l_last_offset row - lp_offset_start p in
             if int (length (lp_text p)) \<le> overlap then Inr [] else Inr (drop (nat overlap) (lp_text p)))
          else if l_last_offset row < lp_offset_start p then Inl (Api_Error ''ERR_LOG_OFFSET_GAP'' 409)
          else Inr (lp_text p))"

definition storage_base :: "settings \<Rightarrow> path" where
  "storage_base s = path_parts (storage_path s)"

text \<open>
  The code stores \<open>str(log_path)\<close> as it was joined; here every path has its \<open>..\<close> resolved (the theory \<open>Store\<close>), which names the
  same file. Retention resolves the column before it uses it; the views of the administrators show the text as stored.
\<close>

definition store_log_row :: "settings \<Rightarrow> instant \<Rightarrow> log_payload \<Rightarrow> log_row option \<Rightarrow> utext \<Rightarrow> world \<Rightarrow> world" where
  "store_log_row s now p existing append_text w =
     (let log_path = log_dir (storage_base s) (lp_task_id p) @ [log_name (lp_stream p)];
          upto = lp_offset_start p + int (length (lp_text p))
      in case existing of
           None \<Rightarrow> insert_log (lp_task_id p) (lp_stream p) upto (keep_newest 4000 append_text) (Some log_path)
                     False [] (utc_now_iso now) w
         | Some row \<Rightarrow> upd_logs (update_where (\<lambda>r. l_id r = l_id row)
             (\<lambda>r. r\<lparr>l_last_offset := max (l_last_offset row) upto,
                l_preview_text := keep_newest 4000 (l_preview_text row @ append_text),
                l_center_log_path := Some log_path, l_is_truncated := False,
                l_truncated_notice := [], l_updated_at := utc_now_iso now\<rparr>)) w)"

text \<open>
  The transaction: None when the append does not return, else the result, which is whether the quota
  was exceeded and the text that was appended.
\<close>

definition log_chunk_tx ::
  "(bytes \<Rightarrow> nat) \<Rightarrow> settings \<Rightarrow> instant \<Rightarrow> string \<Rightarrow> log_payload \<Rightarrow> world \<Rightarrow>
   ((api_error + bool \<times> utext) \<times> world) option" where
  "log_chunk_tx gz s now node_id p w =
     (case load_task_for_node node_id (lp_task_id p) w of
        (Inl e, w') \<Rightarrow> Some (Inl e, w')
      | (Inr _, _) \<Rightarrow>
        (let existing = find_log (lp_task_id p) (lp_stream p) (d_logs (db w)) in
         case chunk_to_append existing p of
           Inl e \<Rightarrow> Some (Inl e, w)
         | Inr append_text \<Rightarrow>
             if (case existing of Some row \<Rightarrow> l_is_truncated row | None \<Rightarrow> False)
             then Some (Inl (Api_Error ''ERR_LOG_STREAM_TRUNCATED'' 507), w)
             else
               (let append_bytes = length (utf8_encode append_text) in
                if append_bytes \<noteq> 0 \<and>
                   storage_quota_bytes s < int (storage_usage_bytes gz (storage_base s) (files w) + append_bytes)
                then Some (Inr (True, append_text),
                  emit_event now ''storage.quota_exceeded''
                    [(''task_id'', JStr (lp_task_id p)), (''stream'', JStr (stream_str (lp_stream p))),
                     (''quota_bytes'', JInt (storage_quota_bytes s)), (''attempted_bytes'', JInt (int append_bytes))]
                    ''critical''
                    (mark_log_truncated (lp_task_id p) (lp_stream p) existing (utc_now_iso now)
                       ''storage_quota_exceeded'' w))
                else
                  (case append_log_chunk (storage_base s) (lp_task_id p) (lp_stream p) append_text
                          (task_log_stream_max_bytes s) (files w) of
                     None \<Rightarrow> None
                   | Some (Inl fs) \<Rightarrow> Some (Inl (Unhandled ''RuntimeError''), w\<lparr>files := fs\<rparr>)
                   | Some (Inr fs) \<Rightarrow>
                       Some (Inr (False, append_text), store_log_row s now p existing append_text (w\<lparr>files := fs\<rparr>))))))"

record log_response =
  lr_task_id :: string
  lr_stream :: stream
  lr_stored_bytes :: int
  lr_is_final :: bool

text \<open>After the transaction: the quota error is raised once the truncation mark has been committed.\<close>

definition log_chunk_answer ::
  "log_payload \<Rightarrow> (api_error + bool \<times> utext) \<times> world \<Rightarrow> (api_error + log_response) \<times> world" where
  "log_chunk_answer p rw =
     (case rw of
        (Inl e, w) \<Rightarrow> (Inl e, w)
      | (Inr (quota_exceeded, append_text), w) \<Rightarrow>
          if quota_exceeded then (Inl (Api_Error ''ERR_STORAGE_QUOTA_EXCEEDED'' 507), w)
          else (Inr \<lparr>lr_task_id = lp_task_id p, lr_stream = lp_stream p,
                  lr_stored_bytes = int (length append_text), lr_is_final = lp_is_final p\<rparr>, w))"

definition receive_log_chunk ::
  "(bytes \<Rightarrow> nat) \<Rightarrow> settings \<Rightarrow> instant \<Rightarrow> string \<Rightarrow> log_payload \<Rightarrow> world \<Rightarrow> ((api_error + log_response) \<times> world) option" where
  "receive_log_chunk gz s now node_id p w =
     map_option (\<lambda>rw. log_chunk_answer p (connect (\<lambda>_. rw) w)) (log_chunk_tx gz s now node_id p w)"

text \<open>The endpoint; \<open>parse\<close> is the validation of the body by pydantic.\<close>

definition task_log_chunk ::
  "crypto \<Rightarrow> (bytes \<Rightarrow> nat) \<Rightarrow> settings \<Rightarrow> (bytes \<Rightarrow> log_payload option) \<Rightarrow> instant \<Rightarrow> bytes \<Rightarrow> node_request \<Rightarrow>
   world \<Rightarrow> ((api_error + log_response) \<times> world) option" where
  "task_log_chunk cr gz s parse now rnd req w =
     (case authenticate_node cr s now rnd req w of
        (Inl e, w') \<Rightarrow> Some (Inl e, w')
      | (Inr (node_id, _), w') \<Rightarrow>
          (case parse (rq_body req) of
             None \<Rightarrow> Some (Inl (Api_Error ''ERR_VALIDATION_INVALID_PAYLOAD'' 422), w')
           | Some p \<Rightarrow> receive_log_chunk gz s now node_id p w'))"

section \<open>The server is a log receiver\<close>

definition stream_content :: "path \<Rightarrow> stream \<Rightarrow> file_tree \<Rightarrow> bytes" where
  "stream_content dir st fs =
     concat (map (\<lambda>i. read_file (dir @ [archive_name st i]) fs)
       [1..<(case next_archive dir st fs 1 of Some k \<Rightarrow> k | None \<Rightarrow> 100000)]) @
     read_file (dir @ [log_name st]) fs"

lemma stream_content_holds:
  assumes "holds_stream dir st archives cur fs"
  shows "stream_content dir st fs = concat archives @ cur"
proof -
  have "(case next_archive dir st fs 1 of Some k \<Rightarrow> k | None \<Rightarrow> 100000) = Suc (length archives)"
    using next_archive_holds [OF assms, of 1] assms by (auto simp: holds_stream_def)
  moreover have "map (\<lambda>i. read_file (dir @ [archive_name st i]) fs) [1..<Suc (length archives)] = archives"
  proof -
    have "read_file (dir @ [archive_name st (Suc j)]) fs = archives ! j" if "j < length archives" for j
      using assms that by (simp add: holds_stream_def read_file_def)
    then have "map (\<lambda>j. read_file (dir @ [archive_name st (Suc j)]) fs) [0..<length archives] =
        map (\<lambda>j. archives ! j) [0..<length archives]" by simp
    then show ?thesis by (simp add: map_nth map_Suc_upt [symmetric] comp_def del: upt_Suc)
  qed
  ultimately show ?thesis using assms by (simp add: stream_content_def holds_stream_def del: upt_Suc)
qed

text \<open>The ids of the rows are apart and below the counter.\<close>

definition logs_ok :: "world \<Rightarrow> bool" where
  "logs_ok w \<longleftrightarrow> distinct (map l_id (d_logs (db w))) \<and> (\<forall>r \<in> set (d_logs (db w)). l_id r \<le> d_seq (db w) T_Logs)"

lemma insert_log_simps [simp]:
  "files (insert_log t st off pv lp tr nt now w) = files w"
  "d_tasks (db (insert_log t st off pv lp tr nt now w)) = d_tasks (db w)"
  "d_nodes (db (insert_log t st off pv lp tr nt now w)) = d_nodes (db w)"
  by (simp_all add: insert_log_def)

lemma upd_logs_simps [simp]:
  "files (upd_logs f w) = files w" "d_logs (db (upd_logs f w)) = f (d_logs (db w))"
  "d_tasks (db (upd_logs f w)) = d_tasks (db w)" "d_nodes (db (upd_logs f w)) = d_nodes (db w)"
  "d_seq (db (upd_logs f w)) = d_seq (db w)"
  by (simp_all add: upd_logs_def)

lemma logs_ok_insert: "logs_ok w \<Longrightarrow> logs_ok (insert_log t st off pv lp tr nt now w)"
  by (force simp: logs_ok_def insert_log_def next_id_def)

lemma logs_ok_update:
  "logs_ok w \<Longrightarrow> (\<And>r. l_id (f r) = l_id r) \<Longrightarrow> logs_ok (upd_logs (update_where P f) w)"
  by (auto simp: logs_ok_def map_update_where_same in_update_where)

lemma find_log_insert:
  assumes "find_log t st (d_logs (db w)) = None"
  shows "\<exists>r. find_log t st (d_logs (db (insert_log t st off pv lp tr nt now w))) = Some r \<and>
    l_last_offset r = off \<and> l_is_truncated r = tr \<and> l_preview_text r = pv"
  using assms by (simp add: find_log_def insert_log_def find_append)

lemma find_log_update:
  assumes "distinct (map l_id rows)" and "find_log t st rows = Some row"
    and "\<And>r. l_task_id (f r) = l_task_id r" and "\<And>r. l_stream (f r) = l_stream r"
  shows "find_log t st (update_where (\<lambda>r. l_id r = l_id row) f rows) = Some (f row)"
  using assms(1,2)
proof (induction rows)
  case (Cons a rows)
  show ?case
  proof (cases "l_task_id a = t \<and> l_stream a = st")
    case True
    with Cons.prems have "a = row" by (simp add: find_log_def)
    with True show ?thesis by (simp add: find_log_def update_where_def assms(3,4))
  next
    case False
    with Cons.prems have "find_log t st rows = Some row" by (auto simp: find_log_def)
    moreover from this Cons.prems have "l_id a \<noteq> l_id row"
      by (auto simp: find_log_def dest!: find_Some_in)
    ultimately show ?thesis using Cons False by (auto simp: find_log_def update_where_def)
  qed
qed (simp add: find_log_def)

definition stored_offset :: "string \<Rightarrow> stream \<Rightarrow> world \<Rightarrow> nat" where
  "stored_offset tid st w = (case find_log tid st (d_logs (db w)) of None \<Rightarrow> 0 | Some r \<Rightarrow> nat (l_last_offset r))"

definition stored_bytes :: "settings \<Rightarrow> string \<Rightarrow> stream \<Rightarrow> world \<Rightarrow> bytes" where
  "stored_bytes s tid st w = stream_content (log_dir (storage_base s) tid) st (files w)"

definition log_inv :: "settings \<Rightarrow> string \<Rightarrow> stream \<Rightarrow> world \<Rightarrow> bool" where
  "log_inv s tid st w \<longleftrightarrow>
     4 \<le> task_log_stream_max_bytes s \<and> logs_ok w \<and>
     (\<forall>r. find_log tid st (d_logs (db w)) = Some r \<longrightarrow> 0 \<le> l_last_offset r) \<and>
     (\<exists>archives cur. holds_stream (log_dir (storage_base s) tid) st archives cur (files w) \<and>
        (\<forall>a \<in> set archives. nat (task_log_stream_max_bytes s) - 3 \<le> length a))"

definition log_cap :: "settings \<Rightarrow> nat" where
  "log_cap s = 99999 * (nat (task_log_stream_max_bytes s) - 3)"

definition server_put ::
  "(bytes \<Rightarrow> nat) \<Rightarrow> settings \<Rightarrow> string \<Rightarrow> string \<Rightarrow> stream \<Rightarrow> instant \<times> bool \<Rightarrow> nat \<Rightarrow> utext \<Rightarrow> world \<Rightarrow> world \<times> bool" where
  "server_put gz s node_id tid st e off t w =
     (case receive_log_chunk gz s (fst e) node_id
        \<lparr>lp_task_id = tid, lp_stream = st, lp_offset_start = int off, lp_text = t, lp_is_final = snd e\<rparr> w of
        None \<Rightarrow> (w, False)
      | Some (Inr _, w') \<Rightarrow> (w', True)
      | Some (Inl _, w') \<Rightarrow> (w', False))"

lemma chunk_to_append_ok:
  assumes "chunk_to_append row p = Inr a" and "lp_offset_start p = int off"
    and "\<And>r. row = Some r \<Longrightarrow> 0 \<le> l_last_offset r"
  shows "off \<le> (case row of None \<Rightarrow> 0 | Some r \<Rightarrow> nat (l_last_offset r))"
    and "a = drop ((case row of None \<Rightarrow> 0 | Some r \<Rightarrow> nat (l_last_offset r)) - off) (lp_text p)"
  using assms by (auto simp: chunk_to_append_def Let_def nat_diff_distrib' split: option.splits if_splits)

lemma archives_length:
  "\<forall>a \<in> set archives. k \<le> length a \<Longrightarrow> length archives * k \<le> length (concat archives)"
  by (induction archives) auto

text \<open>The append of a chunk for which there is room.\<close>

lemma append_chunk_room:
  assumes inv: "log_inv s tid st w"
    and room: "length (stored_bytes s tid st w) + length (utf8_encode a) \<le> log_cap s"
  shows "\<exists>fs. append_log_chunk (storage_base s) tid st a (task_log_stream_max_bytes s) (files w) = Some (Inr fs) \<and>
    stream_content (log_dir (storage_base s) tid) st fs = stored_bytes s tid st w @ utf8_encode a \<and>
    (\<exists>archives cur. holds_stream (log_dir (storage_base s) tid) st archives cur fs \<and>
        (\<forall>a \<in> set archives. nat (task_log_stream_max_bytes s) - 3 \<le> length a)) \<and>
    same_elsewhere (log_dir (storage_base s) tid) st (files w) fs"
proof -
  define m dir where "m = nat (task_log_stream_max_bytes s)" and "dir = log_dir (storage_base s) tid"
  have m: "4 \<le> m" "task_log_stream_max_bytes s = int m"
    using inv unfolding log_inv_def m_def by linarith+
  from inv obtain archives cur where h: "holds_stream dir st archives cur (files w)"
    and big: "\<forall>a \<in> set archives. m - 3 \<le> length a"
    unfolding log_inv_def dir_def [symmetric] m_def [symmetric] by blast
  have c: "stored_bytes s tid st w = concat archives @ cur"
    using stream_content_holds [OF h] by (simp add: stored_bytes_def dir_def)
  have "(99999 - length archives) * (m - 3) = 99999 * (m - 3) - length archives * (m - 3)"
    by (rule diff_mult_distrib)
  moreover have "length (concat archives) + length cur + length (utf8_encode a) \<le> 99999 * (m - 3)"
    using room unfolding log_cap_def c m_def by simp
  moreover note archives_length [OF big]
  ultimately have "has_room m archives cur (length (utf8_encode a))"
    unfolding has_room_def by linarith
  from append_loop_ends [OF m(1) h this] obtain fs where
    l: "append_loop dir st (int m) a (files w) = Some (Inr fs)"
    and ap: "appended dir st m archives cur (utf8_encode a) (files w) fs" by blast
  from ap obtain new cur' where n: "holds_stream dir st (archives @ new) cur' fs"
    "concat new @ cur' = cur @ utf8_encode a" "\<forall>a \<in> set new. m - 3 \<le> length a"
    "same_elsewhere dir st (files w) fs"
    by (auto simp: appended_def)
  have sc: "stream_content dir st fs = stored_bytes s tid st w @ utf8_encode a"
    using stream_content_holds [OF n(1)] n(2) by (simp add: c)
  have "\<forall>a \<in> set (archives @ new). m - 3 \<le> length a" using big n(3) by auto
  with n(1) have ex: "\<exists>archives cur. holds_stream dir st archives cur fs \<and> (\<forall>a \<in> set archives. m - 3 \<le> length a)"
    by blast
  show ?thesis
    unfolding append_log_chunk_def dir_def [symmetric] m(2) nat_int
    by (rule exI [of _ fs]) (intro conjI l sc ex n(4))
qed

lemma log_inv_same_files:
  assumes "log_inv s tid st w" and "files w' = files w" and "logs_ok w'"
    and "\<And>r. find_log tid st (d_logs (db w')) = Some r \<Longrightarrow> 0 \<le> l_last_offset r"
  shows "log_inv s tid st w'"
  using assms by (simp add: log_inv_def)

lemma mark_truncated_facts:
  fixes now :: iso and reason :: string
  assumes "log_inv s tid st w"
  defines "w' \<equiv> mark_log_truncated tid st (find_log tid st (d_logs (db w))) now reason w"
  shows "logs_ok w'" and "files w' = files w" and "stored_offset tid st w' = stored_offset tid st w"
    and "find_log tid st (d_logs (db w')) = Some r \<Longrightarrow> 0 \<le> l_last_offset r"
proof -
  from assms(1) have ok: "logs_ok w" by (simp add: log_inv_def)
  show "logs_ok w'"
    unfolding w'_def mark_log_truncated_def using ok
    by (auto simp: logs_ok_insert logs_ok_update split: option.split)
  show "files w' = files w" by (simp add: w'_def mark_log_truncated_def split: option.split)
  show "stored_offset tid st w' = stored_offset tid st w"
    and "find_log tid st (d_logs (db w')) = Some r \<Longrightarrow> 0 \<le> l_last_offset r"
  proof (atomize (full), cases "find_log tid st (d_logs (db w))")
    case None
    then show "stored_offset tid st w' = stored_offset tid st w \<and>
      (find_log tid st (d_logs (db w')) = Some r \<longrightarrow> 0 \<le> l_last_offset r)"
      using find_log_insert [OF None, of 0 "[]" None True reason now]
      by (auto simp: stored_offset_def w'_def mark_log_truncated_def)
  next
    case (Some row)
    then have "find_log tid st (d_logs (db w')) =
        Some (row\<lparr>l_is_truncated := True, l_truncated_notice := reason, l_updated_at := now\<rparr>)"
      using find_log_update [of "d_logs (db w)" tid st row] ok
      by (simp add: w'_def mark_log_truncated_def logs_ok_def)
    then show "stored_offset tid st w' = stored_offset tid st w \<and>
      (find_log tid st (d_logs (db w')) = Some r \<longrightarrow> 0 \<le> l_last_offset r)"
      using Some assms(1) by (auto simp: stored_offset_def log_inv_def)
  qed
qed

lemma store_log_row_facts:
  fixes now :: instant and a :: utext
  assumes inv: "log_inv s tid st w" and d: "db w1 = db w"
    and p: "lp_task_id p = tid" "lp_stream p = st" "lp_offset_start p = int off"
  defines "w' \<equiv> store_log_row s now p (find_log tid st (d_logs (db w))) a w1"
  shows "logs_ok w'" and "files w' = files w1"
    and "off \<le> stored_offset tid st w \<Longrightarrow>
      stored_offset tid st w' = max (stored_offset tid st w) (off + length (lp_text p))"
    and "find_log tid st (d_logs (db w')) = Some r \<Longrightarrow> 0 \<le> l_last_offset r"
proof -
  have ok: "logs_ok w1" using inv by (simp add: log_inv_def logs_ok_def d)
  show "logs_ok w'"
    unfolding w'_def store_log_row_def Let_def using ok
    by (auto simp: logs_ok_insert logs_ok_update split: option.split)
  show "files w' = files w1" by (simp add: w'_def store_log_row_def Let_def split: option.split)
  show "off \<le> stored_offset tid st w \<Longrightarrow>
      stored_offset tid st w' = max (stored_offset tid st w) (off + length (lp_text p))"
    and "find_log tid st (d_logs (db w')) = Some r \<Longrightarrow> 0 \<le> l_last_offset r"
  proof (atomize (full), cases "find_log tid st (d_logs (db w))")
    case None
    then have "find_log tid st (d_logs (db w1)) = None" by (simp add: d)
    from find_log_insert [OF this] None p
    show "(off \<le> stored_offset tid st w \<longrightarrow>
        stored_offset tid st w' = max (stored_offset tid st w) (off + length (lp_text p))) \<and>
      (find_log tid st (d_logs (db w')) = Some r \<longrightarrow> 0 \<le> l_last_offset r)"
      by (simp add: stored_offset_def w'_def store_log_row_def Let_def) (metis option.inject option.simps(5)
        nat_int nat_int_add of_nat_add zero_le_imp_eq_int of_nat_0_le_iff)
  next
    case (Some row)
    with find_log_update [of "d_logs (db w1)" tid st row] ok p
    obtain row' where "find_log tid st (d_logs (db w')) = Some row'"
      "l_last_offset row' = max (l_last_offset row) (int off + int (length (lp_text p)))"
      by (simp add: w'_def store_log_row_def logs_ok_def Let_def d)
    then show "(off \<le> stored_offset tid st w \<longrightarrow>
        stored_offset tid st w' = max (stored_offset tid st w) (off + length (lp_text p))) \<and>
      (find_log tid st (d_logs (db w')) = Some r \<longrightarrow> 0 \<le> l_last_offset r)"
      using Some inv by (auto simp: stored_offset_def log_inv_def max_def nat_le_iff)
  qed
qed

text \<open>The three ways a chunk ends, for any chunk there is room for.\<close>

lemma load_task_Inl: "load_task_for_node n t w = (Inl e, w') \<Longrightarrow> w' = w"
  by (auto simp: load_task_for_node_def split: option.splits)

lemma server_put_cases:
  assumes inv: "log_inv s tid st w"
    and room: "length (stored_bytes s tid st w) + length (utf8_encode (drop (stored_offset tid st w - off) t)) \<le> log_cap s"
    and put: "server_put gz s node tid st e off t w = (w', r)"
  shows "log_inv s tid st w' \<and>
    (if r then off \<le> stored_offset tid st w \<and>
        stored_offset tid st w' = max (stored_offset tid st w) (off + length t) \<and>
        stored_bytes s tid st w' = stored_bytes s tid st w @ utf8_encode (drop (stored_offset tid st w - off) t)
     else stored_offset tid st w' = stored_offset tid st w \<and> stored_bytes s tid st w' = stored_bytes s tid st w)"
proof -
  define p where "p = \<lparr>lp_task_id = tid, lp_stream = st, lp_offset_start = int off, lp_text = t, lp_is_final = snd e\<rparr>"
  define ex where "ex = find_log tid st (d_logs (db w))"
  have pf [simp]: "lp_task_id p = tid" "lp_stream p = st" "lp_offset_start p = int off" "lp_text p = t"
    by (simp_all add: p_def)
  have world_db: "w\<lparr>db := db w\<rparr> = w" by simp
  have keep: ?thesis if "w' = w" "\<not> r" using that inv by simp
  have nn: "ex = Some x \<Longrightarrow> 0 \<le> l_last_offset x" for x using inv by (simp add: log_inv_def ex_def)
  show ?thesis
  proof (cases "load_task_for_node node tid w")
    case (Pair res w0)
    then have w0: "res = Inl x \<Longrightarrow> w0 = w" for x using load_task_Inl by blast
    show ?thesis
    proof (cases res)
      case (Inl x)
      with put Pair w0 [OF Inl] show ?thesis
        by (intro keep) (auto simp: server_put_def receive_log_chunk_def log_chunk_tx_def p_def [symmetric] connect_def log_chunk_answer_def)
    next
      case (Inr row)
      note tx = server_put_def receive_log_chunk_def log_chunk_tx_def p_def [symmetric] Pair Inr
        ex_def [symmetric] Let_def connect_def log_chunk_answer_def
      show ?thesis
      proof (cases "chunk_to_append ex p")
        case (Inl x)
        with put show ?thesis by (intro keep) (auto simp: tx)
      next
        case app: (Inr a)
        have a: "off \<le> stored_offset tid st w" "a = drop (stored_offset tid st w - off) t"
          using chunk_to_append_ok [OF app, of off] nn by (auto simp: stored_offset_def ex_def)
        consider (truncated) "case ex of Some row \<Rightarrow> l_is_truncated row | None \<Rightarrow> False"
          | (quota) "\<not> (case ex of Some row \<Rightarrow> l_is_truncated row | None \<Rightarrow> False)"
            "length (utf8_encode a) \<noteq> 0 \<and> storage_quota_bytes s <
               int (storage_usage_bytes gz (storage_base s) (files w) + length (utf8_encode a))"
          | (append) "\<not> (case ex of Some row \<Rightarrow> l_is_truncated row | None \<Rightarrow> False)"
            "\<not> (length (utf8_encode a) \<noteq> 0 \<and> storage_quota_bytes s <
               int (storage_usage_bytes gz (storage_base s) (files w) + length (utf8_encode a)))"
          by blast
        then show ?thesis
        proof cases
          case truncated
          with put app show ?thesis by (intro keep) (auto simp: tx)
        next
          case quota
          define w1 where "w1 = mark_log_truncated tid st ex (utc_now_iso (fst e)) ''storage_quota_exceeded'' w"
          from quota put app have w': "\<not> r" "db w' = db w1" "files w' = files w1"
            by (auto simp: tx w1_def)
          note m = mark_truncated_facts [OF inv, of "utc_now_iso (fst e)" "''storage_quota_exceeded''",
              folded ex_def, folded w1_def]
          show ?thesis
            using w' m log_inv_same_files [OF inv, of w'] by (simp add: stored_offset_def stored_bytes_def logs_ok_def)
        next
          case append
          have room': "length (stored_bytes s tid st w) + length (utf8_encode a) \<le> log_cap s"
            using room by (simp add: a(2))
          from append_chunk_room [OF inv room'] obtain fs where
            l: "append_log_chunk (storage_base s) tid st a (task_log_stream_max_bytes s) (files w) = Some (Inr fs)"
            and sc: "stream_content (log_dir (storage_base s) tid) st fs = stored_bytes s tid st w @ utf8_encode a"
            and ho: "\<exists>archives cur. holds_stream (log_dir (storage_base s) tid) st archives cur fs \<and>
              (\<forall>a \<in> set archives. nat (task_log_stream_max_bytes s) - 3 \<le> length a)" by blast
          define w1 where "w1 = store_log_row s (fst e) p ex a (w\<lparr>files := fs\<rparr>)"
          from append put app l have w': "r" "w' = w1"
            by (auto simp: tx w1_def)
          note m = store_log_row_facts [OF inv, of "w\<lparr>files := fs\<rparr>" p off "fst e" a, folded ex_def, folded w1_def]
          have "log_inv s tid st w1" using inv m ho by (simp add: log_inv_def)
          with w' m sc a show ?thesis by (simp add: stored_bytes_def)
        qed
      qed
    qed
  qed
qed

interpretation server_log: log_receiver "log_inv s tid st" "server_put gz s node tid st"
  "stored_offset tid st" "stored_bytes s tid st" utf8_encode "log_cap s"
  for s tid st gz node
proof (unfold_locales, goal_cases)
  case (3 w e off t w')
  then show ?case using server_put_cases [OF 3(1,3,2)] by simp
next
  case (4 w e off t w')
  then show ?case using server_put_cases [OF 4(1,3,2)] by simp
qed simp_all

section \<open>Properties\<close>

text \<open>The cut of a text at a byte limit: the two parts are the text, the first fits the limit, and one
  more character would not fit.\<close>

theorem prefix_is_longest:
  assumes "0 \<le> limit" and "take_text_prefix_by_bytes str limit = (a, b)"
  shows "a @ b = str \<and> int (length (utf8_encode a)) \<le> limit \<and>
    (b = [] \<or> limit < int (length (utf8_encode (a @ [hd b]))))"
  using take_text_prefix_split [OF assms(2)] take_text_prefix_fits(1) [OF assms]
    take_text_prefix_fits(2) [OF assms, of "hd b" "tl b"] by (cases b) auto

lemma prefix_is_longest_witness:
  "take_text_prefix_by_bytes [104, 233, 8364] 4 = ([104, 233], [8364]) \<and>
   int (length (utf8_encode [104, 233])) \<le> 4 \<and> 4 < int (length (utf8_encode [104, 233, 8364]))"
proof -
  have t: "take_text_prefix_by_bytes [104, 233, 8364] 4 = ([104, 233], [8364])"
    by (simp add: take_text_prefix_by_bytes_def prefix_search.simps utf8_char_def)
  from prefix_is_longest [OF _ t] t show ?thesis by simp
qed

text \<open>C9. Appending a chunk ends and loses nothing: when a log file may hold a character and archive
  numbers are left for the bytes, the loop returns, the archives and the file hold the old bytes
  followed by the encoding of the chunk, every new archive is full to within one character and
  within the limit, and no other file changed.\<close>

theorem append_terminates_and_keeps_bytes:
  assumes "4 \<le> m" and "holds_stream (log_dir base tid) st archives cur fs"
    and "has_room m archives cur (length (utf8_encode str))"
  shows "\<exists>fs' new cur'. append_log_chunk base tid st str (int m) fs = Some (Inr fs') \<and>
    holds_stream (log_dir base tid) st (archives @ new) cur' fs' \<and>
    concat new @ cur' = cur @ utf8_encode str \<and>
    (\<forall>a \<in> set new. m - 3 \<le> length a \<and> (length cur \<le> m \<longrightarrow> length a \<le> m)) \<and>
    same_elsewhere (log_dir base tid) st fs fs'"
  using append_loop_ends [OF assms] unfolding append_log_chunk_def appended_def by meson

lemma append_terminates_and_keeps_bytes_witness:
  "\<exists>fs' new cur'. append_log_chunk [''/'', ''d''] ''t'' Stdout [104, 233, 8364] 4 [] = Some (Inr fs') \<and>
    concat new @ cur' = utf8_encode [104, 233, 8364]"
  using append_terminates_and_keeps_bytes [of 4 "[''/'', ''d'']" "''t''" Stdout "[]" "[]" "[]" "[104, 233, 8364]"]
  by (auto simp: holds_stream_def file_get_def read_file_def has_room_def utf8_char_def)

text \<open>C20. The append needs a file that can hold a character: with a positive limit below the encoded size of
  the next character and an empty log file, \<open>append_log_chunk\<close> never returns.\<close>

theorem append_diverges_on_tiny_limit:
  assumes "0 < m" and "m < int (length (utf8_char c))" and "read_file (log_dir base tid @ [log_name st]) fs = []"
  shows "append_log_chunk base tid st (c # str) m fs = None"
proof (rule ccontr)
  assume "append_log_chunk base tid st (c # str) m fs \<noteq> None"
  then obtain r where "append_loop (log_dir base tid) st m (c # str) fs = Some r"
    unfolding append_log_chunk_def by blast
  from append_loop_stuck [OF this] assms show False by (simp add: stuck_def)
qed

lemma append_diverges_on_tiny_limit_witness:
  "append_log_chunk [''/'', ''d''] ''t'' Stdout [8364] 2 [] = None"
  by (rule append_diverges_on_tiny_limit) (simp_all add: utf8_char_def read_file_def file_get_def)

definition send_all ::
  "(bytes \<Rightarrow> nat) \<Rightarrow> settings \<Rightarrow> string \<Rightarrow> string \<Rightarrow> stream \<Rightarrow> utext \<Rightarrow> ((instant \<times> bool) \<times> nat \<times> nat) list \<Rightarrow> world \<Rightarrow> world" where
  "send_all gz s node tid st full chunks w =
     fold (\<lambda>(e, off, n) w. fst (server_put gz s node tid st e off (take n (drop off full)) w)) chunks w"

lemma send_all_follows:
  assumes "length (utf8_encode full) \<le> log_cap s"
  shows "server_log.follows s tid st full w \<Longrightarrow>
    server_log.follows s tid st full (send_all gz s node tid st full chunks w) \<and>
    stored_offset tid st w \<le> stored_offset tid st (send_all gz s node tid st full chunks w)"
proof (induction chunks arbitrary: w)
  case (Cons c cs)
  obtain e off n where c: "c = (e, off, n)" by (cases c) auto
  obtain w1 r where p: "server_put gz s node tid st e off (take n (drop off full)) w = (w1, r)" by fastforce
  from server_log.send_follows [OF Cons.prems refl assms p] Cons.IH [of w1] show ?case
    by (simp add: send_all_def c p)
qed (simp add: send_all_def)

text \<open>C5. The limit of a stream (\<open>task_log_stream_max_bytes\<close>, \<open>m\<close> bytes) is at least 4, so that a log file can
  hold any character; the stream's files and rows are in order (\<open>log_inv\<close>) and hold nothing yet; and the encoding of the output has
  at most 99999 times \<open>m - 3\<close> bytes (\<open>log_cap\<close>), which is what the archives of a stream can take. Then, whatever slices
  of the output the agent sends, in any order and any number of times, and whatever the server answers, the server holds
  a prefix of the output: the bytes of its archives and its log file are the encoding of the output up to
  the offset it has recorded, and that offset never goes back.\<close>

theorem server_keeps_a_prefix:
  assumes "log_inv s tid st w" and "stored_offset tid st w = 0" and "stored_bytes s tid st w = []"
    and "length (utf8_encode full) \<le> log_cap s"
  shows "stored_bytes s tid st (send_all gz s node tid st full chunks w) =
      utf8_encode (take (stored_offset tid st (send_all gz s node tid st full chunks w)) full) \<and>
    stored_offset tid st (send_all gz s node tid st full chunks w)
      \<le> stored_offset tid st (send_all gz s node tid st full (chunks @ later) w)"
proof -
  let ?w' = "send_all gz s node tid st full chunks w"
  have "server_log.follows s tid st full w" using assms by (simp add: server_log.follows_def)
  from send_all_follows [OF assms(4) this] have f: "server_log.follows s tid st full ?w'" by blast
  have "send_all gz s node tid st full (chunks @ later) w = send_all gz s node tid st full later ?w'"
    by (simp add: send_all_def)
  with f send_all_follows [OF assms(4) f] show ?thesis by (simp add: server_log.follows_def)
qed

definition sample_log_settings :: settings where
  "sample_log_settings = default_settings\<lparr>task_log_stream_max_bytes := 4\<rparr>"

lemma sample_log_inv: "log_inv sample_log_settings ''a'' Stdout (sample_world [] [sample_task ''a'' ''n'' Running 1])"
  unfolding log_inv_def
  by (auto simp: sample_log_settings_def logs_ok_def find_log_def holds_stream_def file_get_def read_file_def
      intro!: exI [of _ "[]"])

lemma server_keeps_a_prefix_witness:
  "let w = send_all (\<lambda>_. 0) sample_log_settings ''n'' ''a'' Stdout [104, 105] [((0, False), 0, 1), ((1, True), 1, 1)]
      (sample_world [] [sample_task ''a'' ''n'' Running 1])
   in stored_bytes sample_log_settings ''a'' Stdout w = utf8_encode (take (stored_offset ''a'' Stdout w) [104, 105])"
  using server_keeps_a_prefix [OF sample_log_inv, of "[104, 105]" "\<lambda>_. 0" "''n''" "[((0, False), 0, 1), ((1, True), 1, 1)]" "[]"]
  by (simp add: stored_offset_def find_log_def stored_bytes_def stream_content_def Let_def log_cap_def
      sample_log_settings_def read_file_def file_get_def utf8_char_def)

end
