(* ===== verification/Json.thy ===== *)
theory Json
  imports Task_Utils
begin

text \<open>
  \<open>json.dumps\<close> and \<open>json.loads\<close> of the standard library, and \<open>int\<close> of a text. A character above U+00FF
  has no place in a \<open>string\<close>, so the parser refuses it; the value of a float is its decimal one. The
  constants NaN, Infinity and -Infinity that Python accepts are kept by their names.
\<close>

section \<open>Printing\<close>

definition json_char :: "char \<Rightarrow> string" where
  "json_char c = (let n = (of_char c :: nat) in
     if n = 34 \<or> n = 92 then [CHR 92, c]
     else if n = 10 then [CHR 92, CHR ''n''] else if n = 13 then [CHR 92, CHR ''r'']
     else if n = 9 then [CHR 92, CHR ''t''] else if n = 8 then [CHR 92, CHR ''b'']
     else if n = 12 then [CHR 92, CHR ''f'']
     else if n < 32 then [CHR 92] @ ''u00'' @ [hex_digit (n div 16), hex_digit (n mod 16)]
     else [c])"

text \<open>With \<open>ensure_ascii\<close>, which is the default, everything outside the printable ASCII characters is escaped.\<close>

definition json_char_ascii :: "char \<Rightarrow> string" where
  "json_char_ascii c = (let n = (of_char c :: nat) in
     if 127 \<le> n then [CHR 92] @ ''u00'' @ [hex_digit (n div 16), hex_digit (n mod 16)] else json_char c)"

definition json_string_ascii :: "string \<Rightarrow> string" where
  "json_string_ascii s = [CHR 34] @ concat (map json_char_ascii s) @ [CHR 34]"

definition json_string :: "string \<Rightarrow> string" where
  "json_string s = [CHR 34] @ concat (map json_char s) @ [CHR 34]"

text \<open>\<open>json.dumps(value, ensure_ascii=False)\<close>\<close>

fun dumps :: "json \<Rightarrow> string" where
  "dumps JNull = ''null''"
| "dumps (JBool b) = (if b then ''true'' else ''false'')"
| "dumps (JInt i) = int_str i"
| "dumps (JFloat _ r) = r"
| "dumps (JStr s) = json_string s"
| "dumps (JList xs) = ''['' @ join '', '' (map dumps xs) @ '']''"
| "dumps (JObj d) = ''{'' @ join '', '' (map (\<lambda>(k, v). json_string k @ '': '' @ dumps v) d) @ ''}''"

section \<open>Parsing\<close>

definition json_ws :: "char \<Rightarrow> bool" where
  "json_ws c \<longleftrightarrow> c = CHR '' '' \<or> c = CHR 9 \<or> c = CHR 10 \<or> c = CHR 13"

definition skip_ws :: "string \<Rightarrow> string" where
  "skip_ws s = dropWhile json_ws s"

definition hex_val :: "char \<Rightarrow> nat option" where
  "hex_val c = (let n = (of_char c :: nat) in
     if 48 \<le> n \<and> n \<le> 57 then Some (n - 48) else if 97 \<le> n \<and> n \<le> 102 then Some (n - 87)
     else if 65 \<le> n \<and> n \<le> 70 then Some (n - 55) else None)"

definition hex4 :: "char \<Rightarrow> char \<Rightarrow> char \<Rightarrow> char \<Rightarrow> nat option" where
  "hex4 a b c d = (case (hex_val a, hex_val b, hex_val c, hex_val d) of
     (Some w, Some x, Some y, Some z) \<Rightarrow> Some (((w * 16 + x) * 16 + y) * 16 + z) | _ \<Rightarrow> None)"

definition simple_escape :: "char \<Rightarrow> char option" where
  "simple_escape e =
     (if e = CHR 34 \<or> e = CHR 92 \<or> e = CHR ''/'' then Some e
      else if e = CHR ''n'' then Some (CHR 10) else if e = CHR ''r'' then Some (CHR 13)
      else if e = CHR ''t'' then Some (CHR 9) else if e = CHR ''b'' then Some (CHR 8)
      else if e = CHR ''f'' then Some (CHR 12) else None)"

text \<open>The rest of a string after its opening quote.\<close>

fun parse_str :: "string \<Rightarrow> (string \<times> string) option" where
  "parse_str [] = None"
| "parse_str (c # s) =
     (if c = CHR 34 then Some ([], s)
      else if c = CHR 92 then
        (case s of
           [] \<Rightarrow> None
         | e # r \<Rightarrow>
             if e = CHR ''u'' then
               (case r of
                  h0 # h1 # h2 # h3 # r' \<Rightarrow>
                    (case hex4 h0 h1 h2 h3 of
                       Some n \<Rightarrow> if n < 256 then map_option (\<lambda>(t, q). (char_of n # t, q)) (parse_str r') else None
                     | None \<Rightarrow> None)
                | _ \<Rightarrow> None)
             else
               (case simple_escape e of
                  Some x \<Rightarrow> map_option (\<lambda>(t, q). (x # t, q)) (parse_str r)
                | None \<Rightarrow> None))
      else if (of_char c :: nat) < 32 then None
      else map_option (\<lambda>(t, q). (c # t, q)) (parse_str s))"

text \<open>The digits at the head of a text, as a number, their count, and the rest.\<close>

fun take_digits :: "nat \<Rightarrow> nat \<Rightarrow> string \<Rightarrow> nat \<times> nat \<times> string" where
  "take_digits acc k [] = (acc, k, [])"
| "take_digits acc k (c # s) =
     (case digit_val c of Some d \<Rightarrow> take_digits (acc * 10 + d) (Suc k) s | None \<Rightarrow> (acc, k, c # s))"

definition json_fraction :: "string \<Rightarrow> (rat \<times> string) option" where
  "json_fraction s =
     (case s of
        c # r \<Rightarrow> if c = CHR ''.'' then
            (case take_digits 0 0 r of (n, k, r') \<Rightarrow>
               if k = 0 then None else Some (of_nat n / 10 ^ k, r'))
          else None
      | [] \<Rightarrow> None)"

definition json_exponent :: "string \<Rightarrow> (int \<times> string) option" where
  "json_exponent s =
     (case s of
        c # r \<Rightarrow> if c = CHR ''e'' \<or> c = CHR ''E'' then
            (let (neg, r1) = (case r of x # r2 \<Rightarrow> if x = CHR ''-'' then (True, r2)
                                 else if x = CHR ''+'' then (False, r2) else (False, r)
                              | [] \<Rightarrow> (False, r))
             in case take_digits 0 0 r1 of (n, k, r') \<Rightarrow>
                  if k = 0 then None else Some (if neg then - int n else int n, r'))
          else None
      | [] \<Rightarrow> None)"

definition scale10 :: "rat \<Rightarrow> int \<Rightarrow> rat" where
  "scale10 v e = (if 0 \<le> e then v * 10 ^ nat e else v / 10 ^ nat (- e))"

text \<open>A number without its sign: \<open>0\<close> or digits that do not start with 0, a fraction, an exponent.\<close>

definition parse_number :: "bool \<Rightarrow> string \<Rightarrow> (json \<times> string) option" where
  "parse_number neg s =
     (case s of
        [] \<Rightarrow> None
      | c # r \<Rightarrow>
          (case digit_val c of
             None \<Rightarrow> None
           | Some d \<Rightarrow>
               (case (if d = 0 then (0, 1, r) else take_digits 0 0 s) of (n, _, r1) \<Rightarrow>
                 (let (frac, r2) = (case json_fraction r1 of Some (f, r') \<Rightarrow> (Some f, r') | None \<Rightarrow> (None, r1));
                      (ex, r3) = (case json_exponent r2 of Some (e, r') \<Rightarrow> (Some e, r') | None \<Rightarrow> (None, r2));
                      sgn = (if neg then - 1 else 1)
                  in if frac = None \<and> ex = None then Some (JInt (sgn * int n), r3)
                     else
                       (let v = of_int sgn * scale10 (of_nat n + (case frac of Some f \<Rightarrow> f | None \<Rightarrow> 0))
                                  (case ex of Some e \<Rightarrow> e | None \<Rightarrow> 0);
                            lit = (if neg then ''-'' else []) @ take (length s - length r3) s
                        in Some (JFloat v lit, r3))))))"

definition dict_set :: "string \<Rightarrow> json \<Rightarrow> dict \<Rightarrow> dict" where
  "dict_set k v d = (if k \<in> fst ` set d then map (\<lambda>(q, x). if q = k then (q, v) else (q, x)) d else d @ [(k, v)])"

definition json_word :: "(string \<times> json) list" where
  "json_word = [(''null'', JNull), (''true'', JBool True), (''false'', JBool False), (''NaN'', JFloat 0 ''NaN''),
     (''Infinity'', JFloat 0 ''Infinity''), (''-Infinity'', JFloat 0 ''-Infinity'')]"

definition parse_word :: "string \<Rightarrow> (json \<times> string) option" where
  "parse_word s = (case List.find (\<lambda>(w, _). starts_with w s) json_word of
     Some (w, v) \<Rightarrow> Some (v, drop (length w) s) | None \<Rightarrow> None)"

text \<open>Every call consumes a character, so the length of the text is enough fuel.\<close>

fun parse_value :: "nat \<Rightarrow> string \<Rightarrow> (json \<times> string) option"
  and parse_items :: "nat \<Rightarrow> string \<Rightarrow> (json list \<times> string) option"
  and parse_members :: "nat \<Rightarrow> dict \<Rightarrow> string \<Rightarrow> (dict \<times> string) option" where
  "parse_value 0 s = None"
| "parse_value (Suc fuel) s =
     (case s of
        [] \<Rightarrow> None
      | c # r \<Rightarrow>
          if c = CHR 34 then map_option (\<lambda>(t, q). (JStr t, q)) (parse_str r)
          else if c = CHR ''['' then
            (case skip_ws r of
               x # q \<Rightarrow> if x = CHR '']'' then Some (JList [], q)
                        else map_option (\<lambda>(xs, q). (JList xs, q)) (parse_items fuel (x # q))
             | [] \<Rightarrow> None)
          else if c = CHR ''{'' then
            (case skip_ws r of
               x # q \<Rightarrow> if x = CHR ''}'' then Some (JObj [], q)
                        else map_option (\<lambda>(d, q). (JObj d, q)) (parse_members fuel [] (x # q))
             | [] \<Rightarrow> None)
          else
            (case parse_word s of
               Some p \<Rightarrow> Some p
             | None \<Rightarrow> if c = CHR ''-'' then parse_number True r else parse_number False s))"
| "parse_items 0 s = None"
| "parse_items (Suc fuel) s =
     (case parse_value fuel s of
        None \<Rightarrow> None
      | Some (v, r) \<Rightarrow>
          (case skip_ws r of
             x # q \<Rightarrow> if x = CHR '']'' then Some ([v], q)
                      else if x = CHR '','' then map_option (\<lambda>(vs, q). (v # vs, q)) (parse_items fuel (skip_ws q))
                      else None
           | [] \<Rightarrow> None))"
| "parse_members 0 d s = None"
| "parse_members (Suc fuel) d s =
     (case s of
        c # r \<Rightarrow>
          if c \<noteq> CHR 34 then None
          else
            (case parse_str r of
               None \<Rightarrow> None
             | Some (k, r1) \<Rightarrow>
                 (case skip_ws r1 of
                    x # r2 \<Rightarrow>
                      if x \<noteq> CHR '':'' then None
                      else
                        (case parse_value fuel (skip_ws r2) of
                           None \<Rightarrow> None
                         | Some (v, r3) \<Rightarrow>
                             (case skip_ws r3 of
                                y # q \<Rightarrow> if y = CHR ''}'' then Some (dict_set k v d, q)
                                         else if y = CHR '','' then parse_members fuel (dict_set k v d) (skip_ws q)
                                         else None
                              | [] \<Rightarrow> None))
                  | [] \<Rightarrow> None))
      | [] \<Rightarrow> None)"

definition json_loads :: "string \<Rightarrow> json option" where
  "json_loads s =
     (case parse_value (Suc (2 * length s)) (skip_ws s) of
        Some (v, r) \<Rightarrow> if skip_ws r = [] then Some v else None
      | None \<Rightarrow> None)"

section \<open>Integers\<close>

text \<open>\<open>int(s)\<close> of a text: surrounding white space, a sign, digits that single underscores may part.\<close>

definition is_space :: "char \<Rightarrow> bool" where
  "is_space c = (let n = (of_char c :: nat) in n = 32 \<or> 9 \<le> n \<and> n \<le> 13 \<or> 28 \<le> n \<and> n \<le> 31 \<or> n = 133 \<or> n = 160)"

definition strip :: "string \<Rightarrow> string" where
  "strip s = rev (dropWhile is_space (rev (dropWhile is_space s)))"

fun int_digits :: "nat \<Rightarrow> bool \<Rightarrow> string \<Rightarrow> nat option" where
  "int_digits acc seen [] = (if seen then Some acc else None)"
| "int_digits acc seen (c # s) =
     (if c = CHR ''_'' then (if seen then int_digits acc False s else None)
      else (case digit_val c of None \<Rightarrow> None | Some d \<Rightarrow> int_digits (acc * 10 + d) True s))"

definition py_int :: "string \<Rightarrow> int option" where
  "py_int s = (case strip s of
      [] \<Rightarrow> None
    | c # r \<Rightarrow> if c = CHR ''-'' then map_option (\<lambda>n. - int n) (int_digits 0 False r)
               else if c = CHR ''+'' then map_option int (int_digits 0 False r)
               else map_option int (int_digits 0 False (c # r)))"

section \<open>Parsing what was printed\<close>

lemma hex_val_digit [simp]: "n < 16 \<Longrightarrow> hex_val (hex_digit n) = Some n"
  by (simp add: hex_val_def hex_digit_def Let_def)

lemma hex4_byte: "hex4 (CHR ''0'') (CHR ''0'') (hex_digit (of_char c div 16)) (hex_digit (of_char c mod 16)) =
  Some (of_char c)"
proof -
  have hi: "(of_char c :: nat) div 16 < 16"
    by (rule less_mult_imp_div_less) simp
  have zero: "hex_val (CHR ''0'') = Some 0" by (simp add: hex_val_def)
  have lo: "(of_char c :: nat) mod 16 < 16" by simp
  show ?thesis
    by (simp only: hex4_def zero hex_val_digit [OF hi] hex_val_digit [OF lo] prod.case option.case
        mult_0 add_0 div_mult_mod_eq)
qed

lemma parse_str_char:
  "parse_str (json_char_ascii c @ s) = map_option (\<lambda>(t, q). (c # t, q)) (parse_str s)"
proof -
  define n where "n = (of_char c :: nat)"
  have c: "c = char_of n" by (simp add: n_def)
  consider "n \<in> {34, 92, 10, 13, 9, 8, 12}"
    | "n < 32" "n \<notin> {10, 13, 9, 8, 12}" | "127 \<le> n" | "32 \<le> n" "n < 127" "n \<noteq> 34" "n \<noteq> 92"
    by fastforce
  then show ?thesis
  proof cases
    case 1
    then consider "c = CHR 34" | "c = CHR 92" | "c = CHR 10" | "c = CHR 13" | "c = CHR 9" | "c = CHR 8" | "c = CHR 12"
      unfolding c by (elim insertE emptyE) (simp_all add: char_of_def bit_0)
    then show ?thesis by cases (simp_all add: json_char_ascii_def json_char_def simple_escape_def)
  next
    case 2
    then have "json_char_ascii c = CHR 92 # CHR ''u'' # CHR ''0'' # CHR ''0'' # [hex_digit (n div 16), hex_digit (n mod 16)]"
      by (auto simp: json_char_ascii_def json_char_def Let_def n_def)
    then show ?thesis using hex4_byte [of c] by (simp add: n_def)
  next
    case 3
    then have "json_char_ascii c = CHR 92 # CHR ''u'' # CHR ''0'' # CHR ''0'' # [hex_digit (n div 16), hex_digit (n mod 16)]"
      by (auto simp: json_char_ascii_def Let_def n_def)
    then show ?thesis using hex4_byte [of c] by (simp add: n_def)
  next
    case 4
    then have "json_char_ascii c = [c]"
      by (auto simp: json_char_ascii_def json_char_def Let_def n_def)
    moreover have "c \<noteq> CHR 34" and "c \<noteq> CHR 92" using 4 by (auto simp: n_def)
    ultimately show ?thesis using 4 by (simp add: n_def)
  qed
qed

lemma parse_str_ascii: "parse_str (concat (map json_char_ascii s) @ CHR 34 # r) = Some (s, r)"
  by (induction s) (simp_all add: parse_str_char)

end
