(* ===== verification/Node_Runtime.thy ===== *)
theory Node_Runtime
  imports Log_Chunk Task_State Json
begin

text \<open>
  The other handlers of \<open>app/services/node_runtime_service.py\<close>: heartbeat, task event, task result and
  artifact upload. A request body is parsed by pydantic, a parameter of each handler; the fields of
  the parsed models that the code reads are record fields, and the JSON it stores of the rest
  (\<open>model_dump\<close>) is a field of its own. Percentages are exact rationals.
\<close>

section \<open>Attempts\<close>

text \<open>The newest attempt of a task: \<open>ORDER BY id DESC LIMIT 1\<close>.\<close>

definition latest_attempt :: "string \<Rightarrow> attempt_row list \<Rightarrow> attempt_row option" where
  "latest_attempt task_id rows =
     (case order_by_desc at_id (filter (\<lambda>r. at_task_id r = task_id) rows) of [] \<Rightarrow> None | r # _ \<Rightarrow> Some r)"

definition upsert_task_attempt ::
  "string \<Rightarrow> string \<Rightarrow> string \<Rightarrow> string option \<Rightarrow> int option \<Rightarrow> string option \<Rightarrow> iso option \<Rightarrow> iso option \<Rightarrow>
   int option \<Rightarrow> dict option \<Rightarrow> world \<Rightarrow> world" where
  "upsert_task_attempt task_id node_id status_value boot_id pid pgid_or_job_id started_at finished_at exit_code summary w =
     (case latest_attempt task_id (d_attempts (db w)) of
        None \<Rightarrow>
          w\<lparr>db := bump T_Attempts ((db w)\<lparr>d_attempts := d_attempts (db w) @
            [\<lparr>at_id = next_id T_Attempts (db w), at_task_id = task_id, at_node_id = node_id,
              at_agent_boot_id = boot_id, at_pid = pid, at_pgid_or_job_id = pgid_or_job_id,
              at_status = status_value, at_started_at = started_at, at_finished_at = finished_at,
              at_exit_code = exit_code, at_result_summary = (case summary of Some d \<Rightarrow> d | None \<Rightarrow> [])\<rparr>]\<rparr>)\<rparr>
      | Some existing \<Rightarrow>
          upd_attempts (update_where (\<lambda>r. at_id r = at_id existing)
            (\<lambda>r. r\<lparr>at_agent_boot_id := coalesce boot_id (at_agent_boot_id r), at_pid := coalesce pid (at_pid r),
               at_pgid_or_job_id := coalesce pgid_or_job_id (at_pgid_or_job_id r), at_status := status_value,
               at_started_at := coalesce started_at (at_started_at r),
               at_finished_at := coalesce finished_at (at_finished_at r),
               at_exit_code := coalesce exit_code (at_exit_code r),
               at_result_summary := (case summary of Some d \<Rightarrow> d | None \<Rightarrow> at_result_summary r)\<rparr>)) w)"

section \<open>Heartbeats\<close>

record hb_gpu =
  g_index :: int
  g_total_vram_mb :: "int option"
  g_used_vram_mb :: "int option"
  g_utilization_percent :: "rat option"
  g_temperature_c :: "rat option"
  g_power_draw_w :: "rat option"
  g_dump :: json

record hb_sample_gpu =
  sg_util :: "rat option"
  sg_temp_c :: "rat option"
  sg_vram_used_bytes :: "int option"
  sg_power_w :: "rat option"
  sg_dump :: json

record hb_sample =
  sm_ts :: iso
  sm_cpu_percent :: "rat option"
  sm_memory_percent :: "rat option"
  sm_gpus :: "hb_sample_gpu list"

record heartbeat_request =
  hb_boot_id :: string
  hb_hostname :: "string option"
  hb_heartbeat_interval_sec :: int
  hb_cpu_usage_percent :: "rat option"
  hb_memory_usage_percent :: "rat option"
  hb_gpus :: "hb_gpu list"
  hb_active_task_id :: "string option"
  hb_samples :: "hb_sample list"
  hb_cpu_dump :: json
  hb_memory_dump :: json
  hb_disks_dump :: json
  hb_nvidia_dump :: json
  hb_python_env_dump :: json
  hb_task_runtime_dump :: json
  hb_dump :: json

definition gpu_memory_percent :: "hb_gpu \<Rightarrow> rat option" where
  "gpu_memory_percent g =
     (case (g_total_vram_mb g, g_used_vram_mb g) of
        (Some tot, Some used) \<Rightarrow> if 0 < tot then Some (of_int used / of_int tot * 100) else None
      | _ \<Rightarrow> None)"

definition first_gpu_metrics :: "heartbeat_request \<Rightarrow> rat option \<times> rat option \<times> rat option \<times> rat option" where
  "first_gpu_metrics payload =
     (case hb_gpus payload of
        [] \<Rightarrow> (None, None, None, None)
      | g # _ \<Rightarrow> (g_utilization_percent g, gpu_memory_percent g, g_temperature_c g, g_power_draw_w g))"

definition MiB_to_bytes :: "int option \<Rightarrow> int option" where
  "MiB_to_bytes v = map_option (\<lambda>x. x * 1024 * 1024) v"

definition sample_vram_percent :: "int option \<Rightarrow> int option \<Rightarrow> rat option" where
  "sample_vram_percent vram_used_bytes total_vram_mb =
     (case (vram_used_bytes, total_vram_mb) of
        (Some used, Some tot) \<Rightarrow>
          if tot \<le> 0 then None else Some (of_int used / of_int (tot * 1024 * 1024) * 100)
      | _ \<Rightarrow> None)"

definition jrat :: "rat option \<Rightarrow> json" where
  "jrat v = opt_json (\<lambda>r. JFloat r []) v"

definition compact_base_gpus :: "heartbeat_request \<Rightarrow> json option" where
  "compact_base_gpus payload =
     (if hb_gpus payload = [] then None
      else Some (JList (map (\<lambda>g. JObj [(''idx'', JInt (g_index g)), (''util'', jrat (g_utilization_percent g)),
          (''temp_c'', jrat (g_temperature_c g)),
          (''vram_used_bytes'', opt_json JInt (MiB_to_bytes (g_used_vram_mb g)))]) (hb_gpus payload))))"

text \<open>The rows of one heartbeat; the ids are assigned by the insert.\<close>

definition base_snapshot :: "string \<Rightarrow> iso \<Rightarrow> heartbeat_request \<Rightarrow> snapshot_row" where
  "base_snapshot node_id now_iso payload =
     (case first_gpu_metrics payload of (util, mem, temp, draw) \<Rightarrow>
       \<lparr>s_id = 0, s_node_id = node_id, s_reported_at = now_iso,
        s_cpu_usage_percent = hb_cpu_usage_percent payload,
        s_memory_usage_percent = hb_memory_usage_percent payload,
        s_gpu_utilization_percent = util, s_gpu_memory_percent = mem, s_gpu_temperature_c = temp,
        s_gpu_power_draw_w = draw, s_cpu_json = Some (hb_cpu_dump payload),
        s_memory_json = Some (hb_memory_dump payload), s_disk_json = Some (hb_disks_dump payload),
        s_gpu_json = Some (JObj [(''gpus'', JList (map g_dump (hb_gpus payload))), (''nvidia'', hb_nvidia_dump payload)]),
        s_python_env_json = Some (hb_python_env_dump payload),
        s_task_runtime_json = Some (hb_task_runtime_dump payload), s_raw_payload_json = Some (hb_dump payload),
        s_sample_gpus_json = compact_base_gpus payload\<rparr>)"

definition sample_snapshot :: "string \<Rightarrow> heartbeat_request \<Rightarrow> hb_sample \<Rightarrow> snapshot_row" where
  "sample_snapshot node_id payload sm =
     (let g = (case sm_gpus sm of [] \<Rightarrow> None | g # _ \<Rightarrow> Some g);
          tot = (case hb_gpus payload of [] \<Rightarrow> None | g # _ \<Rightarrow> g_total_vram_mb g)
      in \<lparr>s_id = 0, s_node_id = node_id, s_reported_at = sm_ts sm, s_cpu_usage_percent = sm_cpu_percent sm,
          s_memory_usage_percent = sm_memory_percent sm,
          s_gpu_utilization_percent = Option.bind g sg_util,
          s_gpu_memory_percent = sample_vram_percent (Option.bind g sg_vram_used_bytes) tot,
          s_gpu_temperature_c = Option.bind g sg_temp_c, s_gpu_power_draw_w = Option.bind g sg_power_w,
          s_cpu_json = None, s_memory_json = None, s_disk_json = None, s_gpu_json = None,
          s_python_env_json = None, s_task_runtime_json = None, s_raw_payload_json = None,
          s_sample_gpus_json = (if sm_gpus sm = [] then None else Some (JList (map sg_dump (sm_gpus sm))))\<rparr>)"

fun sample_rows :: "string \<Rightarrow> heartbeat_request \<Rightarrow> iso list \<Rightarrow> hb_sample list \<Rightarrow> snapshot_row list" where
  "sample_rows node_id payload seen [] = []"
| "sample_rows node_id payload seen (sm # sms) =
     (if sm_ts sm \<in> set seen then sample_rows node_id payload seen sms
      else sample_snapshot node_id payload sm # sample_rows node_id payload (sm_ts sm # seen) sms)"

definition build_snapshot_rows :: "string \<Rightarrow> iso \<Rightarrow> heartbeat_request \<Rightarrow> snapshot_row list" where
  "build_snapshot_rows node_id now_iso payload =
     base_snapshot node_id now_iso payload # sample_rows node_id payload [now_iso] (hb_samples payload)"

definition insert_snapshot :: "snapshot_row \<Rightarrow> world \<Rightarrow> world" where
  "insert_snapshot r w = w\<lparr>db := bump T_Snapshots ((db w)\<lparr>d_snapshots := d_snapshots (db w) @
     [r\<lparr>s_id := next_id T_Snapshots (db w)\<rparr>]\<rparr>)\<rparr>"

record task_envelope =
  tv_task_id :: string
  tv_revision :: int
  tv_idempotency_key :: string
  tv_type :: string
  tv_payload :: dict
  tv_workdir :: "string option"
  tv_env :: "(string \<times> string) list"
  tv_requested_gpu_ids :: "int list"
  tv_timeout_sec :: int
  tv_kill_grace_sec :: int
  tv_danger_level :: string

definition task_envelope_of :: "task_row \<Rightarrow> task_envelope" where
  "task_envelope_of r = \<lparr>tv_task_id = t_task_id r, tv_revision = t_revision r,
     tv_idempotency_key = t_idempotency_key r, tv_type = t_type r, tv_payload = t_payload r,
     tv_workdir = t_workdir r, tv_env = t_env r, tv_requested_gpu_ids = t_requested_gpu_ids r,
     tv_timeout_sec = t_timeout_sec r, tv_kill_grace_sec = t_kill_grace_sec r, tv_danger_level = t_danger_level r\<rparr>"

record heartbeat_response =
  hr_server_time :: iso
  hr_node_id :: string
  hr_tasks :: "task_envelope list"
  hr_task_controls :: "(string \<times> int) list"
  hr_refresh_fingerprint :: bool

text \<open>The node row after a heartbeat.\<close>

definition heartbeat_node :: "iso \<Rightarrow> heartbeat_request \<Rightarrow> string option \<Rightarrow> node_row \<Rightarrow> node_row" where
  "heartbeat_node now_iso payload old_hostname r = r\<lparr>
     n_hostname := (if truthy (hb_hostname payload) then hb_hostname payload else old_hostname),
     n_heartbeat_interval_sec := hb_heartbeat_interval_sec payload,
     n_first_seen_at := coalesce (n_first_seen_at r) (Some now_iso), n_last_seen_at := Some now_iso,
     n_last_boot_id := Some (hb_boot_id payload), n_onboarding_token_encrypted := None,
     n_onboarding_token_expires_at := None, n_updated_at := now_iso\<rparr>"

text \<open>NULLs come last in descending order.\<close>

definition cancel_controls :: "string \<Rightarrow> task_row list \<Rightarrow> (string \<times> int) list" where
  "cancel_controls node_id rows =
     map (\<lambda>r. (t_task_id r, t_kill_grace_sec r))
       (order_by_desc (\<lambda>r. (t_claimed_at r, t_id r))
         (filter (\<lambda>r. t_node_id r = node_id \<and> t_status r = Cancel_Requested) rows))"

text \<open>The task that a heartbeat hands out: none while a reported one is known.\<close>

definition heartbeat_assign :: "string \<Rightarrow> string option \<Rightarrow> iso \<Rightarrow> world \<Rightarrow> task_row option \<times> world" where
  "heartbeat_assign node_id active_task_id now_iso w =
     (case sync_reported_active_task node_id active_task_id now_iso w of
        (Some _, w1) \<Rightarrow> (None, w1)
      | (None, w1) \<Rightarrow> claim_next_task_for_node node_id now_iso w1)"

definition heartbeat_tx ::
  "instant \<Rightarrow> string \<Rightarrow> node_row \<Rightarrow> heartbeat_request \<Rightarrow> world \<Rightarrow> (task_envelope list \<times> (string \<times> int) list) \<times> world" where
  "heartbeat_tx now node_id node payload w =
     (let now_iso = utc_now_iso now;
          w1 = upd_nodes (put_node node_id (heartbeat_node now_iso payload (n_hostname node))) w;
          w2 = fold insert_snapshot (build_snapshot_rows node_id now_iso payload) w1
      in case heartbeat_assign node_id (hb_active_task_id payload) now_iso w2 of
           (claimed, w3) \<Rightarrow>
             (((case claimed of Some r \<Rightarrow> [task_envelope_of r] | None \<Rightarrow> []),
               cancel_controls node_id (d_tasks (db w3))), w3))"

text \<open>\<open>_heartbeat_impl\<close> once the node and its payload are known\<close>

definition receive_heartbeat ::
  "settings \<Rightarrow> instant \<Rightarrow> string \<Rightarrow> node_row \<Rightarrow> heartbeat_request \<Rightarrow> world \<Rightarrow> heartbeat_response \<times> world" where
  "receive_heartbeat s now node_id node payload w =
     (case heartbeat_tx now node_id node payload w of
        ((tasks, controls), w2) \<Rightarrow>
          (let w3 = trim_node_status_history node_id (max_status_history_per_node s) w2;
               refresh = (node_id \<in> set (pending_fp w3))
           in (\<lparr>hr_server_time = utc_now_iso now, hr_node_id = node_id, hr_tasks = tasks,
                 hr_task_controls = controls, hr_refresh_fingerprint = refresh\<rparr>,
               w3\<lparr>pending_fp := removeAll node_id (pending_fp w3)\<rparr>)))"

definition heartbeat_impl ::
  "crypto \<Rightarrow> settings \<Rightarrow> (bytes \<Rightarrow> heartbeat_request option) \<Rightarrow> instant \<Rightarrow> bytes \<Rightarrow> node_request \<Rightarrow>
   (world, api_error, heartbeat_response) act" where
  "heartbeat_impl cr s parse now rnd req w =
     (case authenticate_node cr s now rnd req w of
        (Inl e, w1) \<Rightarrow> (Inl e, w1)
      | (Inr (node_id, node), w1) \<Rightarrow>
          (case parse (rq_body req) of
             None \<Rightarrow> (Inl (Api_Error ''ERR_VALIDATION_INVALID_PAYLOAD'' 422), w1)
           | Some payload \<Rightarrow>
               (case receive_heartbeat s now node_id node payload w1 of (answer, w2) \<Rightarrow> (Inr answer, w2))))"

definition metric_node_id_for_reject :: "node_request \<Rightarrow> world \<Rightarrow> string" where
  "metric_node_id_for_reject req w =
     (if \<not> truthy (hdr_node_id req) then ''unknown''
      else (case get_node (the (hdr_node_id req)) (d_nodes (db w)) of
              Some r \<Rightarrow> n_node_id r | None \<Rightarrow> ''unknown''))"

definition heartbeat ::
  "crypto \<Rightarrow> settings \<Rightarrow> (bytes \<Rightarrow> heartbeat_request option) \<Rightarrow> instant \<Rightarrow> bytes \<Rightarrow> node_request \<Rightarrow>
   (world, api_error, heartbeat_response) act" where
  "heartbeat cr s parse now rnd req w =
     (case heartbeat_impl cr s parse now rnd req w of
        (Inr r, w1) \<Rightarrow> (Inr r, observe [NODE_HEARTBEAT (hr_node_id r) ''ok''] w1)
      | (Inl e, w1) \<Rightarrow> (Inl e, observe [NODE_HEARTBEAT (metric_node_id_for_reject req w1) ''reject''] w1))"

section \<open>Task events and results\<close>

definition task_state_409 :: "(world, task_state_error, 'a) act \<Rightarrow> (world, api_error, 'a) act" where
  "task_state_409 m w = (case m w of
     (Inl _, w') \<Rightarrow> (Inl (Api_Error ''ERR_TASK_INVALID_STATE_TRANSITION'' 409), w')
   | (Inr a, w') \<Rightarrow> (Inr a, w'))"

record event_payload =
  ep_task_id :: string
  ep_event :: task_event
  ep_boot_id :: "string option"
  ep_pid :: "int option"
  ep_pgid_or_job_id :: "string option"

text \<open>The text of a reported event, which is the name of its target status.\<close>

definition event_str :: "task_event \<Rightarrow> string" where
  "event_str e = (case TASK_EVENT_TRANSITIONS e of Some (t, _) \<Rightarrow> status_str t | None \<Rightarrow> [])"

definition task_event_tx :: "instant \<Rightarrow> string \<Rightarrow> event_payload \<Rightarrow> (world, api_error, dict) act" where
  "task_event_tx now node_id p =
     andthen (load_task_for_node node_id (ep_task_id p)) (\<lambda>_.
     andthen (task_state_409 (transition_task (ep_task_id p) (ep_event p) (utc_now_iso now)
                (Some (utc_now_iso now)) (Some (utc_now_iso now)) None None)) (\<lambda>updated_row w.
       (Inr [(''ok'', JBool True), (''task_id'', JStr (ep_task_id p)), (''status'', JStr (event_str (ep_event p)))],
        upsert_task_attempt (ep_task_id p) node_id (event_str (ep_event p)) (ep_boot_id p) (ep_pid p)
          (ep_pgid_or_job_id p) (t_started_at updated_row) (t_finished_at updated_row) None None w)))"

definition task_events ::
  "crypto \<Rightarrow> settings \<Rightarrow> (bytes \<Rightarrow> event_payload option) \<Rightarrow> instant \<Rightarrow> bytes \<Rightarrow> node_request \<Rightarrow>
   (world, api_error, dict) act" where
  "task_events cr s parse now rnd req =
     andthen (authenticate_node cr s now rnd req) (\<lambda>(node_id, _).
       case parse (rq_body req) of
         None \<Rightarrow> raise (Api_Error ''ERR_VALIDATION_INVALID_PAYLOAD'' 422)
       | Some p \<Rightarrow> connect (task_event_tx now node_id p))"

record result_payload =
  rp_task_id :: string
  rp_final_status :: task_status
  rp_exit_code :: "int option"
  rp_summary :: dict
  rp_boot_id :: "string option"
  rp_pid :: "int option"
  rp_pgid_or_job_id :: "string option"
  rp_started_at :: "string option"
  rp_finished_at :: "string option"

text \<open>The transaction of \<open>task_result\<close>: the answer, and whether it is the answer to a duplicate.\<close>

definition task_result_tx :: "instant \<Rightarrow> string \<Rightarrow> result_payload \<Rightarrow> (world, api_error, dict \<times> bool) act" where
  "task_result_tx now node_id p =
     andthen (load_task_for_node node_id (rp_task_id p)) (\<lambda>current_row.
       let now_iso = utc_now_iso now;
           finished_at = or_else (rp_finished_at p) now_iso;
           started_at = or_else (rp_started_at p) (or_else (t_started_at current_row) now_iso)
       in andthen (task_state_409 (finalize_task_result (rp_task_id p) (rp_final_status p) started_at finished_at now_iso))
            (\<lambda>(updated_row, duplicate) w.
              if duplicate then
                (Inr ([(''ok'', JBool True), (''task_id'', JStr (rp_task_id p)),
                       (''status'', JStr (status_str (t_status updated_row))), (''duplicate'', JBool True)], True), w)
              else
                (Inr ([(''ok'', JBool True), (''task_id'', JStr (rp_task_id p)),
                       (''status'', JStr (status_str (rp_final_status p)))], False),
                 upsert_task_attempt (rp_task_id p) node_id (status_str (rp_final_status p)) (rp_boot_id p) (rp_pid p)
                   (rp_pgid_or_job_id p) (Some started_at) (Some finished_at) (rp_exit_code p)
                   (Some (rp_summary p)) w)))"

definition receive_task_result :: "instant \<Rightarrow> string \<Rightarrow> result_payload \<Rightarrow> (world, api_error, dict) act" where
  "receive_task_result now node_id p w =
     (case connect (task_result_tx now node_id p) w of
        (Inl e, w1) \<Rightarrow> (Inl e, w1)
      | (Inr (answer, duplicate), w1) \<Rightarrow>
          (Inr answer,
           if \<not> duplicate \<and> rp_final_status p = Failed then
             emit_event now ''task.failed''
               [(''task_id'', JStr (rp_task_id p)), (''node_id'', JStr node_id),
                (''exit_code'', opt_json JInt (rp_exit_code p)),
                (''summary'', JStr (take 200 (dumps (JObj (rp_summary p)))))] ''warning'' w1
           else w1))"

definition task_result ::
  "crypto \<Rightarrow> settings \<Rightarrow> (bytes \<Rightarrow> result_payload option) \<Rightarrow> instant \<Rightarrow> bytes \<Rightarrow> node_request \<Rightarrow>
   (world, api_error, dict) act" where
  "task_result cr s parse now rnd req =
     andthen (authenticate_node cr s now rnd req) (\<lambda>(node_id, _).
       case parse (rq_body req) of
         None \<Rightarrow> raise (Api_Error ''ERR_VALIDATION_INVALID_PAYLOAD'' 422)
       | Some p \<Rightarrow> receive_task_result now node_id p)"

section \<open>Artifacts\<close>

text \<open>\<open>Path(name).name\<close>: the last component, or nothing for an empty path or the root alone.\<close>

definition path_name :: "string \<Rightarrow> string" where
  "path_name s = (let p = path_parts s in
     if p = [] \<or> length p = length (posix_root s) then [] else last p)"

definition sanitize_artifact_name :: "string \<Rightarrow> api_error + string" where
  "sanitize_artifact_name name =
     (let sanitized = path_name name in
      if sanitized = [] \<or> sanitized \<in> {''.'', ''..''} \<or> sanitized \<noteq> name
      then Inl (Api_Error ''ERR_ARTIFACT_INVALID_NAME'' 400) else Inr sanitized)"

record artifact_payload =
  ap_task_id :: string
  ap_artifact_name :: string
  ap_artifact_type :: string
  ap_content_base64 :: string
  ap_content_type :: "string option"
  ap_preview :: dict

definition reject_upload :: "string \<Rightarrow> api_error \<Rightarrow> (world, api_error, 'a) act" where
  "reject_upload result e w = (Inl e, observe [ARTIFACT_UPLOAD result] w)"

definition too_large :: api_error where
  "too_large = Api_Error ''ERR_PAYLOAD_TOO_LARGE'' 413"

text \<open>The checks before the body is read: None when they pass.\<close>

definition content_length_error :: "settings \<Rightarrow> node_request \<Rightarrow> (string \<times> api_error) option" where
  "content_length_error s req =
     (case hdr_content_length req of
        None \<Rightarrow> None
      | Some content_length \<Rightarrow>
          (case py_int content_length of
             None \<Rightarrow> Some (''reject_invalid'', Api_Error ''ERR_ARTIFACT_INVALID_CONTENT_LENGTH'' 400)
           | Some request_size \<Rightarrow>
               if max_artifact_bytes s * 4 div 3 + 4096 < request_size
               then Some (''reject_size'', too_large) else None))"

definition artifact_dir :: "settings \<Rightarrow> string \<Rightarrow> path" where
  "artifact_dir s task_id = resolve_path (join_path (storage_base s @ [''artifacts'']) task_id)"

definition record_artifact :: "instant \<Rightarrow> artifact_payload \<Rightarrow> string \<Rightarrow> path \<Rightarrow> int \<Rightarrow> world \<Rightarrow> world" where
  "record_artifact now p artifact_name artifact_path nbytes w =
     (case List.find (\<lambda>r. f_task_id r = ap_task_id p \<and> f_artifact_name r = artifact_name) (d_artifacts (db w)) of
        None \<Rightarrow>
          w\<lparr>db := bump T_Artifacts ((db w)\<lparr>d_artifacts := d_artifacts (db w) @
            [\<lparr>f_id = next_id T_Artifacts (db w), f_task_id = ap_task_id p, f_artifact_name = artifact_name,
              f_artifact_type = ap_artifact_type p, f_content_type = ap_content_type p, f_size_bytes = nbytes,
              f_storage_path = artifact_path, f_preview = ap_preview p, f_created_at = utc_now_iso now\<rparr>]\<rparr>)\<rparr>
      | Some existing \<Rightarrow>
          upd_artifacts (update_where (\<lambda>r. f_id r = f_id existing)
            (\<lambda>r. r\<lparr>f_artifact_type := ap_artifact_type p, f_content_type := ap_content_type p,
               f_size_bytes := nbytes, f_storage_path := artifact_path, f_preview := ap_preview p\<rparr>)) w)"

definition receive_artifact :: "settings \<Rightarrow> instant \<Rightarrow> string \<Rightarrow> artifact_payload \<Rightarrow> (world, api_error, dict) act" where
  "receive_artifact s now node_id p w =
     (case connect (load_task_for_node node_id (ap_task_id p)) w of
        (Inl e, w1) \<Rightarrow> (Inl e, w1)
      | (Inr _, w1) \<Rightarrow>
          if max_artifact_bytes s < int (length (ap_content_base64 p)) * 3 div 4
          then reject_upload ''reject_size'' too_large w1
          else
            (case b64decode True (ap_content_base64 p) of
               None \<Rightarrow> reject_upload ''reject_invalid'' (Api_Error ''ERR_ARTIFACT_INVALID_BASE64'' 400) w1
             | Some content \<Rightarrow>
                 if max_artifact_bytes s < int (length content)
                 then reject_upload ''reject_size'' too_large w1
                 else
                   (case sanitize_artifact_name (ap_artifact_name p) of
                      Inl e \<Rightarrow> reject_upload ''reject_invalid'' e w1
                    | Inr artifact_name \<Rightarrow>
                        (let artifact_path = artifact_dir s (ap_task_id p) @ [artifact_name];
                             w2 = w1\<lparr>files := file_put artifact_path (Plain content) (files w1)\<rparr>;
                             w3 = record_artifact now p artifact_name artifact_path (int (length content)) w2
                         in (Inr [(''ok'', JBool True), (''task_id'', JStr (ap_task_id p)),
                                  (''artifact_name'', JStr artifact_name), (''size_bytes'', JInt (int (length content)))],
                             observe [ARTIFACT_UPLOAD ''ok'', ARTIFACT_UPLOAD_BYTES (int (length content))] w3)))))"

definition artifact_upload ::
  "crypto \<Rightarrow> settings \<Rightarrow> (bytes \<Rightarrow> artifact_payload option) \<Rightarrow> instant \<Rightarrow> bytes \<Rightarrow> node_request \<Rightarrow>
   (world, api_error, dict) act" where
  "artifact_upload cr s parse now rnd req w =
     (case content_length_error s req of
        Some (result, e) \<Rightarrow> reject_upload result e w
      | None \<Rightarrow>
          (case authenticate_node cr s now rnd req w of
             (Inl e, w1) \<Rightarrow> (Inl e, w1)
           | (Inr (node_id, _), w1) \<Rightarrow>
               (case parse (rq_body req) of
                  None \<Rightarrow> reject_upload ''reject_invalid'' (Api_Error ''ERR_VALIDATION_INVALID_PAYLOAD'' 422) w1
                | Some p \<Rightarrow> receive_artifact s now node_id p w1)))"

end
