(* ===== verification/Schema.thy ===== *)
theory Schema
  imports Node_Runtime
begin

text \<open>
  The schema of the control plane's SQLite file: \<open>Database.init_schema\<close> and \<open>_migrate_schema\<close> of
  \<open>app/db.py\<close>, which run at every start. A table is its columns (with affinity,
  \<open>NOT NULL\<close>, \<open>DEFAULT\<close> and \<open>UNIQUE\<close>), its constraints and its rows, a row the map from the names of its
  columns to values. SQLite's \<open>json_extract\<close> is a parameter. What an interrupted migration leaves
  behind is not modelled.
\<close>

section \<open>Tables\<close>

datatype affinity = Integer_aff | Text_aff | Real_aff

datatype sql_value = SqlNull | SqlInt int | SqlText string | SqlReal rat

datatype sql_error =
  No_such_table | Table_exists | Duplicate_column string | No_such_column string | Null_default string
| Not_null_violated string | Malformed_json | Key_failed key_error

datatype on_delete = Cascade | Set_null

record sql_column =
  c_name :: string
  c_affinity :: affinity
  c_primary :: bool
  c_not_null :: bool
  c_default :: "sql_value option"
  c_unique :: bool

type_synonym sql_row = "string \<rightharpoonup> sql_value"

record sql_table =
  tb_columns :: "sql_column list"
  tb_uniques :: "string list list"
  tb_references :: "(string \<times> string \<times> string \<times> on_delete) list"
  tb_rows :: "sql_row list"

record sql_db =
  sd_tables :: "(string \<times> sql_table) list"
  sd_indexes :: "(string \<times> string \<times> (string \<times> bool) list) list"

text \<open>The column definitions of the scripts.\<close>

definition column :: "affinity \<Rightarrow> string \<Rightarrow> sql_column" where
  "column a n = \<lparr>c_name = n, c_affinity = a, c_primary = False, c_not_null = False, c_default = None, c_unique = False\<rparr>"

definition id_column :: sql_column where
  "id_column = (column Integer_aff ''id'')\<lparr>c_primary := True\<rparr>"

definition not_null :: "sql_column \<Rightarrow> sql_column" where
  "not_null c = c\<lparr>c_not_null := True\<rparr>"

definition unique :: "sql_column \<Rightarrow> sql_column" where
  "unique c = c\<lparr>c_unique := True\<rparr>"

definition default_to :: "sql_value \<Rightarrow> sql_column \<Rightarrow> sql_column" where
  "default_to v c = c\<lparr>c_not_null := True, c_default := Some v\<rparr>"

abbreviation "text_col \<equiv> column Text_aff"
abbreviation "int_col \<equiv> column Integer_aff"
abbreviation "real_col \<equiv> column Real_aff"
abbreviation "text_req n \<equiv> not_null (text_col n)"
abbreviation "int_req n \<equiv> not_null (int_col n)"
abbreviation "int_or n k \<equiv> default_to (SqlInt k) (int_col n)"
abbreviation "text_or n s \<equiv> default_to (SqlText s) (text_col n)"

definition new_table :: "sql_column list \<Rightarrow> string list list \<Rightarrow> (string \<times> string \<times> string \<times> on_delete) list \<Rightarrow> sql_table" where
  "new_table cs us rs = \<lparr>tb_columns = cs, tb_uniques = us, tb_references = rs, tb_rows = []\<rparr>"

definition column_names :: "sql_table \<Rightarrow> string list" where
  "column_names t = map c_name (tb_columns t)"

definition column_default :: "sql_column \<Rightarrow> sql_value" where
  "column_default c = (case c_default c of None \<Rightarrow> SqlNull | Some v \<Rightarrow> v)"

section \<open>Statements\<close>

definition create_table_if_not_exists :: "string \<times> sql_table \<Rightarrow> sql_db \<Rightarrow> sql_db" where
  "create_table_if_not_exists nt d =
     (if fst nt \<in> fst ` set (sd_tables d) then d else d\<lparr>sd_tables := sd_tables d @ [nt]\<rparr>)"

definition create_table :: "string \<times> sql_table \<Rightarrow> sql_db \<Rightarrow> sql_error + sql_db" where
  "create_table nt d =
     (if fst nt \<in> fst ` set (sd_tables d) then Inl Table_exists else Inr (d\<lparr>sd_tables := sd_tables d @ [nt]\<rparr>))"

definition table_of :: "sql_db \<Rightarrow> string \<Rightarrow> sql_table option" where
  "table_of d n = map_of (sd_tables d) n"

text \<open>An index names its table and the columns, with the flag \<open>DESC\<close>.\<close>

definition create_index :: "string \<times> string \<times> (string \<times> bool) list \<Rightarrow> sql_db \<Rightarrow> sql_error + sql_db" where
  "create_index i d =
     (case i of (n, tab, cs) \<Rightarrow>
        if n \<in> fst ` set (sd_indexes d) then Inl Table_exists
        else
          (case table_of d tab of
             None \<Rightarrow> Inl No_such_table
           | Some t \<Rightarrow>
               (case List.find (\<lambda>c. c \<notin> set (column_names t)) (map fst cs) of
                  Some c \<Rightarrow> Inl (No_such_column c)
                | None \<Rightarrow> Inr (d\<lparr>sd_indexes := sd_indexes d @ [i]\<rparr>))))"

definition create_index_if_not_exists :: "string \<times> string \<times> (string \<times> bool) list \<Rightarrow> sql_db \<Rightarrow> sql_error + sql_db" where
  "create_index_if_not_exists i d = (if fst i \<in> fst ` set (sd_indexes d) then Inr d else create_index i d)"

fun each :: "('a \<Rightarrow> 'd \<Rightarrow> 'e + 'd) \<Rightarrow> 'a list \<Rightarrow> 'd \<Rightarrow> 'e + 'd" where
  "each f [] d = Inr d"
| "each f (x # xs) d = try_then (f x d) (each f xs)"

text \<open>A statement on one table.\<close>

definition on_table :: "string \<Rightarrow> (sql_table \<Rightarrow> sql_error + sql_table) \<Rightarrow> sql_db \<Rightarrow> sql_error + sql_db" where
  "on_table n f d =
     (case table_of d n of
        None \<Rightarrow> Inl No_such_table
      | Some t \<Rightarrow> try_then (f t) (\<lambda>t'. Inr (d\<lparr>sd_tables := map (\<lambda>(m, u). (m, if m = n then t' else u)) (sd_tables d)\<rparr>)))"

definition with_column :: "sql_column \<Rightarrow> sql_table \<Rightarrow> sql_table" where
  "with_column c t = t\<lparr>tb_columns := tb_columns t @ [c], tb_rows := map (\<lambda>r. r(c_name c \<mapsto> column_default c)) (tb_rows t)\<rparr>"

text \<open>\<open>ALTER TABLE ... ADD COLUMN\<close>\<close>

definition add_column :: "sql_column \<Rightarrow> sql_table \<Rightarrow> sql_error + sql_table" where
  "add_column c t =
     (if c_name c \<in> set (column_names t) then Inl (Duplicate_column (c_name c))
      else if c_not_null c \<and> column_default c = SqlNull then Inl (Null_default (c_name c))
      else Inr (with_column c t))"

text \<open>\<open>if "c" not in columns: ALTER TABLE ... ADD COLUMN c\<close>, where \<open>columns\<close> were read before the first of a
  group of such statements\<close>

fun add_missing :: "sql_column list \<Rightarrow> string list \<Rightarrow> sql_table \<Rightarrow> sql_error + sql_table" where
  "add_missing [] known t = Inr t"
| "add_missing (c # cs) known t =
     (if c_name c \<in> set known then add_missing cs known t
      else try_then (add_column c t) (add_missing cs known))"

fun update_rows :: "(sql_row \<Rightarrow> sql_error + sql_row) \<Rightarrow> sql_row list \<Rightarrow> sql_error + sql_row list" where
  "update_rows f [] = Inr []"
| "update_rows f (r # rs) = try_then (f r) (\<lambda>r'. try_then (update_rows f rs) (\<lambda>rs'. Inr (r' # rs')))"

definition update_table :: "(sql_row \<Rightarrow> sql_error + sql_row) \<Rightarrow> sql_table \<Rightarrow> sql_error + sql_table" where
  "update_table f t = try_then (update_rows f (tb_rows t)) (\<lambda>rs. Inr (t\<lparr>tb_rows := rs\<rparr>))"

section \<open>\<open>init_schema\<close>\<close>

definition admins_table :: sql_table where
  "admins_table = new_table
     [id_column, unique (text_req ''username''), text_req ''password_hash'', int_or ''is_active'' 1,
      text_req ''created_at'', text_req ''updated_at'', text_col ''last_login_at'',
      text_col ''tokens_invalidated_at'']
     []
     []"

definition nodes_table :: sql_table where
  "nodes_table = new_table
     [id_column, unique (text_req ''node_id''), text_req ''display_name'', text_col ''node_signing_key'',
      text_col ''encrypted_signing_key'', text_col ''onboarding_token_encrypted'',
      text_col ''onboarding_token_created_at'', text_col ''onboarding_token_expires_at'',
      text_req ''node_type'', text_col ''os_type'', text_col ''hostname'',
      int_or ''heartbeat_interval_sec'' 5, text_or ''allowed_workdirs_json'' ''[]'',
      text_or ''tags_json'' ''[]'', int_or ''allow_shell'' 0, int_or ''allow_modal'' 0,
      int_or ''is_enabled'' 1, text_col ''first_seen_at'', text_col ''last_seen_at'',
      text_col ''last_request_ts'', text_col ''last_boot_id'', text_req ''created_at'', text_req ''updated_at'']
     []
     []"

definition node_status_snapshots_table :: sql_table where
  "node_status_snapshots_table = new_table
     [id_column, text_req ''node_id'', text_req ''reported_at'', real_col ''cpu_usage_percent'',
      real_col ''memory_usage_percent'', real_col ''gpu_utilization_percent'',
      real_col ''gpu_memory_percent'', real_col ''gpu_temperature_c'', real_col ''gpu_power_draw_w'',
      text_col ''cpu_json'', text_col ''memory_json'', text_col ''disk_json'', text_col ''gpu_json'',
      text_col ''python_env_json'', text_col ''task_runtime_json'', text_col ''raw_payload_json'',
      text_col ''sample_gpus_json'']
     []
     [(''node_id'', ''nodes'', ''node_id'', Cascade)]"

definition tasks_table :: sql_table where
  "tasks_table = new_table
     [id_column, unique (text_req ''task_id''), int_req ''revision'', text_req ''idempotency_key'',
      text_req ''node_id'', text_req ''type'', text_req ''status'', text_req ''payload_json'',
      text_col ''workdir'', text_or ''env_json'' ''{}'', text_or ''requested_gpu_ids_json'' ''[]'',
      int_or ''timeout_sec'' 3600, int_or ''kill_grace_sec'' 15, text_or ''danger_level'' ''normal'',
      int_col ''created_by_admin_id'', text_req ''created_at'', text_col ''claimed_at'',
      text_col ''started_at'', text_col ''finished_at'', text_col ''result_locked_at'',
      int_col ''review_stage'', text_col ''review_decision'', text_col ''review_detail'',
      int_col ''review_admin_id'', text_col ''review_started_at'', text_col ''review_finished_at'']
     []
     [(''node_id'', ''nodes'', ''node_id'', Cascade), (''created_by_admin_id'', ''admins'', ''id'', Set_null)]"

definition task_attempts_table :: sql_table where
  "task_attempts_table = new_table
     [id_column, text_req ''task_id'', text_req ''node_id'', text_col ''agent_boot_id'', int_col ''pid'',
      text_col ''pgid_or_job_id'', text_req ''status'', text_col ''started_at'', text_col ''finished_at'',
      int_col ''exit_code'', text_or ''result_summary_json'' ''{}'']
     []
     [(''task_id'', ''tasks'', ''task_id'', Cascade), (''node_id'', ''nodes'', ''node_id'', Cascade)]"

definition task_logs_table :: sql_table where
  "task_logs_table = new_table
     [id_column, text_req ''task_id'', text_req ''stream'', int_or ''last_offset'' 0,
      text_or ''preview_text'' [], text_col ''center_log_path'', int_or ''is_truncated'' 0,
      text_or ''truncated_notice'' [], text_req ''updated_at'']
     [[''task_id'', ''stream'']]
     [(''task_id'', ''tasks'', ''task_id'', Cascade)]"

definition artifacts_table :: sql_table where
  "artifacts_table = new_table
     [id_column, text_req ''task_id'', text_req ''artifact_name'', text_req ''artifact_type'',
      text_col ''content_type'', int_or ''size_bytes'' 0, text_req ''storage_path'',
      text_or ''preview_json'' ''{}'', text_req ''created_at'']
     []
     [(''task_id'', ''tasks'', ''task_id'', Cascade)]"

definition audit_events_table :: sql_table where
  "audit_events_table = new_table
     [id_column, text_req ''actor_type'', text_col ''actor_id'', text_req ''action'',
      text_req ''target_type'', text_col ''target_id'', text_col ''request_ip'', text_req ''detail_json'',
      text_req ''created_at'']
     []
     []"

definition security_warnings_table :: sql_table where
  "security_warnings_table = new_table
     [id_column, text_req ''source_type'', text_col ''source_id'', text_req ''warning_type'',
      text_col ''command_excerpt'', text_req ''detail_json'', text_req ''created_at'']
     []
     []"

definition nonces_table :: sql_table where
  "nonces_table = new_table
     [id_column, text_req ''node_id'', text_req ''nonce'', text_req ''timestamp_utc'', text_req ''expires_at'']
     [[''node_id'', ''nonce'']]
     [(''node_id'', ''nodes'', ''node_id'', Cascade)]"

definition task_reviews_table :: sql_table where
  "task_reviews_table = new_table
     [id_column, text_req ''task_id'', int_req ''stage'', text_req ''reviewer_type'',
      text_col ''reviewer_id'', text_req ''decision'', real_col ''risk_score'',
      text_col ''risk_factors_json'', text_col ''reasoning'', real_col ''duration_sec'',
      text_req ''created_at'']
     []
     [(''task_id'', ''tasks'', ''task_id'', Cascade)]"

definition alert_messages_table :: sql_table where
  "alert_messages_table = new_table
     [id_column, text_req ''alert_type'', text_or ''severity'' ''warning'', text_req ''title'',
      text_col ''summary'', text_col ''detail_json'', text_col ''target_type'', text_col ''target_id'',
      text_or ''status'' ''unread'', int_col ''actioned_by'', text_col ''actioned_at'',
      text_col ''expires_at'', text_req ''created_at'']
     []
     []"

definition init_tables :: "(string \<times> sql_table) list" where
  "init_tables =
     [(''admins'', admins_table), (''nodes'', nodes_table),
      (''node_status_snapshots'', node_status_snapshots_table), (''tasks'', tasks_table),
      (''task_attempts'', task_attempts_table), (''task_logs'', task_logs_table),
      (''artifacts'', artifacts_table), (''audit_events'', audit_events_table),
      (''security_warnings'', security_warnings_table), (''nonces'', nonces_table),
      (''task_reviews'', task_reviews_table), (''alert_messages'', alert_messages_table)]"

definition init_indexes :: "(string \<times> string \<times> (string \<times> bool) list) list" where
  "init_indexes =
     [(''idx_nodes_last_seen_at'', ''nodes'', [(''last_seen_at'', False)]),
      (''idx_snapshots_node_id_reported_at'', ''node_status_snapshots'', [(''node_id'', False), (''reported_at'', True)]),
      (''idx_tasks_node_status_created_at'', ''tasks'', [(''node_id'', False), (''status'', False), (''created_at'', True)]),
      (''idx_task_attempts_task_id_id'', ''task_attempts'', [(''task_id'', False), (''id'', True)]),
      (''idx_nonces_node_id_expires_at'', ''nonces'', [(''node_id'', False), (''expires_at'', False)]),
      (''idx_audit_events_created_at'', ''audit_events'', [(''created_at'', False)]),
      (''idx_task_reviews_task_id'', ''task_reviews'', [(''task_id'', False)]),
      (''idx_alert_messages_status_created'', ''alert_messages'', [(''status'', False), (''created_at'', True)])]"

text \<open>\<open>CAST(json_extract(column, path) AS REAL)\<close>; SQLite's JSON functions are the parameter \<open>extract\<close>.\<close>

type_synonym json_sql = "string \<Rightarrow> string \<Rightarrow> sql_error + rat option"

definition cast_json :: "json_sql \<Rightarrow> string \<Rightarrow> string \<Rightarrow> sql_row \<Rightarrow> sql_error + rat option" where
  "cast_json extract col path r = (case r col of Some (SqlText s) \<Rightarrow> extract s path | _ \<Rightarrow> Inr None)"

definition gpu_memory_share :: "json_sql \<Rightarrow> sql_row \<Rightarrow> sql_error + rat option" where
  "gpu_memory_share extract r =
     try_then (cast_json extract ''gpu_json'' ''$.gpus[0].total_vram_mb'' r) (\<lambda>t.
       case t of
         Some x \<Rightarrow>
           if 0 < x then
             try_then (cast_json extract ''gpu_json'' ''$.gpus[0].used_vram_mb'' r) (\<lambda>u. Inr (map_option (\<lambda>u. u * 100 / x) u))
           else Inr None
       | None \<Rightarrow> Inr None)"

definition hot_metrics :: "json_sql \<Rightarrow> (string \<times> (sql_row \<Rightarrow> sql_error + rat option)) list" where
  "hot_metrics extract =
     [(''cpu_usage_percent'', cast_json extract ''cpu_json'' ''$.usage_percent''),
      (''memory_usage_percent'', cast_json extract ''memory_json'' ''$.usage_percent''),
      (''gpu_utilization_percent'', cast_json extract ''gpu_json'' ''$.gpus[0].utilization_percent''),
      (''gpu_memory_percent'', gpu_memory_share extract),
      (''gpu_temperature_c'', cast_json extract ''gpu_json'' ''$.gpus[0].temperature_c''),
      (''gpu_power_draw_w'', cast_json extract ''gpu_json'' ''$.gpus[0].power_draw_w'')]"

definition real_value :: "rat option \<Rightarrow> sql_value" where
  "real_value x = (case x of None \<Rightarrow> SqlNull | Some q \<Rightarrow> SqlReal q)"

text \<open>\<open>UPDATE ... SET column = expression, ...\<close>: every expression reads the old row.\<close>

fun set_columns :: "(string \<times> (sql_row \<Rightarrow> sql_error + sql_value)) list \<Rightarrow> sql_row \<Rightarrow> sql_row \<Rightarrow> sql_error + sql_row" where
  "set_columns [] old new = Inr new"
| "set_columns ((n, f) # as) old new = try_then (f old) (\<lambda>v. set_columns as old (new(n \<mapsto> v)))"

text \<open>\<open>COALESCE(column, expression)\<close>\<close>

definition coalesced :: "string \<Rightarrow> (sql_row \<Rightarrow> sql_error + sql_value) \<Rightarrow> sql_row \<Rightarrow> sql_error + sql_value" where
  "coalesced n f r = (case r n of None \<Rightarrow> f r | Some v \<Rightarrow> if v = SqlNull then f r else Inr v)"

definition fill_hot_metrics :: "json_sql \<Rightarrow> sql_row \<Rightarrow> sql_error + sql_row" where
  "fill_hot_metrics extract r =
     set_columns (map (\<lambda>(n, f). (n, coalesced n (\<lambda>r. try_then (f r) (\<lambda>x. Inr (real_value x))))) (hot_metrics extract)) r r"

section \<open>\<open>_migrate_schema\<close>\<close>

definition node_additions :: "sql_column list" where
  "node_additions =
     [text_col ''node_signing_key'', text_col ''encrypted_signing_key'', text_col ''onboarding_token_encrypted'',
      text_col ''onboarding_token_created_at'', text_col ''onboarding_token_expires_at'', text_col ''first_seen_at'',
      text_col ''last_request_ts'', text_col ''last_boot_id'', int_or ''allow_shell'' 0, int_or ''allow_modal'' 0]"

definition text_value :: "sql_value option \<Rightarrow> string option" where
  "text_value v = (case v of Some (SqlText s) \<Rightarrow> Some s | _ \<Rightarrow> None)"

text \<open>The signing key of a row, in plain text: that of the row, or of the oldest column that a key had.\<close>

definition plaintext_key :: "bool \<Rightarrow> sql_row \<Rightarrow> string" where
  "plaintext_key legacy r =
     or_else (text_value (r ''node_signing_key''))
       (or_else (if legacy then text_value (r ''node_secret_hash'') else Some []) [])"

definition seal_node_row :: "crypto \<Rightarrow> settings \<Rightarrow> (sql_row \<Rightarrow> bytes) \<Rightarrow> bool \<Rightarrow> sql_row \<Rightarrow> sql_error + sql_row" where
  "seal_node_row cr settings random legacy r =
     (let plaintext = plaintext_key legacy r;
          encrypted = or_else (text_value (r ''encrypted_signing_key'')) [] in
      try_then
        (if plaintext \<noteq> [] \<and> encrypted = [] then
           map_sum Key_failed id (encrypt_node_signing_key cr settings (random r) (of_string plaintext))
         else Inr encrypted)
        (\<lambda>sealed.
           if plaintext \<noteq> [] \<or> text_value (r ''encrypted_signing_key'') \<noteq> Some sealed then
             Inr (r(''node_signing_key'' \<mapsto> SqlText [], ''encrypted_signing_key'' \<mapsto> SqlText sealed))
           else Inr r))"

definition migrate_nodes :: "crypto \<Rightarrow> settings \<Rightarrow> (sql_row \<Rightarrow> bytes) \<Rightarrow> sql_table \<Rightarrow> sql_error + sql_table" where
  "migrate_nodes cr settings random t =
     try_then (add_missing node_additions (column_names t) t)
       (update_table (seal_node_row cr settings random (''node_secret_hash'' \<in> set (column_names t))))"

definition task_additions :: "sql_column list" where
  "task_additions =
     [text_col ''result_locked_at'', int_col ''review_stage'', text_col ''review_decision'', text_col ''review_detail'',
      int_col ''review_admin_id'', text_col ''review_started_at'', text_col ''review_finished_at'']"

definition snapshot_additions :: "sql_column list" where
  "snapshot_additions =
     [real_col ''cpu_usage_percent'', real_col ''memory_usage_percent'', real_col ''gpu_utilization_percent'',
      real_col ''gpu_memory_percent'', real_col ''gpu_temperature_c'', real_col ''gpu_power_draw_w'',
      text_col ''sample_gpus_json'']"

definition migrate_snapshots :: "json_sql \<Rightarrow> sql_table \<Rightarrow> sql_error + sql_table" where
  "migrate_snapshots extract t =
     try_then (add_missing snapshot_additions (column_names t) t) (update_table (fill_hot_metrics extract))"

definition admin_additions :: "sql_column list" where
  "admin_additions = [text_col ''tokens_invalidated_at'']"

definition task_log_additions :: "sql_column list" where
  "task_log_additions = [int_or ''is_truncated'' 0, text_or ''truncated_notice'' []]"

definition add_all :: "sql_column list \<Rightarrow> sql_table \<Rightarrow> sql_error + sql_table" where
  "add_all cs t = add_missing cs (column_names t) t"

definition migrate_schema :: "crypto \<Rightarrow> settings \<Rightarrow> (sql_row \<Rightarrow> bytes) \<Rightarrow> json_sql \<Rightarrow> sql_db \<Rightarrow> sql_error + sql_db" where
  "migrate_schema cr settings random extract d =
     each (\<lambda>(n, f). on_table n f)
       [(''nodes'', migrate_nodes cr settings random), (''tasks'', add_all task_additions),
        (''node_status_snapshots'', migrate_snapshots extract), (''admins'', add_all admin_additions),
        (''task_logs'', add_all task_log_additions)] d"

definition init_schema :: "crypto \<Rightarrow> settings \<Rightarrow> (sql_row \<Rightarrow> bytes) \<Rightarrow> json_sql \<Rightarrow> sql_db \<Rightarrow> sql_error + sql_db" where
  "init_schema cr settings random extract d =
     try_then (each create_index_if_not_exists init_indexes (fold create_table_if_not_exists init_tables d))
       (migrate_schema cr settings random extract)"

section \<open>Statements keep what they do not name\<close>

named_theorems schema_simps \<open>running the statements of a migration\<close>

declare try_then_Inr [schema_simps]

lemma column_simps [simp]:
  "c_name (column a n) = n" "c_name (not_null c) = c_name c" "c_name (unique c) = c_name c"
  "c_name (default_to v c) = c_name c" "c_name id_column = ''id''"
  by (simp_all add: column_def not_null_def unique_def default_to_def id_column_def)

lemma with_column_simps [simp]:
  "tb_columns (with_column c t) = tb_columns t @ [c]" "column_names (with_column c t) = column_names t @ [c_name c]"
  "tb_uniques (with_column c t) = tb_uniques t" "tb_references (with_column c t) = tb_references t"
  by (simp_all add: with_column_def column_names_def)

lemma on_tableE:
  assumes "on_table n f d = Inr d'"
  obtains t t' where "table_of d n = Some t" and "f t = Inr t'" and "table_of d' n = Some t'"
    and "\<And>m. m \<noteq> n \<Longrightarrow> table_of d' m = table_of d m"
    and "map fst (sd_tables d') = map fst (sd_tables d)" and "sd_indexes d' = sd_indexes d"
proof -
  from assms obtain t t' where t: "table_of d n = Some t" "f t = Inr t'"
    and d': "d' = d\<lparr>sd_tables := map (\<lambda>(m, u). (m, if m = n then t' else u)) (sd_tables d)\<rparr>"
    by (auto simp: on_table_def schema_simps split: option.splits)
  have m: "map_of (map (\<lambda>(m, u). (m, if m = n then t' else u)) xs) k =
      (if k = n then map_option (\<lambda>_. t') (map_of xs k) else map_of xs k)" for xs k
    by (induction xs) auto
  show ?thesis
    by (rule that [OF t]) (use t in \<open>simp_all add: d' table_of_def m split_beta comp_def\<close>)
qed

lemma on_table_id:
  assumes "distinct (map fst (sd_tables d))" and "table_of d n = Some t" and "f t = Inr t"
  shows "on_table n f d = Inr d"
proof -
  have "map (\<lambda>(m, u). (m, if m = n then t else u)) (sd_tables d) = sd_tables d"
    using assms by (intro map_idI) (auto simp: table_of_def dest!: map_of_SomeD dest: eq_key_imp_eq_value [OF assms(1)])
  with assms show ?thesis by (simp add: on_table_def)
qed

text \<open>A list of statements, each on a table of its own.\<close>

lemma each_on_tables:
  assumes "each (\<lambda>(n, f). on_table n f) fs d = Inr d'" and "distinct (map fst fs)"
  shows "(\<forall>(n, f) \<in> set fs. \<exists>t t'. table_of d n = Some t \<and> f t = Inr t' \<and> table_of d' n = Some t') \<and>
    (\<forall>m. m \<notin> fst ` set fs \<longrightarrow> table_of d' m = table_of d m) \<and>
    map fst (sd_tables d') = map fst (sd_tables d) \<and> sd_indexes d' = sd_indexes d"
  using assms
proof (induction fs arbitrary: d)
  case (Cons a fs)
  obtain n f where a: "a = (n, f)" by (cases a)
  from Cons.prems a obtain d1 where d1: "on_table n f d = Inr d1" and rest: "each (\<lambda>(n, f). on_table n f) fs d1 = Inr d'"
    by (auto simp: schema_simps)
  from d1 obtain t t' where t: "table_of d n = Some t" "f t = Inr t'" "table_of d1 n = Some t'"
    "\<And>m. m \<noteq> n \<Longrightarrow> table_of d1 m = table_of d m" "map fst (sd_tables d1) = map fst (sd_tables d)"
    "sd_indexes d1 = sd_indexes d"
    by (rule on_tableE) (rule that)
  have nin: "n \<notin> fst ` set fs" and dist: "distinct (map fst fs)" using Cons.prems a by auto
  note IH = Cons.IH [OF rest dist]
  have n': "table_of d' n = Some t'" using IH nin t(3) by simp
  have "\<exists>u u'. table_of d m = Some u \<and> g u = Inr u' \<and> table_of d' m = Some u'" if "(m, g) \<in> set fs" for m g
  proof -
    have "m \<noteq> n" using that nin by (auto simp: image_iff)
    moreover from IH that have "case (m, g) of (n, f) \<Rightarrow> \<exists>t t'. table_of d1 n = Some t \<and> f t = Inr t' \<and> table_of d' n = Some t'"
      by (metis (no_types, lifting))
    ultimately show ?thesis using t(4) [of m] by simp
  qed
  then show ?case using IH t n' nin a by (auto simp: image_iff)
qed simp

lemma each_on_tables_id:
  assumes "distinct (map fst (sd_tables d))"
    and "\<And>n f. (n, f) \<in> set fs \<Longrightarrow> \<exists>t. table_of d n = Some t \<and> f t = Inr t"
  shows "each (\<lambda>(n, f). on_table n f) fs d = Inr d"
  using assms(2)
proof (induction fs)
  case (Cons a fs)
  obtain n f where a: "a = (n, f)" by (cases a)
  from Cons.prems [of n f] a obtain t where "table_of d n = Some t" "f t = Inr t" by auto
  then have "on_table n f d = Inr d" by (rule on_table_id [OF assms(1)])
  with Cons a show ?case by simp
qed simp

lemma update_rows_all2: "update_rows f rs = Inr rs' \<longleftrightarrow> list_all2 (\<lambda>r r'. f r = Inr r') rs rs'"
proof (induction rs arbitrary: rs')
  case (Cons r rs)
  then show ?case by (cases rs') (auto simp: schema_simps)
qed auto

lemma update_table_Inr:
  "update_table f t = Inr t' \<longleftrightarrow>
     (\<exists>rs. list_all2 (\<lambda>r r'. f r = Inr r') (tb_rows t) rs \<and> t' = t\<lparr>tb_rows := rs\<rparr>)"
  by (auto simp: update_table_def schema_simps update_rows_all2)

lemma update_table_id:
  assumes "list_all (\<lambda>r. f r = Inr r) (tb_rows t)"
  shows "update_table f t = Inr t"
  using assms by (auto simp: update_table_Inr list_all2_same list_all_iff intro!: exI [of _ "tb_rows t"])

text \<open>Additions: each missing column is there afterwards, in every row with its default, and the rest stays.\<close>

lemma add_missing_Inr:
  assumes "add_missing cs known t = Inr u"
  shows "\<exists>new. tb_columns u = tb_columns t @ new \<and> set new \<subseteq> set cs \<and> (\<forall>c \<in> set cs. c_name c \<in> set known \<or> c \<in> set new) \<and>
    (\<forall>c \<in> set new. c_name c \<notin> set (column_names t)) \<and>
    tb_uniques u = tb_uniques t \<and> tb_references u = tb_references t \<and>
    list_all2 (\<lambda>r r'. (\<forall>m. m \<notin> c_name ` set new \<longrightarrow> r' m = r m) \<and> (\<forall>c \<in> set new. r' (c_name c) = Some (column_default c)))
      (tb_rows t) (tb_rows u)"
  using assms
proof (induction cs arbitrary: t)
  case Nil
  then show ?case by (auto simp: list_all2_same)
next
  case (Cons c cs)
  show ?case
  proof (cases "c_name c \<in> set known")
    case True
    then have "add_missing cs known t = Inr u" using Cons.prems by simp
    from Cons.IH [OF this] True show ?thesis by fastforce
  next
    case False
    then have nin: "c_name c \<notin> set (column_names t)" and rest: "add_missing cs known (with_column c t) = Inr u"
      using Cons.prems by (auto simp: schema_simps add_column_def split: if_splits)
    from Cons.IH [OF rest] obtain new where new: "tb_columns u = (tb_columns t @ [c]) @ new" "set new \<subseteq> set cs"
      "\<forall>c \<in> set cs. c_name c \<in> set known \<or> c \<in> set new" "\<forall>e \<in> set new. c_name e \<notin> set (column_names t @ [c_name c])"
      "tb_uniques u = tb_uniques t" "tb_references u = tb_references t"
      "list_all2 (\<lambda>r r'. (\<forall>m. m \<notin> c_name ` set new \<longrightarrow> r' m = r m) \<and> (\<forall>c \<in> set new. r' (c_name c) = Some (column_default c)))
        (tb_rows (with_column c t)) (tb_rows u)"
      by auto
    have c: "c_name c \<notin> c_name ` set new" using new(4) by auto
    have rows: "list_all2 (\<lambda>r r'. (\<forall>m. m \<notin> c_name ` set (c # new) \<longrightarrow> r' m = r m) \<and>
        (\<forall>e \<in> set (c # new). r' (c_name e) = Some (column_default e))) (tb_rows t) (tb_rows u)"
      using new(7) c by (auto simp: with_column_def list_all2_conv_all_nth)
    show ?thesis
      by (intro exI [of _ "c # new"] conjI rows) (use new(1-6) nin in auto)
  qed
qed

lemma add_missing_id: "\<forall>c \<in> set cs. c_name c \<in> set known \<Longrightarrow> add_missing cs known t = Inr t"
  by (induction cs) auto

lemma set_columns_Inr:
  assumes "set_columns as old new = Inr new'" and "distinct (map fst as)"
  shows "(\<forall>(n, f) \<in> set as. \<exists>v. f old = Inr v \<and> new' n = Some v) \<and> (\<forall>m. m \<notin> fst ` set as \<longrightarrow> new' m = new m)"
  using assms
proof (induction as arbitrary: new)
  case (Cons a as)
  obtain n f where a: "a = (n, f)" by (cases a)
  from Cons.prems a obtain v where v: "f old = Inr v" and rest: "set_columns as old (new(n \<mapsto> v)) = Inr new'"
    by (auto simp: schema_simps)
  have nin: "n \<notin> fst ` set as" and dist: "distinct (map fst as)" using Cons.prems a by auto
  from Cons.IH [OF rest dist] v nin a show ?case by auto
qed simp

lemma set_columns_id: "\<forall>(n, f) \<in> set as. \<exists>v. f old = Inr v \<and> new n = Some v \<Longrightarrow> set_columns as old new = Inr new"
  by (induction as) (auto simp: fun_upd_idem)

section \<open>A restart changes nothing\<close>

lemma table_names_created:
  "fst ` set (sd_tables (fold create_table_if_not_exists nts d)) = fst ` set nts \<union> fst ` set (sd_tables d)"
  by (induction nts arbitrary: d) (auto simp: create_table_if_not_exists_def)

lemma distinct_created:
  "distinct (map fst (sd_tables d)) \<Longrightarrow> distinct (map fst (sd_tables (fold create_table_if_not_exists nts d)))"
  by (induction nts arbitrary: d) (auto simp: create_table_if_not_exists_def)

lemma created_same:
  "fst ` set nts \<subseteq> fst ` set (sd_tables d) \<Longrightarrow> fold create_table_if_not_exists nts d = d"
  by (induction nts) (auto simp: create_table_if_not_exists_def)

lemma created_keeps: "table_of d n = Some t \<Longrightarrow> table_of (fold create_table_if_not_exists nts d) n = Some t"
  by (induction nts arbitrary: d) (auto simp: create_table_if_not_exists_def table_of_def map_add_def)

lemma indexes_created:
  "each create_index_if_not_exists is d = Inr d' \<Longrightarrow>
     sd_tables d' = sd_tables d \<and> fst ` set is \<union> fst ` set (sd_indexes d) \<subseteq> fst ` set (sd_indexes d')"
proof (induction "is" arbitrary: d)
  case (Cons i "is")
  from Cons.prems obtain d1 where d1: "create_index_if_not_exists i d = Inr d1"
    and rest: "each create_index_if_not_exists is d1 = Inr d'"
    by (auto simp: schema_simps)
  from d1 have "sd_tables d1 = sd_tables d \<and> insert (fst i) (fst ` set (sd_indexes d)) \<subseteq> fst ` set (sd_indexes d1)"
    by (auto simp: create_index_if_not_exists_def create_index_def image_iff split: if_splits prod.splits option.splits)
  moreover have "fst ` set (sd_indexes d1) \<subseteq> fst ` set (sd_indexes d')" and "fst ` set is \<subseteq> fst ` set (sd_indexes d')"
    and "sd_tables d' = sd_tables d1"
    using Cons.IH [OF rest] by blast+
  ultimately show ?case by (simp only: set_simps image_insert insert_subset Un_insert_left Un_subset_iff) blast
qed simp

lemma indexes_same:
  "fst ` set is \<subseteq> fst ` set (sd_indexes d) \<Longrightarrow> each create_index_if_not_exists is d = Inr d"
  by (induction "is") (auto simp: create_index_if_not_exists_def)

lemma add_missing_again:
  assumes "add_missing cs (column_names t) t = Inr u"
  shows "add_missing cs (column_names u) u = Inr u"
  using add_missing_Inr [OF assms] by (intro add_missing_id) (fastforce simp: column_names_def)

lemma seal_again:
  assumes "seal_node_row cr settings random legacy r = Inr r'"
  shows "seal_node_row cr2 settings2 random2 legacy r' = Inr r'"
proof -
  obtain sealed where s: "(if plaintext_key legacy r \<noteq> [] \<and> or_else (text_value (r ''encrypted_signing_key'')) [] = [] then
        map_sum Key_failed id (encrypt_node_signing_key cr settings (random r) (of_string (plaintext_key legacy r)))
      else Inr (or_else (text_value (r ''encrypted_signing_key'')) [])) = Inr sealed"
    and r': "r' = (if plaintext_key legacy r \<noteq> [] \<or> text_value (r ''encrypted_signing_key'') \<noteq> Some sealed
      then r(''node_signing_key'' \<mapsto> SqlText [], ''encrypted_signing_key'' \<mapsto> SqlText sealed) else r)"
    using assms by (auto simp: seal_node_row_def Let_def schema_simps split: if_splits)
  have ne: "sealed \<noteq> []" if "plaintext_key legacy r \<noteq> []"
    using s that by (auto simp: encrypt_node_signing_key_def split: if_splits sum.splits)
  show ?thesis
  proof (cases "plaintext_key legacy r \<noteq> [] \<or> text_value (r ''encrypted_signing_key'') \<noteq> Some sealed")
    case True
    then have r'': "r' = r(''node_signing_key'' \<mapsto> SqlText [], ''encrypted_signing_key'' \<mapsto> SqlText sealed)" using r' by simp
    have e: "text_value (r' ''encrypted_signing_key'') = Some sealed" by (simp add: r'' text_value_def)
    have same: "r'(''node_signing_key'' \<mapsto> SqlText [], ''encrypted_signing_key'' \<mapsto> SqlText sealed) = r'"
      by (simp add: r'' fun_upd_idem fun_upd_twist)
    have p: "plaintext_key legacy r' = []" if "sealed = []"
    proof -
      have "plaintext_key legacy r = []" using ne that by auto
      then show ?thesis by (auto simp: plaintext_key_def r'' text_value_def or_else_def split: option.splits if_splits)
    qed
    show ?thesis using p same by (cases "sealed = []") (simp_all add: seal_node_row_def Let_def e or_else_def)
  next
    case False
    then show ?thesis using r' by (simp add: seal_node_row_def Let_def or_else_def)
  qed
qed

definition metric_columns :: "string list" where
  "metric_columns =
     [''cpu_usage_percent'', ''memory_usage_percent'', ''gpu_utilization_percent'', ''gpu_memory_percent'',
      ''gpu_temperature_c'', ''gpu_power_draw_w'']"

lemma metric_names: "map fst (hot_metrics extract) = metric_columns"
  by (simp add: hot_metrics_def metric_columns_def)

lemma hot_metrics_sources:
  assumes "(n, f) \<in> set (hot_metrics extract)" and "\<forall>c. c \<notin> set metric_columns \<longrightarrow> r c = r' c"
  shows "f r = f r'"
proof -
  have "r ''cpu_json'' = r' ''cpu_json''" "r ''memory_json'' = r' ''memory_json''" "r ''gpu_json'' = r' ''gpu_json''"
    using assms(2) by (simp_all add: metric_columns_def)
  then have "cast_json extract c p r = cast_json extract c p r'" if "c \<in> {''cpu_json'', ''memory_json'', ''gpu_json''}" for c p
    using that by (auto simp: cast_json_def)
  with assms(1) show ?thesis by (auto simp: hot_metrics_def gpu_memory_share_def cong: option.case_cong if_cong)
qed

lemma fill_again:
  assumes "fill_hot_metrics extract r = Inr r'"
  shows "fill_hot_metrics extract r' = Inr r'"
proof -
  let ?g = "\<lambda>f r. try_then (f r) (\<lambda>x. Inr (real_value x))"
  have dist: "distinct (map fst (map (\<lambda>(n, f). (n, coalesced n (?g f))) (hot_metrics extract)))"
    by (simp add: hot_metrics_def)
  note res = set_columns_Inr [OF assms [unfolded fill_hot_metrics_def] dist]
  have names: "fst ` set (map (\<lambda>(n, f). (n, coalesced n (?g f))) (hot_metrics extract)) = set metric_columns"
    by (simp add: hot_metrics_def metric_columns_def)
  have same: "\<forall>c. c \<notin> set metric_columns \<longrightarrow> r' c = r c" using res names by simp
  have "\<exists>v. coalesced n (?g f) r' = Inr v \<and> r' n = Some v" if "(n, f) \<in> set (hot_metrics extract)" for n f
  proof -
    have "(n, coalesced n (?g f)) \<in> set (map (\<lambda>(n, f). (n, coalesced n (?g f))) (hot_metrics extract))"
      using that by force
    with res obtain v where v: "coalesced n (?g f) r = Inr v" "r' n = Some v" by blast
    have f: "f r' = f r" by (rule hot_metrics_sources [OF that same])
    show ?thesis
    proof (cases "v = SqlNull")
      case True
      with v f show ?thesis by (auto simp: coalesced_def split: option.splits if_splits)
    next
      case False
      with v show ?thesis by (simp add: coalesced_def)
    qed
  qed
  then show ?thesis unfolding fill_hot_metrics_def by (intro set_columns_id) auto
qed

lemma update_table_again:
  assumes "update_table f t = Inr t'" and "\<And>r r'. f r = Inr r' \<Longrightarrow> g r' = Inr r'"
  shows "update_table g t' = Inr t'"
  using assms by (intro update_table_id) (auto simp: update_table_Inr list_all2_conv_all_nth list_all_length)

lemma update_table_columns:
  "update_table f t = Inr t' \<Longrightarrow> column_names t' = column_names t \<and> tb_columns t' = tb_columns t"
  by (auto simp: update_table_Inr column_names_def)

lemma add_missing_names:
  assumes "add_missing cs (column_names t) t = Inr u"
  shows "set (column_names u) = set (column_names t) \<union> c_name ` set cs"
  using add_missing_Inr [OF assms] by (fastforce simp: column_names_def)

lemma migrate_nodes_again:
  assumes "migrate_nodes cr settings random t = Inr t'"
  shows "migrate_nodes cr2 settings2 random2 t' = Inr t'"
proof -
  let ?leg = "''node_secret_hash'' \<in> set (column_names t)"
  from assms obtain u where u: "add_missing node_additions (column_names t) t = Inr u"
    and t': "update_table (seal_node_row cr settings random ?leg) u = Inr t'"
    by (auto simp: migrate_nodes_def schema_simps)
  have cols: "column_names t' = column_names u" using update_table_columns [OF t'] by simp
  have "?leg \<longleftrightarrow> ''node_secret_hash'' \<in> set (column_names t')"
    using add_missing_names [OF u] cols by (auto simp: node_additions_def)
  moreover have "add_missing node_additions (column_names t') t' = Inr t'"
    using add_missing_names [OF u] cols by (intro add_missing_id) auto
  moreover have "update_table (seal_node_row cr2 settings2 random2 ?leg) t' = Inr t'"
    by (rule update_table_again [OF t' seal_again])
  ultimately show ?thesis by (simp add: migrate_nodes_def)
qed

lemma migrate_snapshots_again:
  assumes "migrate_snapshots extract t = Inr t'"
  shows "migrate_snapshots extract t' = Inr t'"
proof -
  from assms obtain u where u: "add_missing snapshot_additions (column_names t) t = Inr u"
    and t': "update_table (fill_hot_metrics extract) u = Inr t'"
    by (auto simp: migrate_snapshots_def schema_simps)
  have "add_missing snapshot_additions (column_names t') t' = Inr t'"
    using add_missing_names [OF u] update_table_columns [OF t'] by (intro add_missing_id) auto
  moreover have "update_table (fill_hot_metrics extract) t' = Inr t'"
    by (rule update_table_again [OF t' fill_again])
  ultimately show ?thesis by (simp add: migrate_snapshots_def)
qed

lemma init_schema_cases:
  assumes "init_schema cr settings random extract d = Inr d'"
  obtains d1 where "sd_tables d1 = sd_tables (fold create_table_if_not_exists init_tables d)"
    and "fst ` set init_indexes \<subseteq> fst ` set (sd_indexes d1)"
    and "migrate_schema cr settings random extract d1 = Inr d'"
proof -
  obtain d1 where d1: "each create_index_if_not_exists init_indexes (fold create_table_if_not_exists init_tables d) = Inr d1"
    and m: "migrate_schema cr settings random extract d1 = Inr d'"
    using assms unfolding init_schema_def try_then_Inr by blast
  show ?thesis by (rule that [OF _ _ m]) (use indexes_created [OF d1] in simp_all)
qed

lemma migrate_schema_facts:
  assumes "migrate_schema cr settings random extract d = Inr d'"
  shows "(\<forall>(n, f) \<in> {(''nodes'', migrate_nodes cr settings random), (''tasks'', add_all task_additions),
        (''node_status_snapshots'', migrate_snapshots extract), (''admins'', add_all admin_additions),
        (''task_logs'', add_all task_log_additions)}.
      \<exists>t t'. table_of d n = Some t \<and> f t = Inr t' \<and> table_of d' n = Some t') \<and>
    (\<forall>m. m \<notin> {''nodes'', ''tasks'', ''node_status_snapshots'', ''admins'', ''task_logs''} \<longrightarrow> table_of d' m = table_of d m) \<and>
    map fst (sd_tables d') = map fst (sd_tables d) \<and> sd_indexes d' = sd_indexes d"
  using each_on_tables [OF assms [unfolded migrate_schema_def]] by simp

text \<open>C27. A restart changes nothing: when the schema step of a start succeeded, the same step at the next start,
  with whatever keys and settings, succeeds and leaves every table, row and index as it is.\<close>

theorem restart_changes_nothing:
  assumes "distinct (map fst (sd_tables d))" and "init_schema cr settings random extract d = Inr d'"
  shows "init_schema cr2 settings2 random2 extract d' = Inr d'"
proof -
  obtain d1 where d1: "sd_tables d1 = sd_tables (fold create_table_if_not_exists init_tables d)"
    and idx: "fst ` set init_indexes \<subseteq> fst ` set (sd_indexes d1)"
    and m: "migrate_schema cr settings random extract d1 = Inr d'"
    by (rule init_schema_cases [OF assms(2)])
  note facts = migrate_schema_facts [OF m]
  have names: "map fst (sd_tables d') = map fst (sd_tables (fold create_table_if_not_exists init_tables d))"
    using facts d1 by simp
  then have "fst ` set (sd_tables d') = fst ` set (sd_tables (fold create_table_if_not_exists init_tables d))"
    by (metis set_map)
  then have "fold create_table_if_not_exists init_tables d' = d'"
    by (intro created_same) (simp add: table_names_created)
  moreover have "each create_index_if_not_exists init_indexes d' = Inr d'"
    using facts idx by (intro indexes_same) simp
  moreover have "migrate_schema cr2 settings2 random2 extract d' = Inr d'"
    unfolding migrate_schema_def
  proof (rule each_on_tables_id)
    show "distinct (map fst (sd_tables d'))" using names distinct_created [OF assms(1)] by simp
    fix n f assume "(n, f) \<in> set [(''nodes'', migrate_nodes cr2 settings2 random2), (''tasks'', add_all task_additions),
        (''node_status_snapshots'', migrate_snapshots extract), (''admins'', add_all admin_additions),
        (''task_logs'', add_all task_log_additions)]"
    then show "\<exists>t. table_of d' n = Some t \<and> f t = Inr t"
      using facts migrate_nodes_again migrate_snapshots_again add_missing_again by (auto simp: add_all_def)
  qed
  ultimately show ?thesis by (simp add: init_schema_def)
qed

definition empty_db :: sql_db where
  "empty_db = \<lparr>sd_tables = [], sd_indexes = []\<rparr>"

definition sample_json :: json_sql where
  "sample_json text path = Inr None"

lemma first_start_succeeds: "is_ok (init_schema sample_crypto default_settings (\<lambda>_. []) sample_json empty_db)"
  by code_simp

lemma restart_changes_nothing_witness:
  "\<exists>d. init_schema sample_crypto default_settings (\<lambda>_. []) sample_json empty_db = Inr d \<and>
    init_schema sample_crypto default_settings (\<lambda>_. [1]) sample_json d = Inr d"
proof -
  obtain d where d: "init_schema sample_crypto default_settings (\<lambda>_. []) sample_json empty_db = Inr d"
    using first_start_succeeds by (auto simp: is_ok_iff)
  from restart_changes_nothing [OF _ d, of sample_crypto default_settings "\<lambda>_. [1]"] d show ?thesis
    by (auto simp: empty_db_def)
qed

section \<open>What a start does to an older database\<close>

text \<open>The table keeps its columns and constraints, and its rows keep their values outside the columns \<open>W\<close>.\<close>

definition table_kept :: "string list \<Rightarrow> sql_table \<Rightarrow> sql_table \<Rightarrow> bool" where
  "table_kept W t u \<longleftrightarrow> (\<exists>new. tb_columns u = tb_columns t @ new) \<and> tb_uniques u = tb_uniques t \<and> tb_references u = tb_references t \<and>
     list_all2 (\<lambda>r r'. \<forall>c \<in> set (column_names t) - set W. r' c = r c) (tb_rows t) (tb_rows u)"

lemma table_kept_refl: "table_kept W t t"
  by (simp add: table_kept_def list_all2_same)

lemma table_kept_trans:
  assumes "table_kept W t u" and "table_kept W u v"
  shows "table_kept W t v"
proof -
  have "set (column_names t) \<subseteq> set (column_names u)" using assms(1) by (auto simp: table_kept_def column_names_def)
  with assms show ?thesis by (fastforce simp: table_kept_def list_all2_conv_all_nth)
qed

lemma table_kept_add_missing: "add_missing cs known t = Inr u \<Longrightarrow> table_kept W t u"
proof -
  assume "add_missing cs known t = Inr u"
  then obtain new where new: "tb_columns u = tb_columns t @ new" "\<forall>c \<in> set new. c_name c \<notin> set (column_names t)"
    "tb_uniques u = tb_uniques t" "tb_references u = tb_references t"
    "list_all2 (\<lambda>r r'. (\<forall>m. m \<notin> c_name ` set new \<longrightarrow> r' m = r m) \<and> (\<forall>c \<in> set new. r' (c_name c) = Some (column_default c)))
      (tb_rows t) (tb_rows u)"
    using add_missing_Inr by blast
  have old: "\<forall>c \<in> set (column_names t) - set W. c \<notin> c_name ` set new" using new(2) by blast
  have "list_all2 (\<lambda>r r'. \<forall>c \<in> set (column_names t) - set W. r' c = r c) (tb_rows t) (tb_rows u)"
    by (intro list_all2_mono [OF new(5)]) (use old in blast)
  with new show ?thesis by (simp add: table_kept_def)
qed

lemma table_kept_update_table:
  assumes "update_table f t = Inr u" and "\<And>r r' c. f r = Inr r' \<Longrightarrow> c \<notin> set W \<Longrightarrow> r' c = r c"
  shows "table_kept W t u"
  using assms by (auto simp: table_kept_def update_table_Inr list_all2_conv_all_nth)

lemma seal_node_row_same:
  "seal_node_row cr settings random legacy r = Inr r' \<Longrightarrow> c \<notin> set [''node_signing_key'', ''encrypted_signing_key''] \<Longrightarrow> r' c = r c"
  by (auto simp: seal_node_row_def Let_def schema_simps split: if_splits)

lemma fill_hot_metrics_same:
  assumes "fill_hot_metrics extract r = Inr r'" and "c \<notin> set metric_columns"
  shows "r' c = r c"
proof -
  let ?as = "map (\<lambda>(n, f). (n, coalesced n (\<lambda>r. try_then (f r) (\<lambda>x. Inr (real_value x))))) (hot_metrics extract)"
  have "distinct (map fst ?as)" and "fst ` set ?as = set metric_columns"
    by (simp_all add: hot_metrics_def metric_columns_def)
  with set_columns_Inr [OF assms(1) [unfolded fill_hot_metrics_def]] assms(2) show ?thesis by simp
qed

definition rewritten :: "string \<Rightarrow> string list" where
  "rewritten n =
     (if n = ''nodes'' then [''node_signing_key'', ''encrypted_signing_key'']
      else if n = ''node_status_snapshots'' then metric_columns else [])"

definition additions :: "string \<Rightarrow> sql_column list" where
  "additions n =
     (if n = ''nodes'' then node_additions else if n = ''tasks'' then task_additions
      else if n = ''node_status_snapshots'' then snapshot_additions else if n = ''admins'' then admin_additions
      else if n = ''task_logs'' then task_log_additions else [])"

lemma migrate_nodes_kept:
  assumes "migrate_nodes cr settings random t = Inr u"
  shows "table_kept (rewritten ''nodes'') t u \<and> set (column_names t) \<union> c_name ` set node_additions \<subseteq> set (column_names u)"
proof -
  let ?leg = "''node_secret_hash'' \<in> set (column_names t)"
  from assms obtain t1 where t1: "add_missing node_additions (column_names t) t = Inr t1"
    and u: "update_table (seal_node_row cr settings random ?leg) t1 = Inr u"
    by (auto simp: migrate_nodes_def schema_simps)
  have "table_kept (rewritten ''nodes'') t1 u" unfolding rewritten_def by (rule table_kept_update_table [OF u]) (simp add: seal_node_row_same)
  then have "table_kept (rewritten ''nodes'') t u" by (rule table_kept_trans [OF table_kept_add_missing [OF t1]])
  then show ?thesis using add_missing_names [OF t1] update_table_columns [OF u] by simp
qed

lemma migrate_snapshots_kept:
  assumes "migrate_snapshots extract t = Inr u"
  shows "table_kept (rewritten ''node_status_snapshots'') t u \<and>
    set (column_names t) \<union> c_name ` set snapshot_additions \<subseteq> set (column_names u)"
proof -
  from assms obtain t1 where t1: "add_missing snapshot_additions (column_names t) t = Inr t1"
    and u: "update_table (fill_hot_metrics extract) t1 = Inr u"
    by (auto simp: migrate_snapshots_def schema_simps)
  have "table_kept metric_columns t1 u" by (rule table_kept_update_table [OF u]) (rule fill_hot_metrics_same)
  then have "table_kept metric_columns t u" by (rule table_kept_trans [OF table_kept_add_missing [OF t1]])
  then show ?thesis using add_missing_names [OF t1] update_table_columns [OF u] by (simp add: rewritten_def)
qed

lemma add_all_kept:
  "add_all cs t = Inr u \<Longrightarrow> table_kept W t u \<and> set (column_names t) \<union> c_name ` set cs \<subseteq> set (column_names u)"
  unfolding add_all_def using table_kept_add_missing add_missing_names by fastforce

lemma migrate_schema_kept:
  assumes "migrate_schema cr settings random extract d = Inr d'" and "table_of d n = Some t"
  shows "\<exists>u. table_of d' n = Some u \<and> table_kept (rewritten n) t u \<and>
    set (column_names t) \<union> c_name ` set (additions n) \<subseteq> set (column_names u)"
proof -
  note facts = migrate_schema_facts [OF assms(1)]
  consider "n = ''nodes''" | "n = ''tasks''" | "n = ''node_status_snapshots''" | "n = ''admins''" | "n = ''task_logs''"
    | "n \<notin> {''nodes'', ''tasks'', ''node_status_snapshots'', ''admins'', ''task_logs''}" by blast
  then show ?thesis
  proof cases
    case 1
    with facts assms(2) migrate_nodes_kept [of cr settings random t] show ?thesis by (auto simp: additions_def)
  next
    case 2
    with facts assms(2) add_all_kept [of task_additions t] show ?thesis by (auto simp: additions_def)
  next
    case 3
    with facts assms(2) migrate_snapshots_kept [of "extract" t] show ?thesis by (auto simp: additions_def)
  next
    case 4
    with facts assms(2) add_all_kept [of admin_additions t] show ?thesis by (auto simp: additions_def)
  next
    case 5
    with facts assms(2) add_all_kept [of task_log_additions t] show ?thesis by (auto simp: additions_def)
  next
    case 6
    with facts assms(2) table_kept_refl [of "rewritten n" t] show ?thesis by (auto simp: additions_def)
  qed
qed

lemma created_lookup:
  "table_of (fold create_table_if_not_exists nts d) n = (case table_of d n of Some t \<Rightarrow> Some t | None \<Rightarrow> map_of nts n)"
proof (induction nts arbitrary: d)
  case (Cons nt nts)
  have "table_of (create_table_if_not_exists nt d) n =
      (case table_of d n of Some t \<Rightarrow> Some t | None \<Rightarrow> if fst nt = n then Some (snd nt) else None)"
  proof (cases "map_of (sd_tables d) n")
    case None
    then have "n \<notin> fst ` set (sd_tables d)" by (simp add: map_of_eq_None_iff)
    with None show ?thesis by (cases nt) (simp add: create_table_if_not_exists_def table_of_def map_add_def)
  next
    case (Some t)
    then show ?thesis by (cases nt) (simp add: create_table_if_not_exists_def table_of_def map_add_def)
  qed
  with Cons [of "create_table_if_not_exists nt d"] show ?case by (cases nt) (auto split: option.splits)
qed (simp add: table_of_def split: option.split)

text \<open>
  A database of an older version. \<open>core_columns\<close> are the columns of \<open>init_schema\<close> that no version is known to lack;
  the list stands on its own, so that what it leaves out the migration has to add.
\<close>

definition core_columns :: "(string \<times> string list) list" where
  "core_columns =
     [(''admins'', [''id'', ''username'', ''password_hash'', ''is_active'', ''created_at'', ''updated_at'', ''last_login_at'']),
      (''nodes'', [''id'', ''node_id'', ''display_name'', ''node_type'', ''os_type'', ''hostname'', ''heartbeat_interval_sec'',
         ''allowed_workdirs_json'', ''tags_json'', ''is_enabled'', ''last_seen_at'', ''created_at'', ''updated_at'']),
      (''node_status_snapshots'', [''id'', ''node_id'', ''reported_at'', ''cpu_json'', ''memory_json'', ''disk_json'', ''gpu_json'',
         ''python_env_json'', ''task_runtime_json'', ''raw_payload_json'']),
      (''tasks'', [''id'', ''task_id'', ''revision'', ''idempotency_key'', ''node_id'', ''type'', ''status'', ''payload_json'', ''workdir'',
         ''env_json'', ''requested_gpu_ids_json'', ''timeout_sec'', ''kill_grace_sec'', ''danger_level'', ''created_by_admin_id'',
         ''created_at'', ''claimed_at'', ''started_at'', ''finished_at'']),
      (''task_attempts'', [''id'', ''task_id'', ''node_id'', ''agent_boot_id'', ''pid'', ''pgid_or_job_id'', ''status'', ''started_at'',
         ''finished_at'', ''exit_code'', ''result_summary_json'']),
      (''task_logs'', [''id'', ''task_id'', ''stream'', ''last_offset'', ''preview_text'', ''center_log_path'', ''updated_at'']),
      (''artifacts'', [''id'', ''task_id'', ''artifact_name'', ''artifact_type'', ''content_type'', ''size_bytes'', ''storage_path'',
         ''preview_json'', ''created_at'']),
      (''audit_events'', [''id'', ''actor_type'', ''actor_id'', ''action'', ''target_type'', ''target_id'', ''request_ip'', ''detail_json'',
         ''created_at'']),
      (''security_warnings'', [''id'', ''source_type'', ''source_id'', ''warning_type'', ''command_excerpt'', ''detail_json'', ''created_at'']),
      (''nonces'', [''id'', ''node_id'', ''nonce'', ''timestamp_utc'', ''expires_at'']),
      (''task_reviews'', [''id'', ''task_id'', ''stage'', ''reviewer_type'', ''reviewer_id'', ''decision'', ''risk_score'',
         ''risk_factors_json'', ''reasoning'', ''duration_sec'', ''created_at'']),
      (''alert_messages'', [''id'', ''alert_type'', ''severity'', ''title'', ''summary'', ''detail_json'', ''target_type'', ''target_id'',
         ''status'', ''actioned_by'', ''actioned_at'', ''expires_at'', ''created_at''])]"

definition older :: "sql_db \<Rightarrow> bool" where
  "older d \<longleftrightarrow>
     list_all (\<lambda>(n, cs). case table_of d n of None \<Rightarrow> True | Some u \<Rightarrow> list_all (\<lambda>c. c \<in> set (column_names u)) cs) core_columns"

text \<open>Every column of a new database is one of these or is added.\<close>

lemma core_or_added:
  "list_all2 (\<lambda>(n, t) (m, cs). n = m \<and> list_all (\<lambda>c. c \<in> set cs \<or> c \<in> c_name ` set (additions n)) (column_names t)) init_tables core_columns"
  by code_simp

lemma older_covers:
  assumes "older d" and "(n, t) \<in> set init_tables" and "table_of d n = Some u"
  shows "set (column_names t) \<subseteq> set (column_names u) \<union> c_name ` set (additions n)"
proof -
  obtain cs where cs: "(n, cs) \<in> set core_columns" "list_all (\<lambda>c. c \<in> set cs \<or> c \<in> c_name ` set (additions n)) (column_names t)"
    using core_or_added assms(2) by (fastforce simp: list_all2_conv_all_nth in_set_conv_nth)
  then show ?thesis using assms(1,3) by (fastforce simp: older_def list_all_iff)
qed

lemma init_tables_distinct: "distinct (map fst init_tables)"
  by (simp add: init_tables_def)

lemma init_schema_kept:
  assumes "init_schema cr settings random extract d = Inr d'" and "table_of d n = Some t"
  shows "\<exists>u. table_of d' n = Some u \<and> table_kept (rewritten n) t u \<and>
    set (column_names t) \<union> c_name ` set (additions n) \<subseteq> set (column_names u)"
proof -
  obtain d1 where d1: "sd_tables d1 = sd_tables (fold create_table_if_not_exists init_tables d)"
    and m: "migrate_schema cr settings random extract d1 = Inr d'"
    by (rule init_schema_cases [OF assms(1)])
  have "table_of d1 n = Some t" using created_keeps [OF assms(2)] d1 by (simp add: table_of_def)
  then show ?thesis by (rule migrate_schema_kept [OF m])
qed

lemma start_upgrades_columns:
  assumes "older d" and "init_schema cr settings random extract d = Inr d'"
  shows "\<forall>(n, t) \<in> set init_tables. \<exists>u. table_of d' n = Some u \<and> set (column_names t) \<subseteq> set (column_names u)"
proof -
  obtain d1 where d1: "sd_tables d1 = sd_tables (fold create_table_if_not_exists init_tables d)"
    and m: "migrate_schema cr settings random extract d1 = Inr d'"
    by (rule init_schema_cases [OF assms(2)])
  have "\<exists>u. table_of d' n = Some u \<and> set (column_names t) \<subseteq> set (column_names u)" if "(n, t) \<in> set init_tables" for n t
  proof -
    have "map_of init_tables n = Some t" using that init_tables_distinct by simp
    then have look: "table_of d1 n = Some (case table_of d n of Some u \<Rightarrow> u | None \<Rightarrow> t)"
      using d1 created_lookup [of init_tables d n] by (simp add: table_of_def split: option.split)
    have "\<exists>t0. table_of d1 n = Some t0 \<and> set (column_names t) \<subseteq> set (column_names t0) \<union> c_name ` set (additions n)"
      using look older_covers [OF assms(1), of n t] \<open>(n, t) \<in> set init_tables\<close> by (cases "table_of d n") auto
    then obtain t0 where t0: "table_of d1 n = Some t0" "set (column_names t) \<subseteq> set (column_names t0) \<union> c_name ` set (additions n)"
      by blast
    with migrate_schema_kept [OF m t0(1)] show ?thesis by blast
  qed
  then show ?thesis by blast
qed

text \<open>C26. A successful start on a database of an older version, whose tables have at least the columns of the list
  \<open>core_columns\<close>, makes up every column it lacks and loses nothing: afterwards every table of a new database is there and
  has every column of a new database, and each table that was there has its columns, its constraints (also those that a
  new database no longer has) and, in the same order, its rows, with their values, save the node keys and
  the metrics that the migration fills in.\<close>

theorem start_upgrades_and_keeps:
  assumes "older d" and "init_schema cr settings random extract d = Inr d'"
  shows "(\<forall>(n, t) \<in> set init_tables. \<exists>u. table_of d' n = Some u \<and> set (column_names t) \<subseteq> set (column_names u)) \<and>
    (\<forall>n t. table_of d n = Some t \<longrightarrow> (\<exists>u. table_of d' n = Some u \<and> table_kept (rewritten n) t u))"
  using start_upgrades_columns [OF assms] init_schema_kept [OF assms(2)] by blast

section \<open>The keys of the nodes\<close>

lemma seal_node_row_key:
  assumes "aead_ok cr" and "length (random r) = 12" and "seal_node_row cr settings random legacy r = Inr r'"
  shows "or_else (text_value (r' ''node_signing_key'')) [] = [] \<and>
    (if or_else (text_value (r ''encrypted_signing_key'')) [] \<noteq> [] then r' ''encrypted_signing_key'' = r ''encrypted_signing_key''
     else if plaintext_key legacy r \<noteq> [] then
       \<exists>e. r' ''encrypted_signing_key'' = Some (SqlText e) \<and>
         decrypt_node_signing_key cr settings e = Inr (of_string (plaintext_key legacy r))
     else or_else (text_value (r' ''encrypted_signing_key'')) [] = [])"
proof -
  let ?enc = "or_else (text_value (r ''encrypted_signing_key'')) []" and ?p = "plaintext_key legacy r"
  obtain sealed where s: "(if ?p \<noteq> [] \<and> ?enc = [] then
        map_sum Key_failed id (encrypt_node_signing_key cr settings (random r) (of_string ?p)) else Inr ?enc) = Inr sealed"
    and r': "r' = (if ?p \<noteq> [] \<or> text_value (r ''encrypted_signing_key'') \<noteq> Some sealed
      then r(''node_signing_key'' \<mapsto> SqlText [], ''encrypted_signing_key'' \<mapsto> SqlText sealed) else r)"
    using assms(3) by (auto simp: seal_node_row_def Let_def schema_simps split: if_splits)
  have plain: "or_else (text_value (r' ''node_signing_key'')) [] = []"
  proof (cases "?p = []")
    case True
    then have "or_else (text_value (r ''node_signing_key'')) [] = []"
      by (auto simp: plaintext_key_def or_else_def split: option.splits if_splits)
    then show ?thesis using r' by (auto simp: text_value_def or_else_def)
  qed (simp add: r' text_value_def or_else_def)
  consider "?enc \<noteq> []" | "?enc = []" "?p \<noteq> []" | "?enc = []" "?p = []" by blast
  then show ?thesis
  proof cases
    case 1
    then have "r ''encrypted_signing_key'' = Some (SqlText sealed)" using s
      by (auto simp: or_else_def text_value_def split: option.splits sql_value.splits if_splits)
    then show ?thesis using 1 plain r' by (auto simp: text_value_def or_else_def)
  next
    case 2
    then have "encrypt_node_signing_key cr settings (random r) (of_string ?p) = Inr sealed"
      using s by (cases "encrypt_node_signing_key cr settings (random r) (of_string ?p)") auto
    from node_key_round_trip [OF assms(1,2) _ this]
    have "decrypt_node_signing_key cr settings sealed = Inr (of_string ?p)"
      by (simp add: decrypt_node_signing_key_def scalar_of_string)
    then show ?thesis using 2 plain r' by simp
  next
    case 3
    then show ?thesis using s plain r' by (auto simp: text_value_def or_else_def)
  qed
qed

text \<open>C28. A successful start, with an AEAD that opens what it has sealed, seals the keys of an older database, but leaves the oldest copy: afterwards no row of a node has a
  key in \<open>node_signing_key\<close>. In a row whose \<open>encrypted_signing_key\<close> was empty, a key that was in plain text is found by
  decrypting that column; a row that already had an encrypted key keeps it, whatever key it holds, and its plain-text key is
  only blanked. The column \<open>node_secret_hash\<close>, from which a plain-text key may have come, still shows it.\<close>

theorem start_seals_keys:
  assumes "aead_ok cr" and "\<forall>r. length (random r) = 12" and "table_of d ''nodes'' = Some t"
    and "\<forall>r \<in> set (tb_rows t). dom r = set (column_names t)"
    and "init_schema cr settings random extract d = Inr d'"
  shows "\<exists>u. table_of d' ''nodes'' = Some u \<and>
    list_all2 (\<lambda>r r'.
      or_else (text_value (r' ''node_signing_key'')) [] = [] \<and> r' ''node_secret_hash'' = r ''node_secret_hash'' \<and>
      (let key = plaintext_key (''node_secret_hash'' \<in> set (column_names t)) r;
           encrypted = or_else (text_value (r ''encrypted_signing_key'')) [] in
       if encrypted \<noteq> [] then r' ''encrypted_signing_key'' = r ''encrypted_signing_key''
       else if key \<noteq> [] then
         \<exists>e. r' ''encrypted_signing_key'' = Some (SqlText e) \<and> decrypt_node_signing_key cr settings e = Inr (of_string key)
       else or_else (text_value (r' ''encrypted_signing_key'')) [] = []))
    (tb_rows t) (tb_rows u)"
proof -
  let ?leg = "''node_secret_hash'' \<in> set (column_names t)"
  obtain d1 where d1: "sd_tables d1 = sd_tables (fold create_table_if_not_exists init_tables d)"
    and m: "migrate_schema cr settings random extract d1 = Inr d'"
    by (rule init_schema_cases [OF assms(5)])
  have "table_of d1 ''nodes'' = Some t" using created_keeps [OF assms(3)] d1 by (simp add: table_of_def)
  then obtain u where u: "migrate_nodes cr settings random t = Inr u" "table_of d' ''nodes'' = Some u"
    using migrate_schema_facts [OF m] by auto
  then obtain t1 where t1: "add_missing node_additions (column_names t) t = Inr t1"
    and seal: "update_table (seal_node_row cr settings random ?leg) t1 = Inr u"
    by (auto simp: migrate_nodes_def schema_simps)
  obtain new where new: "set new \<subseteq> set node_additions" "\<forall>c \<in> set new. c_name c \<notin> set (column_names t)"
    and rows: "list_all2 (\<lambda>r r'. (\<forall>m. m \<notin> c_name ` set new \<longrightarrow> r' m = r m) \<and> (\<forall>c \<in> set new. r' (c_name c) = Some (column_default c)))
      (tb_rows t) (tb_rows t1)"
    using add_missing_Inr [OF t1] by blast
  have tv: "text_value (r1 n) = text_value (r n)"
    if "r \<in> set (tb_rows t)" "\<forall>m. m \<notin> c_name ` set new \<longrightarrow> r1 m = r m" "\<forall>c \<in> set new. r1 (c_name c) = Some (column_default c)"
      "n \<in> {''node_signing_key'', ''encrypted_signing_key'', ''node_secret_hash''}" for r r1 n
  proof (cases "n \<in> c_name ` set new")
    case True
    then obtain c where c: "c \<in> set new" "n = c_name c" by blast
    then have "r n = None" using new(2) that(1) assms(4) by (metis domIff)
    moreover have "column_default c = SqlNull" using c new(1) that(4)
      by (auto simp: node_additions_def column_default_def column_def default_to_def)
    ultimately show ?thesis using that(3) c by (simp add: text_value_def)
  qed (use that(2) in simp)
  have hash: "''node_secret_hash'' \<notin> c_name ` set new" using new(1) by (auto simp: node_additions_def)
  show ?thesis
  proof (intro exI conjI, rule u(2), rule list_all2_all_nthI)
    show len: "length (tb_rows t) = length (tb_rows u)" using rows seal by (auto simp: update_table_Inr dest!: list_all2_lengthD)
    fix i assume i: "i < length (tb_rows t)"
    let ?r = "tb_rows t ! i" and ?r1 = "tb_rows t1 ! i" and ?r' = "tb_rows u ! i"
    have mem: "?r \<in> set (tb_rows t)" using i by simp
    have r1: "\<forall>m. m \<notin> c_name ` set new \<longrightarrow> ?r1 m = ?r m" "\<forall>c \<in> set new. ?r1 (c_name c) = Some (column_default c)"
      using list_all2_nthD [OF rows i] by auto
    note tv' = tv [OF mem r1]
    have "seal_node_row cr settings random ?leg ?r1 = Inr ?r'"
      using seal rows i by (auto simp: update_table_Inr list_all2_conv_all_nth)
    note key = seal_node_row_key [OF assms(1) assms(2) [THEN spec] this] seal_node_row_same [OF this, of "''node_secret_hash''"]
    have p: "plaintext_key ?leg ?r1 = plaintext_key ?leg ?r" by (simp add: plaintext_key_def tv')
    have h: "?r' ''node_secret_hash'' = ?r ''node_secret_hash''" using key(2) r1(1) hash by simp
    have e: "?r1 ''encrypted_signing_key'' = ?r ''encrypted_signing_key''"
      if "or_else (text_value (?r ''encrypted_signing_key'')) [] \<noteq> []"
      using that tv' [of "''encrypted_signing_key''"]
      by (auto simp: or_else_def text_value_def split: option.splits sql_value.splits if_splits)
    have etv: "text_value (?r1 ''encrypted_signing_key'') = text_value (?r ''encrypted_signing_key'')" by (simp add: tv')
    note k = key(1) [unfolded p etv]
    show "or_else (text_value (?r' ''node_signing_key'')) [] = [] \<and> ?r' ''node_secret_hash'' = ?r ''node_secret_hash'' \<and>
      (let key = plaintext_key ?leg ?r; encrypted = or_else (text_value (?r ''encrypted_signing_key'')) [] in
       if encrypted \<noteq> [] then ?r' ''encrypted_signing_key'' = ?r ''encrypted_signing_key''
       else if key \<noteq> [] then
         \<exists>e. ?r' ''encrypted_signing_key'' = Some (SqlText e) \<and> decrypt_node_signing_key cr settings e = Inr (of_string key)
       else or_else (text_value (?r' ''encrypted_signing_key'')) [] = [])"
      using k h e by (cases "or_else (text_value (?r ''encrypted_signing_key'')) [] = []") (simp_all add: Let_def)
  qed
qed

definition key_settings :: settings where
  "key_settings = default_settings\<lparr>node_key_encryption_secret := ''secret''\<rparr>"

text \<open>A database with one node, whose key is in the oldest column.\<close>

definition sample_old_nodes :: sql_table where
  "sample_old_nodes =
     (let t = with_column (text_col ''node_secret_hash'') nodes_table in
      t\<lparr>tb_rows := [\<lambda>n. if n \<in> set (column_names t) then Some (if n = ''node_secret_hash'' then SqlText ''abc'' else SqlNull) else None]\<rparr>)"

definition sample_old_db :: sql_db where
  "sample_old_db = \<lparr>sd_tables = [(''nodes'', sample_old_nodes)], sd_indexes = []\<rparr>"

lemma each_on_tables_ok:
  assumes "\<forall>(n, f) \<in> set fs. \<exists>t t'. table_of d n = Some t \<and> f t = Inr t'" and "distinct (map fst fs)"
  shows "\<exists>d'. each (\<lambda>(n, f). on_table n f) fs d = Inr d'"
  using assms
proof (induction fs arbitrary: d)
  case (Cons a fs)
  obtain n f where a: "a = (n, f)" by (cases a)
  with Cons.prems obtain t t' where "table_of d n = Some t" "f t = Inr t'" by auto
  then obtain d1 where d1: "on_table n f d = Inr d1" by (simp add: on_table_def)
  have other: "m \<noteq> n \<Longrightarrow> table_of d1 m = table_of d m" for m using d1 by (auto elim: on_tableE)
  have "\<forall>(m, g) \<in> set fs. \<exists>t t'. table_of d1 m = Some t \<and> g t = Inr t'"
  proof clarify
    fix m g assume mg: "(m, g) \<in> set fs"
    then have "m \<noteq> n" using Cons.prems a by (auto simp: image_iff)
    moreover have "case (m, g) of (n, f) \<Rightarrow> \<exists>t t'. table_of d n = Some t \<and> f t = Inr t'"
      using Cons.prems mg by (meson list.set_intros(2))
    ultimately show "\<exists>t t'. table_of d1 m = Some t \<and> g t = Inr t'" using other by simp
  qed
  with Cons.IH [of d1] Cons.prems d1 a show ?case by simp
qed simp

lemma sample_old_nodes_migrate: "\<exists>u. migrate_nodes sample_crypto key_settings (\<lambda>_. replicate 12 0) sample_old_nodes = Inr u"
proof -
  obtain e where e: "encrypt_node_signing_key sample_crypto key_settings (replicate 12 0) (of_string ''abc'') = Inr e"
    by (auto simp: encrypt_node_signing_key_def node_encryption_key_def sentinel_def Let_def key_settings_def)
  show ?thesis
    by (simp add: migrate_nodes_def sample_old_nodes_def nodes_table_def new_table_def column_names_def with_column_def Let_def
        node_additions_def update_table_def seal_node_row_def plaintext_key_def text_value_def or_else_def e)
qed

lemma sample_old_tables:
  "each create_index_if_not_exists init_indexes (fold create_table_if_not_exists init_tables sample_old_db) =
     Inr \<lparr>sd_tables = (''nodes'', sample_old_nodes) # filter (\<lambda>(n, _). n \<noteq> ''nodes'') init_tables, sd_indexes = init_indexes\<rparr>"
proof -
  have "fold create_table_if_not_exists init_tables sample_old_db =
      \<lparr>sd_tables = (''nodes'', sample_old_nodes) # filter (\<lambda>(n, _). n \<noteq> ''nodes'') init_tables, sd_indexes = []\<rparr>"
    by (simp add: init_tables_def create_table_if_not_exists_def sample_old_db_def)
  moreover have "set (column_names sample_old_nodes) \<supseteq> {''last_seen_at''}"
    by (simp add: sample_old_nodes_def nodes_table_def new_table_def column_names_def with_column_def Let_def)
  ultimately show ?thesis
    by (simp add: init_indexes_def create_index_if_not_exists_def create_index_def table_of_def init_tables_def
        node_status_snapshots_table_def tasks_table_def task_attempts_table_def nonces_table_def audit_events_table_def
        task_reviews_table_def alert_messages_table_def new_table_def column_names_def)
qed

lemma old_start_succeeds:
  "\<exists>d. init_schema sample_crypto key_settings (\<lambda>_. replicate 12 0) sample_json sample_old_db = Inr d"
proof -
  let ?d = "\<lparr>sd_tables = (''nodes'', sample_old_nodes) # filter (\<lambda>(n, _). n \<noteq> ''nodes'') init_tables, sd_indexes = init_indexes\<rparr>"
  have t: "table_of ?d ''nodes'' = Some sample_old_nodes" "table_of ?d ''tasks'' = Some tasks_table"
    "table_of ?d ''node_status_snapshots'' = Some node_status_snapshots_table" "table_of ?d ''admins'' = Some admins_table"
    "table_of ?d ''task_logs'' = Some task_logs_table"
    by (simp_all add: table_of_def init_tables_def)
  have "add_all task_additions tasks_table = Inr tasks_table" "add_all admin_additions admins_table = Inr admins_table"
    "add_all task_log_additions task_logs_table = Inr task_logs_table"
    "migrate_snapshots sample_json node_status_snapshots_table = Inr node_status_snapshots_table"
    by (simp_all add: add_all_def migrate_snapshots_def task_additions_def admin_additions_def task_log_additions_def
        snapshot_additions_def update_table_def column_names_def new_table_def tasks_table_def admins_table_def
        task_logs_table_def node_status_snapshots_table_def)
  with t sample_old_nodes_migrate have "\<exists>d'. migrate_schema sample_crypto key_settings (\<lambda>_. replicate 12 0) sample_json ?d = Inr d'"
    unfolding migrate_schema_def by (intro each_on_tables_ok) auto
  then show ?thesis by (simp add: init_schema_def sample_old_tables)
qed

lemma start_seals_keys_witness:
  "\<exists>d t r. init_schema sample_crypto key_settings (\<lambda>_. replicate 12 0) sample_json sample_old_db = Inr d \<and>
     table_of d ''nodes'' = Some t \<and> tb_rows t = [r] \<and> r ''node_secret_hash'' = Some (SqlText ''abc'') \<and>
     (\<exists>e. r ''encrypted_signing_key'' = Some (SqlText e) \<and>
       decrypt_node_signing_key sample_crypto key_settings e = Inr (of_string ''abc''))"
proof -
  obtain d where d: "init_schema sample_crypto key_settings (\<lambda>_. replicate 12 0) sample_json sample_old_db = Inr d"
    using old_start_succeeds by blast
  have names: "set (column_names sample_old_nodes) \<supseteq> {''node_secret_hash'', ''node_signing_key'', ''encrypted_signing_key''}"
    by (simp add: sample_old_nodes_def nodes_table_def new_table_def column_names_def with_column_def Let_def)
  have rows: "tb_rows sample_old_nodes = [\<lambda>n. if n \<in> set (column_names sample_old_nodes) then
      Some (if n = ''node_secret_hash'' then SqlText ''abc'' else SqlNull) else None]"
    by (simp add: sample_old_nodes_def Let_def column_names_def)
  have dm: "\<forall>r \<in> set (tb_rows sample_old_nodes). dom r = set (column_names sample_old_nodes)"
    by (auto simp: rows dom_def)
  have tab: "table_of sample_old_db ''nodes'' = Some sample_old_nodes" by (simp add: sample_old_db_def table_of_def)
  from start_seals_keys [OF sample_crypto_ok _ tab dm d] d names show ?thesis
    by (auto simp: rows list_all2_Cons1 Let_def plaintext_key_def text_value_def or_else_def)
qed

text \<open>A database whose nodes have the core columns only, with one row.\<close>

definition sample_core_nodes :: sql_table where
  "sample_core_nodes =
     (let ns = the (map_of core_columns ''nodes'') in
      (new_table (map text_col ns) [] [])\<lparr>tb_rows := [\<lambda>n. if n \<in> set ns then Some (SqlText ''x'') else None]\<rparr>)"

definition sample_core_db :: sql_db where
  "sample_core_db = \<lparr>sd_tables = [(''nodes'', sample_core_nodes)], sd_indexes = []\<rparr>"

lemma sample_core_start:
  "is_ok (init_schema sample_crypto default_settings (\<lambda>_. []) sample_json sample_core_db)"
  by code_simp

lemma start_upgrades_and_keeps_witness:
  "\<exists>d u. init_schema sample_crypto default_settings (\<lambda>_. []) sample_json sample_core_db = Inr d \<and>
     table_of d ''nodes'' = Some u \<and> table_kept (rewritten ''nodes'') sample_core_nodes u \<and>
     ''last_boot_id'' \<notin> set (column_names sample_core_nodes) \<and> ''last_boot_id'' \<in> set (column_names u)"
proof -
  obtain d where d: "init_schema sample_crypto default_settings (\<lambda>_. []) sample_json sample_core_db = Inr d"
    using sample_core_start by (auto simp: is_ok_iff)
  have o: "older sample_core_db" by code_simp
  note k = start_upgrades_and_keeps [OF o d]
  have "(''nodes'', nodes_table) \<in> set init_tables" "''last_boot_id'' \<in> set (column_names nodes_table)"
    "''last_boot_id'' \<notin> set (column_names sample_core_nodes)" "table_of sample_core_db ''nodes'' = Some sample_core_nodes"
    by (simp_all add: init_tables_def nodes_table_def new_table_def column_names_def sample_core_nodes_def core_columns_def
        sample_core_db_def table_of_def)
  with k d show ?thesis by fastforce
qed

end
