(* ===== verification/Migrations.thy ===== *)
theory Migrations
  imports Schema
begin

text \<open>
  The Alembic revisions under \<open>alembic/versions\<close>, which the container runs before the server starts, and the
  rows that a heartbeat inserts, against the schema that is there. Alembic's batch operations are the record
  \<open>batch_api\<close>, and what is used of them the locales \<open>batch_operations\<close> and, for the indexes of a table that a
  batch may build anew, \<open>batch_rebuild\<close>. \<open>AUTOINCREMENT\<close> is not part of a table here.
\<close>

section \<open>The Alembic revisions\<close>

definition baseline_nodes :: sql_table where
  "baseline_nodes = new_table
     [id_column, unique (text_req ''node_id''), text_req ''display_name'', text_col ''node_signing_key'',
      text_col ''encrypted_signing_key'', text_req ''node_type'', text_col ''os_type'', text_col ''hostname'',
      int_or ''heartbeat_interval_sec'' 5, text_or ''allowed_workdirs_json'' ''[]'',
      text_or ''tags_json'' ''[]'', int_or ''allow_shell'' 0, int_or ''allow_modal'' 0,
      int_or ''is_enabled'' 1, text_col ''first_seen_at'', text_col ''last_seen_at'',
      text_col ''last_request_ts'', text_col ''last_boot_id'', text_req ''created_at'', text_req ''updated_at'']
     []
     []"

definition baseline_node_status_snapshots :: sql_table where
  "baseline_node_status_snapshots = new_table
     [id_column, text_req ''node_id'', text_req ''reported_at'', text_req ''cpu_json'',
      text_req ''memory_json'', text_req ''disk_json'', text_req ''gpu_json'', text_req ''python_env_json'',
      text_req ''task_runtime_json'', text_req ''raw_payload_json'']
     []
     [(''node_id'', ''nodes'', ''node_id'', Cascade)]"

definition baseline_task_logs :: sql_table where
  "baseline_task_logs = new_table
     [id_column, text_req ''task_id'', text_req ''stream'', int_or ''last_offset'' 0,
      text_or ''preview_text'' [], text_col ''center_log_path'', text_req ''updated_at'']
     [[''task_id'', ''stream'']]
     [(''task_id'', ''tasks'', ''task_id'', Cascade)]"

definition baseline_tables :: "(string \<times> sql_table) list" where
  "baseline_tables =
     [(''admins'', admins_table), (''nodes'', baseline_nodes),
      (''node_status_snapshots'', baseline_node_status_snapshots), (''tasks'', tasks_table),
      (''task_attempts'', task_attempts_table), (''task_logs'', baseline_task_logs),
      (''artifacts'', artifacts_table), (''audit_events'', audit_events_table),
      (''security_warnings'', security_warnings_table), (''nonces'', nonces_table),
      (''task_reviews'', task_reviews_table), (''alert_messages'', alert_messages_table)]"

text \<open>Revision \<open>4c941b389965\<close>: the tables are created, or dropped with their indexes.\<close>

definition upgrade_4c941b389965 :: "sql_db \<Rightarrow> sql_error + sql_db" where
  "upgrade_4c941b389965 d = try_then (each create_table baseline_tables d) (each create_index init_indexes)"

definition drop_table_if_exists :: "string \<Rightarrow> sql_db \<Rightarrow> sql_db" where
  "drop_table_if_exists n d =
     d\<lparr>sd_tables := filter (\<lambda>(m, _). m \<noteq> n) (sd_tables d), sd_indexes := filter (\<lambda>(_, m, _). m \<noteq> n) (sd_indexes d)\<rparr>"

definition downgrade_4c941b389965 :: "sql_db \<Rightarrow> sql_db" where
  "downgrade_4c941b389965 d =
     fold drop_table_if_exists
       [''alert_messages'', ''task_reviews'', ''nonces'', ''security_warnings'', ''audit_events'', ''artifacts'', ''task_logs'',
        ''task_attempts'', ''tasks'', ''node_status_snapshots'', ''nodes'', ''admins''] d"

text \<open>
  The operations of \<open>op.batch_alter_table\<close> that the revisions use are Alembic's. \<open>ba_index\<close> is what the batch of a
  revision leaves of an index of its table: the batch may create the table anew, with the indexes as it
  read them from the old one.
\<close>

record batch_api =
  ba_add_column :: "sql_column \<Rightarrow> sql_table \<Rightarrow> sql_error + sql_table"
  ba_drop_column :: "string \<Rightarrow> sql_table \<Rightarrow> sql_error + sql_table"
  ba_nullable :: "bool \<Rightarrow> string \<Rightarrow> sql_table \<Rightarrow> sql_error + sql_table"
  ba_index :: "string \<Rightarrow> string \<times> string \<times> (string \<times> bool) list \<Rightarrow> string \<times> string \<times> (string \<times> bool) list"

definition upgrade_51e0a296f5bf :: "batch_api \<Rightarrow> json_sql \<Rightarrow> sql_table \<Rightarrow> sql_error + sql_table" where
  "upgrade_51e0a296f5bf b extract t =
     try_then
       (each (ba_add_column b)
          [real_col ''cpu_usage_percent'', real_col ''memory_usage_percent'', real_col ''gpu_utilization_percent'',
           real_col ''gpu_memory_percent'', real_col ''gpu_temperature_c'', real_col ''gpu_power_draw_w''] t)
       (update_table (\<lambda>r. set_columns (map (\<lambda>(n, f). (n, \<lambda>r. try_then (f r) (\<lambda>x. Inr (real_value x)))) (hot_metrics extract)) r r))"

definition downgrade_51e0a296f5bf :: "batch_api \<Rightarrow> sql_table \<Rightarrow> sql_error + sql_table" where
  "downgrade_51e0a296f5bf b t =
     each (ba_drop_column b)
       [''gpu_power_draw_w'', ''gpu_temperature_c'', ''gpu_memory_percent'', ''gpu_utilization_percent'',
        ''memory_usage_percent'', ''cpu_usage_percent''] t"


definition downgrade_fd7b3f33e9ab :: "batch_api \<Rightarrow> sql_table \<Rightarrow> sql_error + sql_table" where
  "downgrade_fd7b3f33e9ab b t = each (ba_drop_column b) [''truncated_notice'', ''is_truncated''] t"

definition JSON_COLUMNS :: "string list" where
  "JSON_COLUMNS =
     [''cpu_json'', ''memory_json'', ''disk_json'', ''gpu_json'', ''python_env_json'', ''task_runtime_json'', ''raw_payload_json'']"

definition upgrade_6ff2b3201ad0 :: "batch_api \<Rightarrow> sql_table \<Rightarrow> sql_error + sql_table" where
  "upgrade_6ff2b3201ad0 b t =
     try_then (each (ba_nullable b True) JSON_COLUMNS t) (ba_add_column b (text_col ''sample_gpus_json''))"

definition downgrade_6ff2b3201ad0 :: "batch_api \<Rightarrow> sql_table \<Rightarrow> sql_error + sql_table" where
  "downgrade_6ff2b3201ad0 b t =
     try_then (update_table (\<lambda>r. set_columns (map (\<lambda>n. (n, coalesced n (\<lambda>_. Inr (SqlText ''{}'')))) JSON_COLUMNS) r r) t) (\<lambda>t.
     try_then (ba_drop_column b ''sample_gpus_json'' t) (each (ba_nullable b False) JSON_COLUMNS))"

text \<open>A revision that changes one table, in a batch, and what is left of an index afterwards\<close>

definition rebuilt ::
  "batch_api \<Rightarrow> string \<Rightarrow> string \<Rightarrow> string \<times> string \<times> (string \<times> bool) list \<Rightarrow> string \<times> string \<times> (string \<times> bool) list" where
  "rebuilt b revision n i = (if fst (snd i) = n then ba_index b revision i else i)"

definition revise ::
  "batch_api \<Rightarrow> string \<times> string \<times> (sql_table \<Rightarrow> sql_error + sql_table) \<Rightarrow> sql_db \<Rightarrow> sql_error + sql_db" where
  "revise b step d =
     (case step of (revision, n, f) \<Rightarrow>
        try_then (on_table n f d) (\<lambda>d. Inr (d\<lparr>sd_indexes := map (rebuilt b revision n) (sd_indexes d)\<rparr>)))"


definition downgrade_base :: "batch_api \<Rightarrow> sql_db \<Rightarrow> sql_error + sql_db" where
  "downgrade_base b d =
     try_then
       (each (revise b)
          [(''6ff2b3201ad0'', ''node_status_snapshots'', downgrade_6ff2b3201ad0 b),
           (''fd7b3f33e9ab'', ''task_logs'', downgrade_fd7b3f33e9ab b),
           (''51e0a296f5bf'', ''node_status_snapshots'', downgrade_51e0a296f5bf b)] d)
       (\<lambda>d. Inr (downgrade_4c941b389965 d))"

text \<open>\<open>INSERT INTO ... (columns) VALUES (...)\<close> as far as \<open>NOT NULL\<close> goes; \<open>id\<close> is the row id that SQLite assigns.\<close>

definition inserted_row :: "sql_value \<Rightarrow> (string \<times> sql_value) list \<Rightarrow> sql_table \<Rightarrow> sql_row" where
  "inserted_row i vs t = (\<lambda>n. case List.find (\<lambda>c. c_name c = n) (tb_columns t) of
     None \<Rightarrow> None
   | Some c \<Rightarrow> Some (if c_primary c then i else case map_of vs n of Some v \<Rightarrow> v | None \<Rightarrow> column_default c))"

definition insert_row :: "sql_value \<Rightarrow> (string \<times> sql_value) list \<Rightarrow> sql_table \<Rightarrow> sql_error + sql_table" where
  "insert_row i vs t =
     (case List.find (\<lambda>n. n \<notin> set (column_names t)) (map fst vs) of
        Some n \<Rightarrow> Inl (No_such_column n)
      | None \<Rightarrow>
          (case List.find (\<lambda>c. c_not_null c \<and> inserted_row i vs t (c_name c) = Some SqlNull) (tb_columns t) of
             Some c \<Rightarrow> Inl (Not_null_violated (c_name c))
           | None \<Rightarrow> Inr (t\<lparr>tb_rows := tb_rows t @ [inserted_row i vs t]\<rparr>)))"

section \<open>The rows of a heartbeat\<close>

definition json_value :: "json option \<Rightarrow> sql_value" where
  "json_value j = (case j of None \<Rightarrow> SqlNull | Some x \<Rightarrow> SqlText (dumps x))"

text \<open>The columns and values of the \<open>INSERT INTO node_status_snapshots\<close> of a heartbeat.\<close>

definition snapshot_values :: "snapshot_row \<Rightarrow> (string \<times> sql_value) list" where
  "snapshot_values r =
     [(''node_id'', SqlText (s_node_id r)), (''reported_at'', SqlText (s_reported_at r)),
      (''cpu_usage_percent'', real_value (s_cpu_usage_percent r)),
      (''memory_usage_percent'', real_value (s_memory_usage_percent r)),
      (''gpu_utilization_percent'', real_value (s_gpu_utilization_percent r)),
      (''gpu_memory_percent'', real_value (s_gpu_memory_percent r)),
      (''gpu_temperature_c'', real_value (s_gpu_temperature_c r)), (''gpu_power_draw_w'', real_value (s_gpu_power_draw_w r)),
      (''cpu_json'', json_value (s_cpu_json r)), (''memory_json'', json_value (s_memory_json r)),
      (''disk_json'', json_value (s_disk_json r)), (''gpu_json'', json_value (s_gpu_json r)),
      (''python_env_json'', json_value (s_python_env_json r)), (''task_runtime_json'', json_value (s_task_runtime_json r)),
      (''raw_payload_json'', json_value (s_raw_payload_json r)), (''sample_gpus_json'', json_value (s_sample_gpus_json r))]"

text \<open>\<open>conn.executemany\<close>, with the row ids from \<open>i\<close> on\<close>

fun insert_snapshots :: "int \<Rightarrow> snapshot_row list \<Rightarrow> sql_table \<Rightarrow> sql_error + sql_table" where
  "insert_snapshots i [] t = Inr t"
| "insert_snapshots i (r # rs) t = try_then (insert_row (SqlInt i) (snapshot_values r) t) (insert_snapshots (i + 1) rs)"

definition snapshot_columns :: "string list" where
  "snapshot_columns = column_names node_status_snapshots_table"

lemma snapshot_columns_eq:
  "snapshot_columns = ''id'' # map fst (snapshot_values r)"
  "map fst (snapshot_values r) =
     [''node_id'', ''reported_at'', ''cpu_usage_percent'', ''memory_usage_percent'', ''gpu_utilization_percent'',
      ''gpu_memory_percent'', ''gpu_temperature_c'', ''gpu_power_draw_w''] @ JSON_COLUMNS @ [''sample_gpus_json'']"
  by (simp_all add: snapshot_columns_def column_names_def node_status_snapshots_table_def new_table_def snapshot_values_def
      JSON_COLUMNS_def)

lemma insert_snapshot_row:
  assumes "set snapshot_columns \<subseteq> set (column_names t)"
  shows "(\<exists>c \<in> set (tb_columns t). c_not_null c \<and> inserted_row i (snapshot_values r) t (c_name c) = Some SqlNull \<and>
        insert_row i (snapshot_values r) t = Inl (Not_null_violated (c_name c))) \<or>
      (\<forall>c \<in> set (tb_columns t). c_not_null c \<longrightarrow> inserted_row i (snapshot_values r) t (c_name c) \<noteq> Some SqlNull) \<and>
      insert_row i (snapshot_values r) t = Inr (t\<lparr>tb_rows := tb_rows t @ [inserted_row i (snapshot_values r) t]\<rparr>)"
proof -
  let ?bad = "List.find (\<lambda>c. c_not_null c \<and> inserted_row i (snapshot_values r) t (c_name c) = Some SqlNull) (tb_columns t)"
  have names: "List.find (\<lambda>n. n \<notin> set (column_names t)) (map fst (snapshot_values r)) = None"
    using assms unfolding find_None_iff by (auto simp: snapshot_columns_eq(1) [of r])
  show ?thesis
  proof (cases ?bad)
    case None
    then have "insert_row i (snapshot_values r) t = Inr (t\<lparr>tb_rows := tb_rows t @ [inserted_row i (snapshot_values r) t]\<rparr>)"
      by (simp add: insert_row_def names)
    with None show ?thesis by (auto simp: find_None_iff)
  next
    case (Some c)
    then have "insert_row i (snapshot_values r) t = Inl (Not_null_violated (c_name c))"
      by (simp add: insert_row_def names)
    moreover from Some have "c \<in> set (tb_columns t)" "c_not_null c"
      "inserted_row i (snapshot_values r) t (c_name c) = Some SqlNull"
      by (auto simp: find_Some_iff)
    ultimately show ?thesis by blast
  qed
qed

lemma find_column:
  assumes "distinct (map c_name cs)" and "c \<in> set cs"
  shows "List.find (\<lambda>e. c_name e = c_name c) (cs @ new) = Some c"
  using assms by (induction cs) (auto simp: image_iff)

lemma json_column_of_sample:
  assumes "n \<in> set JSON_COLUMNS"
  shows "map_of (snapshot_values (sample_snapshot node_id payload sm)) n = Some SqlNull"
  using assms by (auto simp: JSON_COLUMNS_def snapshot_values_def sample_snapshot_def Let_def json_value_def)

lemma snapshot_required_columns:
  "list_all (\<lambda>c. c_not_null c \<longrightarrow> c = text_req ''node_id'' \<or> c = text_req ''reported_at'') (tb_columns node_status_snapshots_table)"
  by code_simp

lemma snapshot_columns_distinct: "distinct (map c_name (tb_columns node_status_snapshots_table))"
  by code_simp

lemma new_snapshots_take_rows:
  assumes "tb_columns t = tb_columns node_status_snapshots_table"
  shows "\<exists>t'. insert_snapshots i rs t = Inr t'"
  using assms
proof (induction rs arbitrary: i t)
  case (Cons r rs)
  have cols: "set snapshot_columns \<subseteq> set (column_names t)" using Cons.prems by (simp add: snapshot_columns_def column_names_def)
  have "inserted_row (SqlInt i) (snapshot_values r) t (c_name c) \<noteq> Some SqlNull"
    if "c \<in> set (tb_columns t)" "c_not_null c" for c
  proof -
    have c: "c = text_req ''node_id'' \<or> c = text_req ''reported_at''"
      using that Cons.prems snapshot_required_columns by (simp add: list_all_iff)
    have "List.find (\<lambda>e. c_name e = c_name c) (tb_columns t) = Some c"
      using find_column [OF snapshot_columns_distinct, of c "[]"] that Cons.prems by simp
    moreover have "\<not> c_primary c" using c by (elim disjE) (simp_all add: column_def not_null_def)
    moreover have "\<exists>s. map_of (snapshot_values r) (c_name c) = Some (SqlText s)"
      using c by (elim disjE) (simp_all add: snapshot_values_def)
    ultimately show ?thesis by (auto simp: inserted_row_def)
  qed
  then have "insert_row (SqlInt i) (snapshot_values r) t = Inr (t\<lparr>tb_rows := tb_rows t @ [inserted_row (SqlInt i) (snapshot_values r) t]\<rparr>)"
    using insert_snapshot_row [OF cols, of "SqlInt i" r] by blast
  with Cons.IH [of "t\<lparr>tb_rows := tb_rows t @ [inserted_row (SqlInt i) (snapshot_values r) t]\<rparr>"] Cons.prems show ?case by simp
qed simp

text \<open>C29. A database that an earlier version created is not ready for samples, though the start reports success: when its
  snapshots have a JSON column with \<open>NOT NULL\<close>, as the first Alembic revision made them, \<open>_migrate_schema\<close> keeps
  that, and the rows of every heartbeat that brings a sample are refused by the database; a new database takes
  the same rows.\<close>

theorem old_snapshots_refuse_samples:
  assumes "older d" and "table_of d ''node_status_snapshots'' = Some t" and "distinct (column_names t)"
    and "text_req n \<in> set (tb_columns t)" and "n \<in> set JSON_COLUMNS"
    and "init_schema cr settings random extract d = Inr d'"
    and "sm \<in> set (hb_samples payload)" and "sm_ts sm \<noteq> now_iso"
  shows "(\<exists>u c. table_of d' ''node_status_snapshots'' = Some u \<and>
      insert_snapshots i (build_snapshot_rows node_id now_iso payload) u = Inl (Not_null_violated c)) \<and>
    is_ok (insert_snapshots i (build_snapshot_rows node_id now_iso payload) node_status_snapshots_table)"
proof -
  obtain u where u: "table_of d' ''node_status_snapshots'' = Some u" "table_kept (rewritten ''node_status_snapshots'') t u"
    using init_schema_kept [OF assms(6,2)] by blast
  have cols: "set snapshot_columns \<subseteq> set (column_names u)"
    using start_upgrades_columns [OF assms(1,6)] u(1) by (fastforce simp: snapshot_columns_def init_tables_def)
  obtain new where new: "tb_columns u = tb_columns t @ new" using u(2) by (auto simp: table_kept_def)
  have found: "List.find (\<lambda>e. c_name e = n) (tb_columns u) = Some (text_req n)"
    using find_column [OF _ assms(4), of new] assms(3) by (simp add: new column_names_def)
  have sample: "\<exists>c. insert_snapshots i rs v = Inl (Not_null_violated c)"
    if "tb_columns v = tb_columns u" "sample_snapshot node_id payload sm' \<in> set rs" for i rs v sm'
    using that
  proof (induction rs arbitrary: i v)
    case (Cons r rs)
    have v: "set snapshot_columns \<subseteq> set (column_names v)" using cols Cons.prems(1) by (simp add: column_names_def)
    consider c where "insert_row (SqlInt i) (snapshot_values r) v = Inl (Not_null_violated c)"
      | "\<forall>c \<in> set (tb_columns v). c_not_null c \<longrightarrow> inserted_row (SqlInt i) (snapshot_values r) v (c_name c) \<noteq> Some SqlNull"
        "insert_row (SqlInt i) (snapshot_values r) v = Inr (v\<lparr>tb_rows := tb_rows v @ [inserted_row (SqlInt i) (snapshot_values r) v]\<rparr>)"
      using insert_snapshot_row [OF v, of "SqlInt i" r] by blast
    then show ?case
    proof cases
      case 2
      have "r \<noteq> sample_snapshot node_id payload sm'"
      proof
        assume r: "r = sample_snapshot node_id payload sm'"
        have "inserted_row (SqlInt i) (snapshot_values r) v n = Some SqlNull"
          by (simp add: inserted_row_def Cons.prems(1) found r json_column_of_sample [OF assms(5)])
            (simp add: not_null_def column_def)
        moreover have "text_req n \<in> set (tb_columns v)" using assms(4) new Cons.prems(1) by simp
        ultimately show False using 2(1) by (fastforce simp: not_null_def column_def)
      qed
      then have "sample_snapshot node_id payload sm' \<in> set rs" using Cons.prems(2) by auto
      from Cons.IH [OF _ this, of "v\<lparr>tb_rows := tb_rows v @ [inserted_row (SqlInt i) (snapshot_values r) v]\<rparr>" "i + 1"] Cons.prems(1) 2
      show ?thesis by simp
    qed simp
  qed simp
  have "\<exists>sm'. sample_snapshot node_id payload sm' \<in> set (sample_rows node_id payload seen sms)"
    if "sm \<in> set sms" "sm_ts sm \<notin> set seen" for sms seen
    using that
  proof (induction sms arbitrary: seen)
    case (Cons a sms)
    show ?case
    proof (cases "sm_ts a \<in> set seen")
      case True
      then have "sm \<in> set sms" using Cons.prems by auto
      with Cons True show ?thesis by simp
    qed auto
  qed simp
  from this [OF assms(7), of "[now_iso]"] assms(8) obtain sm' where
    "sample_snapshot node_id payload sm' \<in> set (build_snapshot_rows node_id now_iso payload)"
    by (auto simp: build_snapshot_rows_def)
  from sample [OF refl this] u(1) new_snapshots_take_rows [OF refl] show ?thesis by (auto simp: is_ok_iff)
qed

lemma baseline_start_succeeds:
  "is_ok (init_schema sample_crypto default_settings (\<lambda>_. []) sample_json \<lparr>sd_tables = baseline_tables, sd_indexes = []\<rparr>)"
  by code_simp

lemma old_snapshots_refuse_samples_witness:
  "\<exists>d u. init_schema sample_crypto default_settings (\<lambda>_. []) sample_json \<lparr>sd_tables = baseline_tables, sd_indexes = []\<rparr> = Inr d \<and>
     table_of d ''node_status_snapshots'' = Some u \<and>
     (\<forall>payload sm. \<exists>c. insert_snapshots 1 (build_snapshot_rows ''n'' ''now'' (payload\<lparr>hb_samples := [sm\<lparr>sm_ts := ''later''\<rparr>]\<rparr>)) u =
       Inl (Not_null_violated c))"
proof -
  let ?d = "\<lparr>sd_tables = baseline_tables, sd_indexes = []\<rparr>"
  obtain d where d: "init_schema sample_crypto default_settings (\<lambda>_. []) sample_json ?d = Inr d"
    using baseline_start_succeeds by (auto simp: is_ok_iff)
  have o: "older ?d" by code_simp
  have t: "table_of ?d ''node_status_snapshots'' = Some baseline_node_status_snapshots"
    by (simp add: table_of_def baseline_tables_def)
  have c: "distinct (column_names baseline_node_status_snapshots)"
    "text_req ''cpu_json'' \<in> set (tb_columns baseline_node_status_snapshots)"
    by (simp_all add: baseline_node_status_snapshots_def new_table_def column_names_def)
  have j: "''cpu_json'' \<in> set JSON_COLUMNS" by (simp add: JSON_COLUMNS_def)
  have m: "sm\<lparr>sm_ts := ''later''\<rparr> \<in> set (hb_samples (payload\<lparr>hb_samples := [sm\<lparr>sm_ts := ''later''\<rparr>]\<rparr>))"
    "sm_ts (sm\<lparr>sm_ts := ''later''\<rparr>) \<noteq> ''now''" for payload :: heartbeat_request and sm
    by simp_all
  note refused = old_snapshots_refuse_samples [OF o t c j d m, THEN conjunct1, of 1 "''n''"]
  from refused obtain u where u: "table_of d ''node_status_snapshots'' = Some u" by blast
  have "\<exists>c. insert_snapshots 1 (build_snapshot_rows ''n'' ''now'' (payload\<lparr>hb_samples := [sm\<lparr>sm_ts := ''later''\<rparr>]\<rparr>)) u =
      Inl (Not_null_violated c)" for payload sm
    using refused [of sm payload] unfolding u by blast
  with d u show ?thesis by blast
qed

section \<open>Alembic's batch operations\<close>

definition without_column :: "string \<Rightarrow> sql_table \<Rightarrow> sql_table" where
  "without_column n t =
     t\<lparr>tb_columns := filter (\<lambda>c. c_name c \<noteq> n) (tb_columns t), tb_rows := map (\<lambda>r. r(n := None)) (tb_rows t)\<rparr>"

definition with_nullable :: "bool \<Rightarrow> string \<Rightarrow> sql_table \<Rightarrow> sql_table" where
  "with_nullable b n t =
     t\<lparr>tb_columns := map (\<lambda>c. if c_name c = n then c\<lparr>c_not_null := \<not> b\<rparr> else c) (tb_columns t)\<rparr>"

locale batch_operations =
  fixes b :: batch_api
  assumes add: "c_name c \<notin> set (column_names t) \<Longrightarrow> \<not> (c_not_null c \<and> column_default c = SqlNull) \<Longrightarrow>
      ba_add_column b c t = Inr (with_column c t)"
    and drop: "n \<in> set (column_names t) \<Longrightarrow> ba_drop_column b n t = Inr (without_column n t)"
    and nullable: "n \<in> set (column_names t) \<Longrightarrow> x \<or> (\<forall>r \<in> set (tb_rows t). r n \<noteq> Some SqlNull) \<Longrightarrow>
      ba_nullable b x n t = Inr (with_nullable x n t)"
begin

lemma each_add:
  assumes "distinct (map c_name cs)" and "\<forall>c \<in> set cs. c_name c \<notin> set (column_names t)"
    and "\<forall>c \<in> set cs. \<not> (c_not_null c \<and> column_default c = SqlNull)"
  shows "each (ba_add_column b) cs t = Inr (fold with_column cs t)"
  using assms
proof (induction cs arbitrary: t)
  case (Cons c cs)
  then have "\<forall>e \<in> set cs. c_name e \<notin> set (column_names (with_column c t))" by (auto simp: image_iff)
  moreover have "ba_add_column b c t = Inr (with_column c t)" using Cons.prems by (intro add) auto
  ultimately show ?case using Cons by simp
qed simp

lemma each_drop:
  assumes "distinct ns" and "set ns \<subseteq> set (column_names t)"
  shows "each (ba_drop_column b) ns t = Inr (fold without_column ns t)"
  using assms
proof (induction ns arbitrary: t)
  case (Cons n ns)
  then have "set ns \<subseteq> set (column_names t) - {n}" by auto
  moreover have "set (column_names (without_column n t)) = set (column_names t) - {n}"
    by (auto simp: without_column_def column_names_def)
  ultimately show ?case using Cons by (simp add: drop)
qed simp

lemma each_nullable:
  assumes "set ns \<subseteq> set (column_names t)" and "x \<or> (\<forall>r \<in> set (tb_rows t). \<forall>n \<in> set ns. r n \<noteq> Some SqlNull)"
  shows "each (ba_nullable b x) ns t = Inr (fold (with_nullable x) ns t)"
  using assms
proof (induction ns arbitrary: t)
  case (Cons n ns)
  have names: "column_names (with_nullable x n t) = column_names t" by (simp add: with_nullable_def column_names_def)
  have rows: "tb_rows (with_nullable x n t) = tb_rows t" by (simp add: with_nullable_def)
  from Cons.prems have "ba_nullable b x n t = Inr (with_nullable x n t)" by (intro nullable) auto
  moreover have "each (ba_nullable b x) ns (with_nullable x n t) = Inr (fold (with_nullable x) ns (with_nullable x n t))"
    by (rule Cons.IH) (use Cons.prems in \<open>auto simp: names rows\<close>)
  ultimately show ?case by simp
qed simp

end

text \<open>
  A batch keeps the name, the table and the columns of an index, in their order. Nothing is assumed of the direction of
  a column: the index is read from SQLite's list of its columns, which does not show \<open>DESC\<close>.
\<close>

definition undirected :: "string \<times> string \<times> (string \<times> bool) list \<Rightarrow> string \<times> string \<times> string list" where
  "undirected i = (case i of (n, tab, cs) \<Rightarrow> (n, tab, map fst cs))"

locale batch_rebuild = batch_operations +
  assumes index: "undirected (ba_index b revision i) = undirected i"
begin

lemma rebuilt_undirected: "map undirected (map (rebuilt b revision n) ixs) = map undirected ixs"
  by (simp add: rebuilt_def index)

end

text \<open>What SQLite itself does when a table is rebuilt; the new indexes have lost their directions.\<close>

definition sqlite_batch :: batch_api where
  "sqlite_batch =
     \<lparr>ba_add_column = add_column,
      ba_drop_column = (\<lambda>n t. if n \<in> set (column_names t) then Inr (without_column n t) else Inl (No_such_column n)),
      ba_nullable = (\<lambda>x n t.
        if n \<notin> set (column_names t) then Inl (No_such_column n)
        else if \<not> x \<and> list_ex (\<lambda>r. r n = Some SqlNull) (tb_rows t) then Inl (Not_null_violated n)
        else Inr (with_nullable x n t)),
      ba_index = (\<lambda>_ (n, tab, cs). (n, tab, map (\<lambda>(c, _). (c, False)) cs))\<rparr>"

interpretation sqlite: batch_rebuild sqlite_batch
  by unfold_locales (auto simp: sqlite_batch_def add_column_def list_ex_iff undirected_def split: prod.splits)

lemma fold_with_column:
  "tb_columns (fold with_column cs t) = tb_columns t @ cs" "tb_uniques (fold with_column cs t) = tb_uniques t"
  "tb_references (fold with_column cs t) = tb_references t"
  "list_all2 (\<lambda>r r'. \<forall>m. m \<notin> c_name ` set cs \<longrightarrow> r' m = r m) (tb_rows t) (tb_rows (fold with_column cs t))"
proof -
  show "tb_columns (fold with_column cs t) = tb_columns t @ cs" "tb_uniques (fold with_column cs t) = tb_uniques t"
    "tb_references (fold with_column cs t) = tb_references t"
    by (induction cs arbitrary: t) simp_all
  show "list_all2 (\<lambda>r r'. \<forall>m. m \<notin> c_name ` set cs \<longrightarrow> r' m = r m) (tb_rows t) (tb_rows (fold with_column cs t))"
  proof (induction cs arbitrary: t)
    case (Cons c cs)
    from Cons [of "with_column c t"] show ?case by (simp add: with_column_def list_all2_conv_all_nth)
  qed (simp add: list_all2_same)
qed

lemma fold_without_column:
  "fold without_column ns t =
     t\<lparr>tb_columns := filter (\<lambda>c. c_name c \<notin> set ns) (tb_columns t),
       tb_rows := map (\<lambda>r m. if m \<in> set ns then None else r m) (tb_rows t)\<rparr>"
  by (induction ns arbitrary: t) (auto simp: without_column_def comp_def fun_eq_iff conj_commute)

lemma fold_with_nullable:
  "fold (with_nullable x) ns t =
     t\<lparr>tb_columns := map (\<lambda>c. if c_name c \<in> set ns then c\<lparr>c_not_null := \<not> x\<rparr> else c) (tb_columns t)\<rparr>"
  by (induction ns arbitrary: t) (auto simp: with_nullable_def)

lemma downgrade_after_upgrade_rows:
  assumes "list_all2 (\<lambda>r r'. \<forall>m. m \<notin> set ns \<longrightarrow> r' m = r m) rs rs'" and "\<forall>r \<in> set rs. \<forall>n \<in> set ns. r n = None"
  shows "map (\<lambda>r m. if m \<in> set ns then None else r m) rs' = rs"
proof (rule nth_equalityI)
  fix i assume "i < length (map (\<lambda>r m. if m \<in> set ns then None else r m) rs')"
  then have i: "i < length rs'" "i < length rs" using assms(1) by (simp_all add: list_all2_lengthD)
  have "rs ! i \<in> set rs" using i by simp
  then show "map (\<lambda>r m. if m \<in> set ns then None else r m) rs' ! i = rs ! i"
    using bspec [OF assms(2), of "rs ! i"] list_all2_nthD [OF assms(1) i(2)] i by (auto simp: fun_eq_iff)
qed (use assms(1) in \<open>simp add: list_all2_lengthD\<close>)

text \<open>A table of the first revision, as SQLite keeps it.\<close>

definition baseline_like :: "sql_table \<Rightarrow> bool" where
  "baseline_like t \<longleftrightarrow>
     distinct (column_names t) \<and> (\<forall>r \<in> set (tb_rows t). dom r = set (column_names t)) \<and>
     (\<forall>c \<in> set (tb_columns t). c_not_null c \<longrightarrow> (\<forall>r \<in> set (tb_rows t). r (c_name c) \<noteq> Some SqlNull)) \<and>
     (\<forall>n \<in> set JSON_COLUMNS. text_req n \<in> set (tb_columns t)) \<and>
     (\<forall>c \<in> set snapshot_additions. c_name c \<notin> set (column_names t))"

lemma baseline_likeD:
  assumes "baseline_like t"
  shows "distinct (column_names t)" and "\<forall>r \<in> set (tb_rows t). dom r = set (column_names t)"
    and "\<forall>c \<in> set (tb_columns t). c_not_null c \<longrightarrow> (\<forall>r \<in> set (tb_rows t). r (c_name c) \<noteq> Some SqlNull)"
    and "\<forall>n \<in> set JSON_COLUMNS. text_req n \<in> set (tb_columns t)"
    and "\<forall>c \<in> set snapshot_additions. c_name c \<notin> set (column_names t)"
  using assms unfolding baseline_like_def by - (elim conjE, assumption)+

lemma json_named:
  assumes "baseline_like t" and "n \<in> set JSON_COLUMNS"
  shows "n \<in> set (column_names t)"
proof -
  have "text_req n \<in> set (tb_columns t)" by (rule bspec [OF baseline_likeD(4) [OF assms(1)] assms(2)])
  from imageI [OF this, of c_name] show ?thesis by (simp add: column_names_def)
qed

lemma json_value_there:
  assumes "baseline_like t" and "r \<in> set (tb_rows t)" and "n \<in> set JSON_COLUMNS"
  shows "\<exists>v. r n = Some v \<and> v \<noteq> SqlNull"
proof -
  have c: "text_req n \<in> set (tb_columns t)" "c_not_null (text_req n)" "c_name (text_req n) = n"
    using bspec [OF baseline_likeD(4) [OF assms(1)] assms(3)] by simp_all (simp add: not_null_def)
  have "dom r = set (column_names t)" by (rule bspec [OF baseline_likeD(2) [OF assms(1)] assms(2)])
  then have "n \<in> dom r" using json_named [OF assms(1,3)] by simp
  moreover have "r n \<noteq> Some SqlNull" using bspec [OF baseline_likeD(3) [OF assms(1)] c(1)] c(2,3) assms(2) by simp
  ultimately show ?thesis by auto
qed

lemma metrics_added:
  assumes "batch_operations b" and "baseline_like t" and "upgrade_51e0a296f5bf b extract t = Inr t1"
  shows "tb_columns t1 = tb_columns t @ map real_col metric_columns \<and> tb_uniques t1 = tb_uniques t \<and>
    tb_references t1 = tb_references t \<and>
    list_all2 (\<lambda>r r'. \<forall>m. m \<notin> set metric_columns \<longrightarrow> r' m = r m) (tb_rows t) (tb_rows t1)"
proof -
  let ?cs = "map real_col metric_columns"
  have cs: "?cs = [real_col ''cpu_usage_percent'', real_col ''memory_usage_percent'', real_col ''gpu_utilization_percent'',
      real_col ''gpu_memory_percent'', real_col ''gpu_temperature_c'', real_col ''gpu_power_draw_w'']"
    by (simp add: metric_columns_def)
  have names: "c_name ` set ?cs = set metric_columns" by (simp add: metric_columns_def)
  have "\<forall>c \<in> set ?cs. c_name c \<notin> set (column_names t)"
    using assms(2) by (simp add: baseline_like_def snapshot_additions_def metric_columns_def)
  then have "each (ba_add_column b) ?cs t = Inr (fold with_column ?cs t)"
    by (intro batch_operations.each_add [OF assms(1)]) (auto simp: metric_columns_def column_def)
  with assms(3) obtain rs where
    rs: "list_all2 (\<lambda>r r'. set_columns (map (\<lambda>(n, f). (n, \<lambda>r. try_then (f r) (\<lambda>x. Inr (real_value x)))) (hot_metrics extract)) r r = Inr r')
      (tb_rows (fold with_column ?cs t)) rs" "t1 = (fold with_column ?cs t)\<lparr>tb_rows := rs\<rparr>"
    unfolding upgrade_51e0a296f5bf_def cs [symmetric] by (auto simp: update_table_Inr)
  have "list_all2 (\<lambda>r r'. \<forall>m. m \<notin> set metric_columns \<longrightarrow> r' m = r m) (tb_rows (fold with_column ?cs t)) rs"
  proof (rule list_all2_mono [OF rs(1)])
    fix r r' assume r: "set_columns (map (\<lambda>(n, f). (n, \<lambda>r. try_then (f r) (\<lambda>x. Inr (real_value x)))) (hot_metrics extract)) r r = Inr r'"
    have "distinct (map fst (map (\<lambda>(n, f). (n, \<lambda>r. try_then (f r) (\<lambda>x. Inr (real_value x)))) (hot_metrics extract)))"
      "fst ` set (map (\<lambda>(n, f). (n, \<lambda>r. try_then (f r) (\<lambda>x. Inr (real_value x)))) (hot_metrics extract)) = set metric_columns"
      by (simp_all add: hot_metrics_def metric_columns_def)
    with set_columns_Inr [OF r] show "\<forall>m. m \<notin> set metric_columns \<longrightarrow> r' m = r m" by simp
  qed
  with fold_with_column(4) [of ?cs t] have "list_all2 (\<lambda>r r'. \<forall>m. m \<notin> set metric_columns \<longrightarrow> r' m = r m) (tb_rows t) rs"
    unfolding names by (simp add: list_all2_conv_all_nth)
  then show ?thesis by (simp add: rs(2) fold_with_column)
qed

text \<open>C30. No snapshot is lost or changed by going back: when the revision that brings the metric columns has succeeded on a
  table of the first revision, the upgrade for samples, its downgrade and the downgrade of the metrics all
  succeed, and the table is the old one, row by row.\<close>

theorem downgrade_restores_snapshots:
  assumes "batch_operations b" and "baseline_like t" and "upgrade_51e0a296f5bf b extract t = Inr t1"
  shows "\<exists>t2 t3. upgrade_6ff2b3201ad0 b t1 = Inr t2 \<and> downgrade_6ff2b3201ad0 b t2 = Inr t3 \<and>
    downgrade_51e0a296f5bf b t3 = Inr t"
proof -
  note t1 = metrics_added [OF assms]
  have names: "column_names t1 = column_names t @ metric_columns" using t1 by (simp add: column_names_def comp_def)
  have json: "set JSON_COLUMNS \<subseteq> set (column_names t1)"
    using json_named [OF assms(2)] names by auto
  have new: "''sample_gpus_json'' \<notin> set (column_names t1)" "\<forall>m \<in> set metric_columns. m \<notin> set (column_names t)"
    using assms(2) by (simp_all add: names baseline_like_def snapshot_additions_def metric_columns_def)
  have row: "\<exists>r \<in> set (tb_rows t). \<forall>m. m \<notin> set metric_columns \<longrightarrow> r1 m = r m" if "r1 \<in> set (tb_rows t1)" for r1
  proof -
    from t1 have l: "list_all2 (\<lambda>r r'. \<forall>m. m \<notin> set metric_columns \<longrightarrow> r' m = r m) (tb_rows t) (tb_rows t1)" by blast
    from that obtain i where "i < length (tb_rows t1)" "r1 = tb_rows t1 ! i" by (auto simp: in_set_conv_nth)
    with list_all2_nthD2 [OF l, of i] show ?thesis by (metis list_all2_lengthD [OF l] nth_mem)
  qed
  have nonnull: "\<exists>v. r1 n = Some v \<and> v \<noteq> SqlNull" if "r1 \<in> set (tb_rows t1)" "n \<in> set JSON_COLUMNS" for r1 n
  proof -
    have "n \<notin> set metric_columns" using that(2) by (auto simp: JSON_COLUMNS_def metric_columns_def)
    with row [OF that(1)] json_value_there [OF assms(2) _ that(2)] show ?thesis by metis
  qed
  have none: "r1 ''sample_gpus_json'' = None" if "r1 \<in> set (tb_rows t1)" for r1
  proof -
    note old = row [OF that]
    have "''sample_gpus_json'' \<notin> set metric_columns" by (simp add: metric_columns_def)
    with old obtain r where r: "r \<in> set (tb_rows t)" "r1 ''sample_gpus_json'' = r ''sample_gpus_json''" by blast
    have "''sample_gpus_json'' \<notin> dom r"
      using new(1) bspec [OF baseline_likeD(2) [OF assms(2)] r(1)] by (simp add: names)
    with r(2) show ?thesis by (simp add: domIff)
  qed
  let ?s = "text_col ''sample_gpus_json''"
  define ta where "ta = fold (with_nullable True) JSON_COLUMNS t1"
  define t2 where "t2 = with_column ?s ta"
  have ta: "each (ba_nullable b True) JSON_COLUMNS t1 = Inr ta"
    unfolding ta_def by (rule batch_operations.each_nullable [OF assms(1) json]) simp
  have na: "column_names ta = column_names t1" "tb_rows ta = tb_rows t1"
    by (simp_all add: ta_def fold_with_nullable column_names_def)
  have "ba_add_column b ?s ta = Inr t2"
    unfolding t2_def by (rule batch_operations.add [OF assms(1)]) (use new(1) na in \<open>auto simp: column_def\<close>)
  with ta have up: "upgrade_6ff2b3201ad0 b t1 = Inr t2" by (simp add: upgrade_6ff2b3201ad0_def)
  have rows2: "tb_rows t2 = map (\<lambda>r. r(''sample_gpus_json'' \<mapsto> SqlNull)) (tb_rows t1)"
    by (simp add: t2_def with_column_def na column_default_def column_def)
  have ns: "n \<noteq> ''sample_gpus_json''" if "n \<in> set JSON_COLUMNS" for n using that by (auto simp: JSON_COLUMNS_def)
  have "update_table (\<lambda>r. set_columns (map (\<lambda>n. (n, coalesced n (\<lambda>_. Inr (SqlText ''{}'')))) JSON_COLUMNS) r r) t2 = Inr t2"
  proof (rule update_table_id, unfold list_all_iff, intro ballI set_columns_id)
    fix r a assume "r \<in> set (tb_rows t2)" and "a \<in> set (map (\<lambda>n. (n, coalesced n (\<lambda>_. Inr (SqlText ''{}'')))) JSON_COLUMNS)"
    then show "case a of (n, f) \<Rightarrow> \<exists>v. f r = Inr v \<and> r n = Some v"
      using nonnull ns by (fastforce simp: rows2 coalesced_def)
  qed
  moreover define tb where "tb = without_column ''sample_gpus_json'' t2"
  have "ba_drop_column b ''sample_gpus_json'' t2 = Inr tb"
    unfolding tb_def by (rule batch_operations.drop [OF assms(1)]) (simp add: t2_def)
  moreover have rowsb: "tb_rows tb = tb_rows t1"
    by (auto simp: tb_def without_column_def rows2 fun_eq_iff intro!: map_idI dest: none)
  have colsb: "tb_columns tb = tb_columns ta"
  proof -
    have "\<forall>c \<in> set (tb_columns ta). c_name c \<noteq> ''sample_gpus_json''" using new(1) [folded na(1)] by (metis column_names_def imageI set_map)
    then show ?thesis by (simp add: tb_def without_column_def t2_def)
  qed
  have "each (ba_nullable b False) JSON_COLUMNS tb = Inr (fold (with_nullable False) JSON_COLUMNS tb)"
  proof (rule batch_operations.each_nullable [OF assms(1)])
    show "set JSON_COLUMNS \<subseteq> set (column_names tb)" using json na colsb by (simp add: column_names_def)
    show "False \<or> (\<forall>r \<in> set (tb_rows tb). \<forall>n \<in> set JSON_COLUMNS. r n \<noteq> Some SqlNull)" using nonnull rowsb by fastforce
  qed
  moreover have "fold (with_nullable False) JSON_COLUMNS tb = t1"
  proof -
    have "c\<lparr>c_not_null := True\<rparr> = c" if "c \<in> set (tb_columns t1)" "c_name c \<in> set JSON_COLUMNS" for c
    proof -
      have req: "text_req (c_name c) \<in> set (tb_columns t)" by (rule bspec [OF baseline_likeD(4) [OF assms(2)] that(2)])
      moreover have "c \<in> set (tb_columns t)" using that t1 by (auto simp: JSON_COLUMNS_def metric_columns_def)
      ultimately have "c = text_req (c_name c)"
        using baseline_likeD(1) [OF assms(2)] by (auto simp: column_names_def distinct_map inj_on_def)
      then have "c_not_null c" by (metis not_null_def sql_column.select_convs(4) sql_column.surjective sql_column.update_convs(4))
      then show ?thesis by simp
    qed
    then have "map (\<lambda>c. if c_name c \<in> set JSON_COLUMNS then c\<lparr>c_not_null := True\<rparr> else c)
        (map (\<lambda>c. if c_name c \<in> set JSON_COLUMNS then c\<lparr>c_not_null := False\<rparr> else c) (tb_columns t1)) = tb_columns t1"
      by (auto simp: comp_def intro!: map_idI)
    then have restored: "fold (with_nullable False) JSON_COLUMNS ta = t1" by (simp add: ta_def fold_with_nullable cong: if_cong)
    have "tb = ta"
      by (rule sql_table.equality) (use colsb rowsb na(2) in \<open>simp_all add: tb_def without_column_def t2_def\<close>)
    with restored show ?thesis by simp
  qed
  ultimately have down: "downgrade_6ff2b3201ad0 b t2 = Inr t1" by (simp add: downgrade_6ff2b3201ad0_def)
  have rev: "[''gpu_power_draw_w'', ''gpu_temperature_c'', ''gpu_memory_percent'', ''gpu_utilization_percent'',
      ''memory_usage_percent'', ''cpu_usage_percent''] = rev metric_columns" by (simp add: metric_columns_def)
  have "each (ba_drop_column b) (rev metric_columns) t1 = Inr (fold without_column (rev metric_columns) t1)"
    by (rule batch_operations.each_drop [OF assms(1)]) (auto simp: names, simp add: metric_columns_def)
  moreover have "fold without_column (rev metric_columns) t1 = t"
  proof -
    have "filter (\<lambda>c. c_name c \<notin> set metric_columns) (tb_columns t1) = tb_columns t"
      using new(2) t1 by (auto simp: column_names_def filter_empty_conv intro!: filter_True)
    moreover have "map (\<lambda>r m. if m \<in> set metric_columns then None else r m) (tb_rows t1) = tb_rows t"
    proof (rule downgrade_after_upgrade_rows)
      show "\<forall>r \<in> set (tb_rows t). \<forall>n \<in> set metric_columns. r n = None"
        using assms(2) new(2) unfolding baseline_like_def by (metis domIff)
    qed (use t1 in simp)
    ultimately show ?thesis using t1 by (simp add: fold_without_column)
  qed
  ultimately have "downgrade_51e0a296f5bf b t1 = Inr t" by (simp add: downgrade_51e0a296f5bf_def rev)
  with up down show ?thesis by blast
qed

definition sample_snapshots :: sql_table where
  "sample_snapshots = baseline_node_status_snapshots\<lparr>tb_rows :=
     [\<lambda>n. if n \<in> set (column_names baseline_node_status_snapshots) then Some (SqlText ''{}'') else None]\<rparr>"

lemma sample_snapshots_upgrade: "is_ok (upgrade_51e0a296f5bf sqlite_batch sample_json sample_snapshots)"
  by code_simp

lemma downgrade_restores_snapshots_witness:
  "\<exists>t1 t2 t3. upgrade_51e0a296f5bf sqlite_batch sample_json sample_snapshots = Inr t1 \<and>
    upgrade_6ff2b3201ad0 sqlite_batch t1 = Inr t2 \<and> downgrade_6ff2b3201ad0 sqlite_batch t2 = Inr t3 \<and>
    downgrade_51e0a296f5bf sqlite_batch t3 = Inr sample_snapshots"
proof -
  obtain t1 where t1: "upgrade_51e0a296f5bf sqlite_batch sample_json sample_snapshots = Inr t1"
    using sample_snapshots_upgrade by (auto simp: is_ok_iff)
  have "distinct (column_names baseline_node_status_snapshots)" by code_simp
  moreover have "list_all (\<lambda>n. text_req n \<in> set (tb_columns baseline_node_status_snapshots)) JSON_COLUMNS" by code_simp
  moreover have "list_all (\<lambda>c. c_name c \<notin> set (column_names baseline_node_status_snapshots)) snapshot_additions" by code_simp
  ultimately have "baseline_like sample_snapshots"
    by (auto simp: baseline_like_def sample_snapshots_def list_all_iff column_names_def dom_def split: if_splits)
  from downgrade_restores_snapshots [OF sqlite.batch_operations_axioms this t1] t1 show ?thesis by blast
qed

section \<open>The start of the container\<close>






















text \<open>A database that a start created is refused by the first revision, so the container's chain ends there.\<close>

lemma upgrade_refuses_started_database:
  assumes "table_of d ''admins'' = Some t"
  shows "upgrade_4c941b389965 d = Inl Table_exists"
proof -
  have "''admins'' \<in> fst ` set (sd_tables d)"
    using assms by (metis table_of_def map_of_SomeD fst_conv imageI)
  then show ?thesis by (simp add: upgrade_4c941b389965_def baseline_tables_def create_table_def)
qed

end
