(* ===== verification/Pagination.thy ===== *)
theory Pagination
  imports Json Security
begin

text \<open>
  \<open>app/services/cursor_pagination.py\<close> and the page query that the task, audit and warning lists share:
  opaque cursors, the time filters, and the newest rows below the cursor. Reading page after page
  gives every row once, in order.
\<close>

section \<open>Cursors\<close>

definition rstrip_pad :: "string \<Rightarrow> string" where
  "rstrip_pad s = rev (dropWhile (\<lambda>c. c = CHR ''='') (rev s))"

definition cursor_text :: "iso \<Rightarrow> int \<Rightarrow> string" where
  "cursor_text created_at row_id =
     CHR ''{'' # json_string_ascii ''created_at'' @ '':'' @ json_string_ascii created_at @ '','' @
     json_string_ascii ''id'' @ '':'' @ int_str row_id @ ''}''"

definition ascii_bytes :: "string \<Rightarrow> bytes" where
  "ascii_bytes s = map (\<lambda>c. byte (of_char c)) s"

definition encode_cursor :: "iso \<Rightarrow> int \<Rightarrow> string" where
  "encode_cursor created_at row_id = rstrip_pad (urlsafe_b64encode (ascii_bytes (cursor_text created_at row_id)))"

definition invalid_cursor :: api_error where
  "invalid_cursor = Api_Error ''ERR_VALIDATION_INVALID_CURSOR'' 400"

text \<open>A decoded text with a character above U+00FF is refused with the others.\<close>

definition latin_text :: "bytes \<Rightarrow> string option" where
  "latin_text bs = (case utf8_decode bs of
     Some t \<Rightarrow> if list_all (\<lambda>c. c < 256) t then Some (map char_of t) else None | None \<Rightarrow> None)"

definition decode_cursor :: "string option \<Rightarrow> api_error + (iso \<times> int) option" where
  "decode_cursor cursor =
     (if \<not> truthy cursor then Inr None
      else
        (let c = the cursor; padded = c @ replicate ((4 - length c mod 4) mod 4) CHR ''='' in
         if list_ex (\<lambda>c. 128 \<le> (of_char c :: nat)) padded then Inl invalid_cursor
         else
           (case Option.bind (Option.bind (urlsafe_b64decode padded) latin_text) json_loads of
              Some (JObj d) \<Rightarrow>
                (case (dict_get d ''created_at'', dict_get d ''id'') of
                   (Some (JStr created_at), Some (JInt row_id)) \<Rightarrow> Inr (Some (created_at, row_id))
                 | (Some (JStr created_at), Some (JBool b)) \<Rightarrow> Inr (Some (created_at, if b then 1 else 0))
                 | _ \<Rightarrow> Inl invalid_cursor)
            | _ \<Rightarrow> Inl invalid_cursor)))"

lemma b64_shape:
  "\<exists>core p. b64encode bs = core @ replicate p (CHR ''='') \<and> p \<le> 2 \<and> CHR ''='' \<notin> set core \<and>
     (length core + p) mod 4 = 0"
proof (induction bs rule: b64encode.induct)
  case 1
  then show ?case by (intro exI [of _ "[]"] exI [of _ 0]) simp
next
  case (2 a)
  note s = six_bits [OF unat_bound [of a] unat_bound [of a] unat_bound [of a]]
  show ?case
    by (rule exI [of _ "[b64_char (unat a div 4), b64_char (unat a mod 4 * 16)]"], rule exI [of _ 2])
      (use b64_char_not_pad [OF s(1)] b64_char_not_pad [OF s(2)] in \<open>simp add: numeral_2_eq_2 eq_commute\<close>)
next
  case (3 a b)
  note s = six_bits [OF unat_bound [of a] unat_bound [of b] unat_bound [of b]]
  show ?case
    by (rule exI [of _ "[b64_char (unat a div 4), b64_char (unat a mod 4 * 16 + unat b div 16), b64_char (unat b mod 16 * 4)]"],
        rule exI [of _ 1])
      (use b64_char_not_pad [OF s(1)] b64_char_not_pad [OF s(3)] b64_char_not_pad [OF s(4)] in \<open>simp add: eq_commute\<close>)
next
  case (4 a b c r)
  note s = six_bits [OF unat_bound [of a] unat_bound [of b] unat_bound [of c]]
  from 4 obtain core p where r: "b64encode r = core @ replicate p (CHR ''='')" "p \<le> 2" "CHR ''='' \<notin> set core"
    "(length core + p) mod 4 = 0" by (elim exE conjE) (rule that; assumption)
  let ?q = "[b64_char (unat a div 4), b64_char (unat a mod 4 * 16 + unat b div 16),
     b64_char (unat b mod 16 * 4 + unat c div 64), b64_char (unat c mod 64)]"
  have "CHR ''='' \<notin> set ?q"
    using b64_char_not_pad [OF s(1)] b64_char_not_pad [OF s(3)] b64_char_not_pad [OF s(5)] b64_char_not_pad [OF s(6)]
    by (simp add: eq_commute)
  moreover have "(length (?q @ core) + p) mod 4 = 0" using r(4) by simp
  ultimately show ?case using r(1-3)
    by (intro exI [of _ "?q @ core"] exI [of _ p]) (simp add: r(1))
qed

lemma dropWhile_replicate: "dropWhile (\<lambda>c. c = x) (replicate p x @ s) = dropWhile (\<lambda>c. c = x) s"
  by (induction p) simp_all

lemma rstrip_replicate: "CHR ''='' \<notin> set core \<Longrightarrow> rstrip_pad (core @ replicate p (CHR ''='')) = core"
  by (cases core rule: rev_cases) (auto simp: rstrip_pad_def dropWhile_replicate)

lemma urlsafe_pad: "urlsafe c = CHR ''='' \<longleftrightarrow> c = CHR ''=''"
  by (auto simp: urlsafe_def)

text \<open>Stripping the padding and putting it back.\<close>

lemma repad:
  "(let c = rstrip_pad (urlsafe_b64encode bs) in c @ replicate ((4 - length c mod 4) mod 4) (CHR ''='')) =
   urlsafe_b64encode bs"
proof -
  obtain core p where s: "b64encode bs = core @ replicate p (CHR ''='')" "p \<le> 2" "CHR ''='' \<notin> set core"
    "(length core + p) mod 4 = 0"
    using b64_shape [of bs] by (elim exE conjE) (rule that; assumption)
  have u: "urlsafe_b64encode bs = map urlsafe core @ replicate p (CHR ''='')"
    by (simp add: urlsafe_b64encode_def s(1) urlsafe_def)
  have "CHR ''='' \<notin> set (map urlsafe core)" using s(3) urlsafe_pad by force
  then have c: "rstrip_pad (urlsafe_b64encode bs) = map urlsafe core" by (simp add: u rstrip_replicate)
  define m where "m = length core mod 4"
  have "(m + p) mod 4 = 0" unfolding m_def using s(4) by (simp only: mod_add_left_eq)
  moreover have "m < 4" by (simp add: m_def)
  then have "m = 0 \<or> m = 1 \<or> m = 2 \<or> m = 3" by linarith
  moreover have "p = 0 \<or> p = 1 \<or> p = 2" using s(2) by linarith
  ultimately have "(4 - m) mod 4 = p" by (elim disjE) simp_all
  then have "(4 - length core mod 4) mod 4 = p" by (simp only: m_def)
  with c u show ?thesis by (simp add: Let_def)
qed

lemma ascii_decode: "list_all (\<lambda>c. (of_char c :: nat) < 128) s \<Longrightarrow> utf8_decode (ascii_bytes s) = Some (map of_char s)"
  by (induction s) (auto simp: ascii_bytes_def Let_def)

lemma latin_text_ascii: "list_all (\<lambda>c. (of_char c :: nat) < 128) s \<Longrightarrow> latin_text (ascii_bytes s) = Some s"
  by (simp add: latin_text_def ascii_decode list_all_iff comp_def)

text \<open>The text of an integer reads back.\<close>

lemma digit_val_bound: "digit_val c = Some d \<Longrightarrow> d < 10"
  by (auto simp: digit_val_def Let_def split: if_splits)

lemma take_digits_pad:
  "take_digits acc k (nat_digits n @ s) =
     take_digits (acc * 10 ^ length (nat_digits n) + n) (k + length (nat_digits n)) s"
proof (induction n arbitrary: s rule: nat_digits.induct)
  case (1 n)
  show ?case
  proof (cases "n < 10")
    case True
    then show ?thesis by simp
  next
    case False
    then have d: "nat_digits n = nat_digits (n div 10) @ [digit (n mod 10)]" by (subst nat_digits.simps) simp
    show ?thesis
      using 1 [OF False, of "digit (n mod 10) # s"] by (simp add: d algebra_simps)
  qed
qed

lemma nat_digits_first: "0 < n \<Longrightarrow> \<exists>d r. nat_digits n = digit d # r \<and> 0 < d \<and> d < 10"
proof (induction n rule: nat_digits.induct)
  case (1 n)
  show ?case
  proof (cases "n < 10")
    case True
    then show ?thesis using 1(2) by (intro exI [of _ n] exI [of _ "[]"]) simp
  next
    case False
    then have "0 < n div 10" by (simp add: div_greater_zero_iff)
    then obtain d r where "nat_digits (n div 10) = digit d # r" "0 < d" "d < 10"
      using 1(1) [OF False] by blast
    moreover have "nat_digits n = nat_digits (n div 10) @ [digit (n mod 10)]"
      using False by (subst nat_digits.simps) simp
    ultimately show ?thesis by (intro exI [of _ d] exI [of _ "r @ [digit (n mod 10)]"]) simp
  qed
qed

lemma parse_number_digits:
  "parse_number neg (nat_digits n @ CHR ''}'' # s) = Some (JInt (if neg then - int n else int n), CHR ''}'' # s)"
proof (cases "n = 0")
  case True
  then show ?thesis
    by (simp add: parse_number_def json_fraction_def json_exponent_def Let_def)
next
  case False
  then obtain d r where d: "nat_digits n = digit d # r" "0 < d" "d < 10" using nat_digits_first by blast
  have "take_digits 0 0 (nat_digits n @ CHR ''}'' # s) = (n, length (nat_digits n), CHR ''}'' # s)"
    by (simp add: take_digits_pad digit_val_def)
  with d show ?thesis
    by (simp add: parse_number_def json_fraction_def json_exponent_def Let_def)
qed

lemma digit_head:
  assumes "d < 10"
  shows "CHR ''n'' \<noteq> digit d" "CHR ''t'' \<noteq> digit d" "CHR ''f'' \<noteq> digit d" "CHR ''N'' \<noteq> digit d" "CHR ''I'' \<noteq> digit d"
    "CHR ''-'' \<noteq> digit d" "digit d \<noteq> CHR ''-''" "digit d \<noteq> CHR 34" "digit d \<noteq> CHR ''[''" "digit d \<noteq> CHR ''{''"
    "\<not> json_ws (digit d)"
proof -
  have "c \<noteq> digit d" if "(of_char c :: nat) < 48 \<or> 58 \<le> (of_char c :: nat)" for c
    using that of_char_digit [OF assms] assms by auto
  note n = this not_sym [OF this]
  show "CHR ''n'' \<noteq> digit d" "CHR ''t'' \<noteq> digit d" "CHR ''f'' \<noteq> digit d" "CHR ''N'' \<noteq> digit d" "CHR ''I'' \<noteq> digit d"
    "CHR ''-'' \<noteq> digit d" "digit d \<noteq> CHR ''-''" "digit d \<noteq> CHR 34" "digit d \<noteq> CHR ''[''" "digit d \<noteq> CHR ''{''"
    "\<not> json_ws (digit d)"
    unfolding json_ws_def by (simp_all add: n)
qed

lemma nat_digits_head: "\<exists>d r. nat_digits n = digit d # r \<and> d < 10"
  using nat_digits_first [of n] by (cases "n = 0") auto

lemma int_str_cases:
  obtains n where "int_str i = CHR ''-'' # nat_digits n" and "i = - int n"
    | n where "int_str i = nat_digits n" and "i = int n"
proof (cases "i < 0")
  case True
  then show ?thesis using that(1) [of "nat (- i)"] by (simp add: int_str_def)
next
  case False
  then show ?thesis using that(2) [of "nat i"] by (simp add: int_str_def)
qed

lemma parse_value_int:
  "parse_value (Suc f) (int_str i @ CHR ''}'' # s) = Some (JInt i, CHR ''}'' # s)"
proof -
  have w: "parse_word (digit d # x) = None" "parse_word (CHR ''-'' # digit d # x) = None" if "d < 10" for d x
    using digit_head [OF that] by (simp_all add: parse_word_def json_word_def)
  show ?thesis
  proof (cases rule: int_str_cases [of i])
    case (1 n)
    obtain d r where d: "nat_digits n = digit d # r" "d < 10" using nat_digits_head by blast
    have "parse_word (CHR ''-'' # nat_digits n @ CHR ''}'' # s) = None" using w(2) [OF d(2)] by (simp add: d(1))
    then show ?thesis using 1 parse_number_digits [of True n s] by simp
  next
    case (2 n)
    obtain d r where d: "nat_digits n = digit d # r" "d < 10" using nat_digits_head by blast
    show ?thesis
      using 2 digit_head [OF d(2)] w(1) [OF d(2), of "r @ CHR ''}'' # s"] parse_number_digits [of False n s]
      by (simp add: d(1))
  qed
qed

lemma skip_ws_int: "skip_ws (int_str i @ s) = int_str i @ s"
proof (cases rule: int_str_cases [of i])
  case (1 n)
  then show ?thesis by (simp add: skip_ws_def json_ws_def)
next
  case (2 n)
  obtain d r where d: "nat_digits n = digit d # r" "d < 10" using nat_digits_head by blast
  then show ?thesis using 2 digit_head [OF d(2)] by (simp add: skip_ws_def)
qed

lemma skip_ws_string: "skip_ws (json_string_ascii s @ r) = json_string_ascii s @ r"
  by (simp add: json_string_ascii_def skip_ws_def json_ws_def)

lemma skip_ws_colon: "skip_ws (CHR '':'' # r) = CHR '':'' # r" "skip_ws (CHR '','' # r) = CHR '','' # r"
  "skip_ws (CHR ''}'' # r) = CHR ''}'' # r"
  by (simp_all add: skip_ws_def json_ws_def)

lemma parse_members_string:
  "parse_members (Suc (Suc f)) d (json_string_ascii k @ CHR '':'' # json_string_ascii v @ CHR '','' # json_string_ascii k' @ r) =
   parse_members (Suc f) (dict_set k (JStr v) d) (json_string_ascii k' @ r)"
proof -
  have "parse_value (Suc f) (json_string_ascii v @ CHR '','' # json_string_ascii k' @ r) =
      Some (JStr v, CHR '','' # json_string_ascii k' @ r)"
    by (simp add: json_string_ascii_def parse_str_ascii)
  moreover have "parse_str (concat (map json_char_ascii k) @ CHR 34 # q) = Some (k, q)" for q
    by (rule parse_str_ascii)
  ultimately show ?thesis
    unfolding json_string_ascii_def [of k]
    by (simp add: skip_ws_string skip_ws_colon del: parse_value.simps)
qed

lemma parse_members_int:
  "parse_members (Suc (Suc f)) d (json_string_ascii k @ CHR '':'' # int_str i @ [CHR ''}'']) =
   Some (dict_set k (JInt i) d, [])"
proof -
  have "parse_str (concat (map json_char_ascii k) @ CHR 34 # q) = Some (k, q)" for q
    by (rule parse_str_ascii)
  then show ?thesis
    unfolding json_string_ascii_def [of k]
    by (simp add: skip_ws_int skip_ws_colon parse_value_int del: parse_value.simps)
qed

lemma cursor_text_loads:
  "json_loads (cursor_text ts i) = Some (JObj [(''created_at'', JStr ts), (''id'', JInt i)])"
proof -
  let ?r = "json_string_ascii ''created_at'' @ CHR '':'' # json_string_ascii ts @ CHR '','' # json_string_ascii ''id'' @
    CHR '':'' # int_str i @ [CHR ''}'']"
  have len: "3 \<le> length ?r" by (simp add: json_string_ascii_def)
  have arith: "2 * Suc n = Suc (Suc (Suc (2 * n - 1)))" if "3 \<le> n" for n :: nat
    using that by arith
  define f where "f = 2 * length ?r - 1"
  have f: "2 * length (CHR ''{'' # ?r) = Suc (Suc (Suc f))"
    unfolding f_def length_Cons by (rule arith [OF len])
  have ct: "cursor_text ts i = CHR ''{'' # ?r" by (simp add: cursor_text_def)
  have sk: "skip_ws ?r = ?r" by (rule skip_ws_string)
  have m: "parse_members (Suc (Suc (Suc f))) [] ?r = Some ([(''created_at'', JStr ts), (''id'', JInt i)], [])"
    by (simp only: parse_members_string parse_members_int) (simp add: dict_set_def)
  have h: "\<exists>q. ?r = CHR 34 # q" by (simp add: json_string_ascii_def)
  then obtain q where q: "?r = CHR 34 # q" by blast
  have "parse_value (Suc (Suc (Suc (Suc f)))) (CHR ''{'' # ?r) =
      Some (JObj [(''created_at'', JStr ts), (''id'', JInt i)], [])"
    using sk m unfolding q by (simp del: parse_members.simps)
  moreover have "skip_ws (CHR ''{'' # ?r) = CHR ''{'' # ?r" by (simp add: skip_ws_def json_ws_def)
  ultimately show ?thesis
    unfolding json_loads_def ct f by (simp add: skip_ws_def)
qed

lemma json_char_is_ascii: "x \<in> set (json_char_ascii c) \<Longrightarrow> (of_char x :: nat) < 128"
proof -
  assume x: "x \<in> set (json_char_ascii c)"
  define n where "n = (of_char c :: nat)"
  have n: "n div 16 < 16" unfolding n_def by (rule less_mult_imp_div_less) simp
  have d: "(of_char (hex_digit (n div 16)) :: nat) < 128" "(of_char (hex_digit (n mod 16)) :: nat) < 128"
    using n hex_ascii by simp_all
  show ?thesis
  proof (cases "127 \<le> n")
    case True
    then show ?thesis using x d by (auto simp: json_char_ascii_def n_def [symmetric] Let_def)
  next
    case False
    then have "x \<in> set (json_char c)" using x by (simp add: json_char_ascii_def n_def [symmetric] Let_def)
    then show ?thesis using False d by (auto simp: json_char_def n_def [symmetric] Let_def split: if_splits)
  qed
qed

lemma digits_ascii: "x \<in> set (nat_digits n) \<Longrightarrow> (of_char x :: nat) < 128"
proof (induction n rule: nat_digits.induct)
  case (1 n)
  show ?case
  proof (cases "n < 10")
    case True
    with 1(2) show ?thesis by (simp add: of_char_digit)
  next
    case False
    then have "nat_digits n = nat_digits (n div 10) @ [digit (n mod 10)]" by (subst nat_digits.simps) simp
    with 1 False show ?thesis by (auto simp: of_char_digit)
  qed
qed

lemma cursor_text_ascii: "list_all (\<lambda>c. (of_char c :: nat) < 128) (cursor_text ts i)"
  by (cases rule: int_str_cases [of i])
    (auto simp: cursor_text_def json_string_ascii_def list_all_iff dest: json_char_is_ascii digits_ascii)

lemma decode_encode_cursor: "decode_cursor (Some (encode_cursor ts i)) = Inr (Some (ts, i))"
proof -
  define bs where "bs = ascii_bytes (cursor_text ts i)"
  define c where "c = encode_cursor ts i"
  have pad: "c @ replicate ((4 - length c mod 4) mod 4) (CHR ''='') = urlsafe_b64encode bs"
    using repad [of bs] by (simp add: c_def encode_cursor_def bs_def Let_def)
  have lt: "latin_text bs = Some (cursor_text ts i)"
    unfolding bs_def by (rule latin_text_ascii [OF cursor_text_ascii])
  have ne: "c \<noteq> []"
  proof
    assume "c = []"
    with pad have "urlsafe_b64encode bs = []" by simp
    then have "bs = []" using urlsafe_b64decode_encode [of bs] by (simp add: urlsafe_b64decode_def b64decode_def)
    then show False by (simp add: bs_def ascii_bytes_def cursor_text_def)
  qed
  have ascii: "\<not> list_ex (\<lambda>c. 128 \<le> (of_char c :: nat)) (urlsafe_b64encode bs)"
    using b64_ascii by (auto simp: list_ex_iff not_le)
  show ?thesis
    unfolding decode_cursor_def c_def [symmetric] truthy.simps option.sel Let_def pad
    using ne ascii by (simp add: urlsafe_b64decode_encode lt cursor_text_loads dict_get_def)
qed

section \<open>Pages\<close>

text \<open>\<open>created_at < ? OR (created_at = ? AND id < ?)\<close>\<close>

definition before_cursor :: "(iso \<times> int) option \<Rightarrow> iso \<times> int \<Rightarrow> bool" where
  "before_cursor cur k = (case cur of None \<Rightarrow> True
     | Some (created_at, row_id) \<Rightarrow> fst k < created_at \<or> fst k = created_at \<and> snd k < row_id)"

definition time_filters :: "string option \<Rightarrow> string option \<Rightarrow> iso \<Rightarrow> bool" where
  "time_filters since until created_at \<longleftrightarrow>
     (truthy since \<longrightarrow> the since \<le> created_at) \<and> (truthy until \<longrightarrow> created_at \<le> the until)"

text \<open>The rows of one page and the key of the next cursor.\<close>

definition fetch_page ::
  "('r \<Rightarrow> iso \<times> int) \<Rightarrow> ('r \<Rightarrow> bool) \<Rightarrow> nat \<Rightarrow> (iso \<times> int) option \<Rightarrow> 'r list \<Rightarrow> 'r list \<times> (iso \<times> int) option" where
  "fetch_page key P limit cur table =
     (let rows = take (limit + 1) (order_by_desc key (filter (\<lambda>r. P r \<and> before_cursor cur (key r)) table));
          page_rows = take limit rows
      in (page_rows, if limit < length rows \<and> page_rows \<noteq> [] then Some (key (last page_rows)) else None))"

text \<open>A client that follows the cursors, for \<open>fuel\<close> requests.\<close>

fun read_pages :: "nat \<Rightarrow> ('r \<Rightarrow> iso \<times> int) \<Rightarrow> ('r \<Rightarrow> bool) \<Rightarrow> nat \<Rightarrow> (iso \<times> int) option \<Rightarrow> 'r list \<Rightarrow> 'r list option" where
  "read_pages 0 key P limit cur table = None"
| "read_pages (Suc fuel) key P limit cur table =
     (case fetch_page key P limit cur table of
        (page, None) \<Rightarrow> Some page
      | (page, Some k) \<Rightarrow> map_option ((@) page) (read_pages fuel key P limit (Some k) table))"

lemma before_cursor_Some: "before_cursor (Some k) k' \<longleftrightarrow> k' < k"
  by (cases k; cases k') (auto simp: before_cursor_def less_prod_def)

lemma sort_key_filter: "sort_key k (filter P xs) = filter P (sort_key k xs)"
  by (rule filter_sort [symmetric])

lemma order_by_desc_filter: "order_by_desc k (filter P xs) = filter P (order_by_desc k xs)"
  by (simp add: order_by_desc_def sort_key_filter rev_filter)

lemma set_order_by_desc [simp]: "set (order_by_desc k xs) = set xs"
  by (simp add: order_by_desc_def)

lemma order_by_desc_strict:
  "distinct (map key xs) \<Longrightarrow> sorted_wrt (\<lambda>a b. key b < key a) (order_by_desc key xs)"
proof -
  assume d: "distinct (map key xs)"
  have "distinct (map key (sort_key key xs))"
    using d by (metis distinct_map distinct_sort set_sort)
  then have "sorted_wrt (<) (map key (sort_key key xs))"
    by (simp add: strict_sorted_iff)
  then have "sorted_wrt (\<lambda>a b. key a < key b) (sort_key key xs)" by (simp add: sorted_wrt_map)
  then show ?thesis by (simp add: order_by_desc_def sorted_wrt_rev)
qed

lemma filter_below:
  assumes "sorted_wrt (\<lambda>a b. key b < key a) L" and "n < length L"
  shows "filter (\<lambda>r. key r < (key (L ! n) :: 'k :: linorder)) L = drop (Suc n) L"
proof -
  have "filter (\<lambda>r. key r < key (L ! n)) L =
      filter (\<lambda>r. key r < key (L ! n)) (take (Suc n) L) @ filter (\<lambda>r. key r < key (L ! n)) (drop (Suc n) L)"
    by (metis append_take_drop_id filter_append)
  moreover have "filter (\<lambda>r. key r < key (L ! n)) (take (Suc n) L) = []"
  proof -
    have "\<not> key x < key (L ! n)" if "x \<in> set (take (Suc n) L)" for x
    proof -
      from that have "\<exists>i \<le> n. x = L ! i" using assms(2) by (auto simp: in_set_conv_nth less_Suc_eq_le)
      then obtain i where i: "i \<le> n" "x = L ! i" by blast
      show ?thesis
      proof (cases "i = n")
        case False
        with i have "key (L ! n) < key x" using sorted_wrt_nth_less [OF assms(1), of i n] assms(2) by simp
        then show ?thesis by auto
      qed (simp add: i)
    qed
    then show ?thesis by (simp add: filter_empty_conv)
  qed
  moreover have "filter (\<lambda>r. key r < key (L ! n)) (drop (Suc n) L) = drop (Suc n) L"
  proof (rule filter_True, rule ballI)
    fix x assume "x \<in> set (drop (Suc n) L)"
    then obtain i where "i < length L - Suc n" "x = L ! (Suc n + i)" by (auto simp: in_set_conv_nth)
    then show "key x < key (L ! n)" using sorted_wrt_nth_less [OF assms(1), of n "Suc n + i"] by simp
  qed
  ultimately show ?thesis by simp
qed

lemma fetch_page_at:
  assumes d: "distinct (map key (filter P table))" and lim: "0 < limit"
    and c: "filter (\<lambda>r. before_cursor cur (key r)) (order_by_desc key (filter P table)) = drop n (order_by_desc key (filter P table))"
  defines "L \<equiv> order_by_desc key (filter P table)"
  shows "fetch_page key P limit cur table = (take limit (drop n L),
    if limit < length L - n then Some (key (L ! (n + limit - 1))) else None)"
proof -
  have sel: "order_by_desc key (filter (\<lambda>r. P r \<and> before_cursor cur (key r)) table) = drop n L"
  proof -
    have "filter (\<lambda>r. P r \<and> before_cursor cur (key r)) table = filter (\<lambda>r. before_cursor cur (key r)) (filter P table)"
      by (simp add: conj_commute)
    then show ?thesis using c by (simp only: order_by_desc_filter L_def)
  qed
  have len: "length (take (limit + 1) (drop n L)) = min (limit + 1) (length L - n)" by simp
  have page: "take limit (take (limit + 1) (drop n L)) = take limit (drop n L)" by simp
  show ?thesis
  proof (cases "limit < length L - n")
    case True
    then have "last (take limit (drop n L)) = L ! (n + limit - 1)" and "take limit (drop n L) \<noteq> []"
      using lim by (simp_all add: last_conv_nth)
    then show ?thesis
      unfolding fetch_page_def sel Let_def page len using True by simp
  next
    case False
    then show ?thesis unfolding fetch_page_def sel Let_def page len by simp
  qed
qed

lemma read_pages_from:
  assumes d: "distinct (map key (filter P table))" and lim: "0 < limit"
    and c: "filter (\<lambda>r. before_cursor cur (key r)) (order_by_desc key (filter P table)) = drop n (order_by_desc key (filter P table))"
    and f: "length (order_by_desc key (filter P table)) - n < fuel"
  shows "read_pages fuel key P limit cur table = Some (drop n (order_by_desc key (filter P table)))"
  using c f
proof (induction fuel arbitrary: cur n)
  case (Suc fuel)
  define L where "L = order_by_desc key (filter P table)"
  note page = fetch_page_at [OF d lim Suc.prems(1), folded L_def]
  show ?case
  proof (cases "limit < length L - n")
    case False
    then show ?thesis by (simp add: page L_def [symmetric])
  next
    case True
    define m where "m = n + limit - 1"
    have m: "m < length L" "Suc m = n + limit" using True lim by (auto simp: m_def)
    have "filter (\<lambda>r. before_cursor (Some (key (L ! m))) (key r)) L = drop (Suc m) L"
      unfolding before_cursor_Some L_def
      by (rule filter_below) (use order_by_desc_strict [OF d] m(1) in \<open>simp_all add: L_def\<close>)
    then have "read_pages fuel key P limit (Some (key (L ! m))) table = Some (drop (Suc m) L)"
      using Suc.IH [of "Some (key (L ! m))" "Suc m"] Suc.prems(2) True m lim by (simp add: L_def)
    moreover have "take limit (drop n L) @ drop (n + limit) L = drop n L"
      by (metis add.commute append_take_drop_id drop_drop)
    ultimately show ?thesis using True unfolding read_pages.simps page m_def [symmetric] L_def [symmetric]
      by (simp add: m(2))
  qed
qed simp

section \<open>The interface of a paged list\<close>

text \<open>A client that follows the cursors of a list with a fixed page size and filter, for \<open>fuel\<close> requests.\<close>

fun follow :: "(string option \<Rightarrow> 'e + 'v list \<times> string option) \<Rightarrow> nat \<Rightarrow> string option \<Rightarrow> 'v list option" where
  "follow get 0 cursor = None"
| "follow get (Suc fuel) cursor =
     (case get cursor of
        Inl _ \<Rightarrow> None
      | Inr (items, None) \<Rightarrow> Some items
      | Inr (items, Some c) \<Rightarrow> map_option ((@) items) (follow get fuel (Some c)))"

text \<open>
  What such a client relies on: \<open>get limit cursor w\<close> answers a readable cursor with the page of the
  rows \<open>rows w\<close> that pass the filter \<open>P\<close>, seen through \<open>view\<close>, and with the cursor of its last row.
\<close>

locale page_server =
  fixes get :: "nat \<Rightarrow> string option \<Rightarrow> 's \<Rightarrow> 'e + 'v list \<times> string option"
    and rows :: "'s \<Rightarrow> 'r list" and key :: "'r \<Rightarrow> iso \<times> int" and P :: "'r \<Rightarrow> bool" and view :: "'r \<Rightarrow> 'v"
  assumes get_page: "decode_cursor cursor = Inr cur \<Longrightarrow> fetch_page key P limit cur (rows w) = (page, nxt) \<Longrightarrow>
    get limit cursor w = Inr (map view page, map_option (\<lambda>(c, i). encode_cursor c i) nxt)"
begin

lemma follow_pages:
  assumes "decode_cursor cursor = Inr cur"
  shows "follow (\<lambda>c. get limit c w) fuel cursor = map_option (map view) (read_pages fuel key P limit cur (rows w))"
  using assms
proof (induction fuel arbitrary: cursor cur)
  case (Suc fuel)
  obtain page nxt where f: "fetch_page key P limit cur (rows w) = (page, nxt)" by fastforce
  show ?case
  proof (cases nxt)
    case None
    then show ?thesis using get_page [OF Suc.prems f] f by simp
  next
    case (Some k)
    obtain c i where k: "k = (c, i)" by fastforce
    have "follow (\<lambda>c. get limit c w) fuel (Some (encode_cursor c i)) =
        map_option (map view) (read_pages fuel key P limit (Some k) (rows w))"
      by (rule Suc.IH) (simp add: decode_encode_cursor k)
    then show ?thesis using get_page [OF Suc.prems f] f by (simp add: Some k option.map_comp comp_def)
  qed
qed simp

lemma follow_all:
  assumes "distinct (map (snd \<circ> key) (rows w))" and "0 < limit" and "length (rows w) < fuel"
  shows "follow (\<lambda>c. get limit c w) fuel None = Some (map view (order_by_desc key (filter P (rows w))))"
proof -
  have "inj_on (snd \<circ> key) (set (filter P (rows w)))"
    using assms(1) by (auto simp: distinct_map intro: inj_on_subset)
  then have "inj_on key (set (filter P (rows w)))" by (rule inj_on_imageI2)
  then have "distinct (map key (filter P (rows w)))"
    using assms(1) by (auto simp: distinct_map)
  moreover have "length (filter P (rows w)) < fuel"
    using assms(3) length_filter_le [of P "rows w"] by linarith
  ultimately have "read_pages fuel key P limit None (rows w) = Some (order_by_desc key (filter P (rows w)))"
    using read_pages_from [of key P "rows w" limit None 0 fuel] assms(2)
    by (simp add: before_cursor_def order_by_desc_def)
  then show ?thesis using follow_pages [of None None limit w fuel] by (simp add: decode_cursor_def)
qed

end

section \<open>Properties\<close>

text \<open>A cursor decodes to the creation time and row id it was made of, whatever characters they hold.\<close>

theorem cursor_round_trip: "decode_cursor (Some (encode_cursor created_at row_id)) = Inr (Some (created_at, row_id))"
  by (rule decode_encode_cursor)

end
