(* ===== verification/Review.thy ===== *)
theory Review
  imports Store Json
begin

text \<open>
  \<open>app/review.py\<close>: the review of a risky task by a language model. The HTTP exchange is the
  environment: it gives the lines of the stream, a timeout or another failure. \<open>json.loads\<close> and
  \<open>float\<close> of a text are fields of \<open>reader\<close>, because an answer may hold characters that the
  strings of this development do not have. Texts in Chinese are given by their UTF-8 bytes.
\<close>

section \<open>Decisions\<close>

record risk_factor =
  rf_category :: string
  rf_detail :: string
  rf_severity :: string

record review_decision =
  rd_decision :: string
  rd_risk_score :: rat
  rd_risk_factors :: "risk_factor list"
  rd_reasoning :: string

record review_context =
  rc_task_type :: string
  rc_node_id :: string
  rc_node_type :: string
  rc_payload :: dict
  rc_workdir :: "string option"
  rc_env :: "(string \<times> string) list"
  rc_requested_gpu_ids :: "int list"
  rc_admin_username :: string
  rc_node_os :: "string option"
  rc_node_tags :: "string list"
  rc_legacy_blacklist_match :: "string option"

text \<open>A Python float.\<close>

datatype pyfloat = Finite rat | Pos_Inf | Neg_Inf | Not_A_Number

record reader =
  rd_loads :: "string \<Rightarrow> json option"
  rd_float :: "string \<Rightarrow> pyfloat option"

definition reason_timeout_head :: string where
  "reason_timeout_head =
     map char_of ([65, 73, 32, 229, 174, 161, 230, 160, 184, 232, 182, 133, 230, 151, 182, 239, 188,
     136] :: nat list)"

definition reason_timeout_tail :: string where
  "reason_timeout_tail =
     map char_of ([115, 239, 188, 137, 239, 188, 140, 232, 135, 170, 229, 138, 168, 229, 141, 135, 231,
     186, 167, 229, 136, 176, 228, 186, 186, 229, 183, 165, 229, 174, 161, 230, 160, 184] :: nat list)"

definition reason_failure :: string where
  "reason_failure =
     map char_of ([65, 73, 32, 229, 174, 161, 230, 160, 184, 229, 188, 130, 229, 184, 184, 239, 188,
     140, 232, 135, 170, 229, 138, 168, 229, 141, 135, 231, 186, 167, 229, 136, 176, 228, 186, 186,
     229, 183, 165, 229, 174, 161, 230, 160, 184] :: nat list)"

definition reason_format :: string where
  "reason_format =
     map char_of ([65, 73, 32, 232, 191, 148, 229, 155, 158, 230, 160, 188, 229, 188, 143, 229, 188,
     130, 229, 184, 184, 239, 188, 140, 232, 135, 170, 229, 138, 168, 229, 141, 135, 231, 186, 167,
     229, 136, 176, 228, 186, 186, 229, 183, 165, 229, 174, 161, 230, 160, 184] :: nat list)"

definition uncertain :: "string \<Rightarrow> review_decision" where
  "uncertain reason = \<lparr>rd_decision = ''uncertain'', rd_risk_score = 1 / 2, rd_risk_factors = [], rd_reasoning = reason\<rparr>"

section \<open>Reading the answer\<close>

text \<open>\<open>s.find(c)\<close> and \<open>s.rfind(c)\<close>; None is \<open>-1\<close>.\<close>

fun find_char :: "char \<Rightarrow> string \<Rightarrow> nat option" where
  "find_char c [] = None"
| "find_char c (x # s) = (if x = c then Some 0 else map_option Suc (find_char c s))"

definition rfind_char :: "char \<Rightarrow> string \<Rightarrow> nat option" where
  "rfind_char c s = map_option (\<lambda>i. length s - Suc i) (find_char c (rev s))"

definition extract_object :: "string \<Rightarrow> string" where
  "extract_object s =
     (case (find_char CHR ''{'' s, rfind_char CHR ''}'' s) of
        (Some a, Some b) \<Rightarrow> if a < Suc b then drop a (take (Suc b) s) else s
      | _ \<Rightarrow> s)"

text \<open>\<open>float(v)\<close> of a JSON value; None is an exception, such as an integer that is too large.\<close>

definition json_to_float :: "reader \<Rightarrow> json \<Rightarrow> pyfloat option" where
  "json_to_float rd v =
     (case v of
        JInt i \<Rightarrow> if \<bar>i\<bar> < 2 ^ 1024 - 2 ^ 970 then Some (Finite (of_int i)) else None
      | JFloat r l \<Rightarrow> Some (if l = ''NaN'' then Not_A_Number else if l = ''Infinity'' then Pos_Inf
                          else if l = ''-Infinity'' then Neg_Inf else Finite r)
      | JBool b \<Rightarrow> Some (Finite (if b then 1 else 0))
      | JStr s \<Rightarrow> rd_float rd s
      | _ \<Rightarrow> None)"

text \<open>\<open>max(0.0, min(1.0, x))\<close>: a comparison with NaN is false, so \<open>min\<close> keeps 1.0.\<close>

definition clamp01 :: "pyfloat \<Rightarrow> rat" where
  "clamp01 x = (case x of Finite r \<Rightarrow> max 0 (min 1 r) | Pos_Inf \<Rightarrow> 1 | Neg_Inf \<Rightarrow> 0 | Not_A_Number \<Rightarrow> 1)"

definition get_default :: "dict \<Rightarrow> string \<Rightarrow> json \<Rightarrow> json" where
  "get_default d k v = (case dict_get d k of Some x \<Rightarrow> x | None \<Rightarrow> v)"

text \<open>Iterating over \<open>data.get("risk_factors", [])\<close>: what is no dict is skipped; None when it is not iterable.\<close>

definition factor_of :: "json \<Rightarrow> risk_factor list" where
  "factor_of v = (case v of
     JObj f \<Rightarrow> [\<lparr>rf_category = py_str (get_default f ''category'' (JStr [])),
                rf_detail = py_str (get_default f ''detail'' (JStr [])),
                rf_severity = py_str (get_default f ''severity'' (JStr ''medium''))\<rparr>]
   | _ \<Rightarrow> [])"

definition factors_of :: "json \<Rightarrow> risk_factor list option" where
  "factors_of v = (case v of JList xs \<Rightarrow> Some (concat (map factor_of xs)) | JObj _ \<Rightarrow> Some [] | JStr _ \<Rightarrow> Some []
     | _ \<Rightarrow> None)"

text \<open>\<open>_parse_response\<close>; None is an exception that \<open>review\<close> catches.\<close>

definition parse_response :: "reader \<Rightarrow> string \<Rightarrow> review_decision option" where
  "parse_response rd answer =
     (case rd_loads rd (extract_object (strip answer)) of
        None \<Rightarrow> Some (uncertain reason_format)
      | Some (JObj data) \<Rightarrow>
          (let decision = (case dict_get data ''decision'' of
                 Some (JStr s) \<Rightarrow> if s \<in> {''approve'', ''reject'', ''uncertain''} then s else ''uncertain''
               | _ \<Rightarrow> ''uncertain'')
           in case json_to_float rd (get_default data ''risk_score'' (JFloat (1 / 2) ''0.5'')) of
                None \<Rightarrow> None
              | Some score \<Rightarrow>
                  (case factors_of (get_default data ''risk_factors'' (JList [])) of
                     None \<Rightarrow> None
                   | Some factors \<Rightarrow> Some \<lparr>rd_decision = decision, rd_risk_score = clamp01 score,
                       rd_risk_factors = factors,
                       rd_reasoning = py_str (get_default data ''reasoning'' (JStr []))\<rparr>))
      | Some _ \<Rightarrow> None)"

section \<open>The stream\<close>

text \<open>
  One line of the stream: the end, a line that adds nothing, the content it adds, or an exception
  that is not caught in the loop (\<open>delta\<close> is no dict, so it has no \<open>get\<close>).
\<close>

datatype sse_line = Sse_Done | Sse_Skip | Sse_Delta json | Sse_Raise

definition sse_line_of :: "reader \<Rightarrow> string \<Rightarrow> sse_line" where
  "sse_line_of rd line =
     (if \<not> starts_with ''data: '' line then Sse_Skip
      else (let data = drop 6 line in
        if strip data = ''[DONE]'' then Sse_Done
        else
          (case rd_loads rd data of
             Some (JObj chunk) \<Rightarrow>
               (case dict_get chunk ''choices'' of
                  Some (JList (JObj choice # _)) \<Rightarrow>
                    (case dict_get choice ''delta'' of
                       None \<Rightarrow> Sse_Skip
                     | Some (JObj delta) \<Rightarrow>
                         (let c = get_default delta ''content'' (JStr []) in if json_truth c then Sse_Delta c else Sse_Skip)
                     | Some _ \<Rightarrow> Sse_Raise)
                | _ \<Rightarrow> Sse_Skip)
           | _ \<Rightarrow> Sse_Skip)))"

text \<open>The loop and \<open>"".join(collected)\<close>, which fails on a part that is no text.\<close>

fun collect_lines :: "reader \<Rightarrow> string list \<Rightarrow> json list option" where
  "collect_lines rd [] = Some []"
| "collect_lines rd (l # ls) =
     (case sse_line_of rd l of
        Sse_Done \<Rightarrow> Some []
      | Sse_Skip \<Rightarrow> collect_lines rd ls
      | Sse_Delta c \<Rightarrow> map_option ((#) c) (collect_lines rd ls)
      | Sse_Raise \<Rightarrow> None)"

fun join_texts :: "json list \<Rightarrow> string option" where
  "join_texts [] = Some []"
| "join_texts (JStr s # xs) = map_option ((@) s) (join_texts xs)"
| "join_texts (_ # xs) = None"

definition stream_chat_completion :: "reader \<Rightarrow> string list \<Rightarrow> string option" where
  "stream_chat_completion rd lines = Option.bind (collect_lines rd lines) join_texts"

datatype llm_outcome = Llm_Lines "string list" | Llm_Timeout | Llm_Failure

definition is_configured :: "settings \<Rightarrow> bool" where
  "is_configured s \<longleftrightarrow> review_llm_api_key s \<noteq> []"

text \<open>\<open>review\<close>; the timeout setting is read as the text that the reason shows.\<close>

definition review :: "reader \<Rightarrow> string \<Rightarrow> llm_outcome \<Rightarrow> review_decision" where
  "review rd timeout_text outcome =
     (case outcome of
        Llm_Timeout \<Rightarrow> uncertain (reason_timeout_head @ timeout_text @ reason_timeout_tail)
      | Llm_Failure \<Rightarrow> uncertain reason_failure
      | Llm_Lines ls \<Rightarrow>
          (case Option.bind (stream_chat_completion rd ls) (parse_response rd) of
             None \<Rightarrow> uncertain reason_failure
           | Some d \<Rightarrow> d))"

section \<open>Properties\<close>

lemma clamp01_bounds: "0 \<le> clamp01 x \<and> clamp01 x \<le> 1"
  by (cases x) (simp_all add: clamp01_def)

lemma parse_response_facts:
  assumes "parse_response rd answer = Some d"
  shows "rd_decision d \<in> {''approve'', ''reject'', ''uncertain''} \<and> 0 \<le> rd_risk_score d \<and> rd_risk_score d \<le> 1 \<and>
    (rd_decision d = ''approve'' \<longrightarrow>
      (\<exists>data. rd_loads rd (extract_object (strip answer)) = Some (JObj data) \<and>
         dict_get data ''decision'' = Some (JStr ''approve'')))"
  using assms clamp01_bounds
  by (auto simp: parse_response_def uncertain_def Let_def split: option.splits json.splits if_splits)

text \<open>C17. The review fails safe: its decision is one of three and its score lies in [0, 1] whatever the model
  answers, and it approves only when the stream was read to a text whose JSON object says \<open>approve\<close>;
  a timeout, a failure or an unreadable answer never approves.\<close>

theorem review_fails_safe:
  "rd_decision (review rd tt outcome) \<in> {''approve'', ''reject'', ''uncertain''} \<and>
   0 \<le> rd_risk_score (review rd tt outcome) \<and> rd_risk_score (review rd tt outcome) \<le> 1 \<and>
   (if rd_decision (review rd tt outcome) = ''approve'' then
      \<exists>ls answer data. outcome = Llm_Lines ls \<and> stream_chat_completion rd ls = Some answer \<and>
        rd_loads rd (extract_object (strip answer)) = Some (JObj data) \<and>
        dict_get data ''decision'' = Some (JStr ''approve'') else True)"
proof (cases outcome)
  case (Llm_Lines ls)
  show ?thesis
  proof (cases "Option.bind (stream_chat_completion rd ls) (parse_response rd)")
    case None
    then show ?thesis by (simp add: Llm_Lines review_def uncertain_def)
  next
    case (Some d)
    then obtain answer where a: "stream_chat_completion rd ls = Some answer" "parse_response rd answer = Some d"
      by (auto simp: bind_eq_Some_conv)
    have r: "review rd tt outcome = d" by (simp add: review_def Llm_Lines Some)
    show ?thesis unfolding r using parse_response_facts [OF a(2)] a(1) Llm_Lines by auto
  qed
qed (simp_all add: review_def uncertain_def)

end
