(* ===== verification/Admin_Tasks.thy ===== *)
theory Admin_Tasks
  imports Review Task_State Pagination Node_Runtime Examples
begin

text \<open>
  \<open>app/services/admin_tasks_service.py\<close>: creation, views, cancellation and the human review of tasks.
  The administrator is the row that \<open>get_current_admin\<close> returned; the client's address, the clock,
  random bytes and the answer of the language model are arguments.
\<close>

section \<open>Requests and views\<close>

record task_create =
  tc_node_id :: string
  tc_type :: string
  tc_payload :: dict
  tc_task_id :: "string option"
  tc_revision :: int
  tc_idempotency_key :: "string option"
  tc_workdir :: "string option"
  tc_env :: "(string \<times> string) list"
  tc_requested_gpu_ids :: "int list"
  tc_timeout_sec :: "int option"
  tc_kill_grace_sec :: int
  tc_danger_level :: string

definition env_json :: "(string \<times> string) list \<Rightarrow> json" where
  "env_json env = JObj (map (\<lambda>(k, v). (k, JStr v)) env)"

text \<open>\<open>payload.model_dump()\<close>\<close>

definition task_create_dump :: "task_create \<Rightarrow> dict" where
  "task_create_dump p = [(''node_id'', JStr (tc_node_id p)), (''type'', JStr (tc_type p)), (''payload'', JObj (tc_payload p)),
     (''task_id'', opt_json JStr (tc_task_id p)), (''revision'', JInt (tc_revision p)),
     (''idempotency_key'', opt_json JStr (tc_idempotency_key p)), (''workdir'', opt_json JStr (tc_workdir p)),
     (''env'', env_json (tc_env p)), (''requested_gpu_ids'', JList (map JInt (tc_requested_gpu_ids p))),
     (''timeout_sec'', opt_json JInt (tc_timeout_sec p)), (''kill_grace_sec'', JInt (tc_kill_grace_sec p)),
     (''danger_level'', JStr (tc_danger_level p))]"

record task_list_item =
  ti_task_id :: string
  ti_revision :: int
  ti_node_id :: string
  ti_type :: string
  ti_status :: task_status
  ti_workdir :: "string option"
  ti_requested_gpu_ids :: "int list"
  ti_timeout_sec :: int
  ti_danger_level :: string
  ti_created_at :: iso
  ti_claimed_at :: "iso option"
  ti_started_at :: "iso option"
  ti_finished_at :: "iso option"

definition task_row_to_list_item :: "task_row \<Rightarrow> task_list_item" where
  "task_row_to_list_item r = \<lparr>ti_task_id = t_task_id r, ti_revision = t_revision r, ti_node_id = t_node_id r,
     ti_type = t_type r, ti_status = t_status r, ti_workdir = t_workdir r,
     ti_requested_gpu_ids = t_requested_gpu_ids r, ti_timeout_sec = t_timeout_sec r,
     ti_danger_level = t_danger_level r, ti_created_at = t_created_at r, ti_claimed_at = t_claimed_at r,
     ti_started_at = t_started_at r, ti_finished_at = t_finished_at r\<rparr>"

record log_view =
  lv_stream :: stream
  lv_last_offset :: int
  lv_preview_text :: utext
  lv_center_log_path :: "path option"
  lv_is_truncated :: bool
  lv_truncated_notice :: "string option"
  lv_updated_at :: iso

definition load_log_views :: "string \<Rightarrow> database \<Rightarrow> log_view list" where
  "load_log_views task_id d =
     map (\<lambda>r. \<lparr>lv_stream = l_stream r, lv_last_offset = l_last_offset r, lv_preview_text = l_preview_text r,
            lv_center_log_path = l_center_log_path r, lv_is_truncated = l_is_truncated r,
            lv_truncated_notice = (if l_truncated_notice r = [] then None else Some (l_truncated_notice r)),
            lv_updated_at = l_updated_at r\<rparr>)
       (order_by (\<lambda>r. stream_str (l_stream r)) (filter (\<lambda>r. l_task_id r = task_id) (d_logs d)))"

record result_view =
  rv_exit_code :: "int option"
  rv_summary :: dict
  rv_finished_at :: "iso option"

definition load_result_summary :: "string \<Rightarrow> database \<Rightarrow> result_view option" where
  "load_result_summary task_id d =
     map_option (\<lambda>r. \<lparr>rv_exit_code = at_exit_code r, rv_summary = at_result_summary r,
        rv_finished_at = at_finished_at r\<rparr>) (latest_attempt task_id (d_attempts d))"

record artifact_view =
  av_artifact_name :: string
  av_artifact_type :: string
  av_content_type :: "string option"
  av_size_bytes :: int
  av_storage_path :: path
  av_preview :: dict
  av_created_at :: iso

definition load_artifacts :: "string \<Rightarrow> database \<Rightarrow> artifact_view list" where
  "load_artifacts task_id d =
     map (\<lambda>r. \<lparr>av_artifact_name = f_artifact_name r, av_artifact_type = f_artifact_type r,
            av_content_type = f_content_type r, av_size_bytes = f_size_bytes r, av_storage_path = f_storage_path r,
            av_preview = f_preview r, av_created_at = f_created_at r\<rparr>)
       (order_by (\<lambda>r. (f_created_at r, f_id r)) (filter (\<lambda>r. f_task_id r = task_id) (d_artifacts d)))"

record task_detail =
  td_item :: task_list_item
  td_idempotency_key :: string
  td_payload :: dict
  td_env :: "(string \<times> string) list"
  td_kill_grace_sec :: int
  td_logs :: "log_view list"
  td_artifacts :: "artifact_view list"
  td_result :: "result_view option"
  td_review_stage :: "int option"
  td_review_decision :: "string option"

definition task_row_to_detail :: "bool \<Rightarrow> bool \<Rightarrow> bool \<Rightarrow> database \<Rightarrow> task_row \<Rightarrow> task_detail" where
  "task_row_to_detail include_logs include_artifacts include_result d r =
     \<lparr>td_item = task_row_to_list_item r, td_idempotency_key = t_idempotency_key r, td_payload = t_payload r,
      td_env = t_env r, td_kill_grace_sec = t_kill_grace_sec r,
      td_logs = (if include_logs then load_log_views (t_task_id r) d else []),
      td_artifacts = (if include_artifacts then load_artifacts (t_task_id r) d else []),
      td_result = (if include_result then load_result_summary (t_task_id r) d else None),
      td_review_stage = t_review_stage r, td_review_decision = t_review_decision r\<rparr>"

section \<open>Audit rows and alerts\<close>

definition review_decision_label :: "string \<Rightarrow> string" where
  "review_decision_label decision =
     (case map_of [(''approve'', ''approve''), (''reject'', ''reject''), (''uncertain'', ''escalate''),
        (''skipped'', ''escalate''), (''pending_human'', ''escalate''), (''human_approved'', ''approve''),
        (''human_rejected'', ''reject''), (''expired'', ''expired'')] decision of
        Some l \<Rightarrow> l | None \<Rightarrow> ''escalate'')"

definition insert_review_audit ::
  "string \<Rightarrow> int \<Rightarrow> string \<Rightarrow> string option \<Rightarrow> string \<Rightarrow> rat option \<Rightarrow> json option \<Rightarrow> string option \<Rightarrow> iso \<Rightarrow> world \<Rightarrow> world" where
  "insert_review_audit task_id stage reviewer_type reviewer_id decision risk_score risk_factors reasoning created_at w =
     observe [REVIEW_DECISION (if reviewer_type = ''human'' \<or> stage = 3 then ''human'' else ''llm'')
                (review_decision_label decision)]
       (w\<lparr>db := bump T_Reviews ((db w)\<lparr>d_reviews := d_reviews (db w) @
          [\<lparr>r_id = next_id T_Reviews (db w), r_task_id = task_id, r_stage = stage, r_reviewer_type = reviewer_type,
            r_reviewer_id = reviewer_id, r_decision = decision, r_risk_score = risk_score,
            r_risk_factors = risk_factors, r_reasoning = reasoning, r_duration_sec = None,
            r_created_at = created_at\<rparr>]\<rparr>)\<rparr>)"

definition insert_alert ::
  "string \<Rightarrow> string \<Rightarrow> string \<Rightarrow> string option \<Rightarrow> dict option \<Rightarrow> string option \<Rightarrow> string option \<Rightarrow> iso option \<Rightarrow> iso \<Rightarrow> world \<Rightarrow> world" where
  "insert_alert alert_type severity title summary detail target_type target_id expires_at created_at w =
     w\<lparr>db := bump T_Alerts ((db w)\<lparr>d_alerts := d_alerts (db w) @
        [\<lparr>al_id = next_id T_Alerts (db w), al_alert_type = alert_type, al_severity = severity, al_title = title,
          al_summary = summary, al_detail = detail, al_target_type = target_type, al_target_id = target_id,
          al_status = ''unread'', al_actioned_by = None, al_actioned_at = None, al_expires_at = expires_at,
          al_created_at = created_at\<rparr>]\<rparr>)\<rparr>"

definition REVIEW_TIMEOUT_MINUTES :: int where
  "REVIEW_TIMEOUT_MINUTES = 30"

definition HUMAN_REVIEW_COOLDOWN_SEC :: int where
  "HUMAN_REVIEW_COOLDOWN_SEC = 10"

text \<open>The Chinese texts of the title and the summaries, by their UTF-8 bytes.\<close>

definition review_title :: string where
  "review_title =
     map char_of ([229, 141, 177, 233, 153, 169, 229, 145, 189, 228, 187, 164, 229, 174, 161, 230, 160,
     184, 58, 32] :: nat list)"

definition text_task :: string where
  "text_task =
     map char_of ([228, 187, 187, 229, 138, 161, 32] :: nat list)"

definition text_needs_review :: string where
  "text_needs_review =
     map char_of ([32, 233, 156, 128, 232, 166, 129, 228, 186, 186, 229, 183, 165, 229, 174, 161, 230,
     160, 184] :: nat list)"

definition text_escalated :: string where
  "text_escalated =
     map char_of ([32, 229, 183, 178, 229, 141, 135, 231, 186, 167, 229, 136, 176, 228, 186, 186, 229,
     183, 165, 229, 174, 161, 230, 160, 184] :: nat list)"

definition create_review_alert :: "instant \<Rightarrow> string \<Rightarrow> task_create \<Rightarrow> string \<Rightarrow> string \<Rightarrow> world \<Rightarrow> world" where
  "create_review_alert now task_id p admin_username summary w =
     (let command = (case dict_get (tc_payload p) ''command'' of
            Some v \<Rightarrow> if json_truth v then v else get_default (tc_payload p) ''script'' (JStr [])
          | None \<Rightarrow> get_default (tc_payload p) ''script'' (JStr []));
          alert_detail = [(''task_id'', JStr task_id), (''task_type'', JStr (tc_type p)), (''node_id'', JStr (tc_node_id p)),
            (''command'', command), (''env'', env_json (tc_env p)), (''payload'', JObj (tc_payload p)),
            (''admin_username'', JStr admin_username),
            (''dangerous_match'', opt_json JStr (detect_dangerous_command (tc_type p) (tc_payload p)))]
      in insert_alert ''command_review'' ''critical''
           (review_title @ tc_type p @ '' @ '' @ tc_node_id p) (Some summary) (Some alert_detail)
           (Some ''task'') (Some task_id) (Some (utc_now_iso (now + minutes REVIEW_TIMEOUT_MINUTES))) (utc_now_iso now) w)"

definition mark_task_alerts_actioned :: "string \<Rightarrow> iso \<Rightarrow> world \<Rightarrow> world" where
  "mark_task_alerts_actioned task_id now_iso w =
     upd_alerts (update_where
       (\<lambda>r. al_target_type r = Some ''task'' \<and> al_target_id r = Some task_id \<and> al_status r = ''unread'')
       (\<lambda>r. r\<lparr>al_status := ''actioned'', al_actioned_at := Some now_iso\<rparr>)) w"

definition task_not_found :: api_error where
  "task_not_found = Api_Error ''ERR_TASK_NOT_FOUND'' 404"

definition invalid_task_state :: api_error where
  "invalid_task_state = Api_Error ''ERR_TASK_INVALID_STATE_TRANSITION'' 400"

definition admin_audit :: "admin_row \<Rightarrow> string \<Rightarrow> string \<Rightarrow> string \<Rightarrow> string option \<Rightarrow> dict \<Rightarrow> iso \<Rightarrow> world \<Rightarrow> world" where
  "admin_audit admin action target_type target_id ip detail now_iso w =
     insert_audit ''admin'' (Some (int_str (ad_id admin))) action target_type (Some target_id) ip detail now_iso w"

section \<open>Creation\<close>

text \<open>What the review part of \<open>create_task\<close> decides about the new row.\<close>

record review_plan =
  pl_status :: task_status
  pl_stage :: "int option"
  pl_decision :: "string option"
  pl_detail :: "json option"
  pl_started_at :: "iso option"
  pl_finished_at :: "iso option"
  pl_ai :: "review_decision option"
  pl_danger :: string

definition review_json :: "review_decision \<Rightarrow> json" where
  "review_json d = JObj [(''decision'', JStr (rd_decision d)), (''risk_score'', JFloat (rd_risk_score d) []),
     (''risk_factors'', JList (map (\<lambda>f. JObj [(''category'', JStr (rf_category f)), (''detail'', JStr (rf_detail f)),
        (''severity'', JStr (rf_severity f))]) (rd_risk_factors d))), (''reasoning'', JStr (rd_reasoning d))]"

definition context_of :: "admin_row \<Rightarrow> node_row \<Rightarrow> task_create \<Rightarrow> review_context" where
  "context_of admin node p = \<lparr>rc_task_type = tc_type p, rc_node_id = tc_node_id p, rc_node_type = n_node_type node,
     rc_payload = tc_payload p, rc_workdir = tc_workdir p, rc_env = tc_env p,
     rc_requested_gpu_ids = tc_requested_gpu_ids p, rc_admin_username = ad_username admin,
     rc_node_os = n_os_type node, rc_node_tags = n_tags node,
     rc_legacy_blacklist_match = detect_dangerous_command (tc_type p) (tc_payload p)\<rparr>"

text \<open>\<open>reviewer ctx\<close> is the decision of the language model's review; \<open>later\<close> is the clock after it.\<close>

definition plan_review ::
  "settings \<Rightarrow> (review_context \<Rightarrow> review_decision) \<Rightarrow> instant \<Rightarrow> instant \<Rightarrow> admin_row \<Rightarrow> node_row \<Rightarrow> task_create \<Rightarrow> review_plan" where
  "plan_review s reviewer now later admin node p =
     (if tc_type p \<notin> TASK_TYPE_LEVEL_L2 then
        \<lparr>pl_status = Pending, pl_stage = None, pl_decision = None, pl_detail = None, pl_started_at = None,
         pl_finished_at = None, pl_ai = None, pl_danger = tc_danger_level p\<rparr>
      else if is_configured s then
        (let ai = reviewer (context_of admin node p);
             approved = (rd_decision ai = ''approve'')
         in \<lparr>pl_status = (if approved then Pending else Reviewing),
             pl_stage = Some (if \<not> approved \<and> rd_decision ai = ''uncertain'' then 3 else 1),
             pl_decision = Some (rd_decision ai), pl_detail = Some (review_json ai),
             pl_started_at = Some (utc_now_iso now), pl_finished_at = Some (utc_now_iso later), pl_ai = Some ai,
             pl_danger = (if approved \<and> 3 / 10 \<le> rd_risk_score ai then ''elevated'' else tc_danger_level p)\<rparr>)
      else
        \<lparr>pl_status = Reviewing, pl_stage = Some 3, pl_decision = Some ''skipped'',
         pl_detail = Some (JObj [(''reason'', JStr ''REVIEW_LLM_API_KEY not configured'')]),
         pl_started_at = Some (utc_now_iso now), pl_finished_at = None, pl_ai = None, pl_danger = tc_danger_level p\<rparr>)"

definition MODAL_ONLY_TASK_TYPES :: "string set" where
  "MODAL_ONLY_TASK_TYPES = {''modal_command''}"

definition MODAL_RUNNER_ALLOWED_TASK_TYPES :: "string set" where
  "MODAL_RUNNER_ALLOWED_TASK_TYPES = {''modal_command'', ''health_check''}"

text \<open>The checks of the target node, in the order of the source: None when they pass.\<close>

definition target_error :: "node_row option \<Rightarrow> task_create \<Rightarrow> api_error option" where
  "target_error node p =
     (case node of
        None \<Rightarrow> Some (Api_Error ''ERR_TASK_TARGET_NODE_NOT_FOUND'' 404)
      | Some n \<Rightarrow>
          if \<not> n_is_enabled n then Some (Api_Error ''ERR_NODE_DISABLED'' 400)
          else if tc_type p \<in> MODAL_ONLY_TASK_TYPES \<and> n_node_type n \<noteq> ''modal_runner''
          then Some (Api_Error ''ERR_TASK_INVALID_TARGET_FOR_TYPE'' 400)
          else if n_node_type n = ''modal_runner'' \<and> tc_type p \<notin> MODAL_RUNNER_ALLOWED_TASK_TYPES
          then Some (Api_Error ''ERR_TASK_INVALID_TARGET_FOR_TYPE'' 400)
          else if \<not> ensure_workdir_allowed (tc_workdir p) (n_allowed_workdirs n)
          then Some (Api_Error ''ERR_TASK_WORKDIR_NOT_ALLOWED'' 400)
          else if tc_type p \<in> TASK_TYPE_LEVEL_L2 \<and> tc_type p \<in> SHELL_TASK_TYPES \<and> \<not> n_allow_shell n
          then Some (Api_Error ''ERR_TASK_TYPE_FORBIDDEN_ON_NODE'' 403)
          else if tc_type p \<in> TASK_TYPE_LEVEL_L2 \<and> tc_type p \<in> MODAL_TASK_TYPES \<and> \<not> n_allow_modal n
          then Some (Api_Error ''ERR_TASK_TYPE_FORBIDDEN_ON_NODE'' 403)
          else None)"

definition new_task_row :: "int \<Rightarrow> string \<Rightarrow> string \<Rightarrow> admin_row \<Rightarrow> iso \<Rightarrow> review_plan \<Rightarrow> task_create \<Rightarrow> task_row" where
  "new_task_row i task_id idempotency_key admin now_iso pl p =
     \<lparr>t_id = i, t_task_id = task_id, t_revision = tc_revision p, t_idempotency_key = idempotency_key,
      t_node_id = tc_node_id p, t_type = tc_type p, t_status = pl_status pl, t_payload = tc_payload p,
      t_workdir = tc_workdir p, t_env = tc_env p, t_requested_gpu_ids = tc_requested_gpu_ids p,
      t_timeout_sec = normalize_timeout (tc_type p) (tc_timeout_sec p), t_kill_grace_sec = tc_kill_grace_sec p,
      t_danger_level = pl_danger pl, t_created_by_admin_id = Some (ad_id admin), t_created_at = now_iso,
      t_claimed_at = None, t_started_at = None, t_finished_at = None, t_result_locked_at = None,
      t_review_stage = pl_stage pl, t_review_decision = pl_decision pl, t_review_detail = pl_detail pl,
      t_review_admin_id = None, t_review_started_at = pl_started_at pl, t_review_finished_at = pl_finished_at pl\<rparr>"

definition insert_task :: "(int \<Rightarrow> task_row) \<Rightarrow> world \<Rightarrow> world" where
  "insert_task mk w = w\<lparr>db := bump T_Tasks ((db w)\<lparr>d_tasks := d_tasks (db w) @ [mk (next_id T_Tasks (db w))]\<rparr>)\<rparr>"

definition new_task_id :: "bytes \<Rightarrow> task_create \<Rightarrow> string" where
  "new_task_id rnd p = or_else (tc_task_id p) (''tsk_'' @ hexdigest rnd)"

definition new_idempotency_key :: "bytes \<Rightarrow> task_create \<Rightarrow> string" where
  "new_idempotency_key rnd p = or_else (tc_idempotency_key p) (''manual-'' @ hexdigest rnd)"

definition record_review :: "settings \<Rightarrow> instant \<Rightarrow> string \<Rightarrow> review_plan \<Rightarrow> world \<Rightarrow> world" where
  "record_review s now task_id pl w =
     (if pl_stage pl \<noteq> None \<and> truthy (pl_decision pl) then
        insert_review_audit task_id 1 (if is_configured s then ''llm'' else ''skip'')
          (if is_configured s then Some (review_llm_model s) else None) (the (pl_decision pl))
          (map_option rd_risk_score (pl_ai pl)) (pl_detail pl) (map_option rd_reasoning (pl_ai pl)) (utc_now_iso now) w
      else w)"

definition create_task_tx ::
  "settings \<Rightarrow> (review_context \<Rightarrow> review_decision) \<Rightarrow> instant \<Rightarrow> instant \<Rightarrow> bytes \<Rightarrow> bytes \<Rightarrow> string option \<Rightarrow> admin_row \<Rightarrow>
   task_create \<Rightarrow> (world, api_error, string) act" where
  "create_task_tx s reviewer now later rnd1 rnd2 ip admin p w =
     (case get_node (tc_node_id p) (d_nodes (db w)) of
        None \<Rightarrow> (Inl (the (target_error None p)), w)
      | Some node \<Rightarrow>
          (case target_error (Some node) p of
             Some e \<Rightarrow> (Inl e, w)
           | None \<Rightarrow>
               (let pl = plan_review s reviewer now later admin node p;
                    p1 = p\<lparr>tc_danger_level := pl_danger pl\<rparr>;
                    task_id = new_task_id rnd1 p;
                    key = new_idempotency_key rnd2 p
                in if get_task task_id (d_tasks (db w)) \<noteq> None
                   then (Inl (Api_Error ''ERR_TASK_DUPLICATE_ID'' 409), w)
                   else
                     (let w1 = insert_task (\<lambda>i. new_task_row i task_id key admin (utc_now_iso now) pl p1) w;
                          w2 = record_review s now task_id pl w1;
                          w3 = (if pl_status pl = Reviewing
                                then create_review_alert now task_id p1 (ad_username admin)
                                       (text_task @ task_id @ text_needs_review) w2
                                else w2)
                      in (Inr task_id,
                          admin_audit admin ''create_task'' ''task'' task_id ip (task_create_dump p1) (utc_now_iso now) w3)))))"

definition create_task ::
  "settings \<Rightarrow> (review_context \<Rightarrow> review_decision) \<Rightarrow> instant \<Rightarrow> instant \<Rightarrow> bytes \<Rightarrow> bytes \<Rightarrow> string option \<Rightarrow> admin_row \<Rightarrow>
   task_create \<Rightarrow> (world, api_error, task_detail) act" where
  "create_task s reviewer now later rnd1 rnd2 ip admin p =
     andthen (connect (create_task_tx s reviewer now later rnd1 rnd2 ip admin p)) (\<lambda>task_id w.
       case get_task task_id (d_tasks (db w)) of
         None \<Rightarrow> (Inl (Unhandled ''TypeError''), w)
       | Some row \<Rightarrow> (Inr (task_row_to_detail False False False (db w) row), observe [TASK_CREATED (tc_type p)] w))"

section \<open>Views\<close>

record task_page =
  tp_items :: "task_list_item list"
  tp_next_cursor :: "string option"
  tp_total_estimate :: nat

definition task_filter :: "string option \<Rightarrow> string option \<Rightarrow> string option \<Rightarrow> string option \<Rightarrow> string option \<Rightarrow> task_row \<Rightarrow> bool" where
  "task_filter node_id st task_type since until r \<longleftrightarrow>
     (truthy node_id \<longrightarrow> t_node_id r = the node_id) \<and> (truthy st \<longrightarrow> status_str (t_status r) = the st) \<and>
     (truthy task_type \<longrightarrow> t_type r = the task_type) \<and> time_filters since until (t_created_at r)"

definition task_key :: "task_row \<Rightarrow> iso \<times> int" where
  "task_key r = (t_created_at r, t_id r)"

definition list_tasks ::
  "nat \<Rightarrow> string option \<Rightarrow> string option \<Rightarrow> string option \<Rightarrow> string option \<Rightarrow> string option \<Rightarrow> string option \<Rightarrow>
   (world, api_error, task_page) act" where
  "list_tasks limit cursor node_id st task_type since until w =
     (let P = task_filter node_id st task_type since until in
      case decode_cursor cursor of
        Inl e \<Rightarrow> (Inl e, w)
      | Inr cur \<Rightarrow>
          (case fetch_page task_key P limit cur (d_tasks (db w)) of
             (page_rows, next) \<Rightarrow>
               (Inr \<lparr>tp_items = map task_row_to_list_item page_rows,
                     tp_next_cursor = map_option (\<lambda>(c, i). encode_cursor c i) next,
                     tp_total_estimate = rowcount P (d_tasks (db w))\<rparr>, w)))"

definition get_task_detail :: "string \<Rightarrow> (world, api_error, task_detail) act" where
  "get_task_detail task_id w =
     (case get_task task_id (d_tasks (db w)) of
        None \<Rightarrow> (Inl task_not_found, w)
      | Some row \<Rightarrow> (Inr (task_row_to_detail True True True (db w) row), w))"

definition get_task_logs :: "string \<Rightarrow> (world, api_error, log_view list) act" where
  "get_task_logs task_id w =
     (case get_task task_id (d_tasks (db w)) of
        None \<Rightarrow> (Inl task_not_found, w) | Some _ \<Rightarrow> (Inr (load_log_views task_id (db w)), w))"

definition get_task_artifacts :: "string \<Rightarrow> (world, api_error, artifact_view list) act" where
  "get_task_artifacts task_id w =
     (case get_task task_id (d_tasks (db w)) of
        None \<Rightarrow> (Inl task_not_found, w) | Some _ \<Rightarrow> (Inr (load_artifacts task_id (db w)), w))"

section \<open>Cancellation and human review\<close>

text \<open>A \<open>TaskStateError\<close> as the error of the endpoint.\<close>

definition task_state_400 :: "(world, task_state_error, 'a) act \<Rightarrow> (world, api_error, 'a) act" where
  "task_state_400 m w = (case m w of
     (Inl e, w') \<Rightarrow> (Inl (if e = Task_Not_Found then task_not_found else invalid_task_state), w')
   | (Inr a, w') \<Rightarrow> (Inr a, w'))"

definition cancel_task_tx :: "instant \<Rightarrow> string \<Rightarrow> string option \<Rightarrow> admin_row \<Rightarrow> (world, api_error, task_detail) act" where
  "cancel_task_tx now task_id ip admin =
     andthen (task_state_400 (get_task_row task_id)) (\<lambda>row.
     andthen (task_state_400 (transition_task task_id Ev_Cancel (utc_now_iso now) None (Some (utc_now_iso now)) None None))
       (\<lambda>saved w.
         let w1 = admin_audit admin ''cancel_task'' ''task'' task_id ip
                    [(''from_status'', JStr (status_str (t_status row))), (''to_status'', JStr (status_str (t_status saved)))]
                    (utc_now_iso now) w
         in (Inr (task_row_to_detail True True True (db w1) saved), w1)))"

definition cancel_task :: "instant \<Rightarrow> string \<Rightarrow> string option \<Rightarrow> admin_row \<Rightarrow> (world, api_error, task_detail) act" where
  "cancel_task now task_id ip admin = connect (cancel_task_tx now task_id ip admin)"

definition create_of_row :: "task_row \<Rightarrow> task_create" where
  "create_of_row r = \<lparr>tc_node_id = t_node_id r, tc_type = t_type r, tc_payload = t_payload r,
     tc_task_id = Some (t_task_id r), tc_revision = t_revision r, tc_idempotency_key = Some (t_idempotency_key r),
     tc_workdir = t_workdir r, tc_env = t_env r, tc_requested_gpu_ids = t_requested_gpu_ids r,
     tc_timeout_sec = Some (t_timeout_sec r), tc_kill_grace_sec = t_kill_grace_sec r,
     tc_danger_level = t_danger_level r\<rparr>"

definition escalate_review_tx :: "instant \<Rightarrow> string \<Rightarrow> string option \<Rightarrow> string option \<Rightarrow> admin_row \<Rightarrow> (world, api_error, task_detail) act" where
  "escalate_review_tx now task_id note ip admin =
     andthen (task_state_400 (get_task_row task_id)) (\<lambda>row.
     andthen (task_state_400 (transition_task task_id Ev_Review_Escalate (utc_now_iso now) None None None None))
       (\<lambda>saved w.
         let w1 = create_review_alert now task_id (create_of_row row) (ad_username admin)
                    (text_task @ task_id @ text_escalated) w;
             w2 = admin_audit admin ''escalate_task_review'' ''task'' task_id ip [(''note'', opt_json JStr note)]
                    (utc_now_iso now) w1;
             w3 = emit_event now ''review.escalated''
                    [(''task_id'', JStr task_id), (''type'', JStr (t_type row)), (''node_id'', JStr (t_node_id row)),
                     (''admin'', JStr (ad_username admin))] ''info'' w2
         in (Inr (task_row_to_detail True True True (db w3) saved), w3)))"

definition escalate_review :: "instant \<Rightarrow> string \<Rightarrow> string option \<Rightarrow> string option \<Rightarrow> admin_row \<Rightarrow> (world, api_error, task_detail) act" where
  "escalate_review now task_id note ip admin = connect (escalate_review_tx now task_id note ip admin)"

text \<open>
  The cooldown counts from \<open>review_started_at\<close>, which the creation of the task sets before the model is asked and an escalation
  sets anew; without it there is none. \<open>Inl\<close> is an unreadable timestamp.
\<close>

definition cooldown_reached :: "instant \<Rightarrow> iso option \<Rightarrow> unit + bool" where
  "cooldown_reached now review_started_at =
     (if \<not> truthy review_started_at then Inr True
      else (case fromisoformat (the review_started_at) of
              None \<Rightarrow> Inl ()
            | Some p \<Rightarrow> Inr (\<not> now - to_utc p < seconds HUMAN_REVIEW_COOLDOWN_SEC)))"

definition approve_review_tx :: "instant \<Rightarrow> string \<Rightarrow> string option \<Rightarrow> string option \<Rightarrow> admin_row \<Rightarrow> (world, api_error, task_detail) act" where
  "approve_review_tx now task_id note ip admin w =
     (case get_task task_id (d_tasks (db w)) of
        None \<Rightarrow> (Inl task_not_found, w)
      | Some row \<Rightarrow>
          if t_status row \<noteq> Reviewing \<or> t_review_stage row \<noteq> Some 3
          then (Inl (Api_Error ''ERR_REVIEW_NOT_PENDING'' 400), w)
          else
            (case cooldown_reached now (t_review_started_at row) of
               Inl _ \<Rightarrow> (Inl (Unhandled ''ValueError''), w)
             | Inr False \<Rightarrow> (Inl (Api_Error ''ERR_REVIEW_COOLDOWN_NOT_REACHED'' 429), w)
             | Inr True \<Rightarrow>
                 andthen (task_state_400 (transition_task task_id Ev_Review_Approve (utc_now_iso now) None None
                            (Some (ad_id admin)) (Some ''human_approved'')))
                   (\<lambda>saved w.
                     let w1 = insert_review_audit task_id 3 ''human'' (Some (int_str (ad_id admin))) ''approve'' None
                                (Some (JObj [(''note'', opt_json JStr note)])) note (utc_now_iso now) w;
                         w2 = mark_task_alerts_actioned task_id (utc_now_iso now) w1;
                         w3 = admin_audit admin ''approve_task_review'' ''task'' task_id ip [(''note'', opt_json JStr note)]
                                (utc_now_iso now) w2
                     in (Inr (task_row_to_detail True True True (db w3) saved), w3)) w))"

definition approve_review :: "instant \<Rightarrow> string \<Rightarrow> string option \<Rightarrow> string option \<Rightarrow> admin_row \<Rightarrow> (world, api_error, task_detail) act" where
  "approve_review now task_id note ip admin = connect (approve_review_tx now task_id note ip admin)"

definition reject_stage :: "int option \<Rightarrow> int" where
  "reject_stage stage = (case stage of Some n \<Rightarrow> if n = 0 then 3 else n | None \<Rightarrow> 3)"

definition reject_review_tx :: "instant \<Rightarrow> string \<Rightarrow> string option \<Rightarrow> string option \<Rightarrow> admin_row \<Rightarrow> (world, api_error, task_detail) act" where
  "reject_review_tx now task_id note ip admin =
     andthen (task_state_400 (get_task_row task_id)) (\<lambda>row.
     andthen (task_state_400 (transition_task task_id Ev_Review_Reject (utc_now_iso now) None None (Some (ad_id admin)) None))
       (\<lambda>saved w.
         let w1 = insert_review_audit task_id (reject_stage (t_review_stage row)) ''human'' (Some (int_str (ad_id admin)))
                    ''reject'' None (Some (JObj [(''note'', opt_json JStr note)])) note (utc_now_iso now) w;
             w2 = mark_task_alerts_actioned task_id (utc_now_iso now) w1;
             w3 = admin_audit admin ''reject_task_review'' ''task'' task_id ip [(''note'', opt_json JStr note)]
                    (utc_now_iso now) w2
         in (Inr (task_row_to_detail True True True (db w3) saved), w3)))"

definition reject_review :: "instant \<Rightarrow> string \<Rightarrow> string option \<Rightarrow> string option \<Rightarrow> admin_row \<Rightarrow> (world, api_error, task_detail) act" where
  "reject_review now task_id note ip admin = connect (reject_review_tx now task_id note ip admin)"

section \<open>What the writes leave alone\<close>

lemma insert_review_audit_simps [simp]:
  "d_tasks (db (insert_review_audit a b c d e f g h i w)) = d_tasks (db w)"
  "d_nodes (db (insert_review_audit a b c d e f g h i w)) = d_nodes (db w)"
  "d_alerts (db (insert_review_audit a b c d e f g h i w)) = d_alerts (db w)"
  "d_logs (db (insert_review_audit a b c d e f g h i w)) = d_logs (db w)"
  "files (insert_review_audit a b c d e f g h i w) = files w"
  "pending_fp (insert_review_audit a b c d e f g h i w) = pending_fp w"
  by (simp_all add: insert_review_audit_def)

lemma insert_alert_simps [simp]:
  "d_tasks (db (insert_alert a b c d e f g h i w)) = d_tasks (db w)"
  "d_nodes (db (insert_alert a b c d e f g h i w)) = d_nodes (db w)"
  "d_logs (db (insert_alert a b c d e f g h i w)) = d_logs (db w)"
  "files (insert_alert a b c d e f g h i w) = files w"
  "pending_fp (insert_alert a b c d e f g h i w) = pending_fp w"
  by (simp_all add: insert_alert_def)

lemma mark_task_alerts_actioned_simps [simp]:
  "d_tasks (db (mark_task_alerts_actioned t n w)) = d_tasks (db w)"
  "d_nodes (db (mark_task_alerts_actioned t n w)) = d_nodes (db w)"
  "d_reviews (db (mark_task_alerts_actioned t n w)) = d_reviews (db w)"
  "d_logs (db (mark_task_alerts_actioned t n w)) = d_logs (db w)"
  "files (mark_task_alerts_actioned t n w) = files w"
  by (simp_all add: mark_task_alerts_actioned_def upd_alerts_def)

lemma create_review_alert_simps [simp]:
  "d_tasks (db (create_review_alert n t p a s w)) = d_tasks (db w)"
  "d_nodes (db (create_review_alert n t p a s w)) = d_nodes (db w)"
  "d_logs (db (create_review_alert n t p a s w)) = d_logs (db w)"
  "files (create_review_alert n t p a s w) = files w"
  by (simp_all add: create_review_alert_def Let_def)

lemma admin_audit_simps [simp]:
  "d_tasks (db (admin_audit a b c d e f g w)) = d_tasks (db w)"
  "d_nodes (db (admin_audit a b c d e f g w)) = d_nodes (db w)"
  "d_alerts (db (admin_audit a b c d e f g w)) = d_alerts (db w)"
  "d_reviews (db (admin_audit a b c d e f g w)) = d_reviews (db w)"
  "d_logs (db (admin_audit a b c d e f g w)) = d_logs (db w)"
  "files (admin_audit a b c d e f g w) = files w"
  by (simp_all add: admin_audit_def)

lemma record_review_simps [simp]:
  "d_tasks (db (record_review s n t pl w)) = d_tasks (db w)" "d_nodes (db (record_review s n t pl w)) = d_nodes (db w)"
  "d_alerts (db (record_review s n t pl w)) = d_alerts (db w)" "d_logs (db (record_review s n t pl w)) = d_logs (db w)"
  "files (record_review s n t pl w) = files w"
  by (simp_all add: record_review_def)

lemma insert_task_simps [simp]:
  "d_tasks (db (insert_task mk w)) = d_tasks (db w) @ [mk (next_id T_Tasks (db w))]"
  "d_nodes (db (insert_task mk w)) = d_nodes (db w)" "d_alerts (db (insert_task mk w)) = d_alerts (db w)"
  "d_logs (db (insert_task mk w)) = d_logs (db w)" "files (insert_task mk w) = files w"
  by (simp_all add: insert_task_def)

section \<open>Creation\<close>

definition open_alert :: "string \<Rightarrow> alert_row \<Rightarrow> bool" where
  "open_alert task_id r \<longleftrightarrow> al_target_type r = Some ''task'' \<and> al_target_id r = Some task_id \<and> al_status r = ''unread''"

lemma create_review_alert_opens:
  "\<exists>r \<in> set (d_alerts (db (create_review_alert now task_id p a sm w))). open_alert task_id r"
  by (simp add: create_review_alert_def Let_def insert_alert_def open_alert_def)

text \<open>The accepted creation, opened once.\<close>

lemma create_task_Inr:
  assumes "create_task s reviewer now later rnd1 rnd2 ip admin p w = (Inr detail, w')"
  obtains node where "get_node (tc_node_id p) (d_nodes (db w)) = Some node"
    and "target_error (Some node) p = None"
    and "get_task (new_task_id rnd1 p) (d_tasks (db w)) = None"
    and "d_tasks (db w') = d_tasks (db w) @ [new_task_row (next_id T_Tasks (db w)) (new_task_id rnd1 p)
      (new_idempotency_key rnd2 p) admin (utc_now_iso now) (plan_review s reviewer now later admin node p)
      (p\<lparr>tc_danger_level := pl_danger (plan_review s reviewer now later admin node p)\<rparr>)]"
    and "d_nodes (db w') = d_nodes (db w)" and "files w' = files w" and "d_logs (db w') = d_logs (db w)"
    and "pl_status (plan_review s reviewer now later admin node p) = Reviewing \<Longrightarrow>
      \<exists>r \<in> set (d_alerts (db w')). open_alert (new_task_id rnd1 p) r"
proof -
  from assms obtain tid w1 where t: "create_task_tx s reviewer now later rnd1 rnd2 ip admin p w = (Inr tid, w1)"
    and k: "(case get_task tid (d_tasks (db w1)) of None \<Rightarrow> (Inl (Unhandled ''TypeError''), w1)
       | Some row \<Rightarrow> (Inr (task_row_to_detail False False False (db w1) row), observe [TASK_CREATED (tc_type p)] w1)) =
       (Inr detail, w')"
    by (auto simp: create_task_def andthen_def connect_Inr split: sum.splits prod.splits)
  from k have w': "w' = observe [TASK_CREATED (tc_type p)] w1" by (auto split: option.splits)
  from t obtain node where n: "get_node (tc_node_id p) (d_nodes (db w)) = Some node"
    and ok: "target_error (Some node) p = None" and fresh: "get_task (new_task_id rnd1 p) (d_tasks (db w)) = None"
    by (auto simp: create_task_tx_def Let_def split: option.splits if_splits)
  note d = create_task_tx_def n ok fresh Let_def
  show ?thesis
    by (rule that [OF n ok fresh]; (insert t create_review_alert_opens, auto simp: d w' split: if_splits)?)
qed

lemma plan_review_L2:
  assumes "tc_type p \<in> TASK_TYPE_LEVEL_L2"
  shows "pl_status (plan_review s reviewer now later admin node p) =
      (if is_configured s \<and> rd_decision (reviewer (context_of admin node p)) = ''approve'' then Pending else Reviewing)"
  using assms by (simp add: plan_review_def Let_def)

lemma get_task_snoc:
  "get_task (t_task_id r) rows = None \<Longrightarrow> get_task k (rows @ [r]) = (if k = t_task_id r then Some r else get_task k rows)"
  by (rule task_tab.get_add)

lemma new_task_row_simps [simp]:
  "t_task_id (new_task_row i tid key admin n pl p) = tid" "t_status (new_task_row i tid key admin n pl p) = pl_status pl"
  "t_type (new_task_row i tid key admin n pl p) = tc_type p" "t_node_id (new_task_row i tid key admin n pl p) = tc_node_id p"
  "t_review_stage (new_task_row i tid key admin n pl p) = pl_stage pl"
  "t_review_decision (new_task_row i tid key admin n pl p) = pl_decision pl"
  "t_id (new_task_row i tid key admin n pl p) = i" "t_created_at (new_task_row i tid key admin n pl p) = n"
  "t_claimed_at (new_task_row i tid key admin n pl p) = None" "t_result_locked_at (new_task_row i tid key admin n pl p) = None"
  by (simp_all add: new_task_row_def)

section \<open>Approval\<close>

lemma task_state_400_Inr: "task_state_400 m w = (Inr a, w') \<longleftrightarrow> m w = (Inr a, w')"
  by (auto simp: task_state_400_def split: prod.splits sum.splits)

lemma approve_review_Inr:
  assumes "approve_review now tid note ip admin w = (Inr detail, w')"
  obtains row saved w1 where "get_task tid (d_tasks (db w)) = Some row" and "t_status row = Reviewing"
    and "t_review_stage row = Some 3" and "cooldown_reached now (t_review_started_at row) = Inr True"
    and "transition_task tid Ev_Review_Approve (utc_now_iso now) None None (Some (ad_id admin)) (Some ''human_approved'') w =
      (Inr saved, w1)"
    and "d_tasks (db w') = d_tasks (db w1)" and "d_nodes (db w') = d_nodes (db w1)"
    and "d_alerts (db w') = d_alerts (db (mark_task_alerts_actioned tid (utc_now_iso now) w1))"
    and "files w' = files w1" and "d_logs (db w') = d_logs (db w1)"
proof -
  from assms have t: "approve_review_tx now tid note ip admin w = (Inr detail, w')"
    by (simp add: approve_review_def connect_Inr)
  then obtain row where r: "get_task tid (d_tasks (db w)) = Some row" "t_status row = Reviewing"
    "t_review_stage row = Some 3" "cooldown_reached now (t_review_started_at row) = Inr True"
    by (auto simp: approve_review_tx_def split: option.splits if_splits sum.splits bool.splits)
  from t r obtain saved w1 where tr: "transition_task tid Ev_Review_Approve (utc_now_iso now) None None
      (Some (ad_id admin)) (Some ''human_approved'') w = (Inr saved, w1)"
    by (auto simp: approve_review_tx_def andthen_def task_state_400_Inr split: sum.splits prod.splits)
  have "w' = admin_audit admin ''approve_task_review'' ''task'' tid ip [(''note'', opt_json JStr note)] (utc_now_iso now)
      (mark_task_alerts_actioned tid (utc_now_iso now)
        (insert_review_audit tid 3 ''human'' (Some (int_str (ad_id admin))) ''approve'' None
           (Some (JObj [(''note'', opt_json JStr note)])) note (utc_now_iso now) w1))"
    using t r tr by (simp add: approve_review_tx_def andthen_def task_state_400_def Let_def)
  then show ?thesis using that [OF r tr] by (simp add: mark_task_alerts_actioned_def upd_alerts_def)
qed

lemma actioned_none_open:
  "\<forall>r \<in> set (d_alerts (db (mark_task_alerts_actioned tid n w))). \<not> open_alert tid r"
  by (auto simp: mark_task_alerts_actioned_def upd_alerts_def open_alert_def set_update_where)

lemma cooldown_elapsed:
  assumes "cooldown_reached now st = Inr True" and "truthy st"
  shows "\<exists>p. fromisoformat (the st) = Some p \<and> seconds HUMAN_REVIEW_COOLDOWN_SEC \<le> now - to_utc p"
  using assms by (auto simp: cooldown_reached_def split: option.splits)

section \<open>Properties\<close>

text \<open>C13. Creating a task of a type that can run arbitrary commands adds one row, on an enabled node that
  allows the type; the task goes to the queue only when the language model's review is configured and
  approved it, and otherwise waits under review with an unread alert for the administrators.\<close>

theorem risky_task_is_reviewed:
  assumes "create_task s reviewer now later rnd1 rnd2 ip admin p w = (Inr detail, w')"
    and "tc_type p \<in> TASK_TYPE_LEVEL_L2"
  shows "\<exists>node row. get_node (tc_node_id p) (d_nodes (db w)) = Some node \<and> n_is_enabled node \<and>
    (if tc_type p \<in> SHELL_TASK_TYPES then n_allow_shell node else n_allow_modal node) \<and>
    ensure_workdir_allowed (tc_workdir p) (n_allowed_workdirs node) \<and>
    d_tasks (db w') = d_tasks (db w) @ [row] \<and> get_task (t_task_id row) (d_tasks (db w)) = None \<and>
    t_node_id row = tc_node_id p \<and> t_type row = tc_type p \<and>
    (if is_configured s \<and> rd_decision (reviewer (context_of admin node p)) = ''approve''
     then t_status row = Pending
     else t_status row = Reviewing \<and> (\<exists>r \<in> set (d_alerts (db w')). open_alert (t_task_id row) r))"
proof -
  obtain node where n: "get_node (tc_node_id p) (d_nodes (db w)) = Some node"
    and ok: "target_error (Some node) p = None" and fresh: "get_task (new_task_id rnd1 p) (d_tasks (db w)) = None"
    and rows: "d_tasks (db w') = d_tasks (db w) @ [new_task_row (next_id T_Tasks (db w)) (new_task_id rnd1 p)
      (new_idempotency_key rnd2 p) admin (utc_now_iso now) (plan_review s reviewer now later admin node p)
      (p\<lparr>tc_danger_level := pl_danger (plan_review s reviewer now later admin node p)\<rparr>)]"
    and alert: "pl_status (plan_review s reviewer now later admin node p) = Reviewing \<Longrightarrow>
      \<exists>r \<in> set (d_alerts (db w')). open_alert (new_task_id rnd1 p) r"
    by (rule create_task_Inr [OF assms(1)], rule that)
  have node: "n_is_enabled node" "if tc_type p \<in> SHELL_TASK_TYPES then n_allow_shell node else n_allow_modal node"
    "ensure_workdir_allowed (tc_workdir p) (n_allowed_workdirs node)"
    using ok assms(2) by (auto simp: target_error_def L2_split split: if_splits)
  show ?thesis
    using n node fresh rows alert plan_review_L2 [OF assms(2), of s reviewer now later admin node]
    by (intro exI [of _ node] exI) auto
qed

definition sample_admin :: admin_row where
  "sample_admin = \<lparr>ad_id = 1, ad_username = ''admin'', ad_password_hash = [], ad_is_active = True, ad_created_at = [],
     ad_updated_at = [], ad_last_login_at = None, ad_tokens_invalidated_at = None\<rparr>"

definition sample_create :: "string \<Rightarrow> task_create" where
  "sample_create task_type = \<lparr>tc_node_id = ''n'', tc_type = task_type, tc_payload = [(''command'', JStr ''ls'')],
     tc_task_id = Some ''t'', tc_revision = 1, tc_idempotency_key = Some ''k'', tc_workdir = None, tc_env = [],
     tc_requested_gpu_ids = [], tc_timeout_sec = None, tc_kill_grace_sec = 15, tc_danger_level = ''normal''\<rparr>"

lemma sample_create_ok:
  "\<exists>detail w'. create_task default_settings reviewer now later [] [] None sample_admin (sample_create ''shell'')
     (sample_world [sample_node ''n'' 1] []) = (Inr detail, w')"
proof -
  have "get_node ''n'' [sample_node ''n'' 1] = Some (sample_node ''n'' 1)" by (simp add: get_node_def)
  moreover have "target_error (Some (sample_node ''n'' 1)) (sample_create ''shell'') = None"
    by (simp add: target_error_def sample_create_def sample_node_def MODAL_ONLY_TASK_TYPES_def ensure_workdir_allowed_def
        SHELL_TASK_TYPES_def MODAL_TASK_TYPES_def)
  moreover have "new_task_id [] (sample_create ''shell'') = ''t''" by (simp add: new_task_id_def sample_create_def or_else_def)
  ultimately show ?thesis
    by (simp add: create_task_def create_task_tx_def Let_def andthen_def connect_def sample_create_def get_task_def
        split: option.split)
qed

lemma risky_task_is_reviewed_witness:
  "\<exists>detail w' row. create_task default_settings undefined 0 0 [] [] None sample_admin (sample_create ''shell'')
     (sample_world [sample_node ''n'' 1] []) = (Inr detail, w') \<and> d_tasks (db w') = [row] \<and> t_status row = Reviewing"
proof -
  obtain detail w' where c: "create_task default_settings undefined 0 0 [] [] None sample_admin (sample_create ''shell'')
     (sample_world [sample_node ''n'' 1] []) = (Inr detail, w')" using sample_create_ok by blast
  have "tc_type (sample_create ''shell'') \<in> TASK_TYPE_LEVEL_L2" by (simp add: sample_create_def TASK_TYPE_LEVEL_L2_def)
  from risky_task_is_reviewed [OF c this] c show ?thesis by (auto simp: is_configured_def default_settings_def)
qed

text \<open>C15. An administrator's approval counts only for a task that waits at the human stage and whose
  \<open>review_started_at\<close>, when it is not empty, is at least ten seconds ago. That time is when the review began, before the
  model's stage, or the last escalation, so the ten seconds need not have passed at the human stage; a row
  without it is approved at once. An approval puts the task into the queue under the administrator's name and closes its
  open alerts.\<close>

theorem approval_after_cooldown:
  assumes u: "distinct (map t_task_id (d_tasks (db w)))"
    and a: "approve_review now tid note ip admin w = (Inr detail, w')"
  shows "\<exists>row row'. get_task tid (d_tasks (db w)) = Some row \<and> t_status row = Reviewing \<and> t_review_stage row = Some 3 \<and>
    (truthy (t_review_started_at row) \<longrightarrow> (\<exists>p. fromisoformat (the (t_review_started_at row)) = Some p \<and>
       seconds 10 \<le> now - to_utc p)) \<and>
    get_task tid (d_tasks (db w')) = Some row' \<and> t_status row' = Pending \<and> t_review_admin_id row' = Some (ad_id admin) \<and>
    (\<forall>r \<in> set (d_alerts (db w')). \<not> open_alert tid r)"
proof -
  obtain row saved w1 where g: "get_task tid (d_tasks (db w)) = Some row" and r: "t_status row = Reviewing"
    "t_review_stage row = Some 3" and c: "cooldown_reached now (t_review_started_at row) = Inr True"
    and t: "transition_task tid Ev_Review_Approve (utc_now_iso now) None None (Some (ad_id admin)) (Some ''human_approved'') w =
      (Inr saved, w1)"
    and w': "d_tasks (db w') = d_tasks (db w1)"
    "d_alerts (db w') = d_alerts (db (mark_task_alerts_actioned tid (utc_now_iso now) w1))"
    by (rule approve_review_Inr [OF a]) blast
  obtain row0 where g0: "get_task tid (d_tasks (db w)) = Some row0"
    and s: "row_step Ev_Review_Approve (utc_now_iso now) None None (Some (ad_id admin)) (Some ''human_approved'') row0 = Inr saved"
    and wr: "wrote_task tid saved w w1"
    by (rule transition_Inr [OF u t])
  have "t_task_id saved = tid" using row_step_key [OF s] get_task_in [OF g0] by simp
  then have g': "get_task tid (d_tasks (db w')) = Some saved"
    using wr get_put_task_same [OF _ g0] by (simp add: wrote_task_def w')
  have "t_status saved = Pending" and "t_review_admin_id saved = Some (ad_id admin)"
    using s by (auto simp: row_step_def split: if_splits)
  with g r g' cooldown_elapsed [OF c] actioned_none_open show ?thesis
    by (intro exI [of _ row] exI [of _ saved]) (auto simp: w'(2) HUMAN_REVIEW_COOLDOWN_SEC_def)
qed

lemma approval_after_cooldown_witness:
  "\<exists>w detail w' row'. t_review_started_at (hd (d_tasks (db w))) = Some ''2026-01-01T00:00:00+00:00'' \<and>
     (\<exists>e w'. approve_review (63902822400000000 + seconds 9) ''a'' None None sample_admin w = (Inl e, w')) \<and>
     approve_review (63902822400000000 + seconds 10) ''a'' None None sample_admin w = (Inr detail, w') \<and>
     get_task ''a'' (d_tasks (db w')) = Some row' \<and> t_status row' = Pending"
proof -
  let ?r = "(sample_task ''a'' ''n'' Reviewing 1)\<lparr>t_review_stage := Some 3, t_review_started_at := Some ''2026-01-01T00:00:00+00:00''\<rparr>"
  let ?w = "sample_world [] [?r]"
  define T where "T = 63902822400000000 + seconds 10"
  have g: "distinct (map t_task_id (d_tasks (db ?w)))" "get_task ''a'' (d_tasks (db ?w)) = Some ?r"
    by (simp_all add: get_task_def)
  have d: "map_option to_utc (fromisoformat ''2026-01-01T00:00:00+00:00'') = Some 63902822400000000" by code_simp
  have c: "cooldown_reached T (t_review_started_at ?r) = Inr True"
    "cooldown_reached (63902822400000000 + seconds 9) (t_review_started_at ?r) = Inr False"
    using d by (auto simp: cooldown_reached_def T_def HUMAN_REVIEW_COOLDOWN_SEC_def seconds_def split: option.splits)
  from transition_refines [OF g, of Ev_Review_Approve "utc_now_iso T" None None "Some 1" "Some ''human_approved''"]
  obtain row1 w1 where t: "transition_task ''a'' Ev_Review_Approve (utc_now_iso T) None None (Some 1)
      (Some ''human_approved'') ?w = (Inr row1, w1)"
    by (auto simp: row_step_def)
  have "\<exists>detail w'. approve_review T ''a'' None None sample_admin ?w = (Inr detail, w')"
    using g(2) c(1) t
    by (simp add: approve_review_def connect_Inr approve_review_tx_def andthen_def task_state_400_def Let_def sample_admin_def)
  then obtain detail w' where a: "approve_review T ''a'' None None sample_admin ?w = (Inr detail, w')" by blast
  have "\<exists>e w'. approve_review (63902822400000000 + seconds 9) ''a'' None None sample_admin ?w = (Inl e, w')"
    using g(2) c(2) by (simp add: approve_review_def connect_def approve_review_tx_def)
  with approval_after_cooldown [OF g(1) a] a show ?thesis
    by (intro exI [of _ ?w] exI [of _ detail] exI [of _ w']) (auto simp: T_def)
qed

section \<open>Listing all tasks\<close>

text \<open>The items and the next cursor of one answer of \<open>list_tasks\<close>.\<close>

definition task_pages ::
  "string option \<Rightarrow> string option \<Rightarrow> string option \<Rightarrow> string option \<Rightarrow> string option \<Rightarrow>
   nat \<Rightarrow> string option \<Rightarrow> world \<Rightarrow> api_error + task_list_item list \<times> string option" where
  "task_pages node_id st task_type since until limit cursor w =
     map_sum (\<lambda>e. e) (\<lambda>p. (tp_items p, tp_next_cursor p)) (fst (list_tasks limit cursor node_id st task_type since until w))"

interpretation task_pages: page_server "task_pages node_id st task_type since until" "\<lambda>w. d_tasks (db w)" task_key
    "task_filter node_id st task_type since until" task_row_to_list_item for node_id st task_type since until
  by unfold_locales (simp add: task_pages_def list_tasks_def Let_def)

text \<open>C19. The task list loses and repeats nothing: a client that follows the cursors, with any filters and any
  page size, reads exactly the tasks that pass the filters, newest first.\<close>

theorem task_list_is_complete:
  assumes "distinct (map t_id (d_tasks (db w)))" and "0 < limit" and "length (d_tasks (db w)) < fuel"
  shows "follow (\<lambda>c. task_pages node_id st task_type since until limit c w) fuel None =
    Some (map task_row_to_list_item
      (order_by_desc task_key (filter (task_filter node_id st task_type since until) (d_tasks (db w)))))"
  by (rule task_pages.follow_all) (use assms in \<open>simp_all add: task_key_def comp_def\<close>)

lemma task_list_is_complete_witness:
  "map_option (map ti_task_id) (follow (\<lambda>c. task_pages (Some ''n'') None None None None 1 c
     (sample_world [] [sample_task ''a'' ''n'' Pending 1, sample_task ''x'' ''m'' Pending 2, sample_task ''b'' ''n'' Running 3])) 4 None) =
   Some [''b'', ''a'']"
proof -
  let ?w = "sample_world [] [sample_task ''a'' ''n'' Pending 1, sample_task ''x'' ''m'' Pending 2, sample_task ''b'' ''n'' Running 3]"
  have "follow (\<lambda>c. task_pages (Some ''n'') None None None None 1 c ?w) 4 None = Some (map task_row_to_list_item
      (order_by_desc task_key (filter (task_filter (Some ''n'') None None None None) (d_tasks (db ?w)))))"
    by (rule task_list_is_complete) simp_all
  then show ?thesis
    by (simp add: task_filter_def time_filters_def order_by_desc_def task_key_def task_row_to_list_item_def)
qed

end
