(* ===== verification/Background.thy ===== *)
theory Background
  imports Admin_Tasks
begin

text \<open>
  \<open>app/background.py\<close>: the scanner that every minute prunes nonces, settles tasks of dead nodes, expires
  reviews, deletes what is past its retention and refreshes the gauges. \<open>verdict_of\<close> is what the scan
  decides about one task; \<open>mark_lost_tasks\<close> runs the loop of the source over the rows.

  Directories are not files of the tree, so removing an empty one has no effect here. The scan of the
  gauges reads SQLite's \<open>datetime\<close> as whole seconds in UTC.
\<close>

section \<open>Timestamps\<close>

text \<open>\<open>_parse_utc_or_none\<close>: \<open>Inl\<close> is its exception.\<close>

definition parse_utc_or_none :: "string option \<Rightarrow> api_error + instant option" where
  "parse_utc_or_none raw =
     (if \<not> truthy raw then Inr None
      else (case fromisoformat (the raw) of
              None \<Rightarrow> Inl (Unhandled ''ValueError'')
            | Some p \<Rightarrow> if in_range (to_utc p) then Inr (Some (to_utc p)) else Inl (Unhandled ''OverflowError'')))"

definition cancels_of :: "string \<Rightarrow> audit_row list \<Rightarrow> audit_row list" where
  "cancels_of task_id rows =
     order_by_desc (\<lambda>r. (e_created_at r, e_id r))
       (filter (\<lambda>r. e_action r = ''cancel_task'' \<and> e_target_type r = ''task'' \<and> e_target_id r = Some task_id) rows)"

definition latest_cancel_requested_at :: "string \<Rightarrow> audit_row list \<Rightarrow> api_error + instant option" where
  "latest_cancel_requested_at task_id rows =
     (case cancels_of task_id rows of [] \<Rightarrow> Inr None | r # _ \<Rightarrow> parse_utc_or_none (Some (e_created_at r)))"

section \<open>Lost and timed-out tasks\<close>

definition SCAN_INTERVAL_SEC :: int where
  "SCAN_INTERVAL_SEC = 60"

definition CANCEL_ACK_TIMEOUT_SEC :: int where
  "CANCEL_ACK_TIMEOUT_SEC = 300"

datatype verdict = Keep | Server_Timeout | Cancel_Ack_Timeout instant | Node_Unresponsive | Node_Never_Seen

definition heartbeat_interval :: "node_row \<Rightarrow> int" where
  "heartbeat_interval n = (if n_heartbeat_interval_sec n = 0 then 5 else n_heartbeat_interval_sec n)"

text \<open>Is a running task past its deadline?\<close>

definition past_deadline :: "instant \<Rightarrow> task_row \<Rightarrow> api_error + bool" where
  "past_deadline now r =
     (if t_status r = Running \<and> truthy (t_started_at r) then
        (case fromisoformat (the (t_started_at r)) of
           None \<Rightarrow> Inl (Unhandled ''ValueError'')
         | Some p \<Rightarrow> Inr (to_utc p + seconds (t_timeout_sec r) < now))
      else Inr False)"

definition cancel_verdict :: "instant \<Rightarrow> audit_row list \<Rightarrow> task_row \<Rightarrow> api_error + verdict" where
  "cancel_verdict now audits r =
     (case latest_cancel_requested_at (t_task_id r) audits of
        Inl e \<Rightarrow> Inl e
      | Inr None \<Rightarrow> Inr Keep
      | Inr (Some t) \<Rightarrow> Inr (if seconds CANCEL_ACK_TIMEOUT_SEC < now - t then Cancel_Ack_Timeout t else Keep))"

definition silent_verdict :: "instant \<Rightarrow> node_row \<Rightarrow> task_row \<Rightarrow> api_error + verdict" where
  "silent_verdict now n r =
     (if truthy (n_last_seen_at n) then
        (case parse_utc_or_none (n_last_seen_at n) of
           Inl e \<Rightarrow> Inl e
         | Inr None \<Rightarrow> Inr Keep
         | Inr (Some t) \<Rightarrow> Inr (if seconds (3 * heartbeat_interval n) < now - t then Node_Unresponsive else Keep))
      else
        (case parse_utc_or_none (t_claimed_at r) of
           Inl e \<Rightarrow> Inl e
         | Inr None \<Rightarrow> Inr Keep
         | Inr (Some t) \<Rightarrow> Inr (if seconds (3 * heartbeat_interval n) < now - t then Node_Never_Seen else Keep)))"

definition verdict_of :: "instant \<Rightarrow> audit_row list \<Rightarrow> node_row \<Rightarrow> task_row \<Rightarrow> api_error + verdict" where
  "verdict_of now audits n r =
     (case past_deadline now r of
        Inl e \<Rightarrow> Inl e
      | Inr True \<Rightarrow> Inr Server_Timeout
      | Inr False \<Rightarrow>
          if t_status r = Cancel_Requested then cancel_verdict now audits r
          else if t_status r \<in> {Claimed, Running} then silent_verdict now n r
          else Inr Keep)"

definition system_audit :: "string \<Rightarrow> string \<Rightarrow> dict \<Rightarrow> iso \<Rightarrow> world \<Rightarrow> world" where
  "system_audit action task_id detail now_iso w =
     insert_audit ''system'' (Some ''background'') action ''task'' (Some task_id) None detail now_iso w"

text \<open>The statements of the branch that a verdict takes: transition, audit event, webhook.\<close>

definition apply_verdict :: "instant \<Rightarrow> node_row \<Rightarrow> task_row \<Rightarrow> verdict \<Rightarrow> world \<Rightarrow> world" where
  "apply_verdict now n r v w =
     (let now_iso = utc_now_iso now; tid = t_task_id r;
          move = (\<lambda>ev w. snd (transition_task tid ev now_iso None (Some now_iso) None None w));
          lost = (\<lambda>detail event_detail.
            emit_event now ''task.lost'' ([(''task_id'', JStr tid), (''node_id'', JStr (t_node_id r))] @ event_detail) ''warning''
              (system_audit ''task_lost'' tid detail now_iso (move Ev_Background_Lost w)))
      in case v of
           Keep \<Rightarrow> w
         | Server_Timeout \<Rightarrow>
             emit_event now ''task.failed''
               [(''task_id'', JStr tid), (''node_id'', JStr (t_node_id r)), (''failure_reason'', JStr ''timeout''),
                (''timeout_sec'', JInt (t_timeout_sec r))] ''warning''
               (system_audit ''task_timeout'' tid
                  [(''reason'', JStr ''server_side_timeout_enforcement''), (''timeout_sec'', JInt (t_timeout_sec r))]
                  now_iso (move Ev_Background_Timeout w))
         | Cancel_Ack_Timeout t \<Rightarrow>
             lost [(''reason'', JStr ''cancel_ack_timeout''), (''note'', JStr ''node may still be running process''),
                   (''cancel_requested_at'', JStr (isoformat t)), (''last_seen_at'', opt_json JStr (n_last_seen_at n))]
                  [(''reason'', JStr ''cancel_ack_timeout'')]
         | Node_Unresponsive \<Rightarrow>
             lost [(''reason'', JStr ''node_unresponsive''), (''last_seen_at'', opt_json JStr (n_last_seen_at n)),
                   (''heartbeat_interval_sec'', JInt (heartbeat_interval n))]
                  [(''reason'', JStr ''node_unresponsive''), (''last_seen_at'', opt_json JStr (n_last_seen_at n))]
         | Node_Never_Seen \<Rightarrow>
             lost [(''reason'', JStr ''node_never_seen''), (''claimed_at'', opt_json JStr (t_claimed_at r))]
                  [(''reason'', JStr ''node_never_seen'')])"

text \<open>The join of the active tasks with their nodes, and the loop over it.\<close>

definition active_tasks :: "database \<Rightarrow> (node_row \<times> task_row) list" where
  "active_tasks d =
     concat (map (\<lambda>r. case get_node (t_node_id r) (d_nodes d) of Some n \<Rightarrow> [(n, r)] | None \<Rightarrow> [])
       (filter (\<lambda>r. t_status r \<in> {Claimed, Running, Cancel_Requested}) (d_tasks d)))"

fun mark_lost_loop :: "instant \<Rightarrow> (node_row \<times> task_row) list \<Rightarrow> (world, api_error, unit) act" where
  "mark_lost_loop now [] w = (Inr (), w)"
| "mark_lost_loop now ((n, r) # rest) w =
     (case verdict_of now (d_audits (db w)) n r of
        Inl e \<Rightarrow> (Inl e, w)
      | Inr v \<Rightarrow> mark_lost_loop now rest (apply_verdict now n r v w))"

definition mark_lost_tasks :: "instant \<Rightarrow> (world, api_error, unit) act" where
  "mark_lost_tasks now = connect (\<lambda>w. mark_lost_loop now (active_tasks (db w)) w)"

section \<open>Expired reviews\<close>

definition review_overdue :: "instant \<Rightarrow> task_row \<Rightarrow> bool" where
  "review_overdue now r \<longleftrightarrow> t_status r = Reviewing \<and>
     (case t_review_started_at r of None \<Rightarrow> False | Some t \<Rightarrow> t < utc_now_iso (now - minutes 30))"

definition expire_review :: "instant \<Rightarrow> task_row \<Rightarrow> world \<Rightarrow> world" where
  "expire_review now r w =
     emit_event now ''review.expired'' [(''task_id'', JStr (t_task_id r)), (''timeout_minutes'', JInt 30)] ''warning''
       (upd_alerts (update_where
          (\<lambda>a. al_target_type a = Some ''task'' \<and> al_target_id a = Some (t_task_id r) \<and> al_status a = ''unread'')
          (\<lambda>a. a\<lparr>al_status := ''expired''\<rparr>))
        (snd (transition_task (t_task_id r) Ev_Review_Expire (utc_now_iso now) None None None None w)))"

definition expire_reviewing_tasks :: "instant \<Rightarrow> (world, api_error, unit) act" where
  "expire_reviewing_tasks now w = (Inr (), fold (expire_review now) (filter (review_overdue now) (d_tasks (db w))) w)"

section \<open>Retention\<close>

definition prune_old_status_snapshots :: "settings \<Rightarrow> instant \<Rightarrow> (world, api_error, unit) act" where
  "prune_old_status_snapshots s now w =
     (Inr (), upd_snapshots (delete_where (\<lambda>r. s_reported_at r < utc_now_iso (now - days (snapshot_retention_days s)))) w)"

definition is_within_root :: "path \<Rightarrow> path \<Rightarrow> bool" where
  "is_within_root root_path candidate \<longleftrightarrow> starts_with (resolve_path root_path) (resolve_path candidate)"

definition file_delete :: "path \<Rightarrow> file_tree \<Rightarrow> file_tree" where
  "file_delete p fs = filter (\<lambda>(q, _). q \<noteq> p) fs"

definition cleanup_path :: "path \<Rightarrow> path \<Rightarrow> world \<Rightarrow> world" where
  "cleanup_path expected_root p w =
     (if \<not> is_within_root expected_root p then w else w\<lparr>files := file_delete p (files w)\<rparr>)"

text \<open>A task that ended before the cutoff.\<close>

definition ended_before :: "iso \<Rightarrow> task_row \<Rightarrow> bool" where
  "ended_before cutoff r \<longleftrightarrow> t_status r \<in> TERMINAL_TASK_STATUSES \<and>
     (case t_finished_at r of None \<Rightarrow> False | Some t \<Rightarrow> t < cutoff)"

definition task_ended_before :: "iso \<Rightarrow> string \<Rightarrow> database \<Rightarrow> bool" where
  "task_ended_before cutoff task_id d \<longleftrightarrow>
     (case get_task task_id (d_tasks d) of None \<Rightarrow> False | Some r \<Rightarrow> ended_before cutoff r)"

definition prune_old_task_logs :: "settings \<Rightarrow> instant \<Rightarrow> (world, api_error, unit) act" where
  "prune_old_task_logs s now w =
     (let cutoff = utc_now_iso (now - days (task_log_retention_days s));
          old = (\<lambda>r. task_ended_before cutoff (l_task_id r) (db w));
          w1 = fold (\<lambda>r w. case l_center_log_path r of
                 None \<Rightarrow> w | Some p \<Rightarrow> cleanup_path (storage_base s @ [''logs'']) p w) (filter old (d_logs (db w))) w
      in (Inr (), upd_logs (delete_where old) w1))"

definition prune_old_artifacts :: "settings \<Rightarrow> instant \<Rightarrow> (world, api_error, unit) act" where
  "prune_old_artifacts s now w =
     (let cutoff = utc_now_iso (now - days (artifact_retention_days s));
          old = (\<lambda>r. task_ended_before cutoff (f_task_id r) (db w));
          w1 = fold (\<lambda>r w. cleanup_path (storage_base s @ [''artifacts'']) (f_storage_path r) w)
                 (filter old (d_artifacts (db w))) w
      in (Inr (), upd_artifacts (delete_where old) w1))"

section \<open>Gauges and the scanner\<close>

text \<open>\<open>_offline_node_cache\<close> and \<open>_scanner_first_tick\<close>.\<close>

record scanner =
  sc_offline :: "string list"
  sc_first_tick :: bool

definition gauge_status :: "instant \<Rightarrow> node_row \<Rightarrow> string" where
  "gauge_status now n =
     (if \<not> n_is_enabled n then ''disabled''
      else (case n_last_seen_at n of
              None \<Rightarrow> ''never_seen''
            | Some t \<Rightarrow>
                (case parse_utc t of
                   None \<Rightarrow> ''online''
                 | Some seen \<Rightarrow> if floor_sec seen < floor_sec (now - seconds 30) then ''offline'' else ''online'')))"

text \<open>The loop over the nodes: the \<open>NODE_ONLINE_SECONDS\<close> set, and whether it ended without an exception.\<close>

fun online_seconds :: "instant \<Rightarrow> node_row list \<Rightarrow> metric list \<times> bool" where
  "online_seconds now [] = ([], True)"
| "online_seconds now (n # ns) =
     (case parse_utc_or_none (n_last_seen_at n) of
        Inl _ \<Rightarrow> ([], False)
      | Inr None \<Rightarrow> online_seconds now ns
      | Inr (Some t) \<Rightarrow> (case online_seconds now ns of (ms, k) \<Rightarrow>
          (NODE_ONLINE_SECONDS (n_node_id n) (max 0 (now - t)) # ms, k)))"

definition counts_by :: "('a \<Rightarrow> string) \<Rightarrow> 'a list \<Rightarrow> (string \<times> nat) list" where
  "counts_by f rows = map (\<lambda>k. (k, rowcount (\<lambda>r. f r = k) rows)) (remdups (map f rows))"

definition dir_size :: "(bytes \<Rightarrow> nat) \<Rightarrow> path \<Rightarrow> file_tree \<Rightarrow> nat" where
  "dir_size gz dir fs = storage_usage_bytes gz dir fs"

definition update_storage_bytes :: "(bytes \<Rightarrow> nat) \<Rightarrow> path \<Rightarrow> file_tree \<Rightarrow> metric list" where
  "update_storage_bytes gz base fs =
     map (\<lambda>k. STORAGE_BYTES k (dir_size gz (base @ [k]) fs)) [''logs'', ''artifacts'', ''snapshots'']"

definition node_event :: "instant \<Rightarrow> string \<Rightarrow> string \<Rightarrow> string \<Rightarrow> world \<Rightarrow> world" where
  "node_event now event severity node_id w = emit_event now event [(''node_id'', JStr node_id)] severity w"

definition refresh_status_gauges :: "(bytes \<Rightarrow> nat) \<Rightarrow> settings \<Rightarrow> instant \<Rightarrow> scanner \<times> world \<Rightarrow> scanner \<times> world" where
  "refresh_status_gauges gz s now st =
     (case st of (sc, w) \<Rightarrow>
       (case online_seconds now (d_nodes (db w)) of
          (ms, False) \<Rightarrow> (sc, observe ms w)
        | (ms, True) \<Rightarrow>
            (let current = map n_node_id (filter (\<lambda>n. gauge_status now n = ''offline'') (d_nodes (db w)));
                 task_counts = counts_by (\<lambda>r. status_str (t_status r)) (d_tasks (db w));
                 w1 = observe (ms @ update_nodes_by_status (counts_by (gauge_status now) (d_nodes (db w))) @
                        update_tasks_by_status task_counts @ [REVIEW_PENDING (count_of task_counts ''reviewing'')] @
                        update_storage_bytes gz (storage_base s) (files w)) w;
                 w2 = (if sc_first_tick sc then w1
                       else fold (node_event now ''node.online'' ''info'')
                              (filter (\<lambda>k. k \<notin> set current) (sc_offline sc))
                              (fold (node_event now ''node.offline'' ''warning'')
                                (filter (\<lambda>k. k \<notin> set (sc_offline sc)) current) w1))
             in (\<lparr>sc_offline = current, sc_first_tick = False\<rparr>, w2))))"

definition run_background_job :: "string \<Rightarrow> (world, api_error, unit) act \<Rightarrow> world \<Rightarrow> world" where
  "run_background_job job_name fn w =
     (case fn w of (Inr _, w') \<Rightarrow> w' | (Inl _, w') \<Rightarrow> observe [BACKGROUND_JOB_ERROR job_name] w')"

definition JOB_REGISTRY :: "settings \<Rightarrow> instant \<Rightarrow> (string \<times> (world, api_error, unit) act) list" where
  "JOB_REGISTRY s now = [(''mark_lost'', mark_lost_tasks now), (''expire_reviewing'', expire_reviewing_tasks now),
     (''prune_snapshots'', prune_old_status_snapshots s now), (''prune_logs'', prune_old_task_logs s now),
     (''prune_artifacts'', prune_old_artifacts s now)]"

text \<open>One turn of \<open>lost_task_scanner\<close>.\<close>

definition scanner_tick :: "(bytes \<Rightarrow> nat) \<Rightarrow> settings \<Rightarrow> instant \<Rightarrow> scanner \<times> world \<Rightarrow> scanner \<times> world" where
  "scanner_tick gz s now st =
     (case st of (sc, w) \<Rightarrow>
       refresh_status_gauges gz s now
         (sc, fold (\<lambda>(job_name, fn). run_background_job job_name fn) (JOB_REGISTRY s now)
                (prune_expired_nonces (utc_now_iso now) w)))"

section \<open>What the scan does to one task\<close>

definition settle :: "instant \<Rightarrow> verdict \<Rightarrow> task_row \<Rightarrow> task_row" where
  "settle now v r = (case v of Keep \<Rightarrow> r
     | Server_Timeout \<Rightarrow> r\<lparr>t_status := Timeout, t_finished_at := Some (utc_now_iso now)\<rparr>
     | _ \<Rightarrow> r\<lparr>t_status := Lost, t_finished_at := Some (utc_now_iso now)\<rparr>)"

definition judged :: "instant \<Rightarrow> database \<Rightarrow> task_row \<Rightarrow> task_row" where
  "judged now d r =
     (if t_status r \<in> {Claimed, Running, Cancel_Requested} then
        (case get_node (t_node_id r) (d_nodes d) of
           None \<Rightarrow> r
         | Some n \<Rightarrow> (case verdict_of now (d_audits d) n r of Inl _ \<Rightarrow> r | Inr v \<Rightarrow> settle now v r))
      else r)"

lemma settle_key [simp]: "t_task_id (settle now v r) = t_task_id r"
  by (cases v) (simp_all add: settle_def)

lemma row_step_background:
  "row_step Ev_Background_Lost now None (Some n) None None r = Inr (r\<lparr>t_status := Lost, t_finished_at := Some (or_else (Some n) now)\<rparr>)"
  "row_step Ev_Background_Timeout now None (Some n) None None r = Inr (r\<lparr>t_status := Timeout, t_finished_at := Some (or_else (Some n) now)\<rparr>)"
  by (simp_all add: row_step_def)

lemma or_else_iso [simp]: "or_else (Some (utc_now_iso t)) x = utc_now_iso t"
  by (simp add: or_else_def)

lemma background_move:
  assumes u: "distinct (map t_task_id (d_tasks (db w)))" and g: "get_task tid (d_tasks (db w)) = Some r"
    and s: "row_step ev now st fi ad da r = Inr r'"
  shows "wrote_task tid r' w (snd (transition_task tid ev now st fi ad da w))"
  using transition_refines [OF u g, of ev now st fi ad da] s by auto

lemma cancels_of_audit:
  assumes "action \<noteq> ''cancel_task''"
  shows "cancels_of k (d_audits (db (system_audit action tid d n w))) = cancels_of k (d_audits (db w))"
  using assms by (simp add: cancels_of_def system_audit_def insert_audit_def)

lemma system_audit_simps [simp]:
  "d_tasks (db (system_audit a t d n w)) = d_tasks (db w)" "d_nodes (db (system_audit a t d n w)) = d_nodes (db w)"
  "d_alerts (db (system_audit a t d n w)) = d_alerts (db w)" "d_logs (db (system_audit a t d n w)) = d_logs (db w)"
  "files (system_audit a t d n w) = files w" "pending_fp (system_audit a t d n w) = pending_fp w"
  by (simp_all add: system_audit_def)

lemma put_task_map:
  assumes "distinct (map t_task_id rows)" and "get_task (t_task_id r) rows = Some r"
  shows "put_task (t_task_id r) (\<lambda>_. r') rows = map (\<lambda>x. if x = r then r' else x) rows"
proof -
  have "\<forall>x \<in> set rows. t_task_id x = t_task_id r \<longleftrightarrow> x = r"
    using get_task_unique [OF assms(1)] assms(2) get_task_in [OF assms(2)] by (metis option.inject)
  then show ?thesis by (auto simp: put_task_def update_where_def)
qed

lemma put_task_ids: "t_task_id r' = tid \<Longrightarrow> map t_task_id (put_task tid (\<lambda>_. r') rows) = map t_task_id rows"
  by (auto simp: put_task_def update_where_def)

lemma apply_verdict_facts:
  assumes u: "distinct (map t_task_id (d_tasks (db w)))" and g: "get_task (t_task_id r) (d_tasks (db w)) = Some r"
  shows "d_tasks (db (apply_verdict now n r v w)) = put_task (t_task_id r) (\<lambda>_. settle now v r) (d_tasks (db w))"
    and "d_nodes (db (apply_verdict now n r v w)) = d_nodes (db w)"
    and "cancels_of k (d_audits (db (apply_verdict now n r v w))) = cancels_of k (d_audits (db w))"
    and "files (apply_verdict now n r v w) = files w"
    and "d_logs (db (apply_verdict now n r v w)) = d_logs (db w)"
proof -
  note m = background_move [OF u g row_step_background(1), of "utc_now_iso now" "utc_now_iso now"]
    background_move [OF u g row_step_background(2), of "utc_now_iso now" "utc_now_iso now"]
  have keep: "put_task (t_task_id r) (\<lambda>_. r) (d_tasks (db w)) = d_tasks (db w)"
    unfolding put_task_map [OF u g] by (rule map_idI) simp
  show "d_tasks (db (apply_verdict now n r v w)) = put_task (t_task_id r) (\<lambda>_. settle now v r) (d_tasks (db w))"
    using m keep by (cases v) (simp_all add: apply_verdict_def Let_def settle_def wrote_task_def)
  show "d_nodes (db (apply_verdict now n r v w)) = d_nodes (db w)"
    and "cancels_of k (d_audits (db (apply_verdict now n r v w))) = cancels_of k (d_audits (db w))"
    and "files (apply_verdict now n r v w) = files w"
    and "d_logs (db (apply_verdict now n r v w)) = d_logs (db w)"
    using m by (cases v; simp add: apply_verdict_def Let_def wrote_task_def cancels_of_audit)+
qed

lemma verdict_of_cong:
  "(\<And>k. cancels_of k a = cancels_of k b) \<Longrightarrow> verdict_of now a n r = verdict_of now b n r"
  unfolding verdict_of_def cancel_verdict_def latest_cancel_requested_at_def by presburger

lemma judged_active:
  assumes "get_node (t_node_id r) (d_nodes d) = Some n" and "t_status r \<in> {Claimed, Running, Cancel_Requested}"
    and "verdict_of now (d_audits d) n r = Inr v"
  shows "judged now d r = settle now v r"
  using assms by (auto simp: judged_def)

text \<open>The loop applies the verdict to each of its rows and to no other.\<close>

lemma mark_lost_loop_facts:
  assumes "mark_lost_loop now xs w = (Inr (), w')"
    and "distinct (map t_task_id (d_tasks (db w)))" and "distinct (map (\<lambda>p. t_task_id (snd p)) xs)"
    and "\<forall>(n, r) \<in> set xs. get_task (t_task_id r) (d_tasks (db w)) = Some r \<and> get_node (t_node_id r) (d_nodes d) = Some n \<and>
      t_status r \<in> {Claimed, Running, Cancel_Requested}"
    and "\<And>k. cancels_of k (d_audits (db w)) = cancels_of k (d_audits d)"
  shows "d_tasks (db w') = map (\<lambda>x. if x \<in> snd ` set xs then judged now d x else x) (d_tasks (db w)) \<and>
    d_nodes (db w') = d_nodes (db w) \<and> files w' = files w \<and> d_logs (db w') = d_logs (db w) \<and>
    (\<forall>(n, r) \<in> set xs. \<exists>v. verdict_of now (d_audits d) n r = Inr v)"
  using assms
proof (induction xs arbitrary: w)
  case Nil
  then show ?case by simp
next
  case (Cons p xs)
  obtain n r where p: "p = (n, r)" by (cases p)
  have g: "get_task (t_task_id r) (d_tasks (db w)) = Some r" and n: "get_node (t_node_id r) (d_nodes d) = Some n"
    and act: "t_status r \<in> {Claimed, Running, Cancel_Requested}" using Cons.prems(4) by (auto simp: p)
  from Cons.prems(1) obtain v where v: "verdict_of now (d_audits (db w)) n r = Inr v"
    and run: "mark_lost_loop now xs (apply_verdict now n r v w) = (Inr (), w')" by (auto simp: p split: sum.splits)
  note f = apply_verdict_facts [OF Cons.prems(2) g, where now = now and n = n and v = v]
  have vd: "verdict_of now (d_audits d) n r = Inr v" using v verdict_of_cong [OF Cons.prems(5)] by simp
  note j = judged_active [OF n act vd]
  let ?rows = "d_tasks (db w)"
  have rows1: "d_tasks (db (apply_verdict now n r v w)) = map (\<lambda>x. if x = r then judged now d r else x) ?rows"
    by (simp add: f(1) put_task_map [OF Cons.prems(2) g] j)
  have ids: "map t_task_id (d_tasks (db (apply_verdict now n r v w))) = map t_task_id ?rows"
    by (simp add: f(1) put_task_ids)
  have other: "t_task_id r' \<noteq> t_task_id r" if "(n', r') \<in> set xs" for n' r'
    using Cons.prems(3) that by (force simp: p)
  have still: "\<forall>(n', r') \<in> set xs. get_task (t_task_id r') (d_tasks (db (apply_verdict now n r v w))) = Some r' \<and>
      get_node (t_node_id r') (d_nodes d) = Some n' \<and> t_status r' \<in> {Claimed, Running, Cancel_Requested}"
    using Cons.prems(4) other by (auto simp: f(1) get_put_task_other)
  have IH: "d_tasks (db w') = map (\<lambda>x. if x \<in> snd ` set xs then judged now d x else x) (d_tasks (db (apply_verdict now n r v w))) \<and>
      d_nodes (db w') = d_nodes (db (apply_verdict now n r v w)) \<and> files w' = files (apply_verdict now n r v w) \<and>
      d_logs (db w') = d_logs (db (apply_verdict now n r v w)) \<and>
      (\<forall>(n, r) \<in> set xs. \<exists>v. verdict_of now (d_audits d) n r = Inr v)"
    by (rule Cons.IH [OF run]) (use Cons.prems ids still f(3) in auto)
  have "judged now d r \<notin> snd ` set xs" using other by (force simp: j)
  moreover have "r \<notin> snd ` set xs" using other by force
  ultimately show ?case using IH f(2,4,5) vd by (auto simp: rows1 p)
qed

lemma active_tasks_ids:
  "distinct (map t_task_id (d_tasks d)) \<Longrightarrow> distinct (map (\<lambda>p. t_task_id (snd p)) (active_tasks d))"
  unfolding active_tasks_def
proof (induction "d_tasks d" arbitrary: d)
  case (Cons r rows)
  have "distinct (map (\<lambda>p. t_task_id (snd p)) (concat (map (\<lambda>r. case get_node (t_node_id r) (d_nodes d) of
      Some n \<Rightarrow> [(n, r)] | None \<Rightarrow> []) (filter (\<lambda>r. t_status r \<in> {Claimed, Running, Cancel_Requested}) rows))))"
    using Cons.hyps(1) [of "d\<lparr>d_tasks := rows\<rparr>"] Cons.prems Cons.hyps(2) [symmetric] by simp
  with Cons.prems Cons.hyps(2) [symmetric] show ?case by (auto split: option.splits)
qed simp

lemma active_tasks_in:
  "(n, r) \<in> set (active_tasks d) \<longleftrightarrow> r \<in> set (d_tasks d) \<and> get_node (t_node_id r) (d_nodes d) = Some n \<and>
     t_status r \<in> {Claimed, Running, Cancel_Requested}"
  by (auto simp: active_tasks_def split: option.splits)

lemma mark_lost_facts:
  assumes u: "distinct (map t_task_id (d_tasks (db w)))" and m: "mark_lost_tasks now w = (Inr (), w')"
  shows "d_tasks (db w') = map (judged now (db w)) (d_tasks (db w))" and "d_nodes (db w') = d_nodes (db w)"
    and "files w' = files w" and "d_logs (db w') = d_logs (db w)"
    and "(n, r) \<in> set (active_tasks (db w)) \<Longrightarrow> \<exists>v. verdict_of now (d_audits (db w)) n r = Inr v"
proof -
  have loop: "mark_lost_loop now (active_tasks (db w)) w = (Inr (), w')" using m by (simp add: mark_lost_tasks_def connect_Inr)
  have f: "d_tasks (db w') = map (\<lambda>x. if x \<in> snd ` set (active_tasks (db w)) then judged now (db w) x else x) (d_tasks (db w)) \<and>
      d_nodes (db w') = d_nodes (db w) \<and> files w' = files w \<and> d_logs (db w') = d_logs (db w) \<and>
      (\<forall>(n, r) \<in> set (active_tasks (db w)). \<exists>v. verdict_of now (d_audits (db w)) n r = Inr v)"
    by (rule mark_lost_loop_facts [OF loop u active_tasks_ids [OF u]])
      (auto simp: active_tasks_in get_task_unique [OF u])
  have am: "x \<in> snd ` set (active_tasks (db w)) \<or> judged now (db w) x = x" if "x \<in> set (d_tasks (db w))" for x
  proof (cases "judged now (db w) x = x")
    case False
    then obtain n where "get_node (t_node_id x) (d_nodes (db w)) = Some n" and "t_status x \<in> {Claimed, Running, Cancel_Requested}"
      by (auto simp: judged_def split: if_splits option.splits)
    with that have "(n, x) \<in> set (active_tasks (db w))" by (simp add: active_tasks_in)
    then have "x \<in> snd ` set (active_tasks (db w))" by force
    then show ?thesis ..
  qed simp
  have "map (\<lambda>x. if x \<in> snd ` set (active_tasks (db w)) then judged now (db w) x else x) (d_tasks (db w)) =
      map (judged now (db w)) (d_tasks (db w))"
    by (rule map_cong [OF refl]) (metis am)
  with f show "d_tasks (db w') = map (judged now (db w)) (d_tasks (db w))" by simp
  show "d_nodes (db w') = d_nodes (db w)" "files w' = files w" "d_logs (db w') = d_logs (db w)" using f by auto
  show "(n, r) \<in> set (active_tasks (db w)) \<Longrightarrow> \<exists>v. verdict_of now (d_audits (db w)) n r = Inr v" using f by auto
qed

section \<open>What the other jobs do\<close>

definition expired :: "instant \<Rightarrow> task_row \<Rightarrow> task_row" where
  "expired now r = (if review_overdue now r then r\<lparr>t_status := Review_Expired, t_review_decision := Some ''expired'',
     t_review_finished_at := Some (utc_now_iso now)\<rparr> else r)"

lemma expired_key [simp]: "t_task_id (expired now r) = t_task_id r"
  by (simp add: expired_def)

lemma expire_review_facts:
  assumes u: "distinct (map t_task_id (d_tasks (db w)))" and g: "get_task (t_task_id r) (d_tasks (db w)) = Some r"
    and o: "review_overdue now r"
  shows "d_tasks (db (expire_review now r w)) = put_task (t_task_id r) (\<lambda>_. expired now r) (d_tasks (db w))"
    and "d_nodes (db (expire_review now r w)) = d_nodes (db w)" and "files (expire_review now r w) = files w"
    and "d_logs (db (expire_review now r w)) = d_logs (db w)"
proof -
  have "row_step Ev_Review_Expire (utc_now_iso now) None None None None r = Inr (expired now r)"
    using o by (simp add: row_step_def expired_def review_overdue_def)
  note m = background_move [OF u g this]
  show "d_tasks (db (expire_review now r w)) = put_task (t_task_id r) (\<lambda>_. expired now r) (d_tasks (db w))"
    and "d_nodes (db (expire_review now r w)) = d_nodes (db w)" and "files (expire_review now r w) = files w"
    and "d_logs (db (expire_review now r w)) = d_logs (db w)"
    using m by (simp_all add: expire_review_def wrote_task_def upd_alerts_def)
qed

lemma expire_fold:
  assumes "distinct (map t_task_id (d_tasks (db w)))" and "distinct (map t_task_id xs)"
    and "\<forall>r \<in> set xs. get_task (t_task_id r) (d_tasks (db w)) = Some r \<and> review_overdue now r"
  shows "d_tasks (db (fold (expire_review now) xs w)) = map (\<lambda>x. if x \<in> set xs then expired now x else x) (d_tasks (db w)) \<and>
    d_nodes (db (fold (expire_review now) xs w)) = d_nodes (db w) \<and> files (fold (expire_review now) xs w) = files w \<and>
    d_logs (db (fold (expire_review now) xs w)) = d_logs (db w)"
  using assms
proof (induction xs arbitrary: w)
  case (Cons r xs)
  have g: "get_task (t_task_id r) (d_tasks (db w)) = Some r" and o: "review_overdue now r" using Cons.prems(3) by auto
  note f = expire_review_facts [OF Cons.prems(1) g o]
  have other: "\<forall>x \<in> set xs. t_task_id x \<noteq> t_task_id r" using Cons.prems(2) by (force simp: image_iff)
  have ids: "distinct (map t_task_id (d_tasks (db (expire_review now r w))))"
    using Cons.prems(1) by (simp add: f(1) put_task_ids)
  have still: "\<forall>x \<in> set xs. get_task (t_task_id x) (d_tasks (db (expire_review now r w))) = Some x \<and> review_overdue now x"
    using Cons.prems(3) other by (simp add: f(1) get_put_task_other)
  have "expired now r \<notin> set xs" and "r \<notin> set xs" using other expired_key by metis+
  with Cons.IH [OF ids _ still] Cons.prems(2) f(2,3,4) show ?case
    by (auto simp: f(1) put_task_map [OF Cons.prems(1) g])
qed simp

lemma expire_reviewing_facts:
  assumes u: "distinct (map t_task_id (d_tasks (db w)))" and e: "expire_reviewing_tasks now w = (r, w')"
  shows "r = Inr ()" and "d_tasks (db w') = map (expired now) (d_tasks (db w))" and "d_nodes (db w') = d_nodes (db w)"
    and "files w' = files w" and "d_logs (db w') = d_logs (db w)"
proof -
  let ?xs = "filter (review_overdue now) (d_tasks (db w))"
  have w': "w' = fold (expire_review now) ?xs w" and r: "r = Inr ()" using e by (simp_all add: expire_reviewing_tasks_def)
  have f: "d_tasks (db w') = map (\<lambda>x. if x \<in> set ?xs then expired now x else x) (d_tasks (db w)) \<and>
      d_nodes (db w') = d_nodes (db w) \<and> files w' = files w \<and> d_logs (db w') = d_logs (db w)"
    unfolding w' by (rule expire_fold) (use u get_task_unique [OF u] in \<open>auto simp: distinct_map_filter\<close>)
  then show "r = Inr ()" "d_tasks (db w') = map (expired now) (d_tasks (db w))" "d_nodes (db w') = d_nodes (db w)"
    "files w' = files w" "d_logs (db w') = d_logs (db w)"
    using r by (auto simp: expired_def)
qed

text \<open>Retention: the files that go are those of the rows that go, and lie below the expected root.\<close>

lemma file_get_delete [simp]: "file_get p (file_delete q fs) = (if p = q then None else file_get p fs)"
  by (induction fs) (auto simp: file_get_def file_delete_def)

lemma cleanup_path_simps [simp]: "db (cleanup_path e p w) = db w" "gm (cleanup_path e p w) = gm w" "hook (cleanup_path e p w) = hook w"
  by (simp_all add: cleanup_path_def)

lemma cleanup_file:
  "file_get q (files (cleanup_path e p w)) = (if q = p \<and> is_within_root e p then None else file_get q (files w))"
  by (simp add: cleanup_path_def)

lemma prune_fold_files:
  "file_get q (files (fold (\<lambda>r w. case path_of r of None \<Rightarrow> w | Some p \<Rightarrow> cleanup_path e p w) rows w)) =
     (if (\<exists>r \<in> set rows. path_of r = Some q) \<and> is_within_root e q then None else file_get q (files w)) \<and>
   db (fold (\<lambda>r w. case path_of r of None \<Rightarrow> w | Some p \<Rightarrow> cleanup_path e p w) rows w) = db w"
proof (induction rows arbitrary: w)
  case (Cons r rows)
  then show ?case by (cases "path_of r") (auto simp: cleanup_file)
qed simp

lemma prune_logs_facts:
  fixes s :: settings and now :: instant
  assumes "prune_old_task_logs s now w = (r, w')"
  defines "old \<equiv> \<lambda>r. task_ended_before (utc_now_iso (now - days (task_log_retention_days s))) (l_task_id r) (db w)"
  shows "r = Inr ()" and "d_logs (db w') = filter (\<lambda>r. \<not> old r) (d_logs (db w))" and "d_tasks (db w') = d_tasks (db w)"
    and "d_nodes (db w') = d_nodes (db w)"
    and "file_get q (files w') = (if (\<exists>r \<in> set (d_logs (db w)). old r \<and> l_center_log_path r = Some q) \<and>
           is_within_root (storage_base s @ [''logs'']) q then None else file_get q (files w))"
proof -
  note pf = prune_fold_files [where q = q and path_of = l_center_log_path and e = "storage_base s @ [''logs'']"
      and rows = "filter old (d_logs (db w))" and w = w]
  show "r = Inr ()" "d_logs (db w') = filter (\<lambda>r. \<not> old r) (d_logs (db w))" "d_tasks (db w') = d_tasks (db w)"
    "d_nodes (db w') = d_nodes (db w)"
    using assms(1) pf unfolding old_def by (auto simp: prune_old_task_logs_def Let_def upd_logs_def delete_where_def)
  have "files w' = files (fold (\<lambda>r w. case l_center_log_path r of None \<Rightarrow> w
      | Some p \<Rightarrow> cleanup_path (storage_base s @ [''logs'']) p w) (filter old (d_logs (db w))) w)"
    using assms(1) by (auto simp: prune_old_task_logs_def Let_def old_def upd_logs_def)
  then show "file_get q (files w') = (if (\<exists>r \<in> set (d_logs (db w)). old r \<and> l_center_log_path r = Some q) \<and>
      is_within_root (storage_base s @ [''logs'']) q then None else file_get q (files w))"
    using pf by auto
qed

section \<open>Properties\<close>

text \<open>C14. The scan for lost tasks settles every active task by its own verdict and touches no other: the task
  table afterwards is the old one with each row judged against its node and the audit log as they were
  when the scan began, whatever the scan wrote on the way; nodes, logs and files stay.\<close>

theorem scan_judges_each_task:
  assumes "distinct (map t_task_id (d_tasks (db w)))" and "mark_lost_tasks now w = (Inr (), w')"
  shows "d_tasks (db w') = map (judged now (db w)) (d_tasks (db w)) \<and> d_nodes (db w') = d_nodes (db w) \<and>
    d_logs (db w') = d_logs (db w) \<and> files w' = files w"
  using mark_lost_facts [OF assms] by simp

definition sample_silent_node :: node_row where
  "sample_silent_node = (sample_node ''n'' 1)\<lparr>n_last_seen_at := Some ''2026-01-01T00:00:00+00:00'', n_heartbeat_interval_sec := 5\<rparr>"

lemma sample_seen: "parse_utc_or_none (Some ''2026-01-01T00:00:00+00:00'') = Inr (Some 63902822400000000)"
  by code_simp

lemma sample_verdict:
  "verdict_of (63902822400000000 + seconds 16) [] sample_silent_node (sample_task ''a'' ''n'' Claimed 1) = Inr Node_Unresponsive"
  by (simp add: verdict_of_def past_deadline_def silent_verdict_def sample_silent_node_def sample_seen heartbeat_interval_def
      seconds_def)

lemma sample_scan:
  "\<exists>w'. mark_lost_tasks (63902822400000000 + seconds 16) (sample_world [sample_silent_node] [sample_task ''a'' ''n'' Claimed 1]) =
     (Inr (), w')"
proof -
  have a: "active_tasks (db (sample_world [sample_silent_node] [sample_task ''a'' ''n'' Claimed 1])) =
      [(sample_silent_node, sample_task ''a'' ''n'' Claimed 1)]"
    by (simp add: active_tasks_def get_node_def) (simp add: sample_silent_node_def)
  have "d_audits (db (sample_world [sample_silent_node] [sample_task ''a'' ''n'' Claimed 1])) = []"
    by (simp add: sample_world_def empty_world_def empty_database_def)
  then show ?thesis by (simp add: mark_lost_tasks_def connect_Inr a sample_verdict)
qed

lemma scan_judges_each_task_witness:
  "\<exists>w'. mark_lost_tasks (63902822400000000 + seconds 16) (sample_world [sample_silent_node] [sample_task ''a'' ''n'' Claimed 1]) =
     (Inr (), w') \<and> map t_status (d_tasks (db w')) = [Lost]"
proof -
  let ?w = "sample_world [sample_silent_node] [sample_task ''a'' ''n'' Claimed 1]"
  obtain w' where m: "mark_lost_tasks (63902822400000000 + seconds 16) ?w = (Inr (), w')" using sample_scan by blast
  have "get_node ''n'' [sample_silent_node] = Some sample_silent_node"
    by (simp add: get_node_def sample_silent_node_def)
  moreover have "d_audits (db ?w) = []" by (simp add: sample_world_def empty_world_def empty_database_def)
  ultimately have "judged (63902822400000000 + seconds 16) (db ?w) (sample_task ''a'' ''n'' Claimed 1) =
      settle (63902822400000000 + seconds 16) Node_Unresponsive (sample_task ''a'' ''n'' Claimed 1)"
    by (simp add: judged_def sample_verdict)
  with scan_judges_each_task [OF _ m] m show ?thesis by (simp add: settle_def)
qed

text \<open>C16. No task stays with a dead node: when the scan for lost tasks succeeds, every task that is still
  claimed or running is on a node whose last heartbeat, if it ever sent one, is at most three of its
  heartbeat intervals old.\<close>

theorem no_task_on_dead_node:
  assumes u: "distinct (map t_task_id (d_tasks (db w)))" and m: "mark_lost_tasks now w = (Inr (), w')"
    and r: "r \<in> set (d_tasks (db w'))" "t_status r \<in> {Claimed, Running}"
    and n: "get_node (t_node_id r) (d_nodes (db w')) = Some n"
    and seen: "parse_utc_or_none (n_last_seen_at n) = Inr (Some t)"
  shows "now - t \<le> seconds (3 * heartbeat_interval n)"
proof -
  note f = mark_lost_facts [OF u m]
  from r(1) obtain r0 where r0: "r0 \<in> set (d_tasks (db w))" and j: "r = judged now (db w) r0" by (auto simp: f(1))
  have act: "t_status r0 \<in> {Claimed, Running, Cancel_Requested}" using r(2) j by (auto simp: judged_def split: if_splits)
  have node: "t_node_id r = t_node_id r0"
    by (auto simp: j judged_def settle_def split: option.splits sum.splits verdict.splits)
  have g: "get_node (t_node_id r0) (d_nodes (db w)) = Some n" using n node f(2) by simp
  then have "(n, r0) \<in> set (active_tasks (db w))" using r0 act by (simp add: active_tasks_in)
  then obtain v where v: "verdict_of now (d_audits (db w)) n r0 = Inr v" using f(5) by blast
  have "r = settle now v r0" using judged_active [OF g act v] j by simp
  with r(2) have keep: "v = Keep" "r = r0" by (auto simp: settle_def split: verdict.splits)
  have tr: "truthy (n_last_seen_at n)" using seen by (auto simp: parse_utc_or_none_def split: if_splits)
  show ?thesis
    using v r(2) seen tr by (auto simp: keep verdict_of_def silent_verdict_def split: sum.splits bool.splits if_splits)
qed

lemma no_task_on_dead_node_witness:
  "\<exists>w'. mark_lost_tasks (63902822400000000 + seconds 15) (sample_world [sample_silent_node] [sample_task ''a'' ''n'' Claimed 1]) =
     (Inr (), w') \<and> 63902822400000000 + seconds 15 - 63902822400000000 \<le> seconds (3 * heartbeat_interval sample_silent_node) \<and>
     map t_status (d_tasks (db w')) = [Claimed]"
proof -
  let ?now = "63902822400000000 + seconds 15"
  let ?w = "sample_world [sample_silent_node] [sample_task ''a'' ''n'' Claimed 1]"
  have nd: "get_node ''n'' [sample_silent_node] = Some sample_silent_node"
    by (simp add: get_node_def sample_silent_node_def)
  have v: "verdict_of ?now [] sample_silent_node (sample_task ''a'' ''n'' Claimed 1) = Inr Keep"
    by (simp add: verdict_of_def past_deadline_def silent_verdict_def sample_silent_node_def sample_seen
        heartbeat_interval_def seconds_def)
  have a: "active_tasks (db ?w) = [(sample_silent_node, sample_task ''a'' ''n'' Claimed 1)]"
    by (simp add: active_tasks_def nd)
  have "d_audits (db ?w) = []" by (simp add: sample_world_def empty_world_def empty_database_def)
  then have m: "mark_lost_tasks ?now ?w = (Inr (), ?w)"
    by (simp add: mark_lost_tasks_def connect_Inr a v apply_verdict_def Let_def)
  have "?now - 63902822400000000 \<le> seconds (3 * heartbeat_interval sample_silent_node)"
    by (rule no_task_on_dead_node [OF _ m, of "sample_task ''a'' ''n'' Claimed 1"])
      (use nd sample_seen in \<open>simp_all add: sample_silent_node_def\<close>)
  with m show ?thesis by simp
qed

text \<open>After the expiry job no task waits under review past its thirty minutes: exactly the overdue reviews
  are moved to expired, in one pass, and every other task is as it was.\<close>

theorem overdue_reviews_expire:
  assumes "distinct (map t_task_id (d_tasks (db w)))" and "expire_reviewing_tasks now w = (r, w')"
  shows "r = Inr () \<and> d_tasks (db w') = map (expired now) (d_tasks (db w)) \<and>
    filter (review_overdue now) (d_tasks (db w')) = []"
  using expire_reviewing_facts [OF assms] by (auto simp: filter_empty_conv expired_def review_overdue_def)

lemma overdue_reviews_expire_witness:
  "\<exists>r w'. expire_reviewing_tasks (63902822400000000 + minutes 31)
      (sample_world [] [(sample_task ''a'' ''n'' Reviewing 1)\<lparr>t_review_started_at := Some ''2026-01-01T00:00:00+00:00''\<rparr>]) = (r, w') \<and>
     map t_status (d_tasks (db w')) = [Review_Expired]"
proof -
  let ?t = "(sample_task ''a'' ''n'' Reviewing 1)\<lparr>t_review_started_at := Some ''2026-01-01T00:00:00+00:00''\<rparr>"
  obtain r w' where e: "expire_reviewing_tasks (63902822400000000 + minutes 31) (sample_world [] [?t]) = (r, w')" by fastforce
  have late: "utc_now_iso (63902822400000000 + minutes 31 - minutes 30) = ''2026-01-01T00:01:00+00:00''" by code_simp
  have "review_overdue (63902822400000000 + minutes 31) ?t"
    by (simp add: review_overdue_def late)
  with overdue_reviews_expire [OF _ e] e show ?thesis by (simp add: expired_def)
qed

text \<open>C18. Log retention takes only what it should: the rows that go are those of tasks that ended before the
  cutoff, a file that goes is the log file of such a row and lies below the log directory, and the
  rotated archives of every stream stay although no row leads to them any more.\<close>

theorem log_retention_exact:
  assumes p: "prune_old_task_logs s now w = (r, w')"
    and paths: "\<forall>x \<in> set (d_logs (db w)). \<forall>q. l_center_log_path x = Some q \<longrightarrow> (\<exists>dir st. q = dir @ [log_name st])"
  shows "d_logs (db w') = filter (\<lambda>x. \<not> task_ended_before (utc_now_iso (now - days (task_log_retention_days s))) (l_task_id x) (db w))
      (d_logs (db w)) \<and>
    (\<forall>q. file_get q (files w') \<noteq> file_get q (files w) \<longrightarrow> is_within_root (storage_base s @ [''logs'']) q \<and>
       (\<exists>x \<in> set (d_logs (db w)). l_center_log_path x = Some q \<and>
          task_ended_before (utc_now_iso (now - days (task_log_retention_days s))) (l_task_id x) (db w))) \<and>
    (\<forall>dir st i. file_get (dir @ [archive_name st i]) (files w') = file_get (dir @ [archive_name st i]) (files w))"
proof (intro conjI allI impI)
  note f = prune_logs_facts [OF p]
  show "d_logs (db w') = filter (\<lambda>x. \<not> task_ended_before (utc_now_iso (now - days (task_log_retention_days s))) (l_task_id x) (db w))
      (d_logs (db w))" by (rule f(2))
  fix q
  assume "file_get q (files w') \<noteq> file_get q (files w)"
  then show "is_within_root (storage_base s @ [''logs'']) q"
    and "\<exists>x \<in> set (d_logs (db w)). l_center_log_path x = Some q \<and>
          task_ended_before (utc_now_iso (now - days (task_log_retention_days s))) (l_task_id x) (db w)"
    using f(5) [of q] by (auto split: if_splits)
next
  fix dir st i
  show "file_get (dir @ [archive_name st i]) (files w') = file_get (dir @ [archive_name st i]) (files w)"
    using prune_logs_facts(5) [OF p, of "dir @ [archive_name st i]"] paths by (auto split: if_splits)
qed

lemma log_retention_exact_witness:
  "let w = sample_world [] [(sample_task ''a'' ''n'' Failed 1)\<lparr>t_finished_at := Some ''2020-01-01T00:00:00+00:00''\<rparr>];
       w = insert_log ''a'' Stdout 5 [] (Some [''data'', ''storage'', ''logs'', ''a'', log_name Stdout]) False [] [] w
   in d_logs (db (snd (prune_old_task_logs default_settings 63902822400000000 w))) = []"
proof -
  let ?w0 = "sample_world [] [(sample_task ''a'' ''n'' Failed 1)\<lparr>t_finished_at := Some ''2020-01-01T00:00:00+00:00''\<rparr>]"
  let ?w = "insert_log ''a'' Stdout 5 [] (Some [''data'', ''storage'', ''logs'', ''a'', log_name Stdout]) False [] [] ?w0"
  obtain i where logs: "d_logs (db ?w) = [\<lparr>l_id = i, l_task_id = ''a'', l_stream = Stdout, l_last_offset = 5,
      l_preview_text = [], l_center_log_path = Some [''data'', ''storage'', ''logs'', ''a'', log_name Stdout],
      l_is_truncated = False, l_truncated_notice = [], l_updated_at = []\<rparr>]"
    by (simp add: insert_log_def)
  have paths: "\<forall>x \<in> set (d_logs (db ?w)). \<forall>q. l_center_log_path x = Some q \<longrightarrow> (\<exists>dir st. q = dir @ [log_name st])"
    unfolding logs by (auto intro!: exI [of _ "[''data'', ''storage'', ''logs'', ''a'']"])
  obtain r w' where p: "prune_old_task_logs default_settings 63902822400000000 ?w = (r, w')" by fastforce
  have cut: "utc_now_iso (63902822400000000 - days (task_log_retention_days default_settings)) = ''2025-12-02T00:00:00+00:00''"
    by code_simp
  have "task_ended_before ''2025-12-02T00:00:00+00:00'' ''a'' (db ?w)"
    by (simp add: task_ended_before_def ended_before_def get_task_def TERMINAL_TASK_STATUSES_def)
  with log_retention_exact [OF p paths] p show ?thesis by (simp add: cut logs)
qed

end
