(* ===== verification/Admin_Auth.thy ===== *)
theory Admin_Auth
  imports Security Store Examples
begin

text \<open>
  Administrator accounts: \<open>app/deps.py\<close> (who a bearer token stands for), \<open>app/routers/admin_auth.py\<close>
  (login, refresh, logout) and the first account that \<open>app/main.py\<close> makes. An endpoint that depends on
  \<open>get_current_admin\<close> runs it first, at a time of its own. PyJWT refuses a token whose \<open>sub\<close> is
  not a string, so a payload has a string there or nothing. Rate limits are slowapi's.
\<close>

section \<open>The bearer of a token\<close>

definition token_invalidated :: "int option \<Rightarrow> string option \<Rightarrow> api_error + bool" where
  "token_invalidated token_iat tokens_invalidated_at =
     (if token_iat = None \<or> \<not> truthy tokens_invalidated_at then Inr False
      else (case parse_utc (replace_Z (the tokens_invalidated_at)) of
              None \<Rightarrow> Inl (Unhandled ''ValueError'')
            | Some invalidated_at \<Rightarrow> Inr (the token_iat \<le> unix_seconds invalidated_at)))"

definition active_admin :: "string option \<Rightarrow> database \<Rightarrow> admin_row option" where
  "active_admin username d =
     (case username of None \<Rightarrow> None
      | Some u \<Rightarrow> List.find (\<lambda>r. ad_username r = u \<and> ad_is_active r) (d_admins d))"

definition claim_str :: "dict \<Rightarrow> string \<Rightarrow> string option" where
  "claim_str p k = (case dict_get p k of Some (JStr s) \<Rightarrow> Some s | _ \<Rightarrow> None)"

definition claim_int :: "dict \<Rightarrow> string \<Rightarrow> int option" where
  "claim_int p k = (case dict_get p k of Some (JInt i) \<Rightarrow> Some i | _ \<Rightarrow> None)"

text \<open>The account check that access and refresh tokens share; they differ in the code of a revoked token.\<close>

definition admin_of_payload :: "string \<Rightarrow> dict \<Rightarrow> (world, api_error, admin_row) act" where
  "admin_of_payload revoked payload w =
     (case active_admin (claim_str payload ''sub'') (db w) of
        None \<Rightarrow> (Inl (Api_Error ''ERR_AUTH_ADMIN_NOT_FOUND'' 401), w)
      | Some admin \<Rightarrow>
          (case token_invalidated (claim_int payload ''iat'') (ad_tokens_invalidated_at admin) of
             Inl e \<Rightarrow> (Inl e, w)
           | Inr True \<Rightarrow> (Inl (Api_Error revoked 401), w)
           | Inr False \<Rightarrow> (Inr admin, w)))"

definition get_current_admin :: "crypto \<Rightarrow> settings \<Rightarrow> instant \<Rightarrow> string \<Rightarrow> (world, api_error, admin_row) act" where
  "get_current_admin cr s now token w =
     (case decode_token cr now s token ''access'' of
        None \<Rightarrow> (Inl (Api_Error ''ERR_AUTH_INVALID_TOKEN'' 401), w)
      | Some payload \<Rightarrow> admin_of_payload ''ERR_AUTH_TOKEN_REVOKED'' payload w)"

section \<open>Login, refresh, logout\<close>

record token_pair =
  tk_access :: string
  tk_refresh :: string

definition token_pair_for :: "crypto \<Rightarrow> settings \<Rightarrow> instant \<Rightarrow> instant \<Rightarrow> string \<Rightarrow> token_pair" where
  "token_pair_for cr s t1 t2 username =
     \<lparr>tk_access = create_access_token cr t1 s username, tk_refresh = create_refresh_token cr t2 s username\<rparr>"

definition login_tx :: "crypto \<Rightarrow> instant \<Rightarrow> string \<Rightarrow> string \<Rightarrow> string \<Rightarrow> (world, api_error, unit) act" where
  "login_tx cr now remote_addr username password w =
     (let refuse = (\<lambda>reason. (Inl (Api_Error ''ERR_AUTH_INVALID_CREDENTIALS'' 401),
            emit_event now ''admin.login_failed''
              [(''username'', JStr username), (''remote_addr'', JStr remote_addr), (''reason'', JStr reason)] ''warning'' w))
      in case active_admin (Some username) (db w) of
           None \<Rightarrow> refuse ''admin_not_found''
         | Some admin \<Rightarrow>
             if \<not> verify_password cr password (ad_password_hash admin) then refuse ''wrong_password''
             else (Inr (), upd_admins (update_where (\<lambda>r. ad_id r = ad_id admin)
                    (\<lambda>r. r\<lparr>ad_last_login_at := Some (utc_now_iso now), ad_updated_at := utc_now_iso now\<rparr>)) w))"

definition login ::
  "crypto \<Rightarrow> settings \<Rightarrow> instant \<Rightarrow> instant \<Rightarrow> instant \<Rightarrow> string \<Rightarrow> string \<Rightarrow> string \<Rightarrow> (world, api_error, token_pair) act" where
  "login cr s now t1 t2 remote_addr username password =
     andthen (connect (login_tx cr now remote_addr username password))
       (\<lambda>_. ok (token_pair_for cr s t1 t2 username))"

definition refresh :: "crypto \<Rightarrow> settings \<Rightarrow> instant \<Rightarrow> instant \<Rightarrow> instant \<Rightarrow> string \<Rightarrow> (world, api_error, token_pair) act" where
  "refresh cr s now t1 t2 refresh_token w =
     (case decode_token cr now s refresh_token ''refresh'' of
        None \<Rightarrow> (Inl (Api_Error ''ERR_AUTH_INVALID_REFRESH_TOKEN'' 401), w)
      | Some payload \<Rightarrow>
          andthen (admin_of_payload ''ERR_AUTH_REFRESH_REVOKED'' payload)
            (\<lambda>_. ok (token_pair_for cr s t1 t2 (the (claim_str payload ''sub'')))) w)"

definition logout_body :: "instant \<Rightarrow> admin_row \<Rightarrow> (world, api_error, bool) act" where
  "logout_body now admin w =
     (Inr True, upd_admins (update_where (\<lambda>r. ad_id r = ad_id admin)
        (\<lambda>r. r\<lparr>ad_tokens_invalidated_at := Some (utc_now_iso now), ad_updated_at := utc_now_iso now\<rparr>)) w)"

definition logout :: "crypto \<Rightarrow> settings \<Rightarrow> instant \<Rightarrow> instant \<Rightarrow> string \<Rightarrow> (world, api_error, bool) act" where
  "logout cr s t0 now token = andthen (get_current_admin cr s t0 token) (logout_body now)"

record admin_profile =
  ap_id :: int
  ap_username :: string
  ap_is_active :: bool
  ap_last_login_at :: "iso option"

definition me :: "crypto \<Rightarrow> settings \<Rightarrow> instant \<Rightarrow> string \<Rightarrow> (world, api_error, admin_profile) act" where
  "me cr s now token = andthen (get_current_admin cr s now token) (\<lambda>admin. ok
     \<lparr>ap_id = ad_id admin, ap_username = ad_username admin, ap_is_active = ad_is_active admin,
      ap_last_login_at = ad_last_login_at admin\<rparr>)"

definition bootstrap_admin :: "crypto \<Rightarrow> settings \<Rightarrow> instant \<Rightarrow> world \<Rightarrow> world" where
  "bootstrap_admin cr s now w =
     (if d_admins (db w) \<noteq> [] then w
      else w\<lparr>db := bump T_Admins ((db w)\<lparr>d_admins := d_admins (db w) @
        [\<lparr>ad_id = next_id T_Admins (db w), ad_username = default_admin_username s,
          ad_password_hash = hash_password cr (default_admin_password s), ad_is_active = True,
          ad_created_at = utc_now_iso now, ad_updated_at = utc_now_iso now, ad_last_login_at = None,
          ad_tokens_invalidated_at = None\<rparr>]\<rparr>)\<rparr>)"

section \<open>Sessions\<close>

text \<open>
  What happens to the accounts over time: an administrator logs in, refreshes or logs out, successfully or
  not, the server starts again, or something else runs that leaves the accounts alone. The clock does
  not go back.
\<close>

inductive session_step :: "crypto \<Rightarrow> settings \<Rightarrow> instant \<times> world \<Rightarrow> instant \<times> world \<Rightarrow> bool"
  for cr :: crypto and s :: settings where
  step_login: "t \<le> now \<Longrightarrow> in_range now \<Longrightarrow> login cr s now t1 t2 ip u p w = (r, w') \<Longrightarrow> session_step cr s (t, w) (now, w')"
| step_refresh: "t \<le> now \<Longrightarrow> in_range now \<Longrightarrow> refresh cr s now t1 t2 tok w = (r, w') \<Longrightarrow> session_step cr s (t, w) (now, w')"
| step_logout: "t \<le> now \<Longrightarrow> in_range now \<Longrightarrow> logout cr s t0 now tok w = (r, w') \<Longrightarrow> session_step cr s (t, w) (now, w')"
| step_start: "t \<le> now \<Longrightarrow> in_range now \<Longrightarrow> session_step cr s (t, w) (now, bootstrap_admin cr s now w)"
| step_other: "t \<le> now \<Longrightarrow> in_range now \<Longrightarrow> d_admins (db w') = d_admins (db w) \<Longrightarrow> session_step cr s (t, w) (now, w')"

text \<open>\<open>logged_out u t0 st\<close>: every account of this name has logged out at \<open>t0\<close> or later.\<close>

fun logged_out :: "string \<Rightarrow> instant \<Rightarrow> instant \<times> world \<Rightarrow> bool" where
  "logged_out u t0 (t, w) \<longleftrightarrow> t0 \<le> t \<and> d_admins (db w) \<noteq> [] \<and>
     (\<forall>r \<in> set (d_admins (db w)). ad_username r = u \<longrightarrow>
        (\<exists>T. ad_tokens_invalidated_at r = Some (utc_now_iso T) \<and> in_range T \<and> t0 \<le> T))"

lemma upd_admins_db [simp]: "d_admins (db (upd_admins f w)) = f (d_admins (db w))"
  by (simp add: upd_admins_def)

lemma Nil_eq_update_where [simp]: "[] = update_where P f rows \<longleftrightarrow> rows = []"
  by (auto simp: update_where_def)

lemma update_where_Nil_iff [simp]: "update_where P f rows = [] \<longleftrightarrow> rows = []"
  by (simp add: update_where_def)

definition stamped :: "iso \<Rightarrow> admin_row \<Rightarrow> admin_row" where
  "stamped now_iso r = r\<lparr>ad_last_login_at := Some now_iso, ad_updated_at := now_iso\<rparr>"

lemma stamped_simps: "ad_password_hash (stamped i r) = ad_password_hash r"
  "ad_tokens_invalidated_at (stamped i r) = ad_tokens_invalidated_at r" "ad_username (stamped i r) = ad_username r"
  "ad_id (stamped i r) = ad_id r" "ad_is_active (stamped i r) = ad_is_active r"
  by (simp_all add: stamped_def)

lemma login_admins:
  assumes "login cr s now t1 t2 ip u p w = (r, w')"
  shows "d_admins (db w') = d_admins (db w) \<or>
    (\<exists>i. d_admins (db w') = update_where (\<lambda>r. ad_id r = i) (stamped (utc_now_iso now)) (d_admins (db w)))"
proof -
  obtain q w1 where q: "connect (login_tx cr now ip u p) w = (q, w1)" by fastforce
  then have w': "w' = w1" using assms by (cases q) (auto simp: login_def andthen_def ok_def)
  show ?thesis
  proof (cases q)
    case (Inl e)
    then show ?thesis using connect_Inl_db [of "login_tx cr now ip u p" w e w1] q w' by simp
  next
    case (Inr a)
    then have "login_tx cr now ip u p w = (Inr a, w1)" using q by (simp add: connect_Inr)
    then show ?thesis
      by (auto simp: login_tx_def Let_def w' stamped_def [abs_def] split: option.splits if_splits)
  qed
qed

lemma admin_of_payload_world: "admin_of_payload code p w = (r, w') \<Longrightarrow> w' = w"
  by (auto simp: admin_of_payload_def split: option.splits sum.splits bool.splits)

lemma get_current_admin_world: "get_current_admin cr s now tok w = (r, w') \<Longrightarrow> w' = w"
  by (auto simp: get_current_admin_def dest: admin_of_payload_world split: option.splits)

lemma refresh_world: "refresh cr s now t1 t2 tok w = (r, w') \<Longrightarrow> w' = w"
  by (auto simp: refresh_def andthen_def ok_def dest: admin_of_payload_world split: option.splits sum.splits prod.splits)

lemma logout_cases:
  assumes "logout cr s t0 now tok w = (r, w')"
  obtains (refused) e where "get_current_admin cr s t0 tok w = (Inl e, w)" and "w' = w"
  | (revoked) admin where "get_current_admin cr s t0 tok w = (Inr admin, w)" and "r = Inr True"
      and "d_admins (db w') = update_where (\<lambda>r. ad_id r = ad_id admin)
        (\<lambda>r. r\<lparr>ad_tokens_invalidated_at := Some (utc_now_iso now), ad_updated_at := utc_now_iso now\<rparr>) (d_admins (db w))"
proof -
  obtain q w1 where q: "get_current_admin cr s t0 tok w = (q, w1)" by fastforce
  then have w1: "w1 = w" by (rule get_current_admin_world)
  show thesis
  proof (cases q)
    case (Inl e)
    then show thesis using refused assms q w1 by (simp add: logout_def andthen_def)
  next
    case (Inr admin)
    then show thesis using revoked [of admin] assms q w1 by (auto simp: logout_def andthen_def logout_body_def)
  qed
qed

lemma logged_out_step:
  assumes "session_step cr s st st'" and "logged_out u t0 st"
  shows "logged_out u t0 st'"
  using assms
proof (cases rule: session_step.cases)
  case (step_login t now t1 t2 ip n p w r w')
  from login_admins [OF step_login(5)] assms(2) step_login show ?thesis
    by (force simp: set_update_where stamped_def)
next
  case (step_refresh t now t1 t2 tok w r w')
  with refresh_world [OF step_refresh(5)] assms(2) show ?thesis by auto
next
  case (step_logout t t1 now tok w r w')
  from step_logout(5) show ?thesis
  proof (cases rule: logout_cases)
    case (refused e)
    with assms(2) step_logout show ?thesis by auto
  next
    case (revoked admin)
    with assms(2) step_logout show ?thesis by (auto simp: set_update_where)
  qed
next
  case (step_start t now w)
  with assms(2) show ?thesis by (simp add: bootstrap_admin_def)
next
  case (step_other t now w' w)
  with assms(2) show ?thesis by auto
qed

lemma logged_out_steps: "(session_step cr s)\<^sup>*\<^sup>* st st' \<Longrightarrow> logged_out u t0 st \<Longrightarrow> logged_out u t0 st'"
  by (induction rule: rtranclp_induct) (auto intro: logged_out_step)

lemma unix_seconds_after: "unix_epoch \<le> t \<Longrightarrow> unix_seconds t = t div 1000000 - 62135596800"
  using div_mult_self1 [of "1000000 :: int" t "- 62135596800"] by (simp add: unix_seconds_def unix_epoch_def)

lemma unix_seconds_mono: "unix_epoch \<le> t \<Longrightarrow> t \<le> t' \<Longrightarrow> unix_seconds t \<le> unix_seconds t'"
  by (simp add: unix_seconds_after zdiv_mono1)

lemma unix_seconds_floor: "unix_epoch \<le> t \<Longrightarrow> unix_seconds (floor_sec t) = unix_seconds t"
proof -
  assume e: "unix_epoch \<le> t"
  have "floor_sec unix_epoch \<le> floor_sec t" using e by (rule floor_sec_mono)
  then have "unix_epoch \<le> floor_sec t" by (simp add: unix_epoch_def floor_sec_def)
  moreover have "floor_sec t div 1000000 = t div 1000000"
    by (simp add: floor_sec_def minus_mod_eq_mult_div)
  ultimately show ?thesis using e by (simp add: unix_seconds_after)
qed

lemma replace_Z_no_Z: "CHR ''Z'' \<notin> set x \<Longrightarrow> replace_Z x = x"
  by (induction x) (auto simp: replace_Z_def)

lemma digit_not_Z: "n < 10 \<Longrightarrow> digit n \<noteq> CHR ''Z''"
proof
  assume "n < 10" and "digit n = CHR ''Z''"
  then have "of_char (CHR ''Z'') = 48 + n" using of_char_digit [of n] by simp
  with \<open>n < 10\<close> show False by simp
qed

lemma pad_no_Z: "CHR ''Z'' \<notin> set (pad k n)"
  using digit_not_Z [THEN not_sym] by (induction k arbitrary: n) auto

lemma replace_Z_iso: "replace_Z (isoformat t) = isoformat t"
  by (rule replace_Z_no_Z) (auto simp: isoformat_def date_str_def clock_str_def Let_def pad_no_Z split: prod.split)

lemma token_invalidated_stamp:
  assumes "in_range T" and "unix_epoch \<le> T"
  shows "token_invalidated (Some i) (Some (utc_now_iso T)) = Inr (i \<le> unix_seconds T)"
  using assms by (simp add: token_invalidated_def utc_now_iso_def replace_Z_iso utc_now_iso_parses [unfolded utc_now_iso_def] unix_seconds_floor)

lemma logged_out_refuses:
  assumes l: "logged_out u t0 (t, w)" and e: "unix_epoch \<le> t0"
    and p: "claim_str payload ''sub'' = Some u" "claim_int payload ''iat'' = Some i" "i \<le> unix_seconds t0"
  shows "\<exists>c. admin_of_payload code payload w = (Inl c, w)"
proof (cases "active_admin (Some u) (db w)")
  case None
  then show ?thesis by (simp add: admin_of_payload_def p)
next
  case (Some r)
  then have "r \<in> set (d_admins (db w))" and "ad_username r = u"
    by (auto simp: active_admin_def dest: find_Some_in)
  then obtain T where T: "ad_tokens_invalidated_at r = Some (utc_now_iso T)" "in_range T" "t0 \<le> T" using l by auto
  then have "i \<le> unix_seconds T" using unix_seconds_mono [OF e T(3)] p(3) by linarith
  then show ?thesis using Some T e by (simp add: admin_of_payload_def p token_invalidated_stamp)
qed

section \<open>A concrete token format\<close>

text \<open>Not the program's: a codec on which the documented behaviour of JWT holds, for the witnesses.\<close>

definition frame :: "string \<Rightarrow> string" where
  "frame x = replicate (length x) (CHR ''1'') @ CHR ''0'' # x"

definition unframe :: "string \<Rightarrow> string \<times> string" where
  "unframe s = (let n = length (takeWhile (\<lambda>c. c = CHR ''1'') s) in (take n (drop (n + 1) s), drop (n + 1 + n) s))"

lemma unframe_frame: "unframe (frame x @ r) = (x, r)"
proof -
  have "takeWhile (\<lambda>c. c = CHR ''1'') (frame x @ r) = replicate (length x) (CHR ''1'')"
    by (simp add: frame_def takeWhile_append)
  then show ?thesis by (simp add: unframe_def frame_def Let_def)
qed

definition frame_int :: "int \<Rightarrow> string" where
  "frame_int i = (if i < 0 then CHR ''-'' else CHR ''+'') # frame (replicate (nat \<bar>i\<bar>) (CHR ''x''))"

definition unframe_int :: "string \<Rightarrow> int \<times> string" where
  "unframe_int s = (case unframe (tl s) of (x, r) \<Rightarrow> (if hd s = CHR ''-'' then - int (length x) else int (length x), r))"

lemma unframe_int_frame: "unframe_int (frame_int i @ r) = (i, r)"
  by (auto simp: unframe_int_def frame_int_def unframe_frame)

definition plain_token :: "dict \<Rightarrow> string \<Rightarrow> string" where
  "plain_token p secret =
     (case map snd p of
        [JStr sub, JStr ty, JInt i, JInt e] \<Rightarrow> frame secret @ frame sub @ frame ty @ frame_int i @ frame_int e
      | _ \<Rightarrow> [])"

definition read_plain_token :: "instant \<Rightarrow> string \<Rightarrow> string \<Rightarrow> dict option" where
  "read_plain_token now token secret =
     (let (key, r1) = unframe token; (sub, r2) = unframe r1; (ty, r3) = unframe r2;
          (i, r4) = unframe_int r3; (e, r5) = unframe_int r4
      in if key = secret \<and> now < (62135596800 + e) * 1000000
         then Some [(''sub'', JStr sub), (''type'', JStr ty), (''iat'', JInt i), (''exp'', JInt e)] else None)"

definition plain_crypto :: crypto where
  "plain_crypto = sample_crypto\<lparr>jwt_encode := plain_token, jwt_decode := read_plain_token\<rparr>"

lemma plain_crypto_ok: "jwt_ok plain_crypto"
  using unframe_int_frame [of _ "[]"]
  by (auto simp: jwt_ok_def plain_crypto_def plain_token_def read_plain_token_def unframe_frame unframe_int_frame)

definition plain_admin :: admin_row where
  "plain_admin = \<lparr>ad_id = 1, ad_username = ''root'', ad_password_hash = ''pw'', ad_is_active = True,
     ad_created_at = ''2026-01-01T00:00:00+00:00'', ad_updated_at = ''2026-01-01T00:00:00+00:00'', ad_last_login_at = None,
     ad_tokens_invalidated_at = None\<rparr>"

definition admin_world :: world where
  "admin_world = empty_world\<lparr>db := empty_database\<lparr>d_admins := [plain_admin]\<rparr>\<rparr>"

section \<open>Properties\<close>

lemma admin_of_payload_Inr:
  assumes "admin_of_payload code p w = (Inr admin, w')"
  shows "w' = w" and "\<exists>u. claim_str p ''sub'' = Some u \<and> active_admin (Some u) (db w) = Some admin"
  using assms by (cases "claim_str p ''sub''", auto simp: admin_of_payload_def active_admin_def
    split: option.splits sum.splits bool.splits)

lemma get_current_admin_Inr:
  assumes "get_current_admin cr s now tok w = (Inr admin, w')"
  shows "admin \<in> set (d_admins (db w))"
  using assms admin_of_payload_Inr(2)
  by (force simp: get_current_admin_def active_admin_def dest: find_Some_in split: option.splits)

text \<open>C22. Logging out is final: a token of that administrator that was issued up to the second of the
  logout is refused by every endpoint and by refresh, whatever logins, refreshes, logouts, restarts
  and other operations run afterwards.\<close>

theorem logout_is_final:
  assumes out: "logout cr s t0 now tok w = (Inr True, w1)" and who: "get_current_admin cr s t0 tok w = (Inr admin, w)"
    and names: "distinct (map ad_username (d_admins (db w)))" and time: "in_range now" "unix_epoch \<le> now"
    and later: "(session_step cr s)\<^sup>*\<^sup>* (now, w1) (t, w2)"
    and old: "\<And>ty p. decode_token cr t' s tok' ty = Some p \<Longrightarrow>
      claim_str p ''sub'' = Some (ad_username admin) \<and> (\<exists>i. claim_int p ''iat'' = Some i \<and> i \<le> unix_seconds now)"
  shows "\<exists>e e'. get_current_admin cr s t' tok' w2 = (Inl e, w2) \<and> refresh cr s t' t3 t4 tok' w2 = (Inl e', w2)"
proof -
  from out who have w1: "d_admins (db w1) = update_where (\<lambda>r. ad_id r = ad_id admin)
      (\<lambda>r. r\<lparr>ad_tokens_invalidated_at := Some (utc_now_iso now), ad_updated_at := utc_now_iso now\<rparr>) (d_admins (db w))"
    by (auto simp: logout_def andthen_def logout_body_def)
  have "admin \<in> set (d_admins (db w))" using get_current_admin_Inr [OF who] .
  moreover have "r = admin" if "r \<in> set (d_admins (db w))" "ad_username r = ad_username admin" for r
    using names calculation that by (auto simp: distinct_map inj_on_def)
  ultimately have "logged_out (ad_username admin) now (now, w1)"
    using time by (auto simp: w1 set_update_where)
  then have l: "logged_out (ad_username admin) now (t, w2)" by (rule logged_out_steps [OF later])
  have refused: "\<exists>e. admin_of_payload code p w2 = (Inl e, w2)" if d: "decode_token cr t' s tok' ty = Some p" for ty p code
    using old [OF d] logged_out_refuses [OF l time(2)] by blast
  have "\<exists>e. get_current_admin cr s t' tok' w2 = (Inl e, w2)"
    using refused by (auto simp: get_current_admin_def split: option.splits)
  moreover have "\<exists>e. refresh cr s t' t3 t4 tok' w2 = (Inl e, w2)"
  proof (cases "decode_token cr t' s tok' ''refresh''")
    case (Some p)
    with refused [OF Some, of "''ERR_AUTH_REFRESH_REVOKED''"] show ?thesis by (auto simp: refresh_def andthen_def)
  qed (simp add: refresh_def)
  ultimately show ?thesis by blast
qed

lemma find_update_where:
  "(\<And>r. Q (f r) = Q r) \<Longrightarrow> List.find Q (update_where P f rows) = map_option (\<lambda>r. if P r then f r else r) (List.find Q rows)"
  by (induction rows) (auto simp: update_where_def)

lemma login_Inr:
  assumes "login cr s now t1 t2 ip u password w = (Inr pair, w1)"
  obtains admin where "active_admin (Some u) (db w1) = Some (stamped (utc_now_iso now) admin)"
    and "verify_password cr password (ad_password_hash admin)" and "pair = token_pair_for cr s t1 t2 u"
proof -
  obtain w2 where x: "connect (login_tx cr now ip u password) w = (Inr (), w2)" and w1: "w1 = w2"
    and pair: "pair = token_pair_for cr s t1 t2 u"
    using assms by (auto simp: login_def ok_def elim: andthen_InrE)
  then obtain admin where a: "active_admin (Some u) (db w) = Some admin"
    and v: "verify_password cr password (ad_password_hash admin)"
    and w2: "d_admins (db w2) = update_where (\<lambda>r. ad_id r = ad_id admin) (stamped (utc_now_iso now)) (d_admins (db w))"
    by (auto simp: connect_Inr login_tx_def Let_def stamped_def [abs_def] split: option.splits if_splits)
  have "active_admin (Some u) (db w1) = Some (stamped (utc_now_iso now) admin)"
    using a by (simp add: active_admin_def w1 w2 find_update_where stamped_def)
  then show thesis using v pair by (rule that)
qed

lemma unix_seconds_within:
  assumes "unix_epoch \<le> x"
  shows "(62135596800 + unix_seconds x) * 1000000 \<le> x" and "x - 1000000 < (62135596800 + unix_seconds x) * 1000000"
proof -
  have *: "(62135596800 + unix_seconds x) * 1000000 = x - x mod 1000000"
    by (simp add: unix_seconds_after [OF assms] minus_mod_eq_div_mult)
  have "0 \<le> x mod 1000000" and "x mod 1000000 < 1000000" by simp_all
  with * show "(62135596800 + unix_seconds x) * 1000000 \<le> x" and "x - 1000000 < (62135596800 + unix_seconds x) * 1000000"
    by linarith+
qed

lemma decode_created:
  assumes "jwt_ok cr" and "unix_epoch \<le> t1" and "t1 \<le> t" and "t < t1 + minutes m - seconds 1"
  shows "decode_token cr t s (create_token cr t1 s u ty m) ty' =
    (if ty = ty' then Some [(''sub'', JStr u), (''type'', JStr ty), (''iat'', JInt (unix_seconds t1)),
        (''exp'', JInt (unix_seconds (t1 + minutes m)))] else None)"
proof -
  have e: "unix_epoch \<le> t1 + minutes m" using assms by (simp add: seconds_def)
  have "(62135596800 + unix_seconds t1) * 1000000 \<le> t"
    using unix_seconds_within(1) [OF assms(2)] assms(3) by linarith
  moreover have "t < (62135596800 + unix_seconds (t1 + minutes m)) * 1000000"
    using unix_seconds_within(2) [OF e] assms(4) by (simp only: seconds_def)
  ultimately show ?thesis using assms(1)
    by (simp add: decode_token_def create_token_def jwt_ok_def dict_get_def)
qed

text \<open>The pair of tokens of a login: the access token stands for that active account, whose password was
  verified, until it expires, unless the account was logged out in the second of the login or later;
  neither token is accepted in the place of the other.\<close>

theorem login_tokens_work:
  assumes jwt: "jwt_ok cr" and l: "login cr s now t1 t2 ip u password w = (Inr pair, w1)"
    and t: "unix_epoch \<le> t1" "t1 \<le> t" "t < t1 + minutes (access_token_expire_minutes s) - seconds 1"
      "unix_epoch \<le> t2" "t2 \<le> t" "t < t2 + minutes (refresh_token_expire_minutes s) - seconds 1"
  shows "\<exists>row. active_admin (Some u) (db w1) = Some row \<and> verify_password cr password (ad_password_hash row) \<and>
    get_current_admin cr s t (tk_access pair) w1 =
      (case token_invalidated (Some (unix_seconds t1)) (ad_tokens_invalidated_at row) of
         Inl e \<Rightarrow> (Inl e, w1) | Inr True \<Rightarrow> (Inl (Api_Error ''ERR_AUTH_TOKEN_REVOKED'' 401), w1) | Inr False \<Rightarrow> (Inr row, w1)) \<and>
    get_current_admin cr s t (tk_refresh pair) w1 = (Inl (Api_Error ''ERR_AUTH_INVALID_TOKEN'' 401), w1) \<and>
    refresh cr s t t3 t4 (tk_access pair) w1 = (Inl (Api_Error ''ERR_AUTH_INVALID_REFRESH_TOKEN'' 401), w1)"
proof -
  obtain admin where a: "active_admin (Some u) (db w1) = Some (stamped (utc_now_iso now) admin)"
    and v: "verify_password cr password (ad_password_hash admin)" and pair: "pair = token_pair_for cr s t1 t2 u"
    by (rule login_Inr [OF l])
  note access = decode_created [OF jwt t(1,2,3), of s u "''access''"]
  note refresh = decode_created [OF jwt t(4,5,6), of s u "''refresh''"]
  show ?thesis
    using a v access refresh
    by (intro exI [of _ "stamped (utc_now_iso now) admin"])
      (simp add: pair token_pair_for_def create_access_token_def create_refresh_token_def get_current_admin_def refresh_def
        admin_of_payload_def claim_str_def claim_int_def dict_get_def stamped_simps)
qed

lemma login_tokens_work_witness:
  "\<exists>pair w1 row. login plain_crypto default_settings unix_epoch unix_epoch unix_epoch ''ip'' ''root'' ''pw'' admin_world = (Inr pair, w1) \<and>
     get_current_admin plain_crypto default_settings unix_epoch (tk_access pair) w1 = (Inr row, w1)"
proof -
  have "\<exists>pair w1. login plain_crypto default_settings unix_epoch unix_epoch unix_epoch ''ip'' ''root'' ''pw'' admin_world = (Inr pair, w1) \<and>
      d_admins (db w1) = [stamped (utc_now_iso unix_epoch) plain_admin]"
    by (simp add: login_def andthen_def connect_def login_tx_def Let_def active_admin_def admin_world_def plain_admin_def
        empty_database_def verify_password_def plain_crypto_def sample_crypto_def ok_def update_where_def stamped_def)
  then obtain pair w1 where l: "login plain_crypto default_settings unix_epoch unix_epoch unix_epoch ''ip'' ''root'' ''pw'' admin_world =
      (Inr pair, w1)" and d: "d_admins (db w1) = [stamped (utc_now_iso unix_epoch) plain_admin]" by blast
  have m: "unix_epoch < unix_epoch + minutes (access_token_expire_minutes default_settings) - seconds 1"
    "unix_epoch < unix_epoch + minutes (refresh_token_expire_minutes default_settings) - seconds 1"
    by (simp_all add: default_settings_def minutes_def seconds_def)
  from login_tokens_work [OF plain_crypto_ok l order.refl order.refl m(1) order.refl order.refl m(2)] l d show ?thesis
    by (auto simp: active_admin_def token_invalidated_def stamped_simps plain_admin_def)
qed

lemma logout_is_final_witness:
  "\<exists>w w1 w2 tok e. logout plain_crypto default_settings unix_epoch (unix_epoch + 5) tok w = (Inr True, w1) \<and>
     get_current_admin plain_crypto default_settings (unix_epoch + 7) tok w2 = (Inl e, w2)"
proof -
  let ?tok = "create_access_token plain_crypto unix_epoch default_settings ''root''"
  have d: "decode_token plain_crypto (unix_epoch + k) default_settings ?tok ty = (if ''access'' = ty then
      Some [(''sub'', JStr ''root''), (''type'', JStr ''access''), (''iat'', JInt (unix_seconds unix_epoch)),
        (''exp'', JInt (unix_seconds (unix_epoch + minutes (access_token_expire_minutes default_settings))))] else None)"
    if "0 \<le> k" "k < 10" for k ty
    unfolding create_access_token_def by (rule decode_created [OF plain_crypto_ok])
      (use that in \<open>simp_all add: default_settings_def minutes_def seconds_def\<close>)
  have g: "get_current_admin plain_crypto default_settings unix_epoch ?tok admin_world = (Inr plain_admin, admin_world)"
    using d [of 0] by (simp add: get_current_admin_def admin_of_payload_def claim_str_def dict_get_def active_admin_def
        admin_world_def empty_database_def plain_admin_def token_invalidated_def)
  then obtain w1 where out: "logout plain_crypto default_settings unix_epoch (unix_epoch + 5) ?tok admin_world = (Inr True, w1)"
    by (simp add: logout_def andthen_def logout_body_def)
  have names: "distinct (map ad_username (d_admins (db admin_world)))"
    by (simp add: admin_world_def empty_database_def)
  have steps: "(session_step plain_crypto default_settings)\<^sup>*\<^sup>* (unix_epoch + 5, w1)
      (unix_epoch + 6, bootstrap_admin plain_crypto default_settings (unix_epoch + 6) w1)"
    by (rule r_into_rtranclp, rule step_start) (simp_all add: unix_epoch_def in_range_def)
  have old: "claim_str p ''sub'' = Some (ad_username plain_admin) \<and>
      (\<exists>i. claim_int p ''iat'' = Some i \<and> i \<le> unix_seconds (unix_epoch + 5))"
    if "decode_token plain_crypto (unix_epoch + 7) default_settings ?tok ty = Some p" for ty p
    using that d [of 7 ty] by (auto simp: claim_str_def claim_int_def dict_get_def plain_admin_def unix_seconds_def split: if_splits)
  have range: "in_range (unix_epoch + 5)" "unix_epoch \<le> unix_epoch + 5" by (simp_all add: unix_epoch_def in_range_def)
  have "\<exists>e e'. get_current_admin plain_crypto default_settings (unix_epoch + 7) ?tok
      (bootstrap_admin plain_crypto default_settings (unix_epoch + 6) w1) =
        (Inl e, bootstrap_admin plain_crypto default_settings (unix_epoch + 6) w1) \<and>
      refresh plain_crypto default_settings (unix_epoch + 7) 0 0 ?tok (bootstrap_admin plain_crypto default_settings (unix_epoch + 6) w1) =
        (Inl e', bootstrap_admin plain_crypto default_settings (unix_epoch + 6) w1)"
    by (rule logout_is_final [OF out g names range steps]) (rule old)
  with out show ?thesis by blast
qed

end
