(* ===== verification/Observability.thy ===== *)
theory Observability
  imports Background Admin_Auth
begin

text \<open>
  What an administrator reads: \<open>app/routers/admin_alerts.py\<close>, \<open>app/routers/admin_observability.py\<close>
  (audit events and security warnings) and \<open>app/routers/admin_dashboard.py\<close>. The endpoints are the
  part after \<open>get_current_admin\<close>. The models of a stored status accept what the heartbeat's own models
  wrote, so a stored JSON document is shown as it is.
\<close>

section \<open>Alerts\<close>

definition admin_rate_limit_key :: "crypto \<Rightarrow> settings \<Rightarrow> instant \<Rightarrow> string \<Rightarrow> string \<Rightarrow> string" where
  "admin_rate_limit_key cr s now auth_header remote_addr =
     (let by_ip = ''ip:'' @ remote_addr in
      if starts_with ''Bearer '' auth_header then
        (case decode_token cr now s (drop 7 auth_header) ''access'' of
           None \<Rightarrow> by_ip
         | Some payload \<Rightarrow> (case claim_str payload ''sub'' of
               Some sub \<Rightarrow> if sub \<noteq> [] then ''admin:'' @ sub else by_ip | None \<Rightarrow> by_ip))
      else by_ip)"

record alert_view =
  av_id :: int
  av_alert_type :: string
  av_severity :: string
  av_title :: string
  av_summary :: "string option"
  av_detail :: dict
  av_target_type :: "string option"
  av_target_id :: "string option"
  av_status :: string
  av_actioned_by :: "int option"
  av_actioned_at :: "iso option"
  av_expires_at :: "iso option"
  av_created_at :: iso

definition row_to_alert :: "alert_row \<Rightarrow> alert_view" where
  "row_to_alert r = \<lparr>av_id = al_id r, av_alert_type = al_alert_type r, av_severity = al_severity r, av_title = al_title r,
     av_summary = al_summary r, av_detail = (case al_detail r of None \<Rightarrow> [] | Some d \<Rightarrow> d),
     av_target_type = al_target_type r, av_target_id = al_target_id r, av_status = al_status r,
     av_actioned_by = al_actioned_by r, av_actioned_at = al_actioned_at r, av_expires_at = al_expires_at r,
     av_created_at = al_created_at r\<rparr>"

definition list_alerts :: "string option \<Rightarrow> nat \<Rightarrow> nat \<Rightarrow> database \<Rightarrow> alert_view list" where
  "list_alerts status_filter limit offset d =
     map row_to_alert (take limit (drop offset (order_by_desc (\<lambda>r. (al_created_at r, al_id r))
       (filter (\<lambda>r. truthy status_filter \<longrightarrow> al_status r = the status_filter) (d_alerts d)))))"

definition unread_count :: "database \<Rightarrow> nat" where
  "unread_count d = rowcount (\<lambda>r. al_status r = ''unread'') (d_alerts d)"

definition get_alert :: "int \<Rightarrow> alert_row list \<Rightarrow> alert_row option" where
  "get_alert i rows = List.find (\<lambda>r. al_id r = i) rows"

definition mark_read_tx :: "instant \<Rightarrow> int \<Rightarrow> admin_row \<Rightarrow> (world, api_error, alert_view) act" where
  "mark_read_tx now alert_id admin w =
     (case get_alert alert_id (d_alerts (db w)) of
        None \<Rightarrow> (Inl (Api_Error ''ERR_ALERT_NOT_FOUND'' 404), w)
      | Some row \<Rightarrow>
          (let w' = upd_alerts (update_where (\<lambda>r. al_id r = alert_id)
                 (\<lambda>r. r\<lparr>al_status := ''read'', al_actioned_by := Some (ad_id admin), al_actioned_at := Some (utc_now_iso now)\<rparr>)) w
           in case get_alert alert_id (d_alerts (db w')) of
                None \<Rightarrow> (Inl (Unhandled ''TypeError''), w') | Some saved \<Rightarrow> (Inr (row_to_alert saved), w')))"

definition mark_read :: "instant \<Rightarrow> int \<Rightarrow> admin_row \<Rightarrow> (world, api_error, alert_view) act" where
  "mark_read now alert_id admin = connect (mark_read_tx now alert_id admin)"

section \<open>Audit events and security warnings\<close>

record audit_view =
  uv_id :: int
  uv_actor_type :: string
  uv_actor_id :: "string option"
  uv_action :: string
  uv_target_type :: string
  uv_target_id :: "string option"
  uv_request_ip :: "string option"
  uv_detail :: dict
  uv_created_at :: iso

definition audit_event_from_row :: "audit_row \<Rightarrow> audit_view" where
  "audit_event_from_row r = \<lparr>uv_id = e_id r, uv_actor_type = e_actor_type r, uv_actor_id = e_actor_id r, uv_action = e_action r,
     uv_target_type = e_target_type r, uv_target_id = e_target_id r, uv_request_ip = e_request_ip r, uv_detail = e_detail r,
     uv_created_at = e_created_at r\<rparr>"

definition audit_key :: "audit_row \<Rightarrow> iso \<times> int" where
  "audit_key r = (e_created_at r, e_id r)"

definition list_audit_events :: "nat \<Rightarrow> database \<Rightarrow> audit_view list" where
  "list_audit_events limit d = map audit_event_from_row (take limit (order_by_desc audit_key (d_audits d)))"

record audit_page =
  up_items :: "audit_view list"
  up_next_cursor :: "string option"
  up_total_estimate :: nat

definition audit_filter ::
  "string option \<Rightarrow> string option \<Rightarrow> string option \<Rightarrow> string option \<Rightarrow> string option \<Rightarrow> audit_row \<Rightarrow> bool" where
  "audit_filter actor_type action target_type since until r \<longleftrightarrow>
     (truthy actor_type \<longrightarrow> e_actor_type r = the actor_type) \<and> (truthy action \<longrightarrow> e_action r = the action) \<and>
     (truthy target_type \<longrightarrow> e_target_type r = the target_type) \<and> time_filters since until (e_created_at r)"

definition list_audits_page ::
  "nat \<Rightarrow> string option \<Rightarrow> string option \<Rightarrow> string option \<Rightarrow> string option \<Rightarrow> string option \<Rightarrow> string option \<Rightarrow>
   (world, api_error, audit_page) act" where
  "list_audits_page limit cursor actor_type action target_type since until w =
     (let P = audit_filter actor_type action target_type since until in
      case decode_cursor cursor of
        Inl e \<Rightarrow> (Inl e, w)
      | Inr cur \<Rightarrow>
          (case fetch_page audit_key P limit cur (d_audits (db w)) of
             (page_rows, next_key) \<Rightarrow>
               (Inr \<lparr>up_items = map audit_event_from_row page_rows,
                     up_next_cursor = map_option (\<lambda>(c, i). encode_cursor c i) next_key,
                     up_total_estimate = rowcount P (d_audits (db w))\<rparr>, w)))"

record warning_view =
  wv_id :: int
  wv_source_type :: string
  wv_source_id :: "string option"
  wv_warning_type :: string
  wv_command_excerpt :: "string option"
  wv_detail :: dict
  wv_created_at :: iso

definition security_warning_from_row :: "warning_row \<Rightarrow> warning_view" where
  "security_warning_from_row r = \<lparr>wv_id = w_id r, wv_source_type = w_source_type r, wv_source_id = w_source_id r,
     wv_warning_type = w_warning_type r, wv_command_excerpt = w_command_excerpt r, wv_detail = w_detail r,
     wv_created_at = w_created_at r\<rparr>"

definition warning_key :: "warning_row \<Rightarrow> iso \<times> int" where
  "warning_key r = (w_created_at r, w_id r)"

definition list_security_warnings :: "nat \<Rightarrow> database \<Rightarrow> warning_view list" where
  "list_security_warnings limit d = map security_warning_from_row (take limit (order_by_desc warning_key (d_warnings d)))"

record warning_page =
  wp_items :: "warning_view list"
  wp_next_cursor :: "string option"
  wp_total_estimate :: nat

definition warning_filter :: "string option \<Rightarrow> string option \<Rightarrow> string option \<Rightarrow> string option \<Rightarrow> warning_row \<Rightarrow> bool" where
  "warning_filter warning_type source_type since until r \<longleftrightarrow>
     (truthy warning_type \<longrightarrow> w_warning_type r = the warning_type) \<and>
     (truthy source_type \<longrightarrow> w_source_type r = the source_type) \<and> time_filters since until (w_created_at r)"

definition list_warnings_page ::
  "nat \<Rightarrow> string option \<Rightarrow> string option \<Rightarrow> string option \<Rightarrow> string option \<Rightarrow> string option \<Rightarrow>
   (world, api_error, warning_page) act" where
  "list_warnings_page limit cursor warning_type source_type since until w =
     (let P = warning_filter warning_type source_type since until in
      case decode_cursor cursor of
        Inl e \<Rightarrow> (Inl e, w)
      | Inr cur \<Rightarrow>
          (case fetch_page warning_key P limit cur (d_warnings (db w)) of
             (page_rows, next_key) \<Rightarrow>
               (Inr \<lparr>wp_items = map security_warning_from_row page_rows,
                     wp_next_cursor = map_option (\<lambda>(c, i). encode_cursor c i) next_key,
                     wp_total_estimate = rowcount P (d_warnings (db w))\<rparr>, w)))"

section \<open>Dashboard\<close>

definition json_list :: "json \<Rightarrow> json list" where
  "json_list j = (case j of JList xs \<Rightarrow> xs | _ \<Rightarrow> [])"

definition json_dict :: "json \<Rightarrow> dict" where
  "json_dict j = (case j of JObj d \<Rightarrow> d | _ \<Rightarrow> [])"

definition decode_gpu_snapshot :: "json \<Rightarrow> json list \<times> dict" where
  "decode_gpu_snapshot parsed =
     (case parsed of
        JList xs \<Rightarrow> (xs, [])
      | JObj d \<Rightarrow> (json_list (get_default d ''gpus'' (JList [])), json_dict (get_default d ''nvidia'' (JObj [])))
      | _ \<Rightarrow> ([], []))"

definition parse_iso_or_none :: "string option \<Rightarrow> api_error + instant option" where
  "parse_iso_or_none raw = (if \<not> truthy raw then Inr None else parse_utc_or_none (Some (replace_Z (the raw))))"

datatype online_status = On_Online | On_Offline | On_Never_Seen | On_Disabled

definition compute_online_status ::
  "bool \<Rightarrow> iso option \<Rightarrow> iso option \<Rightarrow> int \<Rightarrow> instant \<Rightarrow> api_error + online_status" where
  "compute_online_status is_enabled first_seen_at last_seen_at interval now =
     (if \<not> is_enabled then Inr On_Disabled
      else if \<not> truthy first_seen_at then Inr On_Never_Seen
      else (case parse_iso_or_none last_seen_at of
              Inl e \<Rightarrow> Inl e
            | Inr None \<Rightarrow> Inr On_Offline
            | Inr (Some seen_at) \<Rightarrow> Inr (if now - seconds (interval * 3) \<le> seen_at then On_Online else On_Offline)))"

datatype onboarding_status = Ob_Disabled | Ob_Awaiting | Ob_Connected

definition compute_onboarding_status :: "bool \<Rightarrow> iso option \<Rightarrow> onboarding_status" where
  "compute_onboarding_status is_enabled first_seen_at =
     (if \<not> is_enabled then Ob_Disabled else if \<not> truthy first_seen_at then Ob_Awaiting else Ob_Connected)"

record status_preview =
  np_reported_at :: iso
  np_cpu :: json
  np_memory :: json
  np_disks :: json
  np_gpus :: "json list"
  np_nvidia :: dict
  np_python_env :: json
  np_task_runtime :: json
  np_extra :: json

text \<open>\<open>json.loads\<close> of a NULL column is a TypeError.\<close>

definition load_column :: "json option \<Rightarrow> api_error + json" where
  "load_column c = (case c of None \<Rightarrow> Inl (Unhandled ''TypeError'') | Some j \<Rightarrow> Inr j)"

definition latest_snapshot :: "string \<Rightarrow> database \<Rightarrow> snapshot_row option" where
  "latest_snapshot node_id d =
     (case order_by_desc (\<lambda>r. (s_reported_at r, s_id r))
             (filter (\<lambda>r. s_node_id r = node_id \<and> s_cpu_json r \<noteq> None) (d_snapshots d)) of
        [] \<Rightarrow> None | r # _ \<Rightarrow> Some r)"

definition status_preview_of :: "snapshot_row \<Rightarrow> api_error + status_preview" where
  "status_preview_of r =
     (case (load_column (s_gpu_json r), load_column (s_cpu_json r), load_column (s_memory_json r), load_column (s_disk_json r),
            load_column (s_python_env_json r), load_column (s_task_runtime_json r)) of
        (Inr g, Inr c, Inr m, Inr dk, Inr p, Inr t) \<Rightarrow>
          (case decode_gpu_snapshot g of (gpus, nvidia) \<Rightarrow>
             Inr \<lparr>np_reported_at = s_reported_at r, np_cpu = c, np_memory = m, np_disks = dk, np_gpus = gpus, np_nvidia = nvidia,
                  np_python_env = p, np_task_runtime = t,
                  np_extra = (case s_raw_payload_json r of
                     Some (JObj d) \<Rightarrow> get_default d ''extra'' (JObj []) | _ \<Rightarrow> JObj [])\<rparr>)
      | _ \<Rightarrow> Inl (Unhandled ''TypeError''))"

text \<open>The newest active task; NULL comes last in a descending order.\<close>

definition newest_active_task :: "string \<Rightarrow> database \<Rightarrow> task_row option" where
  "newest_active_task node_id d =
     (case order_by_desc (\<lambda>r. (t_started_at r, t_claimed_at r, t_id r))
             (filter (\<lambda>r. t_node_id r = node_id \<and> t_status r \<in> {Claimed, Running, Cancel_Requested}) (d_tasks d)) of
        [] \<Rightarrow> None | r # _ \<Rightarrow> Some r)"

record active_task_view =
  xt_task_id :: string
  xt_type :: string
  xt_status :: task_status
  xt_started_at :: "iso option"
  xt_claimed_at :: "iso option"

record node_card =
  nc_node_id :: string
  nc_display_name :: string
  nc_node_type :: string
  nc_os_type :: "string option"
  nc_hostname :: "string option"
  nc_tags :: "string list"
  nc_is_enabled :: bool
  nc_heartbeat_interval_sec :: int
  nc_first_seen_at :: "iso option"
  nc_last_seen_at :: "iso option"
  nc_online_status :: online_status
  nc_onboarding_status :: onboarding_status
  nc_latest_status :: "status_preview option"
  nc_active_task :: "active_task_view option"

definition node_card_of :: "instant \<Rightarrow> database \<Rightarrow> node_row \<Rightarrow> api_error + node_card" where
  "node_card_of now d row =
     (let latest = (case latest_snapshot (n_node_id row) d of
            None \<Rightarrow> Inr None | Some r \<Rightarrow> map_sum (\<lambda>e. e) Some (status_preview_of r))
      in case (latest, compute_online_status (n_is_enabled row) (n_first_seen_at row) (n_last_seen_at row)
                         (n_heartbeat_interval_sec row) now) of
           (Inl e, _) \<Rightarrow> Inl e
         | (_, Inl e) \<Rightarrow> Inl e
         | (Inr l, Inr onl) \<Rightarrow> Inr \<lparr>nc_node_id = n_node_id row, nc_display_name = n_display_name row,
              nc_node_type = n_node_type row, nc_os_type = n_os_type row, nc_hostname = n_hostname row, nc_tags = n_tags row,
              nc_is_enabled = n_is_enabled row, nc_heartbeat_interval_sec = n_heartbeat_interval_sec row,
              nc_first_seen_at = n_first_seen_at row, nc_last_seen_at = n_last_seen_at row, nc_online_status = onl,
              nc_onboarding_status = compute_onboarding_status (n_is_enabled row) (n_first_seen_at row),
              nc_latest_status = l,
              nc_active_task = map_option (\<lambda>r. \<lparr>xt_task_id = t_task_id r, xt_type = t_type r, xt_status = t_status r,
                xt_started_at = t_started_at r, xt_claimed_at = t_claimed_at r\<rparr>) (newest_active_task (n_node_id row) d)\<rparr>)"

fun node_cards :: "instant \<Rightarrow> database \<Rightarrow> node_row list \<Rightarrow> api_error + node_card list" where
  "node_cards now d [] = Inr []"
| "node_cards now d (row # rows) =
     (case node_card_of now d row of
        Inl e \<Rightarrow> Inl e
      | Inr c \<Rightarrow> map_sum (\<lambda>e. e) ((#) c) (node_cards now d rows))"

text \<open>The hour and the day in UTC+8; a time that SQLite cannot read is NULL.\<close>

definition local_time :: "iso option \<Rightarrow> instant option" where
  "local_time t = (case t of None \<Rightarrow> None | Some s \<Rightarrow> map_option (\<lambda>u. u + 8 * 3600000000) (parse_utc s))"

definition finished_today :: "instant \<Rightarrow> task_row \<Rightarrow> bool" where
  "finished_today now r \<longleftrightarrow> t_status r \<in> {Succeeded, Failed, Timeout, Cancelled, Lost} \<and>
     (case local_time (t_finished_at r) of None \<Rightarrow> False
      | Some u \<Rightarrow> u div 86400000000 = (now + 8 * 3600000000) div 86400000000)"

definition finish_hour :: "task_row \<Rightarrow> int" where
  "finish_hour r = (case local_time (t_finished_at r) of None \<Rightarrow> 0 | Some u \<Rightarrow> u mod 86400000000 div 3600000000)"

definition throughput_rows :: "instant \<Rightarrow> task_row list \<Rightarrow> (int \<times> nat) list" where
  "throughput_rows now rows =
     (let sel = filter (finished_today now) rows
      in map (\<lambda>h. (h, rowcount (\<lambda>r. finish_hour r = h) sel)) (remdups (map finish_hour sel)))"

definition fill_hours :: "(int \<times> nat) list \<Rightarrow> nat list" where
  "fill_hours rows = fold (\<lambda>(h, cnt) xs. if 0 \<le> h \<and> h \<le> 23 then xs[nat h := cnt] else xs) rows (replicate 24 0)"

record task_summary =
  y_task_id :: string
  y_node_id :: string
  y_type :: string
  y_status :: task_status
  y_created_at :: iso
  y_claimed_at :: "iso option"
  y_started_at :: "iso option"
  y_finished_at :: "iso option"

definition task_summary_of :: "task_row \<Rightarrow> task_summary" where
  "task_summary_of r = \<lparr>y_task_id = t_task_id r, y_node_id = t_node_id r, y_type = t_type r, y_status = t_status r,
     y_created_at = t_created_at r, y_claimed_at = t_claimed_at r, y_started_at = t_started_at r,
     y_finished_at = t_finished_at r\<rparr>"

record overview =
  ov_server_time :: iso
  ov_node_counts :: "(string \<times> nat) list"
  ov_task_counts :: "(string \<times> nat) list"
  ov_nodes :: "node_card list"
  ov_recent_tasks :: "task_summary list"
  ov_task_throughput_24h :: "nat list"

definition online_count :: "online_status \<Rightarrow> node_card list \<Rightarrow> nat" where
  "online_count st nodes = rowcount (\<lambda>c. nc_online_status c = st) nodes"

definition get_overview :: "instant \<Rightarrow> database \<Rightarrow> api_error + overview" where
  "get_overview now d =
     (case node_cards now d (order_by (\<lambda>n. (n_created_at n, n_id n)) (d_nodes d)) of
        Inl e \<Rightarrow> Inl e
      | Inr nodes \<Rightarrow> Inr \<lparr>ov_server_time = utc_now_iso now,
          ov_node_counts = [(''total'', length nodes), (''online'', online_count On_Online nodes),
            (''offline'', online_count On_Offline nodes), (''disabled'', online_count On_Disabled nodes),
            (''never_seen'', online_count On_Never_Seen nodes)],
          ov_task_counts = counts_by (\<lambda>r. status_str (t_status r)) (d_tasks d), ov_nodes = nodes,
          ov_recent_tasks = map task_summary_of (take 30 (order_by_desc task_key (d_tasks d))),
          ov_task_throughput_24h = fill_hours (throughput_rows now (d_tasks d))\<rparr>)"

section \<open>Lists of events\<close>

definition audit_pages ::
  "string option \<Rightarrow> string option \<Rightarrow> string option \<Rightarrow> string option \<Rightarrow> string option \<Rightarrow>
   nat \<Rightarrow> string option \<Rightarrow> world \<Rightarrow> api_error + audit_view list \<times> string option" where
  "audit_pages actor_type action target_type since until limit cursor w =
     map_sum (\<lambda>e. e) (\<lambda>p. (up_items p, up_next_cursor p))
       (fst (list_audits_page limit cursor actor_type action target_type since until w))"

interpretation audit_pages: page_server "audit_pages actor_type action target_type since until" "\<lambda>w. d_audits (db w)" audit_key
    "audit_filter actor_type action target_type since until" audit_event_from_row for actor_type action target_type since until
  by unfold_locales (simp add: audit_pages_def list_audits_page_def Let_def)

definition warning_pages ::
  "string option \<Rightarrow> string option \<Rightarrow> string option \<Rightarrow> string option \<Rightarrow>
   nat \<Rightarrow> string option \<Rightarrow> world \<Rightarrow> api_error + warning_view list \<times> string option" where
  "warning_pages warning_type source_type since until limit cursor w =
     map_sum (\<lambda>e. e) (\<lambda>p. (wp_items p, wp_next_cursor p))
       (fst (list_warnings_page limit cursor warning_type source_type since until w))"

interpretation warning_pages: page_server "warning_pages warning_type source_type since until" "\<lambda>w. d_warnings (db w)" warning_key
    "warning_filter warning_type source_type since until" security_warning_from_row for warning_type source_type since until
  by unfold_locales (simp add: warning_pages_def list_warnings_page_def Let_def)

section \<open>Sums of the overview\<close>

lemma rowcount_Cons: "rowcount P (x # xs) = (if P x then 1 else 0) + rowcount P xs"
  by (simp add: rowcount_def)

lemma online_counts_add_up:
  "length cards = online_count On_Online cards + online_count On_Offline cards + online_count On_Disabled cards +
     online_count On_Never_Seen cards"
proof (induction cards)
  case (Cons c cards)
  then show ?case by (cases "nc_online_status c") (simp_all add: online_count_def rowcount_Cons)
qed (simp add: online_count_def rowcount_def)

lemma sum_indicator: "distinct ks \<Longrightarrow> sum_list (map (\<lambda>k. if a = k then 1 else 0) ks) = (if a \<in> set ks then 1 else (0 :: nat))"
  by (induction ks) auto

lemma sum_rowcounts:
  assumes "distinct ks" and "set (map f rows) \<subseteq> set ks"
  shows "sum_list (map (\<lambda>k. rowcount (\<lambda>r. f r = k) rows) ks) = length rows"
  using assms(2)
proof (induction rows)
  case (Cons r rows)
  have "sum_list (map (\<lambda>k. if f r = k then 1 else 0) ks) = (1 :: nat)"
    using sum_indicator [OF assms(1), of "f r"] Cons.prems by simp
  moreover have "sum_list (map (\<lambda>k. rowcount (\<lambda>x. f x = k) (r # rows)) ks) =
      sum_list (map (\<lambda>k. if f r = k then 1 else 0) ks) + sum_list (map (\<lambda>k. rowcount (\<lambda>x. f x = k) rows) ks)"
    by (simp add: rowcount_Cons sum_list_addf)
  ultimately show ?case using Cons by simp
qed (simp add: rowcount_def)

lemma counts_by_sum: "sum_list (map snd (counts_by f rows)) = length rows"
  using sum_rowcounts [of "remdups (map f rows)" f rows] by (simp add: counts_by_def comp_def)

lemma fold_hours_sum:
  assumes "distinct (map fst rows)" and "\<forall>(h, c) \<in> set rows. 0 \<le> h \<and> h \<le> 23"
    and "length (xs :: nat list) = 24" and "\<forall>(h, c) \<in> set rows. xs ! nat h = 0"
  shows "sum_list (fold (\<lambda>(h, cnt) xs. if 0 \<le> h \<and> h \<le> 23 then xs[nat h := cnt] else xs) rows xs) =
    sum_list xs + sum_list (map snd rows)"
  using assms
proof (induction rows arbitrary: xs)
  case (Cons p rows)
  obtain h c where p: "p = (h, c)" by fastforce
  have h: "0 \<le> h" "h \<le> 23" "nat h < length xs" "xs ! nat h = 0" using Cons.prems by (auto simp: p)
  have "\<forall>(k, c') \<in> set rows. xs[nat h := c] ! nat k = 0"
  proof (intro ballI, clarify)
    fix k c' assume k: "(k, c') \<in> set rows"
    then have "k \<noteq> h" using Cons.prems(1) by (force simp: p image_iff)
    moreover have "0 \<le> k" using Cons.prems(2) k by auto
    ultimately have "nat k \<noteq> nat h" using h(1) by simp
    then show "xs[nat h := c] ! nat k = 0" using Cons.prems(4) k by auto
  qed
  then have "sum_list (fold (\<lambda>(h, cnt) xs. if 0 \<le> h \<and> h \<le> 23 then xs[nat h := cnt] else xs) rows (xs[nat h := c])) =
      sum_list (xs[nat h := c]) + sum_list (map snd rows)"
    using Cons.prems by (intro Cons.IH) (auto simp: p)
  moreover have "sum_list (xs[nat h := c]) = sum_list xs + c"
    using h sum_list_update [of "nat h" xs c] elem_le_sum_list [OF h(3)] by simp
  ultimately show ?case using h by (simp add: p)
qed simp

lemma hour_range: "0 \<le> finish_hour r" "finish_hour r \<le> 23"
proof -
  have "u mod 86400000000 div 3600000000 \<le> 23" for u :: int
  proof -
    have "u mod 86400000000 < 86400000000" by simp
    then have "u mod 86400000000 < 24 * 3600000000" by simp
    then have "u mod 86400000000 div 3600000000 < 24" by (rule div_less_mult [rotated]) simp
    then show ?thesis by simp
  qed
  then show "0 \<le> finish_hour r" "finish_hour r \<le> 23"
    by (auto simp: finish_hour_def pos_imp_zdiv_nonneg_iff split: option.split)
qed

lemma hour_nat: "nat (finish_hour r) < 24"
  using hour_range [of r] by linarith

lemma throughput_sum:
  "sum_list (fill_hours (throughput_rows now rows)) = rowcount (finished_today now) rows"
proof -
  define sel where "sel = filter (finished_today now) rows"
  have t: "throughput_rows now rows = map (\<lambda>h. (h, rowcount (\<lambda>r. finish_hour r = h) sel)) (remdups (map finish_hour sel))"
    by (simp add: throughput_rows_def sel_def Let_def)
  have "sum_list (fill_hours (throughput_rows now rows)) =
      sum_list (replicate 24 0 :: nat list) + sum_list (map snd (throughput_rows now rows))"
    unfolding fill_hours_def by (rule fold_hours_sum) (auto simp: t comp_def hour_range hour_nat)
  also have "\<dots> = length sel"
    using sum_rowcounts [of "remdups (map finish_hour sel)" finish_hour sel] by (simp add: t comp_def)
  finally show ?thesis by (simp add: sel_def rowcount_def)
qed

lemma node_cards_length: "node_cards now d rows = Inr cards \<Longrightarrow> map nc_node_id cards = map n_node_id rows"
proof (induction rows arbitrary: cards)
  case (Cons r rows)
  then show ?case
    by (auto simp: node_card_of_def Let_def split: sum.splits) (auto simp: map_sum_def split: sum.splits)
qed simp

section \<open>Properties\<close>

text \<open>The numbers of the dashboard agree with its lists: every node appears once and counts under
  exactly one status, the task counts add up to all tasks, and the hourly throughput to the tasks
  that finished today.\<close>

theorem overview_counts_add_up:
  assumes "get_overview now d = Inr ov"
  shows "map nc_node_id (ov_nodes ov) = map n_node_id (order_by (\<lambda>n. (n_created_at n, n_id n)) (d_nodes d)) \<and>
    (\<exists>a b c e. ov_node_counts ov = [(''total'', a + b + c + e), (''online'', a), (''offline'', b), (''disabled'', c), (''never_seen'', e)] \<and>
       a + b + c + e = length (d_nodes d)) \<and>
    sum_list (map snd (ov_task_counts ov)) = length (d_tasks d) \<and>
    sum_list (ov_task_throughput_24h ov) = rowcount (finished_today now) (d_tasks d)"
proof -
  obtain cards where cards: "node_cards now d (order_by (\<lambda>n. (n_created_at n, n_id n)) (d_nodes d)) = Inr cards"
    using assms by (auto simp: get_overview_def split: sum.splits)
  note ids = node_cards_length [OF cards]
  have "length cards = length (d_nodes d)"
    using arg_cong [OF ids, of length] by (simp add: order_by_def)
  with assms cards ids show ?thesis
    using online_counts_add_up [of cards] counts_by_sum throughput_sum
    by (auto simp: get_overview_def)
qed

lemma overview_counts_add_up_witness:
  "\<exists>ov. get_overview 0 (db (sample_world [sample_node ''n'' 1] [sample_task ''a'' ''n'' Pending 1])) = Inr ov \<and>
     sum_list (map snd (ov_task_counts ov)) = 1"
proof -
  let ?d = "db (sample_world [sample_node ''n'' 1] [sample_task ''a'' ''n'' Pending 1])"
  have "\<exists>ov. get_overview 0 ?d = Inr ov"
    by (simp add: get_overview_def order_by_def node_card_of_def Let_def latest_snapshot_def order_by_desc_def
        compute_online_status_def sample_world_def empty_world_def empty_database_def sample_node_def)
  then obtain ov where ov: "get_overview 0 ?d = Inr ov" by blast
  from overview_counts_add_up [OF ov] ov show ?thesis by auto
qed

text \<open>The audit trail can be read in full: a client that follows the cursors of the audit list, with any
  filters and any page size, reads exactly the events that pass the filters, newest first.\<close>

theorem audit_list_is_complete:
  assumes "distinct (map e_id (d_audits (db w)))" and "0 < limit" and "length (d_audits (db w)) < fuel"
  shows "follow (\<lambda>c. audit_pages actor_type action target_type since until limit c w) fuel None =
    Some (map audit_event_from_row
      (order_by_desc audit_key (filter (audit_filter actor_type action target_type since until) (d_audits (db w)))))"
  by (rule audit_pages.follow_all) (use assms in \<open>simp_all add: audit_key_def comp_def\<close>)

lemma audit_list_is_complete_witness:
  "map_option (map uv_action) (follow (\<lambda>c. audit_pages None None None None None 1 c
     (insert_audit ''admin'' None ''b'' ''task'' None None [] ''2'' (insert_audit ''admin'' None ''a'' ''task'' None None [] ''1'' empty_world))) 3 None) =
   Some [''b'', ''a'']"
proof -
  let ?w = "insert_audit ''admin'' None ''b'' ''task'' None None [] ''2'' (insert_audit ''admin'' None ''a'' ''task'' None None [] ''1'' empty_world)"
  have d: "map e_id (d_audits (db ?w)) = [1, 2]" "length (d_audits (db ?w)) = 2"
    by (simp_all add: insert_audit_def empty_world_def empty_database_def next_id_def)
  have "follow (\<lambda>c. audit_pages None None None None None 1 c ?w) 3 None = Some (map audit_event_from_row
      (order_by_desc audit_key (filter (audit_filter None None None None None) (d_audits (db ?w)))))"
    by (rule audit_list_is_complete) (simp_all add: d)
  then show ?thesis
    by (simp add: audit_filter_def time_filters_def order_by_desc_def audit_key_def audit_event_from_row_def
        insert_audit_def empty_world_def empty_database_def)
qed

text \<open>The dashboard and the gauges judge a node by different limits: a node whose heartbeat interval is a
  minute and that was seen forty seconds ago is online on the dashboard and offline for the scanner,
  which reports it by \<open>node.offline\<close>.\<close>

theorem online_limits_differ:
  "\<exists>now n. n_heartbeat_interval_sec n = 60 \<and>
     compute_online_status (n_is_enabled n) (n_first_seen_at n) (n_last_seen_at n) (n_heartbeat_interval_sec n) now = Inr On_Online \<and>
     gauge_status now n = ''offline''"
proof -
  let ?seen = "utc_now_iso 63902822400000000"
  let ?n = "(sample_node ''n'' 1)\<lparr>n_heartbeat_interval_sec := 60, n_first_seen_at := Some ?seen, n_last_seen_at := Some ?seen\<rparr>"
  have r: "in_range 63902822400000000" by (simp add: in_range_def)
  have p: "parse_utc ?seen = Some 63902822400000000" using utc_now_iso_parses [OF r] by (simp add: floor_sec_def)
  then obtain q where q: "fromisoformat ?seen = Some q" "to_utc q = 63902822400000000"
    by (auto simp: parse_utc_def)
  have z: "replace_Z ?seen = ?seen" by (simp add: utc_now_iso_def replace_Z_iso)
  show ?thesis
    by (rule exI [of _ "63902822400000000 + seconds 40"], rule exI [of _ ?n])
      (simp add: compute_online_status_def parse_iso_or_none_def parse_utc_or_none_def gauge_status_def p q z r seconds_def
        floor_sec_def)
qed

end
