(* ===== verification/Admin_Nodes.thy ===== *)
theory Admin_Nodes
  imports Observability Node_Auth
begin

text \<open>
  \<open>app/services/admin_nodes_service.py\<close>: nodes as the administrator manages them. Creating a node,
  resetting its secret and regenerating its onboarding draw a new secret from 32 random bytes; the
  two nonces of the encryptions are inputs too. The column \<open>node_secret_hash\<close> of databases made
  by an older version is not modelled. \<open>base_url\<close> is the URL of the request as the server sees it.

  Deleting a node deletes, by the foreign keys of the schema, its tasks, snapshots and nonces and what
  hangs on these tasks. The numbers in a stored GPU sample are numbers: the models of the heartbeat
  wrote them.
\<close>

section \<open>Status of a node\<close>

definition compute_connection_status ::
  "bool \<Rightarrow> iso option \<Rightarrow> iso option \<Rightarrow> int \<Rightarrow> instant \<Rightarrow> api_error + online_status" where
  "compute_connection_status is_enabled first_seen_at last_seen_at heartbeat_interval_sec now =
     (if \<not> is_enabled then Inr On_Disabled
      else if \<not> truthy first_seen_at then Inr On_Never_Seen
      else (case parse_iso_or_none last_seen_at of
              Inl e \<Rightarrow> Inl e
            | Inr seen \<Rightarrow> Inr (case seen of
                None \<Rightarrow> On_Offline
              | Some seen_at \<Rightarrow> if now - seconds (heartbeat_interval_sec * 3) \<le> seen_at then On_Online else On_Offline)))"

record node_response =
  nr_node_id :: string
  nr_display_name :: string
  nr_node_type :: string
  nr_os_type :: "string option"
  nr_hostname :: "string option"
  nr_heartbeat_interval_sec :: int
  nr_allowed_workdirs :: "string list"
  nr_tags :: "string list"
  nr_is_enabled :: bool
  nr_first_seen_at :: "iso option"
  nr_last_seen_at :: "iso option"
  nr_connection_status :: online_status
  nr_onboarding_status :: onboarding_status
  nr_allow_shell :: bool
  nr_allow_modal :: bool
  nr_created_at :: iso
  nr_updated_at :: iso

definition row_to_node_response :: "instant \<Rightarrow> node_row \<Rightarrow> api_error + node_response" where
  "row_to_node_response now r =
     map_sum (\<lambda>e. e) (\<lambda>cs. \<lparr>nr_node_id = n_node_id r, nr_display_name = n_display_name r, nr_node_type = n_node_type r,
       nr_os_type = n_os_type r, nr_hostname = n_hostname r, nr_heartbeat_interval_sec = n_heartbeat_interval_sec r,
       nr_allowed_workdirs = n_allowed_workdirs r, nr_tags = n_tags r, nr_is_enabled = n_is_enabled r,
       nr_first_seen_at = n_first_seen_at r, nr_last_seen_at = n_last_seen_at r, nr_connection_status = cs,
       nr_onboarding_status = compute_onboarding_status (n_is_enabled r) (n_first_seen_at r),
       nr_allow_shell = n_allow_shell r, nr_allow_modal = n_allow_modal r, nr_created_at = n_created_at r,
       nr_updated_at = n_updated_at r\<rparr>)
     (compute_connection_status (n_is_enabled r) (n_first_seen_at r) (n_last_seen_at r) (n_heartbeat_interval_sec r) now)"

fun map_ok :: "('a \<Rightarrow> 'e + 'b) \<Rightarrow> 'a list \<Rightarrow> 'e + 'b list" where
  "map_ok f [] = Inr []"
| "map_ok f (x # xs) = (case f x of Inl e \<Rightarrow> Inl e | Inr y \<Rightarrow> map_sum (\<lambda>e. e) ((#) y) (map_ok f xs))"

definition list_nodes :: "instant \<Rightarrow> nat \<Rightarrow> nat \<Rightarrow> database \<Rightarrow> api_error + node_response list" where
  "list_nodes now limit offset d =
     map_ok (row_to_node_response now) (take limit (drop offset (order_by n_created_at (d_nodes d))))"

definition node_not_found :: api_error where
  "node_not_found = Api_Error ''ERR_NODE_NOT_FOUND'' 404"

definition get_node_response :: "instant \<Rightarrow> string \<Rightarrow> database \<Rightarrow> api_error + node_response" where
  "get_node_response now node_id d =
     (case get_node node_id (d_nodes d) of None \<Rightarrow> Inl node_not_found | Some r \<Rightarrow> row_to_node_response now r)"

section \<open>Onboarding\<close>

record node_create =
  nx_node_id :: string
  nx_display_name :: string
  nx_node_type :: string
  nx_os_type :: "string option"
  nx_hostname :: "string option"
  nx_heartbeat_interval_sec :: int
  nx_allowed_workdirs :: "string list"
  nx_tags :: "string list"
  nx_allow_shell :: bool
  nx_allow_modal :: bool

definition row_to_node_create_payload :: "node_row \<Rightarrow> node_create" where
  "row_to_node_create_payload r = \<lparr>nx_node_id = n_node_id r, nx_display_name = n_display_name r, nx_node_type = n_node_type r,
     nx_os_type = n_os_type r, nx_hostname = n_hostname r, nx_heartbeat_interval_sec = n_heartbeat_interval_sec r,
     nx_allowed_workdirs = n_allowed_workdirs r, nx_tags = n_tags r, nx_allow_shell = n_allow_shell r,
     nx_allow_modal = n_allow_modal r\<rparr>"

record onboarding_package =
  op_control_plane_url :: string
  op_env_template :: string
  op_startup_command :: string
  op_onboarding_steps :: "string list"

definition rstrip_slash :: "string \<Rightarrow> string" where
  "rstrip_slash s = rev (dropWhile (\<lambda>c. c = CHR ''/'') (rev s))"

definition newline :: string where
  "newline = [CHR 10]"

definition package_mode :: "node_create \<Rightarrow> string" where
  "package_mode p =
     (if nx_node_type p = ''modal_runner'' then ''cloud_gpu_runner''
      else if truthy (nx_os_type p) then the (nx_os_type p) @ ''_server'' else ''auto'')"

definition modal_env_lines :: "string list" where
  "modal_env_lines =
     ['''',
      ''GPUFLEET_AGENT_MODAL_CREDENTIALS_PATH=/opt/gpufleet-modal-runner/secrets/modal_credentials.json'',
      ''GPUFLEET_AGENT_MODAL_DEFAULT_CREDENTIAL_NAME='', ''GPUFLEET_AGENT_MODAL_DEFAULT_ENVIRONMENT=main'',
      ''GPUFLEET_AGENT_MODAL_DEFAULT_WORKSPACE='']"

definition build_onboarding_package :: "settings \<Rightarrow> string \<Rightarrow> node_create \<Rightarrow> string \<Rightarrow> onboarding_package" where
  "build_onboarding_package s base_url p node_secret =
     (let configured = rstrip_slash (public_base_url s);
          url = (if configured \<noteq> [] then configured else rstrip_slash base_url);
          workdir_lines = join newline (nx_allowed_workdirs p);
          env_lines =
            [''GPUFLEET_AGENT_CONTROL_PLANE_URL='' @ url, ''GPUFLEET_AGENT_NODE_ID='' @ nx_node_id p,
             ''GPUFLEET_AGENT_NODE_SECRET='' @ node_secret,
             ''GPUFLEET_AGENT_HEARTBEAT_INTERVAL_SEC='' @ int_str (nx_heartbeat_interval_sec p),
             ''GPUFLEET_AGENT_DEPLOYMENT_MODE='' @ package_mode p] @
            (if nx_node_type p = ''modal_runner'' then modal_env_lines else []) @
            (if workdir_lines \<noteq> [] then ['''', ''# Allowed workdirs configured on control plane:'', workdir_lines] else []);
          steps = [''1. Copy the env template into the child node host-local .env file.'',
             ''2. Run uv sync in node_agent/ on the child node host.''] @
            (if nx_node_type p = ''modal_runner''
             then [''3. Keep real Modal token pairs only in the host-local credential pool JSON, not in this repository.'']
             else []) @
            [''3. Start the agent with the startup command below.'',
             ''4. Wait for the first signed heartbeat so the node flips from awaiting_first_heartbeat to online.'']
      in \<lparr>op_control_plane_url = url, op_env_template = strip (join newline env_lines),
          op_startup_command = ''uv run gpufleet-agent heartbeat-loop'', op_onboarding_steps = steps\<rparr>)"

definition build_install_snippet :: "onboarding_package \<Rightarrow> string" where
  "build_install_snippet pkg =
     join newline [''# Copy this template into the node_agent host-local .env file.'', op_env_template pkg, '''',
       ''# Then start the node agent.'', op_startup_command pkg]"

datatype token_state = Tok_Active | Tok_Expired | Tok_Consumed

definition token_status :: "node_row \<Rightarrow> instant \<Rightarrow> api_error + token_state" where
  "token_status r now =
     (if \<not> truthy (n_onboarding_token_encrypted r) then
        Inr (if truthy (n_last_seen_at r) \<or> truthy (n_first_seen_at r) then Tok_Consumed else Tok_Expired)
      else
        (case (parse_iso_or_none (n_onboarding_token_created_at r), parse_iso_or_none (n_last_seen_at r)) of
           (Inl e, _) \<Rightarrow> Inl e
         | (_, Inl e) \<Rightarrow> Inl e
         | (Inr created, Inr seen) \<Rightarrow>
             if created \<noteq> None \<and> seen \<noteq> None \<and> the created < the seen then Inr Tok_Consumed
             else if truthy (n_onboarding_token_expires_at r) then
               (case parse_iso_or_none (n_onboarding_token_expires_at r) of
                  Inl e \<Rightarrow> Inl e
                | Inr parsed \<Rightarrow> Inr (if parsed \<noteq> None \<and> the parsed \<le> now then Tok_Expired else Tok_Active))
             else Inr Tok_Active))"

record lifecycle_response =
  lr_token :: "string option"
  lr_token_expires_at :: "iso option"
  lr_token_status :: token_state
  lr_install_snippet :: string
  lr_env_template :: string

text \<open>A secret of this program is URL-safe base64 text, so its code points are bytes.\<close>

definition text_string :: "utext \<Rightarrow> string" where
  "text_string t = map char_of t"

text \<open>Of the failures of the decryption, \<open>ValueError\<close> is caught and shows no token.\<close>

definition visible_token ::
  "crypto \<Rightarrow> settings \<Rightarrow> node_row \<Rightarrow> string option \<Rightarrow> token_state \<Rightarrow> api_error + string option" where
  "visible_token cr s r token_override st =
     (if st \<noteq> Tok_Active then Inr None
      else if token_override \<noteq> None then Inr token_override
      else if \<not> truthy (n_onboarding_token_encrypted r) then Inr None
      else (case decrypt_node_onboarding_token cr s (the (n_onboarding_token_encrypted r)) of
              Inr t \<Rightarrow> Inr (Some (text_string t))
            | Inl Value_Error \<Rightarrow> Inr None
            | Inl Invalid_Tag \<Rightarrow> Inl (Unhandled ''InvalidTag'')
            | Inl Overflow_Error \<Rightarrow> Inl (Unhandled ''OverflowError'')))"

definition build_lifecycle_response ::
  "crypto \<Rightarrow> settings \<Rightarrow> string \<Rightarrow> instant \<Rightarrow> node_row \<Rightarrow> string option \<Rightarrow> api_error + lifecycle_response" where
  "build_lifecycle_response cr s base_url now r token_override =
     (case token_status r now of
        Inl e \<Rightarrow> Inl e
      | Inr st \<Rightarrow>
          (case visible_token cr s r token_override st of
             Inl e \<Rightarrow> Inl e
           | Inr token \<Rightarrow>
               (let pkg = build_onboarding_package s base_url (row_to_node_create_payload r)
                      (or_else token ''<regenerate-token-to-view-secret>'')
                in Inr \<lparr>lr_token = (if st = Tok_Active then token else None),
                        lr_token_expires_at = n_onboarding_token_expires_at r, lr_token_status = st,
                        lr_install_snippet = build_install_snippet pkg, lr_env_template = op_env_template pkg\<rparr>)))"

definition get_node_onboarding :: "crypto \<Rightarrow> settings \<Rightarrow> string \<Rightarrow> instant \<Rightarrow> string \<Rightarrow> database \<Rightarrow> api_error + lifecycle_response" where
  "get_node_onboarding cr s base_url now node_id d =
     (case get_node node_id (d_nodes d) of
        None \<Rightarrow> Inl node_not_found | Some r \<Rightarrow> build_lifecycle_response cr s base_url now r None)"

section \<open>Creating and changing nodes\<close>

definition unhandled_key :: "key_error \<Rightarrow> api_error" where
  "unhandled_key e = (case e of Value_Error \<Rightarrow> Unhandled ''ValueError'' | Invalid_Tag \<Rightarrow> Unhandled ''InvalidTag''
     | Overflow_Error \<Rightarrow> Unhandled ''OverflowError'')"

text \<open>A new secret with its encrypted signing key and its encrypted self.\<close>

definition new_node_secret ::
  "crypto \<Rightarrow> settings \<Rightarrow> bytes \<Rightarrow> bytes \<Rightarrow> bytes \<Rightarrow> api_error + string \<times> string \<times> string" where
  "new_node_secret cr s rnd nonce1 nonce2 =
     (let node_secret = generate_node_secret rnd in
      case encrypt_node_signing_key cr s nonce1 (of_string (derive_node_signing_key node_secret)) of
        Inl e \<Rightarrow> Inl (unhandled_key e)
      | Inr enc_key \<Rightarrow>
          (case encrypt_node_onboarding_token cr s nonce2 (of_string node_secret) of
             Inl e \<Rightarrow> Inl (unhandled_key e)
           | Inr enc_token \<Rightarrow> Inr (node_secret, enc_key, enc_token)))"

definition new_node_row :: "int \<Rightarrow> iso \<Rightarrow> string \<Rightarrow> string \<Rightarrow> node_create \<Rightarrow> node_row" where
  "new_node_row i now_iso enc_key enc_token p = \<lparr>n_id = i, n_node_id = nx_node_id p, n_display_name = nx_display_name p,
     n_node_signing_key = Some '''', n_encrypted_signing_key = Some enc_key, n_onboarding_token_encrypted = Some enc_token,
     n_onboarding_token_created_at = Some now_iso, n_onboarding_token_expires_at = None, n_node_type = nx_node_type p,
     n_os_type = nx_os_type p, n_hostname = nx_hostname p, n_heartbeat_interval_sec = nx_heartbeat_interval_sec p,
     n_allowed_workdirs = nx_allowed_workdirs p, n_tags = nx_tags p, n_allow_shell = nx_allow_shell p,
     n_allow_modal = nx_allow_modal p, n_is_enabled = True, n_first_seen_at = None, n_last_seen_at = None,
     n_last_request_ts = None, n_last_boot_id = None, n_created_at = now_iso, n_updated_at = now_iso\<rparr>"

definition insert_node :: "(int \<Rightarrow> node_row) \<Rightarrow> world \<Rightarrow> world" where
  "insert_node r w = w\<lparr>db := bump T_Nodes ((db w)\<lparr>d_nodes := d_nodes (db w) @ [r (next_id T_Nodes (db w))]\<rparr>)\<rparr>"

definition str_list_json :: "string list \<Rightarrow> json" where
  "str_list_json xs = JList (map JStr xs)"

definition node_create_dump :: "node_create \<Rightarrow> dict" where
  "node_create_dump p = [(''node_id'', JStr (nx_node_id p)), (''display_name'', JStr (nx_display_name p)),
     (''node_type'', JStr (nx_node_type p)), (''os_type'', opt_json JStr (nx_os_type p)),
     (''hostname'', opt_json JStr (nx_hostname p)), (''heartbeat_interval_sec'', JInt (nx_heartbeat_interval_sec p)),
     (''allowed_workdirs'', str_list_json (nx_allowed_workdirs p)), (''tags'', str_list_json (nx_tags p)),
     (''allow_shell'', JBool (nx_allow_shell p)), (''allow_modal'', JBool (nx_allow_modal p))]"

definition node_audit :: "admin_row \<Rightarrow> string \<Rightarrow> string \<Rightarrow> string option \<Rightarrow> dict \<Rightarrow> iso \<Rightarrow> world \<Rightarrow> world" where
  "node_audit admin action node_id ip detail now_iso w =
     insert_audit ''admin'' (Some (int_str (ad_id admin))) action ''node'' (Some node_id) ip detail now_iso w"

text \<open>The row that the transaction reads back; a missing row is a TypeError when its columns are read.\<close>

definition saved_node :: "string \<Rightarrow> (world, api_error, node_row) act" where
  "saved_node node_id w =
     (case get_node node_id (d_nodes (db w)) of None \<Rightarrow> (Inl (Unhandled ''TypeError''), w) | Some r \<Rightarrow> (Inr r, w))"

definition create_node_tx ::
  "instant \<Rightarrow> string option \<Rightarrow> admin_row \<Rightarrow> string \<Rightarrow> string \<Rightarrow> node_create \<Rightarrow> (world, api_error, node_row) act" where
  "create_node_tx now ip admin enc_key enc_token p w =
     (if get_node (nx_node_id p) (d_nodes (db w)) \<noteq> None then (Inl (Api_Error ''ERR_NODE_DUPLICATE_ID'' 409), w)
      else saved_node (nx_node_id p)
        (node_audit admin ''create_node'' (nx_node_id p) ip (node_create_dump p) (utc_now_iso now)
          (insert_node (\<lambda>i. new_node_row i (utc_now_iso now) enc_key enc_token p) w)))"

record node_create_response =
  ncr_node :: node_response
  ncr_node_secret :: string
  ncr_onboarding :: onboarding_package

definition node_created ::
  "settings \<Rightarrow> string \<Rightarrow> instant \<Rightarrow> string \<Rightarrow> node_create \<Rightarrow> node_row \<Rightarrow> api_error + node_create_response" where
  "node_created s base_url now node_secret p r =
     map_sum (\<lambda>e. e) (\<lambda>resp. \<lparr>ncr_node = resp, ncr_node_secret = node_secret,
       ncr_onboarding = build_onboarding_package s base_url p node_secret\<rparr>) (row_to_node_response now r)"

text \<open>What follows the transaction, which has committed.\<close>

definition after :: "(world, 'e, 'a) act \<Rightarrow> ('a \<Rightarrow> 'e + 'b) \<Rightarrow> (world, 'e, 'b) act" where
  "after m f w = (case m w of (Inl e, w') \<Rightarrow> (Inl e, w') | (Inr a, w') \<Rightarrow> (f a, w'))"

definition create_node ::
  "crypto \<Rightarrow> settings \<Rightarrow> string \<Rightarrow> instant \<Rightarrow> bytes \<Rightarrow> bytes \<Rightarrow> bytes \<Rightarrow> string option \<Rightarrow> admin_row \<Rightarrow> node_create \<Rightarrow>
   (world, api_error, node_create_response) act" where
  "create_node cr s base_url now rnd nonce1 nonce2 ip admin p w =
     (case new_node_secret cr s rnd nonce1 nonce2 of
        Inl e \<Rightarrow> (Inl e, w)
      | Inr (node_secret, enc_key, enc_token) \<Rightarrow>
          after (connect (create_node_tx now ip admin enc_key enc_token p)) (node_created s base_url now node_secret p) w)"

record node_update =
  nu_display_name :: "string option"
  nu_os_type :: "string option"
  nu_hostname :: "string option"
  nu_heartbeat_interval_sec :: "int option"
  nu_allowed_workdirs :: "string list option"
  nu_tags :: "string list option"
  nu_is_enabled :: "bool option"
  nu_allow_shell :: "bool option"
  nu_allow_modal :: "bool option"

text \<open>\<open>model_dump(exclude_none=True)\<close>\<close>

definition node_changes :: "node_update \<Rightarrow> dict" where
  "node_changes p =
     (case nu_display_name p of None \<Rightarrow> [] | Some x \<Rightarrow> [(''display_name'', JStr x)]) @
      (case nu_os_type p of None \<Rightarrow> [] | Some x \<Rightarrow> [(''os_type'', JStr x)]) @
      (case nu_hostname p of None \<Rightarrow> [] | Some x \<Rightarrow> [(''hostname'', JStr x)]) @
      (case nu_heartbeat_interval_sec p of None \<Rightarrow> [] | Some x \<Rightarrow> [(''heartbeat_interval_sec'', JInt x)]) @
      (case nu_allowed_workdirs p of None \<Rightarrow> [] | Some x \<Rightarrow> [(''allowed_workdirs'', str_list_json x)]) @
      (case nu_tags p of None \<Rightarrow> [] | Some x \<Rightarrow> [(''tags'', str_list_json x)]) @
      (case nu_is_enabled p of None \<Rightarrow> [] | Some x \<Rightarrow> [(''is_enabled'', JBool x)]) @
      (case nu_allow_shell p of None \<Rightarrow> [] | Some x \<Rightarrow> [(''allow_shell'', JBool x)]) @
      (case nu_allow_modal p of None \<Rightarrow> [] | Some x \<Rightarrow> [(''allow_modal'', JBool x)])"

definition given :: "'a option \<Rightarrow> 'a \<Rightarrow> 'a" where
  "given v old = (case v of None \<Rightarrow> old | Some x \<Rightarrow> x)"

definition apply_changes :: "node_update \<Rightarrow> iso \<Rightarrow> node_row \<Rightarrow> node_row" where
  "apply_changes p now_iso r = r\<lparr>n_display_name := given (nu_display_name p) (n_display_name r),
     n_os_type := coalesce (nu_os_type p) (n_os_type r), n_hostname := coalesce (nu_hostname p) (n_hostname r),
     n_heartbeat_interval_sec := given (nu_heartbeat_interval_sec p) (n_heartbeat_interval_sec r),
     n_allowed_workdirs := given (nu_allowed_workdirs p) (n_allowed_workdirs r), n_tags := given (nu_tags p) (n_tags r),
     n_is_enabled := given (nu_is_enabled p) (n_is_enabled r), n_allow_shell := given (nu_allow_shell p) (n_allow_shell r),
     n_allow_modal := given (nu_allow_modal p) (n_allow_modal r), n_updated_at := now_iso\<rparr>"

text \<open>A handler that looks the node up, changes its row, writes the audit event and reads the row back.\<close>

definition change_node ::
  "string \<Rightarrow> (node_row \<Rightarrow> node_row) \<Rightarrow> string \<Rightarrow> dict \<Rightarrow> instant \<Rightarrow> string option \<Rightarrow> admin_row \<Rightarrow> (world, api_error, node_row) act" where
  "change_node node_id f action detail now ip admin w =
     (case get_node node_id (d_nodes (db w)) of
        None \<Rightarrow> (Inl node_not_found, w)
      | Some r \<Rightarrow> saved_node node_id
          (node_audit admin action node_id ip detail (utc_now_iso now) (upd_nodes (put_node node_id f) w)))"

definition update_node ::
  "instant \<Rightarrow> string \<Rightarrow> string option \<Rightarrow> admin_row \<Rightarrow> node_update \<Rightarrow> (world, api_error, node_response) act" where
  "update_node now node_id ip admin p w =
     (if node_changes p = [] then (Inl (Api_Error ''ERR_NODE_NO_CHANGES'' 400), w)
      else after (connect (change_node node_id (apply_changes p (utc_now_iso now)) ''update_node'' (node_changes p) now ip admin))
        (row_to_node_response now) w)"

definition set_node_enabled ::
  "instant \<Rightarrow> string \<Rightarrow> bool \<Rightarrow> string option \<Rightarrow> admin_row \<Rightarrow> (world, api_error, node_response) act" where
  "set_node_enabled now node_id enabled ip admin =
     after (connect (change_node node_id (\<lambda>r. r\<lparr>n_is_enabled := enabled, n_updated_at := utc_now_iso now\<rparr>)
        (if enabled then ''enable_node'' else ''disable_node'') [(''enabled'', JBool enabled)] now ip admin))
       (row_to_node_response now)"

text \<open>The set of nodes that are asked for their fingerprint lives in memory.\<close>

text \<open>The note of the answer; its sign for \<open>at most\<close> (U+2264) stands as its three bytes of UTF-8.\<close>

definition refresh_note :: string where
  "refresh_note = ''Will be delivered on next heartbeat ('' @ [CHR 0xE2, CHR 0x89, CHR 0xA4] @ '' heartbeat_interval_sec).''"

definition queue_fingerprint_refresh :: "instant \<Rightarrow> string \<Rightarrow> string option \<Rightarrow> admin_row \<Rightarrow> (world, api_error, dict) act" where
  "queue_fingerprint_refresh now node_id ip admin =
     andthen (connect (\<lambda>w. case get_node node_id (d_nodes (db w)) of
         None \<Rightarrow> (Inl node_not_found, w)
       | Some _ \<Rightarrow> (Inr (), node_audit admin ''refresh_node_fingerprint'' node_id ip
           [(''note'', JStr ''queued in-memory; will be delivered on next heartbeat'')] (utc_now_iso now) w)))
     (\<lambda>_ w. (Inr [(''status'', JStr ''refresh_queued''), (''node_id'', JStr node_id), (''note'', JStr refresh_note)],
        w\<lparr>pending_fp := (if node_id \<in> set (pending_fp w) then pending_fp w else pending_fp w @ [node_id])\<rparr>))"

definition rekey :: "iso \<Rightarrow> string \<Rightarrow> string \<Rightarrow> node_row \<Rightarrow> node_row" where
  "rekey now_iso enc_key enc_token r = r\<lparr>n_node_signing_key := Some '''', n_encrypted_signing_key := Some enc_key,
     n_onboarding_token_encrypted := Some enc_token, n_onboarding_token_created_at := Some now_iso,
     n_onboarding_token_expires_at := None, n_updated_at := now_iso\<rparr>"

definition reset_node_secret ::
  "crypto \<Rightarrow> settings \<Rightarrow> string \<Rightarrow> instant \<Rightarrow> bytes \<Rightarrow> bytes \<Rightarrow> bytes \<Rightarrow> string \<Rightarrow> string option \<Rightarrow> admin_row \<Rightarrow>
   (world, api_error, node_create_response) act" where
  "reset_node_secret cr s base_url now rnd nonce1 nonce2 node_id ip admin w =
     (case new_node_secret cr s rnd nonce1 nonce2 of
        Inl e \<Rightarrow> (Inl e, w)
      | Inr (node_secret, enc_key, enc_token) \<Rightarrow>
          after (connect (change_node node_id (rekey (utc_now_iso now) enc_key enc_token) ''reset_node_secret'' [] now ip admin))
            (\<lambda>r. node_created s base_url now node_secret (row_to_node_create_payload r) r) w)"

definition regenerate_node_onboarding ::
  "crypto \<Rightarrow> settings \<Rightarrow> string \<Rightarrow> instant \<Rightarrow> bytes \<Rightarrow> bytes \<Rightarrow> bytes \<Rightarrow> string \<Rightarrow> string option \<Rightarrow> admin_row \<Rightarrow>
   (world, api_error, lifecycle_response) act" where
  "regenerate_node_onboarding cr s base_url now rnd nonce1 nonce2 node_id ip admin w =
     (case new_node_secret cr s rnd nonce1 nonce2 of
        Inl e \<Rightarrow> (Inl e, w)
      | Inr (node_secret, enc_key, enc_token) \<Rightarrow>
          after (connect (change_node node_id (rekey (utc_now_iso now) enc_key enc_token) ''regenerate_node_onboarding'' []
              now ip admin))
            (\<lambda>r. build_lifecycle_response cr s base_url now r (Some node_secret)) w)"

text \<open>\<open>DELETE FROM nodes\<close> with the cascades of the foreign keys.\<close>

definition delete_node_rows :: "string \<Rightarrow> database \<Rightarrow> database" where
  "delete_node_rows node_id d =
     (let gone = (\<lambda>tid. \<exists>r \<in> set (d_tasks d). t_task_id r = tid \<and> t_node_id r = node_id) in
      d\<lparr>d_nodes := delete_where (\<lambda>r. n_node_id r = node_id) (d_nodes d),
        d_snapshots := delete_where (\<lambda>r. s_node_id r = node_id) (d_snapshots d),
        d_tasks := delete_where (\<lambda>r. t_node_id r = node_id) (d_tasks d),
        d_attempts := delete_where (\<lambda>r. gone (at_task_id r) \<or> at_node_id r = node_id) (d_attempts d),
        d_logs := delete_where (\<lambda>r. gone (l_task_id r)) (d_logs d),
        d_artifacts := delete_where (\<lambda>r. gone (f_task_id r)) (d_artifacts d),
        d_nonces := delete_where (\<lambda>r. c_node_id r = node_id) (d_nonces d),
        d_reviews := delete_where (\<lambda>r. gone (r_task_id r)) (d_reviews d)\<rparr>)"

definition delete_node :: "instant \<Rightarrow> string \<Rightarrow> string option \<Rightarrow> admin_row \<Rightarrow> (world, api_error, unit) act" where
  "delete_node now node_id ip admin =
     connect (\<lambda>w. case get_node node_id (d_nodes (db w)) of
         None \<Rightarrow> (Inl node_not_found, w)
       | Some _ \<Rightarrow> (Inr (), node_audit admin ''delete_node'' node_id ip [] (utc_now_iso now)
           (w\<lparr>db := delete_node_rows node_id (db w)\<rparr>)))"

section \<open>Status and history\<close>

definition get_latest_status :: "string \<Rightarrow> database \<Rightarrow> api_error + status_preview" where
  "get_latest_status node_id d =
     (case latest_snapshot node_id d of
        None \<Rightarrow> Inl (Api_Error ''ERR_NODE_STATUS_NOT_FOUND'' 404) | Some r \<Rightarrow> status_preview_of r)"

definition json_number :: "json \<Rightarrow> rat option" where
  "json_number j = (case j of JInt i \<Rightarrow> Some (of_int i) | JFloat v _ \<Rightarrow> Some v | JBool b \<Rightarrow> Some (if b then 1 else 0) | _ \<Rightarrow> None)"

definition first_sample_gpu :: "json option \<Rightarrow> dict option" where
  "first_sample_gpu raw = (case raw of Some (JList (JObj d # _)) \<Rightarrow> Some d | _ \<Rightarrow> None)"

definition sample_gpu_memory_percent :: "dict option \<Rightarrow> rat option \<Rightarrow> rat option" where
  "sample_gpu_memory_percent sample_gpu total_vram_mb =
     (case (sample_gpu, total_vram_mb) of
        (Some g, Some tot) \<Rightarrow>
          if tot \<le> 0 then None
          else map_option (\<lambda>used. used / (tot * 1024 * 1024) * 100)
                 (json_number (get_default g ''vram_used_bytes'' JNull))
      | _ \<Rightarrow> None)"

record history_item =
  hi_reported_at :: iso
  hi_cpu_usage_percent :: "rat option"
  hi_memory_usage_percent :: "rat option"
  hi_gpu_utilization_percent :: "rat option"
  hi_gpu_memory_percent :: "rat option"
  hi_gpu_temperature_c :: "rat option"
  hi_gpu_power_draw_w :: "rat option"
  hi_gpu_clock_graphics_mhz :: "rat option"

definition first_gpu_of :: "json option \<Rightarrow> dict" where
  "first_gpu_of raw =
     (case json_list (case raw of Some (JObj d) \<Rightarrow> get_default d ''gpus'' (JList []) | Some j \<Rightarrow> j | None \<Rightarrow> JNull) of
        JObj g # _ \<Rightarrow> g | _ \<Rightarrow> [])"

definition gpu_number :: "dict \<Rightarrow> string \<Rightarrow> rat option" where
  "gpu_number g k = json_number (get_default g k JNull)"

text \<open>The loop carries the VRAM size of the newest full snapshot so far.\<close>

fun history_items :: "rat option \<Rightarrow> snapshot_row list \<Rightarrow> history_item list" where
  "history_items vram [] = []"
| "history_items vram (r # rows) =
     (let g = first_gpu_of (s_gpu_json r); tot = gpu_number g ''total_vram_mb'';
          vram' = (if tot \<noteq> None \<and> tot \<noteq> Some 0 then tot else vram);
          sample = first_sample_gpu (s_sample_gpus_json r);
          of_sample = (\<lambda>k. case sample of None \<Rightarrow> None | Some d \<Rightarrow> gpu_number d k)
      in \<lparr>hi_reported_at = s_reported_at r, hi_cpu_usage_percent = s_cpu_usage_percent r,
          hi_memory_usage_percent = s_memory_usage_percent r,
          hi_gpu_utilization_percent = coalesce (s_gpu_utilization_percent r) (of_sample ''util''),
          hi_gpu_memory_percent = coalesce (s_gpu_memory_percent r) (sample_gpu_memory_percent sample vram'),
          hi_gpu_temperature_c = coalesce (s_gpu_temperature_c r) (of_sample ''temp_c''),
          hi_gpu_power_draw_w = coalesce (s_gpu_power_draw_w r) (of_sample ''power_w''),
          hi_gpu_clock_graphics_mhz = gpu_number g ''clock_graphics_mhz''\<rparr> # history_items vram' rows)"

definition get_status_history :: "string \<Rightarrow> nat \<Rightarrow> string option \<Rightarrow> string option \<Rightarrow> database \<Rightarrow> api_error + history_item list" where
  "get_status_history node_id limit since until d =
     (if get_node node_id (d_nodes d) = None then Inl node_not_found
      else Inr (history_items None (rev (take limit (order_by_desc (\<lambda>r. (s_reported_at r, s_id r))
        (filter (\<lambda>r. s_node_id r = node_id \<and> time_filters since until (s_reported_at r)) (d_snapshots d)))))))"

section \<open>What a created node starts with\<close>

text \<open>The dashboard and the node pages compute the same status by code of their own.\<close>

lemma connection_status_same:
  "compute_connection_status = compute_online_status"
  by (intro ext) (auto simp: compute_connection_status_def compute_online_status_def split: sum.split option.split)

lemma saved_node_Inr: "saved_node node_id w = (Inr r, w') \<longleftrightarrow> w' = w \<and> get_node node_id (d_nodes (db w)) = Some r"
  by (auto simp: saved_node_def split: option.split)

lemma after_Inr: "after m f w = (Inr b, w') \<longleftrightarrow> (\<exists>a. m w = (Inr a, w') \<and> f a = Inr b)"
  by (auto simp: after_def split: prod.splits sum.splits)

lemma insert_node_db [simp]: "d_nodes (db (insert_node r w)) = d_nodes (db w) @ [r (next_id T_Nodes (db w))]"
  "d_nonces (db (insert_node r w)) = d_nonces (db w)"
  by (simp_all add: insert_node_def)

lemma node_audit_db [simp]: "d_nodes (db (node_audit a b c d e f w)) = d_nodes (db w)"
  "d_nonces (db (node_audit a b c d e f w)) = d_nonces (db w)" "files (node_audit a b c d e f w) = files w"
  by (simp_all add: node_audit_def)

lemma map_sum_Inr: "map_sum f g x = Inr b \<longleftrightarrow> (\<exists>a. x = Inr a \<and> b = g a)"
  by (cases x) auto

lemma new_node_secret_Inr:
  assumes "new_node_secret cr s rnd n1 n2 = Inr (sec, k, tk)"
  shows "sec = generate_node_secret rnd" and "encrypt_node_signing_key cr s n1 (of_string (derive_node_signing_key sec)) = Inr k"
    and "encrypt_node_signing_key cr s n2 (of_string sec) = Inr tk"
  using assms by (auto simp: new_node_secret_def Let_def encrypt_node_onboarding_token_def split: sum.splits)

lemma create_node_Inr:
  assumes "create_node cr s base_url now rnd n1 n2 ip admin p w = (Inr resp, w')"
  obtains k tk where "new_node_secret cr s rnd n1 n2 = Inr (ncr_node_secret resp, k, tk)"
    and "get_node (nx_node_id p) (d_nodes (db w)) = None"
    and "d_nodes (db w') = d_nodes (db w) @ [new_node_row (next_id T_Nodes (db w)) (utc_now_iso now) k tk p]"
    and "d_nonces (db w') = d_nonces (db w)"
proof -
  obtain sec k tk where n: "new_node_secret cr s rnd n1 n2 = Inr (sec, k, tk)"
    and a: "after (connect (create_node_tx now ip admin k tk p)) (node_created s base_url now sec p) w = (Inr resp, w')"
    using assms by (auto simp: create_node_def split: sum.splits prod.splits)
  then obtain r where c: "create_node_tx now ip admin k tk p w = (Inr r, w')" and "node_created s base_url now sec p r = Inr resp"
    by (auto simp: after_Inr connect_Inr)
  then have "sec = ncr_node_secret resp" by (auto simp: node_created_def map_sum_Inr)
  moreover from c have "get_node (nx_node_id p) (d_nodes (db w)) = None"
    "d_nodes (db w') = d_nodes (db w) @ [new_node_row (next_id T_Nodes (db w)) (utc_now_iso now) k tk p]"
    "d_nonces (db w') = d_nonces (db w)"
    by (auto simp: create_node_tx_def saved_node_Inr split: if_splits)
  ultimately show thesis using that [of k tk] n by simp
qed

lemma new_node_row_simps [simp]:
  "n_node_id (new_node_row i now k tk p) = nx_node_id p" "n_is_enabled (new_node_row i now k tk p)"
  "n_last_request_ts (new_node_row i now k tk p) = None" "n_encrypted_signing_key (new_node_row i now k tk p) = Some k"
  "n_onboarding_token_encrypted (new_node_row i now k tk p) = Some tk"
  "n_onboarding_token_created_at (new_node_row i now k tk p) = Some now"
  "n_onboarding_token_expires_at (new_node_row i now k tk p) = None"
  "n_last_seen_at (new_node_row i now k tk p) = None" "n_first_seen_at (new_node_row i now k tk p) = None"
  by (simp_all add: new_node_row_def)

lemma find_snoc: "List.find P (xs @ [x]) = (case List.find P xs of Some y \<Rightarrow> Some y | None \<Rightarrow> if P x then Some x else None)"
  by (simp add: find_append split: option.split)

lemma rowcount_snoc_new: "\<forall>r \<in> set xs. \<not> P r \<Longrightarrow> P x \<Longrightarrow> rowcount P (xs @ [x]) = 1"
  by (simp add: rowcount_def filter_empty_conv)

lemma encrypted_not_Nil: "encrypt_node_signing_key cr s n k = Inr enc \<Longrightarrow> enc \<noteq> []"
  by (auto simp: encrypt_node_signing_key_def split: sum.splits)

lemma of_string_not_Nil: "of_string (derive_node_signing_key sec) \<noteq> []"
proof -
  have "length (hexdigest (sha256 (str_utf8 sec))) = 64" by simp
  then have "hexdigest (sha256 (str_utf8 sec)) \<noteq> []" by (metis list.size(3) zero_neq_numeral)
  then show ?thesis by (simp add: of_string_def derive_node_signing_key_def)
qed

lemma signature_not_Nil: "sign_node_request k n t x h \<noteq> []"
proof -
  have "length (sign_node_request k n t x h) = 64" by (simp add: sign_node_request_def Let_def)
  then show ?thesis by (metis list.size(3) zero_neq_numeral)
qed

lemma token_round_trip:
  assumes "aead_ok cr" and "length n = 12" and "encrypt_node_signing_key cr s n (of_string x) = Inr k"
  shows "decrypt_node_onboarding_token cr s k = Inr (of_string x)"
proof -
  have "\<forall>c \<in> set (of_string x). scalar c" using scalar_of_string by auto
  from node_key_round_trip [OF assms(1,2) this assms(3)] show ?thesis
    by (simp add: decrypt_node_onboarding_token_def decrypt_node_signing_key_def)
qed

lemma text_string_of_string: "text_string (of_string x) = x"
  by (simp add: text_string_def of_string_def comp_def)

lemma parse_iso_now: "in_range T \<Longrightarrow> parse_iso_or_none (Some (utc_now_iso T)) = Inr (Some (floor_sec T))"
proof -
  assume r: "in_range T"
  then obtain q where "fromisoformat (utc_now_iso T) = Some q" "to_utc q = floor_sec T"
    using utc_now_iso_parses [OF r] by (auto simp: parse_utc_def)
  moreover have "replace_Z (utc_now_iso T) = utc_now_iso T" by (simp add: utc_now_iso_def replace_Z_iso)
  ultimately show ?thesis using r by (simp add: parse_iso_or_none_def parse_utc_or_none_def)
qed

lemma parse_iso_none: "parse_iso_or_none None = Inr None"
  by (simp add: parse_iso_or_none_def)

lemma floor_sec_later: "t + seconds 1 \<le> T \<Longrightarrow> floor_sec t < floor_sec T"
proof -
  assume "t + seconds 1 \<le> T"
  then have "floor_sec (t + seconds 1) \<le> floor_sec T" by (rule floor_sec_mono)
  moreover have "floor_sec (t + seconds 1) = floor_sec t + 1000000"
    by (simp add: floor_sec_def seconds_def)
  ultimately show ?thesis by simp
qed

lemma rekey_simps [simp]: "n_encrypted_signing_key (rekey now k tk r) = Some k" "n_node_id (rekey now k tk r) = n_node_id r"
  by (simp_all add: rekey_def)

lemma rekeyed:
  "r \<in> set (put_node node_id (rekey now k tk) rows) \<Longrightarrow> n_node_id r = node_id \<Longrightarrow> n_encrypted_signing_key r = Some k"
proof -
  assume "r \<in> set (put_node node_id (rekey now k tk) rows)" and id: "n_node_id r = node_id"
  then obtain r0 where r: "r = (if n_node_id r0 = node_id then rekey now k tk r0 else r0)"
    unfolding put_node_def in_update_where by blast
  show ?thesis
  proof (cases "n_node_id r0 = node_id")
    case True
    then show ?thesis by (simp add: r)
  next
    case False
    then have "r = r0" by (simp add: r)
    with False id show ?thesis by simp
  qed
qed

lemma reset_node_secret_Inr:
  assumes "reset_node_secret cr s base_url now rnd n1 n2 node_id ip admin w = (Inr resp, w')"
  obtains k tk where "new_node_secret cr s rnd n1 n2 = Inr (ncr_node_secret resp, k, tk)"
    and "d_nodes (db w') = put_node node_id (rekey (utc_now_iso now) k tk) (d_nodes (db w))"
proof -
  obtain sec k tk where n: "new_node_secret cr s rnd n1 n2 = Inr (sec, k, tk)"
    and a: "after (connect (change_node node_id (rekey (utc_now_iso now) k tk) ''reset_node_secret'' [] now ip admin))
      (\<lambda>r. node_created s base_url now sec (row_to_node_create_payload r) r) w = (Inr resp, w')"
    using assms by (auto simp: reset_node_secret_def split: sum.splits prod.splits)
  then obtain r where c: "change_node node_id (rekey (utc_now_iso now) k tk) ''reset_node_secret'' [] now ip admin w = (Inr r, w')"
    and "node_created s base_url now sec (row_to_node_create_payload r) r = Inr resp"
    by (auto simp: after_Inr connect_Inr)
  then have "sec = ncr_node_secret resp" by (auto simp: node_created_def map_sum_Inr)
  moreover from c have "d_nodes (db w') = put_node node_id (rekey (utc_now_iso now) k tk) (d_nodes (db w))"
    by (auto simp: change_node_def saved_node_Inr split: option.splits)
  ultimately show thesis using that [of k tk] n by simp
qed

lemma stored_key_of_encrypted:
  assumes "aead_ok cr" and "length n = 12" and "encrypt_node_signing_key cr s n (of_string x) = Inr k"
    and "n_encrypted_signing_key r = Some k"
  shows "node_stored_key cr s now rnd r w = (Inr (of_string x), w)"
proof -
  have "\<forall>c \<in> set (of_string x). scalar c" using scalar_of_string by auto
  from node_key_round_trip [OF assms(1,2) this assms(3)] show ?thesis
    using assms(4) encrypted_not_Nil [OF assms(3)] by (simp add: node_stored_key_def or_else_def Let_def)
qed

lemma authenticate_accepts:
  assumes "hdr_node_id req = Some nid" and "hdr_timestamp req = Some ts" and "hdr_nonce req = Some x"
    and "hdr_signature req = Some sig" and "nid \<noteq> []" and "ts \<noteq> []" and "x \<noteq> []" and "sig \<noteq> []"
    and "parse_timestamp ts = Inr t" and "\<bar>now - t\<bar> \<le> seconds (node_allowed_clock_skew_sec s)"
    and "find_enabled_node nid (d_nodes (db w)) = Some node"
    and "node_stored_key cr s now rnd node w = (Inr key, w)" and "key \<noteq> []"
    and "sig = sign_node_request key nid ts x (hash_request_body (rq_body req))"
    and "\<not> nonce_used nid x (d_nonces (db w))"
    and "rowcount (\<lambda>r. n_node_id r = nid \<and> ts_advances ts r) (d_nodes (db w)) = 1"
  shows "\<exists>w'. authenticate_node cr s now rnd req w = (Inr (nid, node), w')"
  using assms by (simp add: authenticate_node_def connect_def andthen_def ok_def accept_signed_def verify_own_signature Let_def)

section \<open>Properties\<close>

text \<open>Concrete nodes for the witnesses.\<close>

definition sample_node_settings :: settings where
  "sample_node_settings = default_settings\<lparr>node_key_encryption_secret := ''secret''\<rparr>"

definition sample_node_create :: node_create where
  "sample_node_create = \<lparr>nx_node_id = ''n'', nx_display_name = ''n'', nx_node_type = ''physical'', nx_os_type = None,
     nx_hostname = None, nx_heartbeat_interval_sec = 5, nx_allowed_workdirs = [], nx_tags = [], nx_allow_shell = False,
     nx_allow_modal = False\<rparr>"

lemma sample_secret:
  "\<exists>k tk. new_node_secret sample_crypto sample_node_settings [] (replicate 12 0) (replicate 12 0) =
     Inr (generate_node_secret [], k, tk)"
  by (simp add: new_node_secret_def encrypt_node_signing_key_def encrypt_node_onboarding_token_def node_encryption_key_def
      sample_node_settings_def sentinel_def Let_def)

lemma sample_node_created:
  "\<exists>resp w1. create_node sample_crypto sample_node_settings [] sample_instant [] (replicate 12 0) (replicate 12 0) None sample_admin
     sample_node_create (sample_world [] []) = (Inr resp, w1)"
proof -
  obtain k tk where k: "new_node_secret sample_crypto sample_node_settings [] (replicate 12 0) (replicate 12 0) =
     Inr (generate_node_secret [], k, tk)" using sample_secret by blast
  have "\<exists>resp. row_to_node_response sample_instant (new_node_row i now k tk sample_node_create) = Inr resp" for i now
    by (simp add: row_to_node_response_def compute_connection_status_def)
  then show ?thesis
    by (simp add: create_node_def k after_Inr connect_Inr create_node_tx_def saved_node_Inr get_node_def
        sample_node_create_def node_created_def map_sum_Inr)
qed

text \<open>C23. A reset secret is dead at once: a request that is accepted for the node afterwards is signed with the
  key derived from the new secret.\<close>

theorem reset_replaces_the_key:
  assumes aead: "aead_ok cr" and n: "length n1 = 12" and u: "nodes_unique w"
    and c: "reset_node_secret cr s base_url now rnd n1 n2 node_id ip admin w = (Inr resp, w1)"
    and a: "authenticate_node cr s now' rnd' req w1 = (Inr (node_id, node), w2)"
  shows "\<exists>ts x. hdr_timestamp req = Some ts \<and> hdr_nonce req = Some x \<and>
    hdr_signature req = Some (sign_node_request (of_string (derive_node_signing_key (ncr_node_secret resp)))
      node_id ts x (hash_request_body (rq_body req)))"
proof -
  obtain k tk where sec: "new_node_secret cr s rnd n1 n2 = Inr (ncr_node_secret resp, k, tk)"
    and nodes: "d_nodes (db w1) = put_node node_id (rekey (utc_now_iso now) k tk) (d_nodes (db w))"
    by (rule reset_node_secret_Inr [OF c])
  obtain ts x sig t key w3 where h: "hdr_timestamp req = Some ts" "hdr_nonce req = Some x" "hdr_signature req = Some sig"
    and f: "find_enabled_node node_id (d_nodes (db w1)) = Some node"
    and key: "node_stored_key cr s now' rnd' node w1 = (Inr key, w3)"
    and acc: "accept_signed s now' node_id ts x sig (rq_body req) key w3 = (Inr (), w2)"
    by (rule authenticate_Inr [OF a])
  have "node \<in> set (d_nodes (db w1))" and "n_node_id node = node_id"
    using f by (auto simp: find_enabled_node_def dest: find_Some_in)
  then have "n_encrypted_signing_key node = Some k"
    using rekeyed unfolding nodes by blast
  from stored_key_of_encrypted [OF aead n new_node_secret_Inr(2) [OF sec] this] key
  have "key = of_string (derive_node_signing_key (ncr_node_secret resp))" by simp
  then show ?thesis using h accept_signed_Inr(2) [OF acc] by simp
qed

lemma reset_replaces_the_key_witness:
  "\<exists>cr s w resp w1 req node w2 ts x.
     reset_node_secret cr s [] sample_instant [] (replicate 12 0) (replicate 12 0) ''n'' None sample_admin w = (Inr resp, w1) \<and>
     authenticate_node cr s sample_instant [] req w1 = (Inr (''n'', node), w2) \<and>
     hdr_signature req = Some (sign_node_request (of_string (derive_node_signing_key (ncr_node_secret resp))) ''n'' ts x
       (hash_request_body (rq_body req)))"
proof -
  let ?w = "sample_world [sample_node ''n'' 1] []"
  obtain k tk where k: "new_node_secret sample_crypto sample_node_settings [] (replicate 12 0) (replicate 12 0) =
     Inr (generate_node_secret [], k, tk)" using sample_secret by blast
  define node where "node = rekey (utc_now_iso sample_instant) k tk (sample_node ''n'' 1)"
  have f: "n_first_seen_at node = None" "n_is_enabled node" "n_node_id node = ''n''" "n_last_request_ts node = None"
    "n_encrypted_signing_key node = Some k"
    by (simp_all add: node_def rekey_def sample_node_def)
  then have "\<exists>resp. row_to_node_response sample_instant node = Inr resp"
    by (simp add: row_to_node_response_def compute_connection_status_def)
  then have "\<exists>resp w1. reset_node_secret sample_crypto sample_node_settings [] sample_instant [] (replicate 12 0) (replicate 12 0)
      ''n'' None sample_admin ?w = (Inr resp, w1) \<and> d_nodes (db w1) = [node] \<and> d_nonces (db w1) = []"
    by (simp add: reset_node_secret_def k after_Inr connect_Inr change_node_def saved_node_Inr get_node_def put_node_def update_where_def
        node_def [symmetric] f node_created_def map_sum_Inr)
       (auto simp: upd_nodes_def sample_world_def empty_world_def empty_database_def update_where_def node_def [symmetric])
  then obtain resp w1 where r: "reset_node_secret sample_crypto sample_node_settings [] sample_instant [] (replicate 12 0) (replicate 12 0)
      ''n'' None sample_admin ?w = (Inr resp, w1)" and w1: "d_nodes (db w1) = [node]" "d_nonces (db w1) = []" by blast
  let ?key = "of_string (derive_node_signing_key (generate_node_secret []))"
  define req where "req = \<lparr>hdr_node_id = Some ''n'', hdr_timestamp = Some ''2026-01-01T00:00:00Z'', hdr_nonce = Some ''x'',
     hdr_signature = Some (sign_node_request ?key ''n'' ''2026-01-01T00:00:00Z'' ''x'' (hash_request_body [])),
     hdr_content_length = None, rq_body = []\<rparr>"
  have key: "node_stored_key sample_crypto sample_node_settings sample_instant [] node w1 = (Inr ?key, w1)"
    by (rule stored_key_of_encrypted [OF sample_crypto_ok _ new_node_secret_Inr(2) [OF k] f(5)]) simp
  have "\<exists>w2. authenticate_node sample_crypto sample_node_settings sample_instant [] req w1 = (Inr (''n'', node), w2)"
    by (rule authenticate_accepts [where x = "''x''", OF _ _ _ _ _ _ _ _ sample_timestamp _ _ key of_string_not_Nil])
      (simp_all add: req_def signature_not_Nil w1 f find_enabled_node_def nonce_used_def rowcount_def ts_advances_def
        sample_node_settings_def default_settings_def seconds_def)
  then obtain w2 where a: "authenticate_node sample_crypto sample_node_settings sample_instant [] req w1 = (Inr (''n'', node), w2)" by blast
  have u: "nodes_unique ?w" by (simp add: nodes_unique_def node_ids_def)
  from reset_replaces_the_key [OF sample_crypto_ok _ u r a] r a show ?thesis by fastforce
qed

text \<open>The onboarding secret of a new node is shown until the node has made contact: before, the page shows
  exactly the secret that was issued, and once a heartbeat is later than the secret, it shows none.\<close>

theorem onboarding_secret_shown_until_contact:
  assumes aead: "aead_ok cr" and n: "length n2 = 12" and now: "in_range now"
    and c: "create_node cr s base_url now rnd n1 n2 ip admin p w = (Inr resp, w1)"
    and t: "in_range T" "now + seconds 1 \<le> T"
  shows "(\<exists>lr. get_node_onboarding cr s base_url now' (nx_node_id p) (db w1) = Inr lr \<and>
      lr_token_status lr = Tok_Active \<and> lr_token lr = Some (ncr_node_secret resp)) \<and>
    (\<exists>lr. get_node_onboarding cr s base_url now' (nx_node_id p)
        (db (upd_nodes (put_node (nx_node_id p) (\<lambda>r. r\<lparr>n_last_seen_at := Some (utc_now_iso T)\<rparr>)) w1)) = Inr lr \<and>
      lr_token_status lr = Tok_Consumed \<and> lr_token lr = None)"
proof -
  obtain k tk where sec: "new_node_secret cr s rnd n1 n2 = Inr (ncr_node_secret resp, k, tk)"
    and fresh: "get_node (nx_node_id p) (d_nodes (db w)) = None"
    and nodes: "d_nodes (db w1) = d_nodes (db w) @ [new_node_row (next_id T_Nodes (db w)) (utc_now_iso now) k tk p]"
    by (rule create_node_Inr [OF c]) blast
  define node where "node = new_node_row (next_id T_Nodes (db w)) (utc_now_iso now) k tk p"
  have g: "get_node (nx_node_id p) (d_nodes (db w1)) = Some node"
    using fresh by (simp add: get_node_def nodes find_snoc node_def)
  have tk: "decrypt_node_onboarding_token cr s tk = Inr (of_string (ncr_node_secret resp))" "tk \<noteq> []"
    using token_round_trip [OF aead n new_node_secret_Inr(3) [OF sec]] encrypted_not_Nil [OF new_node_secret_Inr(3) [OF sec]]
    by simp_all
  have created: "parse_iso_or_none (Some (utc_now_iso now)) = Inr (Some (floor_sec now))"
    and seen: "parse_iso_or_none (Some (utc_now_iso T)) = Inr (Some (floor_sec T))"
    by (rule parse_iso_now [OF now], rule parse_iso_now [OF t(1)])
  have later: "floor_sec now < floor_sec T" by (rule floor_sec_later [OF t(2)])
  have active: "token_status node now' = Inr Tok_Active"
    using tk(2) created by (simp add: token_status_def node_def parse_iso_none)
  have used: "token_status (node\<lparr>n_last_seen_at := Some (utc_now_iso T)\<rparr>) now' = Inr Tok_Consumed"
    using tk(2) created seen later by (simp add: token_status_def node_def)
  have first: "\<exists>lr. get_node_onboarding cr s base_url now' (nx_node_id p) (db w1) = Inr lr \<and>
      lr_token_status lr = Tok_Active \<and> lr_token lr = Some (ncr_node_secret resp)"
    using tk g active by (simp add: get_node_onboarding_def build_lifecycle_response_def visible_token_def node_def
        text_string_of_string Let_def)
  have "get_node (nx_node_id p) (put_node (nx_node_id p) (\<lambda>r. r\<lparr>n_last_seen_at := Some (utc_now_iso T)\<rparr>) (d_nodes (db w1))) =
      Some (node\<lparr>n_last_seen_at := Some (utc_now_iso T)\<rparr>)"
    using g by (simp add: node_tab.get_put_same)
  then show ?thesis using first used
    by (simp add: get_node_onboarding_def build_lifecycle_response_def visible_token_def Let_def)
qed

lemma onboarding_secret_shown_until_contact_witness:
  "\<exists>cr s w w1 resp lr. create_node cr s [] sample_instant [] (replicate 12 0) (replicate 12 0) None sample_admin sample_node_create w =
       (Inr resp, w1) \<and>
     get_node_onboarding cr s [] 0 ''n'' (db w1) = Inr lr \<and> lr_token lr = Some (ncr_node_secret resp)"
proof -
  obtain resp w1 where c: "create_node sample_crypto sample_node_settings [] sample_instant [] (replicate 12 0) (replicate 12 0)
      None sample_admin sample_node_create (sample_world [] []) = (Inr resp, w1)" using sample_node_created by blast
  have r: "in_range sample_instant" "in_range (sample_instant + seconds 1)"
    by (simp_all add: in_range_def sample_instant_def seconds_def)
  have id: "nx_node_id sample_node_create = ''n''" by (simp add: sample_node_create_def)
  from onboarding_secret_shown_until_contact [OF sample_crypto_ok _ r(1) c r(2) order.refl, of 0] c
  show ?thesis by (simp add: id) blast
qed

section \<open>References between tables\<close>

text \<open>
  \<open>referential d\<close>: what the foreign keys of the schema say of the rows. Audit events, warnings and alerts have none.
\<close>

definition referential :: "database \<Rightarrow> bool" where
  "referential d \<longleftrightarrow>
     (let node_ok = (\<lambda>k. k \<in> n_node_id ` set (d_nodes d)); task_ok = (\<lambda>k. k \<in> t_task_id ` set (d_tasks d)) in
      (\<forall>r \<in> set (d_snapshots d). node_ok (s_node_id r)) \<and> (\<forall>r \<in> set (d_tasks d). node_ok (t_node_id r)) \<and>
      (\<forall>r \<in> set (d_tasks d). \<forall>a. t_created_by_admin_id r = Some a \<longrightarrow> a \<in> ad_id ` set (d_admins d)) \<and>
      (\<forall>r \<in> set (d_attempts d). task_ok (at_task_id r) \<and> node_ok (at_node_id r)) \<and>
      (\<forall>r \<in> set (d_logs d). task_ok (l_task_id r)) \<and> (\<forall>r \<in> set (d_artifacts d). task_ok (f_task_id r)) \<and>
      (\<forall>r \<in> set (d_nonces d). node_ok (c_node_id r)) \<and> (\<forall>r \<in> set (d_reviews d). task_ok (r_task_id r)))"

lemma delete_node_rows_referential:
  assumes "referential d"
  shows "referential (delete_node_rows node_id d)"
proof -
  have nodes: "k \<in> n_node_id ` {r \<in> set (d_nodes d). n_node_id r \<noteq> node_id}"
    if "k \<in> n_node_id ` set (d_nodes d)" "k \<noteq> node_id" for k using that by auto
  have tasks: "k \<in> t_task_id ` {r \<in> set (d_tasks d). t_node_id r \<noteq> node_id}"
    if "k \<in> t_task_id ` set (d_tasks d)" "\<not> (\<exists>r \<in> set (d_tasks d). t_task_id r = k \<and> t_node_id r = node_id)" for k
    using that by auto
  have set: "set (delete_where P rows) = {r \<in> set rows. \<not> P r}" for P and rows :: "'a list"
    by auto
  show ?thesis
    using assms unfolding referential_def delete_node_rows_def Let_def
    by (simp add: set nodes tasks) blast
qed

lemma delete_node_Inr:
  assumes "delete_node now node_id ip admin w = (Inr u, w')"
  shows "files w' = files w" and "\<exists>x. db w' = bump T_Audits ((delete_node_rows node_id (db w))\<lparr>d_audits := x\<rparr>)"
  using assms by (auto simp: delete_node_def connect_Inr node_audit_def insert_audit_def split: option.splits)

lemma delete_node_audit:
  assumes "delete_node now node_id ip admin w = (Inr u, w')"
  shows "\<exists>e. d_audits (db w') = d_audits (db w) @ [e] \<and> e_action e = ''delete_node'' \<and> e_target_id e = Some node_id"
  using assms by (auto simp: delete_node_def connect_Inr node_audit_def insert_audit_def delete_node_rows_def Let_def split: option.splits)

text \<open>C24. Deleting a node leaves no row behind that a foreign key binds to it: all foreign keys still hold, the node and its tasks
  are gone, and so is every row of the tables with a foreign key (snapshots, attempts, logs, artifacts, nonces,
  reviews) that named the node or one of its tasks. The tables without one keep what they say: alerts and warnings
  are as they were, also those that name the node or its tasks, and the audit trail only grows by one event, which
  names the deleted node. The files of its logs and artifacts stay on disk, where no row leads to them.\<close>

theorem delete_node_keeps_references:
  assumes r: "referential (db w)" and d: "delete_node now node_id ip admin w = (Inr u, w')"
  shows "referential (db w') \<and> get_node node_id (d_nodes (db w')) = None \<and>
    (\<forall>r \<in> set (d_tasks (db w')). t_node_id r \<noteq> node_id) \<and>
    (\<forall>tid. (\<exists>r \<in> set (d_tasks (db w)). t_task_id r = tid \<and> t_node_id r = node_id) \<longrightarrow>
       (\<forall>r \<in> set (d_logs (db w')). l_task_id r \<noteq> tid) \<and> (\<forall>r \<in> set (d_artifacts (db w')). f_task_id r \<noteq> tid) \<and>
       (\<forall>r \<in> set (d_attempts (db w')). at_task_id r \<noteq> tid) \<and> (\<forall>r \<in> set (d_reviews (db w')). r_task_id r \<noteq> tid)) \<and>
    (\<forall>r \<in> set (d_snapshots (db w')). s_node_id r \<noteq> node_id) \<and> (\<forall>r \<in> set (d_nonces (db w')). c_node_id r \<noteq> node_id) \<and>
    d_alerts (db w') = d_alerts (db w) \<and> d_warnings (db w') = d_warnings (db w) \<and>
    (\<exists>e. d_audits (db w') = d_audits (db w) @ [e] \<and> e_action e = ''delete_node'' \<and> e_target_id e = Some node_id) \<and>
    files w' = files w"
proof -
  obtain x where audits: "d_audits (db w') = d_audits (db w) @ [x]" "e_action x = ''delete_node''" "e_target_id x = Some node_id"
    using delete_node_audit [OF d] by blast
  obtain x where db: "db w' = bump T_Audits ((delete_node_rows node_id (db w))\<lparr>d_audits := x\<rparr>)"
    using delete_node_Inr(2) [OF d] by blast
  have "referential (db w')" using delete_node_rows_referential [OF r, of node_id] by (simp add: db referential_def)
  moreover have "get_node node_id (d_nodes (db w')) = None"
    by (simp add: db delete_node_rows_def Let_def get_node_def find_None_all)
  ultimately show ?thesis
    using delete_node_Inr(1) [OF d] audits by (auto simp: db delete_node_rows_def Let_def)
qed

lemma delete_node_keeps_references_witness:
  "\<exists>w'. delete_node 0 ''n'' None sample_admin (sample_world [sample_node ''n'' 1] [sample_task ''a'' ''n'' Running 1]) = (Inr (), w') \<and>
     (\<forall>r \<in> set (d_tasks (db w')). t_node_id r \<noteq> ''n'') \<and> length (d_audits (db w')) = 1"
proof -
  let ?w = "sample_world [sample_node ''n'' 1] [sample_task ''a'' ''n'' Running 1]"
  have r: "referential (db ?w)"
    by (simp add: referential_def sample_world_def empty_world_def empty_database_def sample_task_def)
  have "\<exists>w'. delete_node 0 ''n'' None sample_admin ?w = (Inr (), w')"
    by (simp add: delete_node_def connect_Inr get_node_def)
  then obtain w' where d: "delete_node 0 ''n'' None sample_admin ?w = (Inr (), w')" by blast
  have "d_audits (db ?w) = []" by (simp add: sample_world_def empty_world_def empty_database_def)
  with delete_node_keeps_references [OF r d] d show ?thesis by auto
qed

end
