(* ===== verification/Web.thy ===== *)
theory Web
  imports Admin_Nodes
begin

text \<open>
  The HTTP shell of the control plane: the error bodies of \<open>app/errors.py\<close>, and from \<open>app/main.py\<close> the
  request metrics, the guard of \<open>/metrics\<close>, and the pages of the console. A header list is what the
  ASGI scope holds; file names are resolved as the operating system does.
\<close>

section \<open>Error responses\<close>

record http_error =
  he_status :: int
  he_body :: dict
  he_headers :: "(string \<times> string) list"

definition error_payload :: "string \<Rightarrow> string \<Rightarrow> dict \<Rightarrow> dict" where
  "error_payload code message details = [(''code'', JStr code), (''message'', JStr message), (''details'', JObj details)]"

definition api_error_handler :: "string \<Rightarrow> string \<Rightarrow> int \<Rightarrow> dict \<Rightarrow> http_error" where
  "api_error_handler code message status_code details =
     \<lparr>he_status = status_code, he_body = error_payload code message details, he_headers = []\<rparr>"

text \<open>\<open>detail\<close> is the text of the exception's detail.\<close>

definition http_error_handler :: "int \<Rightarrow> string \<Rightarrow> (string \<times> string) list \<Rightarrow> http_error" where
  "http_error_handler status_code detail headers =
     \<lparr>he_status = status_code,
      he_body = error_payload (''ERR_HTTP_'' @ int_str status_code)
        (if detail \<noteq> [] then detail else ''HTTP '' @ int_str status_code) [],
      he_headers = headers\<rparr>"

definition validation_error_handler :: "json \<Rightarrow> http_error" where
  "validation_error_handler errors =
     \<lparr>he_status = 422, he_body = error_payload ''ERR_VALIDATION_FAILED'' ''Validation failed'' [(''errors'', errors)],
      he_headers = []\<rparr>"

text \<open>\<open>raw\<close> is the Retry-After header of the exception, when it has headers.\<close>

definition rate_limit_error_handler :: "string option \<Rightarrow> http_error" where
  "rate_limit_error_handler raw =
     (let retry_after = (case raw of None \<Rightarrow> 60 | Some v \<Rightarrow> (case py_int v of Some i \<Rightarrow> i | None \<Rightarrow> 60))
      in \<lparr>he_status = 429, he_body = error_payload ''ERR_RATE_LIMITED'' ''Rate limit exceeded'' [(''retry_after_sec'', JInt retry_after)],
          he_headers = []\<rparr>)"

section \<open>Request metrics\<close>

text \<open>The path label: the template of the matched route, else one of six buckets.\<close>

definition path_template_or_raw :: "string option \<Rightarrow> string \<Rightarrow> string" where
  "path_template_or_raw route_path p =
     (if truthy route_path then the route_path
      else if p \<in> {''/'', ''/metrics'', ''/healthz'', ''/readyz''} then p
      else if starts_with ''/console'' p then ''/console/*''
      else ''<unknown>'')"

datatype outcome = Answered int | Raised

record http_request =
  hr_method :: string
  hr_route :: "string option"
  hr_path :: string
  hr_outcome :: outcome

type_synonym label = "string \<times> string \<times> string"

definition request_label :: "http_request \<Rightarrow> label" where
  "request_label r = (hr_method r, path_template_or_raw (hr_route r) (hr_path r),
     case hr_outcome r of Answered c \<Rightarrow> int_str c | Raised \<Rightarrow> ''500'')"

text \<open>The counters, one per label: \<open>_http_total_child\<close> makes a missing one.\<close>

fun http_total_child :: "label \<Rightarrow> (label \<times> nat) list \<Rightarrow> (label \<times> nat) list" where
  "http_total_child key [] = [(key, 1)]"
| "http_total_child key ((k, n) # children) =
     (if k = key then (k, n + 1) # children else (k, n) # http_total_child key children)"

definition prometheus_http_metrics :: "http_request \<Rightarrow> (label \<times> nat) list \<Rightarrow> (label \<times> nat) list" where
  "prometheus_http_metrics r children = http_total_child (request_label r) children"

definition bind_request_id :: "string option \<Rightarrow> string \<Rightarrow> string" where
  "bind_request_id header uuid_hex = or_else header uuid_hex"

section \<open>The guard of /metrics\<close>

definition LOCALHOST_HOSTS :: "string set" where
  "LOCALHOST_HOSTS = {''127.0.0.1'', ''::1'', ''localhost''}"

datatype gate = Forwarded | Refused int

definition header_value :: "string \<Rightarrow> (string \<times> string) list \<Rightarrow> string" where
  "header_value k headers = (case map_of (rev (map (\<lambda>(n, v). (lower n, v)) headers)) k of None \<Rightarrow> [] | Some v \<Rightarrow> v)"

definition metrics_auth :: "settings \<Rightarrow> string \<Rightarrow> (string \<times> string) list \<Rightarrow> string option \<Rightarrow> gate" where
  "metrics_auth s scope_type headers client_host =
     (if scope_type \<noteq> ''http'' then Forwarded
      else
        (let token = or_else (metrics_token s) [] in
         if token \<noteq> [] then
           (let auth_header = header_value ''authorization'' headers in
            if \<not> starts_with ''Bearer '' auth_header then Refused 401
            else if str_utf8 (drop 7 auth_header) \<noteq> str_utf8 token then Refused 401
            else Forwarded)
         else if or_else client_host [] \<notin> LOCALHOST_HOSTS then Refused 403
         else Forwarded))"

section \<open>The console\<close>

datatype page = Serve_File path | Not_Built | Redirect string | Info

definition readable :: "path \<Rightarrow> file_tree \<Rightarrow> bool" where
  "readable p fs \<longleftrightarrow> file_get (resolve_path p) fs \<noteq> None"

definition root_page :: "path \<Rightarrow> file_tree \<Rightarrow> page" where
  "root_page frontend_dist fs = (if readable (frontend_dist @ [''index.html'']) fs then Redirect ''/console/'' else Info)"

definition console_index :: "path \<Rightarrow> string \<Rightarrow> file_tree \<Rightarrow> page" where
  "console_index frontend_dist p fs =
     (let target = (if p \<noteq> [] then join_path frontend_dist p else frontend_dist @ [''index.html'']);
          index_path = frontend_dist @ [''index.html'']
      in if p \<noteq> [] \<and> readable target fs then Serve_File (resolve_path target)
         else if \<not> readable index_path fs then Not_Built
         else Serve_File (resolve_path index_path))"

section \<open>Bounded labels\<close>

lemma sum_http_total_child: "sum_list (map snd (http_total_child k children)) = Suc (sum_list (map snd children))"
  by (induction k children rule: http_total_child.induct) auto

lemma keys_http_total_child: "fst ` set (http_total_child k children) = insert k (fst ` set children)"
  by (induction k children rule: http_total_child.induct) auto

lemma path_template_cases:
  "path_template_or_raw route p \<in> (case route of None \<Rightarrow> {} | Some r \<Rightarrow> {r}) \<union>
     {''/'', ''/metrics'', ''/healthz'', ''/readyz'', ''/console/*'', ''<unknown>''}"
  by (cases route) (auto simp: path_template_or_raw_def)

text \<open>The metrics count every request once, whatever it does, and the path labels stay few: with the routes
  of the application, any number of requests leads to at most six path labels more than routes.\<close>

theorem http_metrics_count_and_stay_few:
  assumes "\<forall>r \<in> set rs. case hr_route r of None \<Rightarrow> True | Some t \<Rightarrow> t \<in> set routes"
  defines "children \<equiv> fold prometheus_http_metrics rs []"
  shows "sum_list (map snd children) = length rs \<and> card ((\<lambda>l. fst (snd (fst l))) ` set children) \<le> card (set routes) + 6"
proof
  have "sum_list (map snd (fold prometheus_http_metrics rs c)) = length rs + sum_list (map snd c)" for c
    by (induction rs arbitrary: c) (simp_all add: prometheus_http_metrics_def sum_http_total_child)
  then show "sum_list (map snd children) = length rs" by (simp add: children_def)
  have keys: "fst ` set (fold prometheus_http_metrics rs c) = request_label ` set rs \<union> fst ` set c" for c
    by (induction rs arbitrary: c) (auto simp: prometheus_http_metrics_def keys_http_total_child)
  let ?buckets = "{''/'', ''/metrics'', ''/healthz'', ''/readyz'', ''/console/*'', ''<unknown>''}"
  have "(\<lambda>l. fst (snd l)) ` fst ` set children \<subseteq> set routes \<union> ?buckets"
  proof -
    have "fst (snd (request_label r)) \<in> set routes \<union> ?buckets" if "r \<in> set rs" for r
      using assms(1) that path_template_cases [of "hr_route r" "hr_path r"]
      by (cases "hr_route r") (auto simp: request_label_def)
    then show ?thesis by (simp add: children_def keys image_image image_subset_iff)
  qed
  then have "card ((\<lambda>l. fst (snd l)) ` fst ` set children) \<le> card (set routes \<union> ?buckets)"
    by (rule card_mono [rotated]) simp
  also have "\<dots> \<le> card (set routes) + card ?buckets" by (rule card_Un_le)
  also have "\<dots> \<le> card (set routes) + 6" by (simp add: card_insert_if)
  finally show "card ((\<lambda>l. fst (snd (fst l))) ` set children) \<le> card (set routes) + 6"
    by (simp add: image_image)
qed

lemma http_metrics_count_and_stay_few_witness:
  "sum_list (map snd (fold prometheus_http_metrics
     [\<lparr>hr_method = ''GET'', hr_route = None, hr_path = ''/x'', hr_outcome = Answered 404\<rparr>,
      \<lparr>hr_method = ''GET'', hr_route = Some ''/healthz'', hr_path = ''/healthz'', hr_outcome = Raised\<rparr>] [])) = 2"
  using http_metrics_count_and_stay_few [of
     "[\<lparr>hr_method = ''GET'', hr_route = None, hr_path = ''/x'', hr_outcome = Answered 404\<rparr>,
       \<lparr>hr_method = ''GET'', hr_route = Some ''/healthz'', hr_path = ''/healthz'', hr_outcome = Raised\<rparr>]" "[''/healthz'']"]
  by simp

section \<open>What the console serves\<close>

lemma str_utf8_inj: "str_utf8 a = str_utf8 b \<longleftrightarrow> a = b"
proof
  assume "str_utf8 a = str_utf8 b"
  moreover have "utf8_decode (str_utf8 x) = Some (of_string x)" for x
    unfolding str_utf8_def by (rule utf8_decode_encode) (use scalar_of_string in auto)
  ultimately have "of_string a = of_string b" by (metis option.inject)
  then show "a = b" using text_string_of_string by metis
qed simp

text \<open>A relative console path without \<open>..\<close> leads to a file of the built frontend, and to the one it names
  when that exists; the rest of the paths get the index page.\<close>

theorem console_page_within_frontend:
  assumes "posix_root p = []" and "''..'' \<notin> set (path_parts p)" and "console_index base p fs = Serve_File q"
  shows "starts_with (resolve_path base) q \<and> file_get q fs \<noteq> None \<and>
    (q = resolve_path base @ path_parts p \<or> q = resolve_path base @ [''index.html''])"
proof -
  have i: "resolve_path (base @ [''index.html'']) = resolve_path base @ [''index.html'']" by (rule resolve_snoc) simp_all
  have "''//'' \<notin> set (path_parts p)" using split_on_no_sep [of "''//''" "CHR ''/''" p] assms(1) by (auto simp: path_parts_def)
  then have t: "resolve_path (join_path base p) = resolve_path base @ path_parts p"
    using assms(1,2) by (simp add: join_path_def resolve_append)
  show ?thesis using assms(3) by (auto simp: console_index_def Let_def readable_def t i starts_with_iff split: if_splits)
qed

lemma console_page_within_frontend_witness:
  "console_index [''dist''] ''app.js'' [([''dist'', ''app.js''], Plain [])] = Serve_File [''dist'', ''app.js''] \<and>
   starts_with (resolve_path [''dist'']) [''dist'', ''app.js'']"
proof -
  have p: "posix_root ''app.js'' = []" "path_parts ''app.js'' = [''app.js'']" by code_simp+
  have c: "console_index [''dist''] ''app.js'' [([''dist'', ''app.js''], Plain [])] = Serve_File [''dist'', ''app.js'']"
    by code_simp
  from console_page_within_frontend [OF p(1) _ c] c p(2) show ?thesis by simp
qed

text \<open>The console is not confined to the frontend: for every file of the host, its absolute path, sent to the
  unauthenticated endpoint, is answered with the file.\<close>

theorem console_serves_any_file:
  assumes "cs \<noteq> []" and "\<forall>c \<in> set cs. proper_name c" and "file_get (''/'' # cs) fs \<noteq> None"
  shows "console_index base (concat (map ((#) (CHR ''/'')) cs)) fs = Serve_File (''/'' # cs)"
proof -
  define p where "p = concat (map ((#) (CHR ''/'')) cs)"
  have parts: "path_parts p = ''/'' # cs" unfolding p_def by (rule path_parts_absolute) (use assms in \<open>auto simp: proper_name_def\<close>)
  have root: "posix_root p = [''/'']" unfolding p_def by (rule posix_root_absolute) (use assms in \<open>auto simp: proper_name_def\<close>)
  have "\<not> proper_name ''..''" "\<not> proper_name ''//''" by (simp_all add: proper_name_def)
  then have "''..'' \<notin> set cs" "''//'' \<notin> set cs" using assms(2) by metis+
  then have "resolve_path ([''/''] @ cs) = resolve_path [''/''] @ cs" by (rule resolve_append)
  then have "resolve_path (''/'' # cs) = ''/'' # cs" by (simp add: resolve_path_def)
  then have "console_index base p fs = Serve_File (''/'' # cs)"
    using assms(3) posix_root_not_Nil [OF root]
    by (simp only: console_index_def Let_def readable_def join_path_def parts root not_Cons_self2 list.distinct if_True not_False_eq_True simp_thms)
  then show ?thesis by (simp only: p_def)
qed

lemma console_serves_any_file_witness:
  "\<forall>base b. console_index base ''/etc/passwd'' [([''/'', ''etc'', ''passwd''], b)] = Serve_File [''/'', ''etc'', ''passwd'']"
proof (intro allI)
  fix base b
  show "console_index base ''/etc/passwd'' [([''/'', ''etc'', ''passwd''], b)] = Serve_File [''/'', ''etc'', ''passwd'']"
    using console_serves_any_file [of "[''etc'', ''passwd'']" "[([''/'', ''etc'', ''passwd''], b)]" base]
    by (simp add: proper_name_def file_get_def)
qed

text \<open>Only an authorised scraper reads the metrics: with a token configured, an HTTP request passes exactly when
  its last Authorization header is the bearer of that token, and without one exactly when it comes
  from the local host.\<close>

theorem metrics_only_for_the_scraper:
  "metrics_auth s ''http'' headers client_host = Forwarded \<longleftrightarrow>
    (if truthy (metrics_token s) then header_value ''authorization'' headers = ''Bearer '' @ the (metrics_token s)
     else or_else client_host [] \<in> LOCALHOST_HOSTS)"
proof (cases "truthy (metrics_token s)")
  case True
  then have tok: "or_else (metrics_token s) [] = the (metrics_token s)" "the (metrics_token s) \<noteq> []"
    by (cases "metrics_token s"; simp add: or_else_def)+
  have "starts_with ''Bearer '' h \<and> drop 7 h = t \<longleftrightarrow> h = ''Bearer '' @ t" for h t :: string
    by (auto simp: starts_with_iff)
  with True tok show ?thesis by (auto simp: metrics_auth_def Let_def str_utf8_inj)
next
  case False
  then have "or_else (metrics_token s) [] = []" by (cases "metrics_token s") (auto simp: or_else_def)
  with False show ?thesis by (simp add: metrics_auth_def Let_def)
qed

end
