(* ===== verification/Agent_Client.thy ===== *)
theory Agent_Client
  imports Node_Auth Json
begin

text \<open>
  The HTTP client of the node agent: \<open>node_agent/.../config.py\<close> (settings), the signing of
  \<open>node_agent/.../security.py\<close>, and \<open>node_agent/.../api_client.py\<close> with its retries and its circuit
  breaker. The network and the server are a function from the number of the attempt and the state of
  the other side to a reply and a new state. Directories the agent creates are not modelled.
\<close>

section \<open>Exceptions by name\<close>

definition or_raise :: "string \<Rightarrow> 'a option \<Rightarrow> string + 'a" where
  "or_raise e x = (case x of None \<Rightarrow> Inl e | Some a \<Rightarrow> Inr a)"

lemma or_raise_Inr [simp]: "or_raise e x = Inr y \<longleftrightarrow> x = Some y"
  by (simp add: or_raise_def split: option.split)

section \<open>Settings\<close>

record agent_settings =
  ag_control_plane_url :: string
  ag_node_id :: string
  ag_node_secret :: string
  ag_node_secret_encrypted_path :: "string option"
  ag_node_secret_passphrase :: string
  ag_heartbeat_interval_sec :: int
  ag_sample_interval_sec :: int
  ag_sample_buffer_size :: nat
  ag_deployment_mode :: string
  ag_circuit_breaker_failure_threshold :: int
  ag_circuit_breaker_open_sec :: int
  ag_agent_root :: string
  ag_repos_dir :: string
  ag_runs_dir :: string
  ag_artifacts_dir :: string
  ag_logs_dir :: string
  ag_state_dir :: string
  ag_python_executable :: "string option"
  ag_venv_path :: "string option"
  ag_uv_executable :: "string option"
  ag_conda_executable :: "string option"
  ag_micromamba_executable :: "string option"
  ag_modal_credentials_path :: "string option"
  ag_modal_default_credential_name :: "string option"
  ag_modal_default_environment :: "string option"
  ag_modal_default_workspace :: "string option"

definition default_agent_settings :: agent_settings where
  "default_agent_settings = \<lparr>ag_control_plane_url = ''http://127.0.0.1:8000'', ag_node_id = ''node-example'', ag_node_secret = [],
     ag_node_secret_encrypted_path = None, ag_node_secret_passphrase = [], ag_heartbeat_interval_sec = 5,
     ag_sample_interval_sec = 1, ag_sample_buffer_size = 5, ag_deployment_mode = ''auto'',
     ag_circuit_breaker_failure_threshold = 3, ag_circuit_breaker_open_sec = 60, ag_agent_root = ''./runtime'',
     ag_repos_dir = ''./runtime/repos'', ag_runs_dir = ''./runtime/runs'', ag_artifacts_dir = ''./runtime/artifacts'',
     ag_logs_dir = ''./runtime/logs'', ag_state_dir = ''./runtime/state'', ag_python_executable = None, ag_venv_path = None,
     ag_uv_executable = None, ag_conda_executable = None, ag_micromamba_executable = None, ag_modal_credentials_path = None,
     ag_modal_default_credential_name = None, ag_modal_default_environment = None, ag_modal_default_workspace = None\<rparr>"

definition valid_sampling_window :: "agent_settings \<Rightarrow> bool" where
  "valid_sampling_window ag \<longleftrightarrow> \<not> ag_heartbeat_interval_sec ag < ag_sample_interval_sec ag"

text \<open>\<open>resolve_agent_path\<close> under the working directory \<open>cwd\<close>.\<close>

definition resolve_agent_path :: "path \<Rightarrow> string option \<Rightarrow> path option" where
  "resolve_agent_path cwd p = map_option (\<lambda>s. resolve_path (join_path cwd s)) p"

definition secret_store_path :: "path \<Rightarrow> agent_settings \<Rightarrow> path" where
  "secret_store_path cwd ag =
     (case ag_node_secret_encrypted_path ag of
        Some p \<Rightarrow> resolve_path (join_path cwd p)
      | None \<Rightarrow> resolve_path (join_path cwd (ag_state_dir ag) @ [''node_secret.enc'']))"

text \<open>\<open>env\<close> is the environment of the agent's process, on a POSIX host.\<close>

definition effective_deployment_mode :: "(string \<Rightarrow> string option) \<Rightarrow> agent_settings \<Rightarrow> string" where
  "effective_deployment_mode env ag =
     (if ag_deployment_mode ag \<noteq> ''auto'' then ag_deployment_mode ag
      else if ag_modal_credentials_path ag \<noteq> None \<or> truthy (env ''MODAL_TOKEN_ID'') \<or> truthy (env ''MODAL_TOKEN_SECRET'')
      then ''cloud_gpu_runner''
      else ''linux_server'')"

section \<open>Signed headers\<close>

definition derive_signing_key :: "string \<Rightarrow> string" where
  "derive_signing_key node_secret = hexdigest (sha256 (str_utf8 node_secret))"

definition agent_hash_request_body :: "bytes \<Rightarrow> string" where
  "agent_hash_request_body body = hexdigest (sha256 body)"

text \<open>\<open>build_headers\<close> at the time \<open>now\<close> with the 12 random bytes of the nonce; the body goes along.\<close>

definition build_headers :: "instant \<Rightarrow> bytes \<Rightarrow> string \<Rightarrow> string \<Rightarrow> bytes \<Rightarrow> node_request" where
  "build_headers now rnd node_id node_secret body =
     (let timestamp = utc_now_iso now; nonce = hexdigest rnd; signing_key = derive_signing_key node_secret;
          message = str_utf8 (join [CHR 10] [node_id, timestamp, nonce, agent_hash_request_body body]);
          signature = hexdigest (hmac_sha256 (str_utf8 signing_key) message)
      in \<lparr>hdr_node_id = Some node_id, hdr_timestamp = Some timestamp, hdr_nonce = Some nonce, hdr_signature = Some signature,
          hdr_content_length = Some (nat_digits (length body)), rq_body = body\<rparr>)"

section \<open>Circuit breaker\<close>

datatype breaker_state = Closed | Open | Half_Open

record breaker =
  br_state :: breaker_state
  br_failures :: int
  br_open_until :: instant

definition new_breaker :: breaker where
  "new_breaker = \<lparr>br_state = Closed, br_failures = 0, br_open_until = 0\<rparr>"

text \<open>None is the \<open>CircuitOpenError\<close>.\<close>

definition allow_request :: "instant \<Rightarrow> breaker \<Rightarrow> breaker option" where
  "allow_request now b =
     (if br_state b = Open then
        (if now < br_open_until b then None else Some (b\<lparr>br_state := Half_Open\<rparr>))
      else Some b)"

definition on_success :: "breaker \<Rightarrow> breaker" where
  "on_success b = \<lparr>br_state = Closed, br_failures = 0, br_open_until = 0\<rparr>"

definition on_transient_failure :: "instant \<Rightarrow> int \<Rightarrow> int \<Rightarrow> breaker \<Rightarrow> breaker" where
  "on_transient_failure now threshold open_sec b =
     (if br_state b = Half_Open then
        b\<lparr>br_state := Open, br_failures := threshold, br_open_until := now + seconds open_sec\<rparr>
      else
        (let b' = b\<lparr>br_failures := br_failures b + 1\<rparr> in
         if threshold \<le> br_failures b' then b'\<lparr>br_state := Open, br_open_until := now + seconds open_sec\<rparr> else b'))"

definition on_non_transient_failure :: "breaker \<Rightarrow> breaker" where
  "on_non_transient_failure b =
     (let b' = (if br_state b = Half_Open then b\<lparr>br_state := Closed, br_open_until := 0\<rparr> else b)
      in b'\<lparr>br_failures := 0\<rparr>)"

section \<open>Posting with retries\<close>

text \<open>What an attempt meets: an answer with its status and JSON body (None: not JSON), or no answer.\<close>

datatype reply = Answer int "dict option" | No_Connection | Timed_Out | Broken

datatype client_error = Circuit_Open | Http_Error int | Connection_Error | Timeout_Error | Invalid_Json | Other_Error

definition MAX_RETRIES :: nat where
  "MAX_RETRIES = 3"

definition TRANSIENT_STATUS_CODES :: "int set" where
  "TRANSIENT_STATUS_CODES = {500, 502, 503, 504, 429}"

text \<open>\<open>raise_for_status\<close> and \<open>response.json()\<close>, or the exception of an attempt.\<close>

definition attempt_result :: "reply \<Rightarrow> client_error + dict" where
  "attempt_result r =
     (case r of
        Answer c body \<Rightarrow>
          if 400 \<le> c \<and> c < 600 then Inl (Http_Error c)
          else (case body of None \<Rightarrow> Inl Invalid_Json | Some d \<Rightarrow> Inr d)
      | No_Connection \<Rightarrow> Inl Connection_Error
      | Timed_Out \<Rightarrow> Inl Timeout_Error
      | Broken \<Rightarrow> Inl Other_Error)"

definition is_transient_error :: "client_error \<Rightarrow> bool" where
  "is_transient_error e =
     (case e of Connection_Error \<Rightarrow> True | Timeout_Error \<Rightarrow> True | Http_Error c \<Rightarrow> c \<in> TRANSIENT_STATUS_CODES | _ \<Rightarrow> False)"

text \<open>
  The attempts from number \<open>n\<close> on, \<open>left\<close> of them; \<open>clock\<close> is the monotonic clock when a failure is
  recorded. An answer that is not JSON has already reset the breaker when \<open>json()\<close> raises.
\<close>

fun post_attempts ::
  "agent_settings \<Rightarrow> (nat \<Rightarrow> instant) \<Rightarrow> (nat \<Rightarrow> 's \<Rightarrow> reply \<times> 's) \<Rightarrow> nat \<Rightarrow> nat \<Rightarrow> breaker \<Rightarrow> 's \<Rightarrow>
   (client_error + dict) \<times> breaker \<times> 's" where
  "post_attempts ag clock send n 0 b s = (Inl Other_Error, b, s)"
| "post_attempts ag clock send n (Suc left) b s =
     (case send n s of (r, s') \<Rightarrow>
       (case attempt_result r of
          Inr d \<Rightarrow> (Inr d, on_success b, s')
        | Inl e \<Rightarrow>
            let b = (if e = Invalid_Json then on_success b else b) in
            if \<not> is_transient_error e then (Inl e, on_non_transient_failure b, s')
            else if left = 0 then
              (Inl e, on_transient_failure (clock n) (ag_circuit_breaker_failure_threshold ag) (ag_circuit_breaker_open_sec ag) b, s')
            else post_attempts ag clock send (n + 1) left b s'))"

definition post_signed_json ::
  "agent_settings \<Rightarrow> instant \<Rightarrow> (nat \<Rightarrow> instant) \<Rightarrow> (nat \<Rightarrow> 's \<Rightarrow> reply \<times> 's) \<Rightarrow> breaker \<Rightarrow> 's \<Rightarrow>
   (client_error + dict) \<times> breaker \<times> 's" where
  "post_signed_json ag now clock send b s =
     (case allow_request now b of
        None \<Rightarrow> (Inl Circuit_Open, b, s)
      | Some b' \<Rightarrow> post_attempts ag clock send 0 MAX_RETRIES b' s)"

text \<open>\<open>send_artifact_file\<close>: the payload of an artifact upload.\<close>

definition artifact_upload_payload ::
  "string \<Rightarrow> string \<Rightarrow> string \<Rightarrow> bytes \<Rightarrow> string option \<Rightarrow> dict option \<Rightarrow> dict" where
  "artifact_upload_payload task_id artifact_name artifact_type artifact_bytes content_type preview =
     [(''task_id'', JStr task_id), (''artifact_name'', JStr artifact_name), (''artifact_type'', JStr artifact_type),
      (''content_base64'', JStr (b64encode artifact_bytes)), (''content_type'', opt_json JStr content_type),
      (''preview'', JObj (case preview of None \<Rightarrow> [] | Some d \<Rightarrow> d))]"

section \<open>Retries are bounded, the breaker trips\<close>

lemma post_attempts_count:
  assumes "\<And>n s. m (snd (send n s)) \<le> Suc (m s)" and "post_attempts ag clock send n left b s = (r, b', s')"
  shows "m s' \<le> m s + left"
  using assms(2)
proof (induction left arbitrary: n b s)
  case (Suc left)
  obtain x s1 where x: "send n s = (x, s1)" by fastforce
  have s1: "m s1 \<le> Suc (m s)" using assms(1) [of n s] by (simp add: x)
  show ?case
  proof (cases "attempt_result x")
    case (Inr d)
    with Suc.prems x s1 show ?thesis by simp
  next
    case (Inl e)
    have "s' = s1 \<or> m s' \<le> m s1 + left"
      using Suc.prems Suc.IH by (auto simp: x Inl Let_def split: if_splits)
    with s1 show ?thesis by auto
  qed
qed simp

text \<open>A post that every attempt of which fails for a passing reason.\<close>

definition hopeless :: "(nat \<Rightarrow> 's \<Rightarrow> reply \<times> 's) \<Rightarrow> bool" where
  "hopeless send \<longleftrightarrow> (\<forall>n s. \<exists>e. attempt_result (fst (send n s)) = Inl e \<and> is_transient_error e)"

lemma post_attempts_hopeless:
  assumes "hopeless send"
  shows "\<exists>e s' t. is_transient_error e \<and> post_attempts ag clock send n (Suc left) b s =
    (Inl e, on_transient_failure t (ag_circuit_breaker_failure_threshold ag) (ag_circuit_breaker_open_sec ag) b, s')"
proof (induction left arbitrary: n s)
  case 0
  obtain x s1 where x: "send n s = (x, s1)" by fastforce
  obtain e where e: "attempt_result x = Inl e" "is_transient_error e"
    using assms x unfolding hopeless_def by (metis fst_conv)
  then have "e \<noteq> Invalid_Json" by (auto simp: is_transient_error_def)
  then show ?case using e by (auto simp: x Let_def)
next
  case (Suc left)
  obtain x s1 where x: "send n s = (x, s1)" by fastforce
  obtain e where e: "attempt_result x = Inl e" "is_transient_error e"
    using assms x unfolding hopeless_def by (metis fst_conv)
  then have "e \<noteq> Invalid_Json" by (auto simp: is_transient_error_def)
  then have "post_attempts ag clock send n (Suc (Suc left)) b s = post_attempts ag clock send (n + 1) (Suc left) b s1"
    using e by (simp add: x Let_def)
  then show ?case using Suc.IH [of "n + 1" s1] by simp
qed

text \<open>Posts one after the other: what each of them meets, and the breaker after them.\<close>

definition posts ::
  "agent_settings \<Rightarrow> (instant \<times> (nat \<Rightarrow> instant) \<times> (nat \<Rightarrow> 's \<Rightarrow> reply \<times> 's)) list \<Rightarrow> breaker \<times> 's \<Rightarrow> breaker \<times> 's" where
  "posts ag ps st = fold (\<lambda>(now, clock, send) (b, s). snd (post_signed_json ag now clock send b s)) ps st"

lemma post_hopeless:
  assumes "hopeless send"
  shows "\<exists>b' s'. snd (post_signed_json ag now clock send b s) = (b', s') \<and>
    (br_state b = Closed \<longrightarrow> br_state b' = (if ag_circuit_breaker_failure_threshold ag \<le> br_failures b + 1 then Open else Closed) \<and>
       br_failures b' = br_failures b + 1) \<and>
    (br_state b = Open \<longrightarrow> br_state b' = Open)"
proof (cases "allow_request now b")
  case None
  then show ?thesis by (auto simp: post_signed_json_def allow_request_def split: if_splits)
next
  case (Some b1)
  obtain e s' t where "post_attempts ag clock send 0 (Suc 2) b1 s =
      (Inl e, on_transient_failure t (ag_circuit_breaker_failure_threshold ag) (ag_circuit_breaker_open_sec ag) b1, s')"
    using post_attempts_hopeless [OF assms] by blast
  then have "snd (post_signed_json ag now clock send b s) =
      (on_transient_failure t (ag_circuit_breaker_failure_threshold ag) (ag_circuit_breaker_open_sec ag) b1, s')"
    by (simp add: post_signed_json_def Some MAX_RETRIES_def numeral_3_eq_3)
  moreover have "br_state b = Closed \<Longrightarrow> b1 = b" "br_state b = Open \<Longrightarrow> br_state b1 = Half_Open"
    using Some by (auto simp: allow_request_def split: if_splits)
  ultimately show ?thesis by (auto simp: on_transient_failure_def Let_def)
qed

lemma posts_hopeless:
  assumes "\<forall>(now, clock, send) \<in> set ps. hopeless send" and "1 \<le> ag_circuit_breaker_failure_threshold ag"
    and "br_state b = Open \<or> br_state b = Closed \<and> br_failures b < ag_circuit_breaker_failure_threshold ag"
  shows "br_state (fst (posts ag ps (b, s))) =
    (if br_state b = Open \<or> ag_circuit_breaker_failure_threshold ag \<le> br_failures b + int (length ps) then Open else Closed)"
  using assms
proof (induction ps arbitrary: b s)
  case (Cons p ps)
  obtain now clock send where p: "p = (now, clock, send)" by (cases p) auto
  then have h: "hopeless send" using Cons.prems(1) by auto
  obtain b' s' where b': "snd (post_signed_json ag now clock send b s) = (b', s')"
    "br_state b = Closed \<Longrightarrow> br_state b' = (if ag_circuit_breaker_failure_threshold ag \<le> br_failures b + 1 then Open else Closed) \<and>
       br_failures b' = br_failures b + 1"
    "br_state b = Open \<Longrightarrow> br_state b' = Open"
    using post_hopeless [OF h, of ag now clock b s] by blast
  have step: "posts ag (p # ps) (b, s) = posts ag ps (b', s')" using b'(1) by (simp add: posts_def p)
  have "br_state b' = Open \<or> br_state b' = Closed \<and> br_failures b' < ag_circuit_breaker_failure_threshold ag"
    using Cons.prems(3) b'(2,3) by (cases "ag_circuit_breaker_failure_threshold ag \<le> br_failures b + 1") auto
  with Cons.IH [of b' s'] Cons.prems have "br_state (fst (posts ag ps (b', s'))) =
    (if br_state b' = Open \<or> ag_circuit_breaker_failure_threshold ag \<le> br_failures b' + int (length ps) then Open else Closed)"
    by auto
  then show ?case using Cons.prems(3) b'(2,3) unfolding step
    by (cases "ag_circuit_breaker_failure_threshold ag \<le> br_failures b + 1") auto
qed (auto simp: posts_def)

section \<open>Properties\<close>

text \<open>C40. A post makes at most three attempts, and none while the circuit is open: whatever the attempts meet, the
  other side sees at most three requests, and none before the breaker's time is over.\<close>

theorem post_attempts_bounded:
  assumes "\<And>n s. m (snd (send n s)) \<le> Suc (m s)" and "post_signed_json ag now clock send b s = (r, b', s')"
  shows "m s' \<le> m s + 3 \<and> (if br_state b = Open \<and> now < br_open_until b then s' = s \<and> b' = b \<and> r = Inl Circuit_Open else True)"
proof (cases "allow_request now b")
  case None
  then show ?thesis using assms(2) by (auto simp: post_signed_json_def)
next
  case (Some b1)
  then have "post_attempts ag clock send 0 MAX_RETRIES b1 s = (r, b', s')" using assms(2) by (simp add: post_signed_json_def)
  from post_attempts_count [where m = m, OF assms(1) this] Some show ?thesis
    by (auto simp: MAX_RETRIES_def allow_request_def split: if_splits)
qed

lemma post_attempts_bounded_witness:
  "snd (snd (post_signed_json default_agent_settings 0 (\<lambda>_. 0) (\<lambda>n k. (Answer 503 None, Suc k)) new_breaker (0 :: nat))) \<le> 3"
proof -
  obtain r b' k where p: "post_signed_json default_agent_settings 0 (\<lambda>_. 0) (\<lambda>n k. (Answer 503 None, Suc k)) new_breaker (0 :: nat) = (r, b', k)"
    by (metis surj_pair)
  from post_attempts_bounded [where m = "\<lambda>k. k", OF _ p] show ?thesis unfolding p by simp
qed

text \<open>The breaker opens after as many hopeless posts in a row as the threshold says, not before, and stays
  open as long as the posts stay hopeless; a single success puts it back to its first state.\<close>

theorem breaker_trips_at_threshold:
  assumes "1 \<le> ag_circuit_breaker_failure_threshold ag" and "\<forall>(now, clock, send) \<in> set ps. hopeless send"
  shows "br_state (fst (posts ag ps (new_breaker, s))) =
      (if ag_circuit_breaker_failure_threshold ag \<le> int (length ps) then Open else Closed) \<and>
    (\<forall>b now clock d. allow_request now b = None \<or>
       post_signed_json ag now clock (\<lambda>n s. (Answer 200 (Some d), s)) b s = (Inr d, new_breaker, s))"
proof
  show "br_state (fst (posts ag ps (new_breaker, s))) =
      (if ag_circuit_breaker_failure_threshold ag \<le> int (length ps) then Open else Closed)"
    using posts_hopeless [OF assms(2,1), of new_breaker s] assms(1) by (simp add: new_breaker_def)
  show "\<forall>b now clock d. allow_request now b = None \<or>
       post_signed_json ag now clock (\<lambda>n s. (Answer 200 (Some d), s)) b s = (Inr d, new_breaker, s)"
    by (auto simp: post_signed_json_def MAX_RETRIES_def numeral_3_eq_3 attempt_result_def on_success_def new_breaker_def)
qed

lemma breaker_trips_at_threshold_witness:
  "br_state (fst (posts default_agent_settings (replicate 3 (0, \<lambda>_. 0, \<lambda>n s. (No_Connection, s))) (new_breaker, ()))) = Open"
  using breaker_trips_at_threshold [of default_agent_settings "replicate 3 (0, \<lambda>_. 0, \<lambda>n s. (No_Connection, s))" "()"]
  by (simp add: default_agent_settings_def hopeless_def attempt_result_def is_transient_error_def)

end
