(* ===== verification/Agent_Link.thy ===== *)
theory Agent_Link
  imports Admin_Nodes Agent_Client
begin

text \<open>
  The agent and the control plane together: the headers that the agent's \<open>build_headers\<close> makes are
  the ones that the server's \<open>authenticate_node\<close> checks.
\<close>

lemma agent_signature:
  "hdr_signature (build_headers t rnd nid sec body) = Some (sign_node_request (of_string (derive_node_signing_key sec)) nid
     (utc_now_iso t) (hexdigest rnd) (hash_request_body body))"
  by (simp add: build_headers_def sign_node_request_def derive_signing_key_def derive_node_signing_key_def str_utf8_def
      agent_hash_request_body_def hash_request_body_def Let_def)

lemma agent_headers [simp]:
  "hdr_node_id (build_headers t rnd nid sec body) = Some nid"
  "hdr_timestamp (build_headers t rnd nid sec body) = Some (utc_now_iso t)"
  "hdr_nonce (build_headers t rnd nid sec body) = Some (hexdigest rnd)"
  "rq_body (build_headers t rnd nid sec body) = body"
  by (simp_all add: build_headers_def Let_def)

lemma parse_timestamp_now: "in_range t \<Longrightarrow> parse_timestamp (utc_now_iso t) = Inr (floor_sec t)"
proof -
  assume r: "in_range t"
  then obtain q where "fromisoformat (utc_now_iso t) = Some q" "to_utc q = floor_sec t"
    using utc_now_iso_parses [OF r] by (auto simp: parse_utc_def)
  then show ?thesis using r by (simp add: parse_timestamp_def utc_now_iso_def replace_Z_iso)
qed

text \<open>A node row that is the only one with its id, holding the key of the secret \<open>sec\<close>.\<close>

definition only_row :: "crypto \<Rightarrow> settings \<Rightarrow> string \<Rightarrow> string \<Rightarrow> node_row \<Rightarrow> world \<Rightarrow> bool" where
  "only_row cr s nid sec node w \<longleftrightarrow> n_node_id node = nid \<and> n_is_enabled node \<and>
     (\<exists>rows n k. d_nodes (db w) = rows @ [node] \<and> (\<forall>r \<in> set rows. n_node_id r \<noteq> nid) \<and> length n = 12 \<and>
        n_encrypted_signing_key node = Some k \<and>
        encrypt_node_signing_key cr s n (of_string (derive_node_signing_key sec)) = Inr k)"

lemma only_row_facts:
  assumes "only_row cr s nid sec node w" and "aead_ok cr"
  shows "find_enabled_node nid (d_nodes (db w)) = Some node"
    and "node_stored_key cr s now rnd node w = (Inr (of_string (derive_node_signing_key sec)), w)"
    and "rowcount (\<lambda>r. n_node_id r = nid \<and> ts_advances ts r) (d_nodes (db w)) = (if ts_advances ts node then 1 else 0)"
proof -
  obtain rows n k where r: "d_nodes (db w) = rows @ [node]" "\<forall>r \<in> set rows. n_node_id r \<noteq> nid" "length n = 12"
    "n_encrypted_signing_key node = Some k" "encrypt_node_signing_key cr s n (of_string (derive_node_signing_key sec)) = Inr k"
    and node: "n_node_id node = nid" "n_is_enabled node"
    using assms(1) by (auto simp: only_row_def)
  have "List.find (\<lambda>r. n_node_id r = nid \<and> n_is_enabled r) rows = None" using r(2) by (simp add: find_None_all)
  then show "find_enabled_node nid (d_nodes (db w)) = Some node" using node by (simp add: find_enabled_node_def r(1) find_snoc)
  show "node_stored_key cr s now rnd node w = (Inr (of_string (derive_node_signing_key sec)), w)"
    by (rule stored_key_of_encrypted [OF assms(2) r(3,5,4)])
  show "rowcount (\<lambda>r. n_node_id r = nid \<and> ts_advances ts r) (d_nodes (db w)) = (if ts_advances ts node then 1 else 0)"
    using r(1,2) node by (simp add: rowcount_def filter_empty_conv)
qed

lemma agent_request:
  assumes "aead_ok cr" and o: "only_row cr s nid sec node w" and "nid \<noteq> []" and rnd: "rnd \<noteq> []"
    and "in_range t" and "\<bar>now - floor_sec t\<bar> \<le> seconds (node_allowed_clock_skew_sec s)"
    and "\<not> nonce_used nid (hexdigest rnd) (d_nonces (db w))"
  shows "if ts_advances (utc_now_iso t) node
    then \<exists>node' w'. authenticate_node cr s now r (build_headers t rnd nid sec body) w = (Inr (nid, node), w') \<and>
      only_row cr s nid sec node' w' \<and> n_last_request_ts node' = Some (utc_now_iso t) \<and>
      (\<forall>x. nonce_used nid x (d_nonces (db w')) \<longrightarrow> x = hexdigest rnd \<or> nonce_used nid x (d_nonces (db w)))
    else authenticate_node cr s now r (build_headers t rnd nid sec body) w =
      (Inl (Api_Error ''ERR_AUTH_TIMESTAMP_REPLAY'' 409), w)"
proof -
  note facts = only_row_facts [OF o assms(1)]
  let ?P = "\<lambda>r. n_node_id r = nid \<and> ts_advances (utc_now_iso t) r"
  let ?u = "\<lambda>r. r\<lparr>n_last_request_ts := Some (utc_now_iso t), n_updated_at := utc_now_iso now\<rparr>"
  let ?w = "upd_nodes (update_where ?P ?u)
    (insert_nonce nid (hexdigest rnd) (utc_now_iso t) (utc_now_iso (now + seconds (nonce_ttl_sec s))) w)"
  have ne: "hexdigest rnd \<noteq> []" using rnd by (metis length_hexdigest length_0_conv mult_is_0 zero_neq_numeral)
  have eq: "authenticate_node cr s now r (build_headers t rnd nid sec body) w =
    (if ts_advances (utc_now_iso t) node then (Inr (nid, node), ?w) else (Inl (Api_Error ''ERR_AUTH_TIMESTAMP_REPLAY'' 409), w))"
    using assms facts ne
    by (simp add: authenticate_node_def agent_signature signature_not_Nil parse_timestamp_now connect_def andthen_def ok_def
        accept_signed_def verify_own_signature of_string_not_Nil Let_def)
  have node': "only_row cr s nid sec (?u node) ?w" if a: "ts_advances (utc_now_iso t) node"
  proof -
    obtain rows n k where r: "d_nodes (db w) = rows @ [node]" "\<forall>r \<in> set rows. n_node_id r \<noteq> nid" "length n = 12"
      "n_encrypted_signing_key node = Some k" "encrypt_node_signing_key cr s n (of_string (derive_node_signing_key sec)) = Inr k"
      "n_node_id node = nid" "n_is_enabled node"
      using o by (auto simp: only_row_def)
    have "update_where ?P ?u rows = rows" using r(2) by (simp add: update_where_def map_idI)
    then have "d_nodes (db ?w) = rows @ [?u node]" using r a by (simp add: update_where_def)
    with r show ?thesis unfolding only_row_def by fastforce
  qed
  have used: "nonce_used nid x (d_nonces (db ?w)) \<Longrightarrow> x = hexdigest rnd \<or> nonce_used nid x (d_nonces (db w))" for x
    by (auto simp: nonce_used_def insert_nonce_def bump_def upd_nodes_def)
  show ?thesis using eq node' used by (auto intro!: exI [of _ "?u node"])
qed

section \<open>Properties\<close>

text \<open>C21. Onboarding works end to end, and at most one request a second: an agent that signs with the secret
  creating its node returned is let in, though the server keeps the key only encrypted; its next
  request, with a new nonce, is let in when its clock shows a later second, and refused as a replay (409)
  when both requests fall into the same second.\<close>

theorem agent_signs_in_once_a_second:
  assumes aead: "aead_ok cr" and n: "length n1 = 12" and nid: "nx_node_id p \<noteq> []"
    and c: "create_node cr s base_url now rnd n1 n2 ip admin p w = (Inr resp, w1)"
    and t: "in_range t1" "in_range t2" "\<bar>now1 - floor_sec t1\<bar> \<le> seconds (node_allowed_clock_skew_sec s)"
      "\<bar>now2 - floor_sec t2\<bar> \<le> seconds (node_allowed_clock_skew_sec s)"
    and x: "x1 \<noteq> []" "x2 \<noteq> []" "x1 \<noteq> x2" "\<And>x. \<not> nonce_used (nx_node_id p) x (d_nonces (db w))"
  shows "\<exists>node w2. authenticate_node cr s now1 r1 (build_headers t1 x1 (nx_node_id p) (ncr_node_secret resp) b1) w1 =
      (Inr (nx_node_id p, node), w2) \<and> n_node_signing_key node = Some [] \<and>
    (\<exists>node' w3. authenticate_node cr s now2 r2 (build_headers t2 x2 (nx_node_id p) (ncr_node_secret resp) b2) w2 =
      (if floor_sec t1 < floor_sec t2 then (Inr (nx_node_id p, node'), w3)
       else (Inl (Api_Error ''ERR_AUTH_TIMESTAMP_REPLAY'' 409), w2)))"
proof -
  obtain k tk where sec: "new_node_secret cr s rnd n1 n2 = Inr (ncr_node_secret resp, k, tk)"
    and fresh: "get_node (nx_node_id p) (d_nodes (db w)) = None"
    and nodes: "d_nodes (db w1) = d_nodes (db w) @ [new_node_row (next_id T_Nodes (db w)) (utc_now_iso now) k tk p]"
    and nonces: "d_nonces (db w1) = d_nonces (db w)"
    by (rule create_node_Inr [OF c])
  define node where "node = new_node_row (next_id T_Nodes (db w)) (utc_now_iso now) k tk p"
  have "\<forall>r \<in> set (d_nodes (db w)). n_node_id r \<noteq> nx_node_id p"
    using fresh by (simp add: get_node_def find_None_all)
  then have o: "only_row cr s (nx_node_id p) (ncr_node_secret resp) node w1"
    using n new_node_secret_Inr(2) [OF sec] by (auto simp: only_row_def node_def nodes)
  have "ts_advances (utc_now_iso t1) node" "n_node_signing_key node = Some []"
    by (simp_all add: ts_advances_def node_def new_node_row_def)
  with agent_request [OF aead o nid x(1) t(1,3), of r1 b1] x(4) nonces obtain node' w2 where
    a: "authenticate_node cr s now1 r1 (build_headers t1 x1 (nx_node_id p) (ncr_node_secret resp) b1) w1 = (Inr (nx_node_id p, node), w2)"
    and o': "only_row cr s (nx_node_id p) (ncr_node_secret resp) node' w2"
    and l: "n_last_request_ts node' = Some (utc_now_iso t1)"
    and used: "\<And>x. nonce_used (nx_node_id p) x (d_nonces (db w2)) \<Longrightarrow> x = hexdigest x1"
    by auto
  have "\<not> nonce_used (nx_node_id p) (hexdigest x2) (d_nonces (db w2))" using used [of "hexdigest x2"] x(3) by (auto simp: hexdigest_inj)
  note second = agent_request [OF aead o' nid x(2) t(2,4) this, of r2 b2]
  have "ts_advances (utc_now_iso t2) node' \<longleftrightarrow> floor_sec t1 < floor_sec t2"
    using o' l t(1,2) by (simp add: ts_advances_def only_row_def utc_now_iso_less_iff)
  with second have "\<exists>node' w3. authenticate_node cr s now2 r2 (build_headers t2 x2 (nx_node_id p) (ncr_node_secret resp) b2) w2 =
      (if floor_sec t1 < floor_sec t2 then (Inr (nx_node_id p, node'), w3)
       else (Inl (Api_Error ''ERR_AUTH_TIMESTAMP_REPLAY'' 409), w2))" by auto
  with a \<open>n_node_signing_key node = Some []\<close> show ?thesis by blast
qed

lemma agent_signs_in_once_a_second_witness:
  "\<exists>sec w1 node w2. authenticate_node sample_crypto sample_node_settings sample_instant [] (build_headers sample_instant [1] ''n'' sec []) w1 =
      (Inr (''n'', node), w2) \<and>
    authenticate_node sample_crypto sample_node_settings (sample_instant + 900000) []
      (build_headers (sample_instant + 900000) [2] ''n'' sec []) w2 = (Inl (Api_Error ''ERR_AUTH_TIMESTAMP_REPLAY'' 409), w2)"
proof -
  obtain resp w1 where c: "create_node sample_crypto sample_node_settings [] sample_instant [] (replicate 12 0) (replicate 12 0)
      None sample_admin sample_node_create (sample_world [] []) = (Inr resp, w1)" using sample_node_created by blast
  have id: "nx_node_id sample_node_create = ''n''" by (simp add: sample_node_create_def)
  have t: "floor_sec (sample_instant + 900000) = sample_instant" "floor_sec sample_instant = sample_instant"
    "in_range sample_instant" "in_range (sample_instant + 900000)" by code_simp+
  from agent_signs_in_once_a_second [OF sample_crypto_ok _ _ c t(3,4), of sample_instant "sample_instant + 900000" "[1]" "[2]" "[]" "[]" "[]" "[]"]
  show ?thesis
    by (auto simp: id t sample_node_settings_def default_settings_def seconds_def nonce_used_def
        sample_world_def empty_world_def empty_database_def)
qed

end
