(* ===== verification/Agent_Text.thy ===== *)
theory Agent_Text
  imports Codec
begin

text \<open>
  How the agent reads the output files of a task (\<open>read_text\<close> with \<open>errors="replace"\<close> and universal
  newlines, as CPython does it): \<open>runner/log_pump.py: read_text_slice\<close>.
\<close>

section \<open>Decoding with replacement\<close>

text \<open>A lead byte: how many bytes follow it, and the range of the first of them.\<close>

definition lead_byte :: "nat \<Rightarrow> (nat \<times> nat \<times> nat) option" where
  "lead_byte n =
     (if 194 \<le> n \<and> n < 224 then Some (1, 128, 191)
      else if n = 224 then Some (2, 160, 191)
      else if n = 237 then Some (2, 128, 159)
      else if 225 \<le> n \<and> n < 240 then Some (2, 128, 191)
      else if n = 240 then Some (3, 144, 191)
      else if 241 \<le> n \<and> n < 244 then Some (3, 128, 191)
      else if n = 244 then Some (3, 128, 143)
      else None)"

fun good_bytes :: "nat \<Rightarrow> nat \<Rightarrow> nat \<Rightarrow> bytes \<Rightarrow> nat" where
  "good_bytes 0 lo hi bs = 0"
| "good_bytes (Suc k) lo hi [] = 0"
| "good_bytes (Suc k) lo hi (b # bs) =
     (if lo \<le> unat b \<and> unat b \<le> hi then Suc (good_bytes k 128 191 bs) else 0)"

definition replacement :: nat where
  "replacement = 65533"

text \<open>Each longest beginning of a character that breaks off becomes one replacement character.\<close>

function decode_replace :: "bytes \<Rightarrow> utext" where
  "decode_replace [] = []"
| "decode_replace (b # bs) =
     (let n = unat b in
      if n < 128 then n # decode_replace bs
      else
        (case lead_byte n of
           None \<Rightarrow> replacement # decode_replace bs
         | Some (k, lo, hi) \<Rightarrow>
             (let g = good_bytes k lo hi bs in
              (if g = k then foldl (\<lambda>c x. c * 64 + (unat x - 128)) (n - (if k = 1 then 192 else if k = 2 then 224 else 240)) (take k bs)
               else replacement) # decode_replace (drop g bs))))"
  by pat_completeness auto

termination by (relation "measure length") auto

fun universal_newlines :: "utext \<Rightarrow> utext" where
  "universal_newlines [] = []"
| "universal_newlines (c # s) =
     (if c = 13 then 10 # (case s of [] \<Rightarrow> [] | d # r \<Rightarrow> if d = 10 then universal_newlines r else universal_newlines s)
      else c # universal_newlines s)"

definition read_text :: "bytes \<Rightarrow> utext" where
  "read_text bs = universal_newlines (decode_replace bs)"

text \<open>\<open>read_text_slice\<close>: None is a file that does not exist.\<close>

definition read_text_slice :: "bytes option \<Rightarrow> nat \<Rightarrow> utext \<times> nat" where
  "read_text_slice file offset =
     (case file of
        None \<Rightarrow> ([], offset)
      | Some bs \<Rightarrow>
          (let txt = read_text bs in
           if length txt \<le> offset then ([], length txt) else (drop offset txt, length txt)))"

section \<open>Whole and broken characters\<close>

definition good_range :: "nat \<Rightarrow> nat \<Rightarrow> bytes \<Rightarrow> bool" where
  "good_range lo hi xs \<longleftrightarrow>
     (case xs of [] \<Rightarrow> True | x # ys \<Rightarrow> lo \<le> unat x \<and> unat x \<le> hi \<and> (\<forall>y \<in> set ys. 128 \<le> unat y \<and> unat y \<le> 191))"

lemma good_bytes_min: "good_range lo hi xs \<Longrightarrow> good_bytes k lo hi xs = min k (length xs)"
proof (induction xs arbitrary: k lo hi)
  case (Cons x xs)
  then have "good_range 128 191 xs" by (auto simp: good_range_def split: list.split)
  with Cons show ?case by (cases k) (auto simp: good_range_def)
qed (use gr0_conv_Suc in \<open>case_tac k; simp\<close>)

lemma good_bytes_append: "good_bytes (length xs) lo hi (xs @ r) = good_bytes (length xs) lo hi xs"
  by (induction xs arbitrary: lo hi) auto

text \<open>The bytes of a character that is not ASCII.\<close>

lemma char_bytes:
  assumes "scalar c" and "128 \<le> c"
  obtains b xs k lo hi where "utf8_char c = b # xs" and "128 \<le> unat b" and "lead_byte (unat b) = Some (k, lo, hi)"
    and "length xs = k" and "good_range lo hi xs"
    and "foldl (\<lambda>c x. c * 64 + (unat x - 128)) (unat b - (if k = 1 then 192 else if k = 2 then 224 else 240)) xs = c"
proof -
  have max: "c < 1114112" and sur: "c < 55296 \<or> 57344 \<le> c" using assms by (auto simp: scalar_def)
  have m: "c mod 64 < 64" "c div 64 mod 64 < 64" "c div 4096 mod 64 < 64" by simp_all
  have b: "unat (byte (128 + x mod 64)) = 128 + x mod 64" for x
  proof -
    have "x mod 64 < 64" by simp
    then show ?thesis by (subst unat_byte) simp_all
  qed
  consider "c < 2048" | "2048 \<le> c" "c < 65536" | "65536 \<le> c" by linarith
  then show thesis
  proof cases
    case 1
    have u: "utf8_char c = [byte (192 + c div 64), byte (128 + c mod 64)]" using 1 assms(2) by (simp add: utf8_char_def)
    from 1 assms(2) have r: "2 \<le> c div 64" "c div 64 < 32" by (simp_all add: div_less_iff_less_mult less_mult_imp_div_less)
    show thesis
      by (rule that [OF u, of 1 128 191]) (use r m in \<open>auto simp: lead_byte_def good_range_def digits64\<close>)
  next
    case 2
    have u: "utf8_char c = [byte (224 + c div 4096), byte (128 + c div 64 mod 64), byte (128 + c mod 64)]"
      using 2 by (simp add: utf8_char_def)
    have r: "c div 4096 < 16" using 2 by (simp add: less_mult_imp_div_less)
    have low: "c div 4096 = 0 \<Longrightarrow> 32 \<le> c div 64 mod 64" using 2 m digits64(2) [of c] by linarith
    have high: "c div 4096 = 13 \<Longrightarrow> c div 64 mod 64 < 32" using 2 sur m digits64(2) [of c] by linarith
    define lo hi :: nat where "lo = (if c div 4096 = 0 then 160 else 128)" and "hi = (if c div 4096 = 13 then 159 else 191)"
    show thesis
    proof (rule that [OF u, of 2 lo hi])
      show "lead_byte (unat (byte (224 + c div 4096))) = Some (2, lo, hi)"
        using r by (auto simp: lead_byte_def lo_def hi_def)
      show "good_range lo hi [byte (128 + c div 64 mod 64), byte (128 + c mod 64)]"
        using m low high by (auto simp: good_range_def lo_def hi_def)
    qed (use r m digits64(2,3) [of c] in \<open>simp_all add: mult.commute b\<close>)
  next
    case 3
    have u: "utf8_char c = [byte (240 + c div 262144), byte (128 + c div 4096 mod 64), byte (128 + c div 64 mod 64), byte (128 + c mod 64)]"
      using 3 by (simp add: utf8_char_def)
    have r: "c div 262144 < 5" using max by (simp add: less_mult_imp_div_less)
    have low: "c div 262144 = 0 \<Longrightarrow> 16 \<le> c div 4096 mod 64" using 3 m digits64(3) [of c] by linarith
    have high: "c div 262144 = 4 \<Longrightarrow> c div 4096 mod 64 < 16" using max m digits64(3) [of c] by linarith
    define lo hi :: nat where "lo = (if c div 262144 = 0 then 144 else 128)" and "hi = (if c div 262144 = 4 then 143 else 191)"
    show thesis
    proof (rule that [OF u, of 3 lo hi])
      show "lead_byte (unat (byte (240 + c div 262144))) = Some (3, lo, hi)"
        using r by (auto simp: lead_byte_def lo_def hi_def)
      show "good_range lo hi [byte (128 + c div 4096 mod 64), byte (128 + c div 64 mod 64), byte (128 + c mod 64)]"
        using m low high by (auto simp: good_range_def lo_def hi_def)
    qed (use r m digits64(2,3) [of c] in \<open>simp_all add: mult.commute b\<close>)
  qed
qed

lemma decode_char: "scalar c \<Longrightarrow> decode_replace (utf8_char c @ r) = c # decode_replace r"
proof (cases "c < 128")
  case True
  then show ?thesis by (simp add: utf8_char_def Let_def)
next
  case False
  assume "scalar c"
  with False obtain b xs k lo hi where c: "utf8_char c = b # xs" "128 \<le> unat b" "lead_byte (unat b) = Some (k, lo, hi)"
    "length xs = k" "good_range lo hi xs"
    "foldl (\<lambda>c x. c * 64 + (unat x - 128)) (unat b - (if k = 1 then 192 else if k = 2 then 224 else 240)) xs = c"
    by (auto elim: char_bytes)
  have "good_bytes k lo hi (xs @ r) = k"
    using good_bytes_append [of xs lo hi r] good_bytes_min [OF c(5)] c(4) by simp
  with c show ?thesis by (simp add: Let_def)
qed

lemma decode_encode: "\<forall>c \<in> set s. scalar c \<Longrightarrow> decode_replace (utf8_encode s @ r) = s @ decode_replace r"
  by (induction s) (auto simp: decode_char)

lemma decode_broken_char:
  assumes "scalar c" and "0 < k" and "k < length (utf8_char c)"
  shows "decode_replace (take k (utf8_char c)) = [replacement]"
proof -
  have "\<not> c < 128" using assms(2,3) by (auto simp: utf8_char_def)
  with assms(1) obtain b xs j lo hi where c: "utf8_char c = b # xs" "128 \<le> unat b" "lead_byte (unat b) = Some (j, lo, hi)"
    "length xs = j" "good_range lo hi xs"
    by (auto elim: char_bytes)
  obtain i where k: "k = Suc i" using assms(2) by (cases k) auto
  with assms(3) c have i: "i < j" by simp
  have "good_range lo hi (take i xs)"
    using c(5) by (cases xs; cases i) (auto simp: good_range_def dest: in_set_takeD)
  from good_bytes_min [OF this] i c(4) have "good_bytes j lo hi (take i xs) = i" by simp
  with c(1-3) i show ?thesis by (simp add: k Let_def)
qed

text \<open>Line ends: a text that grows is read as a text that grows.\<close>

lemma newlines_prefix: "\<exists>m. universal_newlines (take n s) = take m (universal_newlines s)"
proof (induction s arbitrary: n rule: universal_newlines.induct)
  case (2 c s)
  show ?case
  proof (cases n)
    case 0
    then show ?thesis by (intro exI [of _ 0]) simp
  next
    case n: (Suc n')
    show ?thesis
    proof (cases "c = 13")
      case False
      with 2(3) obtain m where "universal_newlines (take n' s) = take m (universal_newlines s)" by blast
      with n False show ?thesis by (intro exI [of _ "Suc m"]) simp
    next
      case True
      show ?thesis
      proof (cases "s = [] \<or> n' = 0")
        case True
        with n \<open>c = 13\<close> show ?thesis by (intro exI [of _ 1]) (auto split: list.split)
      next
        case False
        then obtain d r n'' where s: "s = d # r" "n' = Suc n''" by (cases s; cases n') auto
        show ?thesis
        proof (cases "d = 10")
          case True
          with 2(1) [OF \<open>c = 13\<close> s(1) True, of n''] obtain m where
            "universal_newlines (take n'' r) = take m (universal_newlines r)" by blast
          with n s \<open>c = 13\<close> True show ?thesis by (intro exI [of _ "Suc m"]) simp
        next
          case False
          with 2(2) [OF \<open>c = 13\<close> s(1) False, of n'] obtain m where
            "universal_newlines (take n' s) = take m (universal_newlines s)" by blast
          with n s \<open>c = 13\<close> False show ?thesis by (intro exI [of _ "Suc m"]) simp
        qed
      qed
    qed
  qed
qed simp

lemma read_text_prefix:
  assumes "\<forall>c \<in> set s. scalar c"
  shows "\<exists>m. read_text (utf8_encode (take n s)) = take m (universal_newlines s)"
    and "read_text (utf8_encode s) = universal_newlines s"
proof -
  have "\<forall>c \<in> set (take n s). scalar c" using assms by (auto dest: in_set_takeD)
  from decode_encode [OF this, of "[]"] newlines_prefix [of n s]
  show "\<exists>m. read_text (utf8_encode (take n s)) = take m (universal_newlines s)" by (simp add: read_text_def)
  show "read_text (utf8_encode s) = universal_newlines s" using decode_encode [OF assms, of "[]"] by (simp add: read_text_def)
qed

lemma newlines_id: "13 \<notin> set s \<Longrightarrow> universal_newlines s = s"
  by (induction s rule: universal_newlines.induct) auto

section \<open>Properties\<close>

text \<open>A character that is half written when the agent reads is never sent: the agent reads a replacement
  character in its place, and once that one is acknowledged, the finished character yields nothing to
  send.\<close>

theorem half_written_character_is_lost:
  assumes "\<forall>x \<in> set s. scalar x \<and> x \<noteq> 13" and "scalar c" and "0 < k" and "k < length (utf8_char c)"
  shows "read_text_slice (Some (utf8_encode s @ take k (utf8_char c))) (length s) = ([replacement], length s + 1) \<and>
    read_text_slice (Some (utf8_encode (s @ [c]))) (length s + 1) = ([], length s + 1)"
proof -
  have s: "\<forall>x \<in> set s. scalar x" "13 \<notin> set s" using assms(1) by auto
  have "c \<noteq> 13" using assms(3,4) by (auto simp: utf8_char_def)
  then have n: "universal_newlines (s @ [replacement]) = s @ [replacement]" "universal_newlines (s @ [c]) = s @ [c]"
    using s(2) by (simp_all add: newlines_id replacement_def)
  have "decode_replace (utf8_encode s @ take k (utf8_char c)) = s @ [replacement]"
    by (simp add: decode_encode [OF s(1)] decode_broken_char [OF assms(2-4)])
  moreover have "decode_replace (utf8_encode (s @ [c])) = s @ [c]"
    using decode_encode [of "s @ [c]" "[]"] s(1) assms(2) by simp
  ultimately show ?thesis using n by (simp add: read_text_slice_def read_text_def Let_def)
qed

lemma half_written_character_is_lost_witness:
  "read_text_slice (Some [104, 226, 130]) 1 = ([replacement], 2) \<and> read_text_slice (Some [104, 226, 130, 172]) 2 = ([], 2)"
  using half_written_character_is_lost [of "[104]" 8364 2] by (simp add: scalar_def utf8_char_def byte_def numeral_2_eq_2)

end
