(* ===== verification/Agent_Logs.thy ===== *)
theory Agent_Logs
  imports Log_Chunk Agent_Client Agent_Text
begin

text \<open>
  The log pump of the node agent (\<open>runner/log_pump.py\<close>): the output files of a task are read from
  the last acknowledged offset on, cut into chunks and posted; what is acknowledged is kept on disk.
  The network between the pump and the server is a list of fates, one for each request.
\<close>

section \<open>The agent's disk\<close>

text \<open>\<open>log_offsets.json\<close>: for every task and stream the offset that the server acknowledged.\<close>

type_synonym log_offsets = "string \<rightharpoonup> (stream \<rightharpoonup> nat)"

definition task_offsets :: "log_offsets \<Rightarrow> string \<Rightarrow> stream \<rightharpoonup> nat" where
  "task_offsets offs tid = (case offs tid of None \<Rightarrow> Map.empty | Some m \<Rightarrow> m)"

definition set_default :: "stream \<Rightarrow> (stream \<rightharpoonup> nat) \<Rightarrow> stream \<rightharpoonup> nat" where
  "set_default st m = (case m st of None \<Rightarrow> m(st \<mapsto> 0) | Some _ \<Rightarrow> m)"

definition init_log_offsets :: "string \<Rightarrow> log_offsets \<Rightarrow> log_offsets" where
  "init_log_offsets tid offs = offs(tid \<mapsto> set_default Stderr (set_default Stdout (task_offsets offs tid)))"

definition acked_log_offset :: "log_offsets \<Rightarrow> string \<Rightarrow> stream \<Rightarrow> nat" where
  "acked_log_offset offs tid st = (case task_offsets offs tid st of None \<Rightarrow> 0 | Some n \<Rightarrow> n)"

definition store_acked_log_offset :: "string \<Rightarrow> stream \<Rightarrow> nat \<Rightarrow> log_offsets \<Rightarrow> log_offsets" where
  "store_acked_log_offset tid st n offs = offs(tid \<mapsto> (task_offsets offs tid)(st \<mapsto> n))"

definition clear_log_offsets :: "string \<Rightarrow> log_offsets \<Rightarrow> log_offsets" where
  "clear_log_offsets tid offs = offs(tid := None)"

text \<open>\<open>current_task.json\<close>; a task that \<open>execute_task\<close> runs has no output paths there.\<close>

record agent_task =
  cur_task_id :: string
  cur_type :: "string option"
  cur_pid :: int
  cur_started_at :: string
  cur_boot_id :: "string option"
  cur_run_dir :: string
  cur_workdir :: string
  cur_command :: "string list"
  cur_timeout_sec :: int
  cur_kill_grace_sec :: int
  cur_execution :: dict
  cur_modal_context :: dict
  cur_stdout_path :: "string option"
  cur_stderr_path :: "string option"
  cur_stdout_offset :: nat
  cur_stderr_offset :: nat
  cur_cancel_requested :: bool
  cur_timed_out :: bool
  cur_recovery_note :: "string option"

record agent_disk =
  dk_offsets :: log_offsets
  dk_task :: "agent_task option"
  dk_files :: "string \<rightharpoonup> bytes"

section \<open>Sending\<close>

definition LOG_CHUNK_SIZE :: nat where
  "LOG_CHUNK_SIZE = 3500"

text \<open>\<open>send_task_log_chunk\<close> as a function of what lies outside the agent.\<close>

type_synonym 'w log_sender = "log_payload \<Rightarrow> 'w \<Rightarrow> (client_error + dict) \<times> 'w"

text \<open>The loop of \<open>send_log_chunks_with_ack\<close> from \<open>rel\<close> on; \<open>Inl\<close> is an exception.\<close>

function send_chunks ::
  "'w log_sender \<Rightarrow> string \<Rightarrow> stream \<Rightarrow> utext \<Rightarrow> bool \<Rightarrow> nat \<Rightarrow> nat \<Rightarrow> log_offsets \<Rightarrow> 'w \<Rightarrow>
   (client_error + nat) \<times> log_offsets \<times> 'w" where
  "send_chunks post tid st txt final offset rel offs w =
     (if rel < length txt then
        (let chunk = take LOG_CHUNK_SIZE (drop rel txt) in
         case post \<lparr>lp_task_id = tid, lp_stream = st, lp_offset_start = int offset, lp_text = chunk,
                lp_is_final = (final \<and> length txt \<le> rel + length chunk)\<rparr> w of
           (Inl e, w') \<Rightarrow> (Inl e, offs, w')
         | (Inr _, w') \<Rightarrow>
             send_chunks post tid st txt final (offset + length chunk) (rel + length chunk)
               (store_acked_log_offset tid st (offset + length chunk) offs) w')
      else (Inr offset, offs, w))"
  by pat_completeness auto

termination
  by (relation "measure (\<lambda>(post, tid, st, txt, final, offset, rel, offs, w). length txt - rel)") (auto simp: LOG_CHUNK_SIZE_def)

declare send_chunks.simps [simp del]

definition send_log_chunks_with_ack ::
  "'w log_sender \<Rightarrow> string \<Rightarrow> stream \<Rightarrow> utext \<Rightarrow> nat \<Rightarrow> bool \<Rightarrow> log_offsets \<Rightarrow> 'w \<Rightarrow>
   (client_error + nat) \<times> log_offsets \<times> 'w" where
  "send_log_chunks_with_ack post tid st txt start_offset final offs w =
     (if txt = [] then
        (if final then
           (case post \<lparr>lp_task_id = tid, lp_stream = st, lp_offset_start = int start_offset, lp_text = [], lp_is_final = True\<rparr> w of
              (Inl e, w') \<Rightarrow> (Inl e, offs, w')
            | (Inr _, w') \<Rightarrow> (Inr start_offset, store_acked_log_offset tid st start_offset offs, w'))
         else (Inr start_offset, offs, w))
      else send_chunks post tid st txt final start_offset 0 offs w)"

definition stream_path :: "stream \<Rightarrow> agent_task \<Rightarrow> string option" where
  "stream_path st t = (case st of Stdout \<Rightarrow> cur_stdout_path t | Stderr \<Rightarrow> cur_stderr_path t)"

definition set_stream_offset :: "stream \<Rightarrow> nat \<Rightarrow> agent_task \<Rightarrow> agent_task" where
  "set_stream_offset st n t = (case st of Stdout \<Rightarrow> t\<lparr>cur_stdout_offset := n\<rparr> | Stderr \<Rightarrow> t\<lparr>cur_stderr_offset := n\<rparr>)"

text \<open>One round of the loop of \<open>upload_incremental_logs\<close>.\<close>

definition upload_stream ::
  "'w log_sender \<Rightarrow> bool \<Rightarrow> stream \<Rightarrow> agent_task \<Rightarrow> agent_disk \<Rightarrow> 'w \<Rightarrow> (client_error + agent_task) \<times> agent_disk \<times> 'w" where
  "upload_stream post final st t d w =
     (if \<not> truthy (stream_path st t) then (Inr t, d, w)
      else
        (let previous_offset = acked_log_offset (dk_offsets d) (cur_task_id t) st in
         case read_text_slice (dk_files d (the (stream_path st t))) previous_offset of
           (txt, new_offset) \<Rightarrow>
             (case (if txt \<noteq> [] \<or> final
                    then send_log_chunks_with_ack post (cur_task_id t) st txt previous_offset final (dk_offsets d) w
                    else (Inr previous_offset, dk_offsets d, w)) of
                (Inl e, offs, w') \<Rightarrow> (Inl e, d\<lparr>dk_offsets := offs\<rparr>, w')
              | (Inr acked, offs, w') \<Rightarrow>
                  (Inr (set_stream_offset st (if txt \<noteq> [] then acked else new_offset) t), d\<lparr>dk_offsets := offs\<rparr>, w'))))"

definition upload_incremental_logs ::
  "'w log_sender \<Rightarrow> bool \<Rightarrow> agent_task \<Rightarrow> agent_disk \<Rightarrow> 'w \<Rightarrow> (client_error + agent_task) \<times> agent_disk \<times> 'w" where
  "upload_incremental_logs post final t d w =
     (case upload_stream post final Stdout t (d\<lparr>dk_offsets := init_log_offsets (cur_task_id t) (dk_offsets d)\<rparr>) w of
        (Inl e, d, w) \<Rightarrow> (Inl e, d, w)
      | (Inr t, d, w) \<Rightarrow>
          (case upload_stream post final Stderr t d w of
             (Inl e, d, w) \<Rightarrow> (Inl e, d, w)
           | (Inr t, d, w) \<Rightarrow> (Inr t, d\<lparr>dk_task := Some t\<rparr>, w)))"

text \<open>\<open>upload_log_text\<close>: the offsets are cleared however the sending ends.\<close>

definition upload_log_text ::
  "'w log_sender \<Rightarrow> string \<Rightarrow> stream \<Rightarrow> utext \<Rightarrow> log_offsets \<Rightarrow> 'w \<Rightarrow> (client_error + unit) \<times> log_offsets \<times> 'w" where
  "upload_log_text post tid st txt offs w =
     (case send_log_chunks_with_ack post tid st txt 0 True (init_log_offsets tid offs) w of
        (Inl e, offs, w) \<Rightarrow> (Inl e, clear_log_offsets tid offs, w)
      | (Inr _, offs, w) \<Rightarrow> (Inr (), clear_log_offsets tid offs, w))"

section \<open>The way to the server\<close>

text \<open>
  A request that arrives: the server's time, the random bytes it draws, and the request itself with the headers
  that the agent signed for this attempt. What happens to a request: it does not arrive; it arrives and the
  answer is lost; it is turned away with a status before the endpoint sees it (by a proxy or the rate limit);
  it is answered. When no fate is left, nothing arrives any more.
\<close>

record arrival =
  ar_now :: instant
  ar_random :: bytes
  ar_request :: node_request

datatype fate = Missing | Cut arrival | Turned_Away int | Through arrival

definition error_status :: "api_error \<Rightarrow> int" where
  "error_status e = (case e of Api_Error _ c \<Rightarrow> c | _ \<Rightarrow> 500)"

text \<open>One attempt to reach an endpoint of the server; None is an endpoint that does not return.\<close>

definition attempt_on ::
  "(arrival \<Rightarrow> 's \<Rightarrow> ((api_error + 'a) \<times> 's) option) \<Rightarrow> nat \<Rightarrow> 's \<times> fate list \<Rightarrow> reply \<times> 's \<times> fate list" where
  "attempt_on recv n st =
     (case st of
        (srv, []) \<Rightarrow> (No_Connection, srv, [])
      | (srv, Missing # fs) \<Rightarrow> (No_Connection, srv, fs)
      | (srv, Turned_Away c # fs) \<Rightarrow> (Answer c None, srv, fs)
      | (srv, Cut a # fs) \<Rightarrow> (Timed_Out, (case recv a srv of None \<Rightarrow> srv | Some (_, srv') \<Rightarrow> srv'), fs)
      | (srv, Through a # fs) \<Rightarrow>
          (case recv a srv of
             None \<Rightarrow> (Timed_Out, srv, fs)
           | Some (Inr _, srv') \<Rightarrow> (Answer 200 (Some []), srv', fs)
           | Some (Inl e, srv') \<Rightarrow> (Answer (error_status e) None, srv', fs)))"

text \<open>The outside of the agent; \<open>lk_clock k n\<close> is the monotonic clock at the \<open>k\<close>th post, before attempt \<open>n\<close>.\<close>

record link =
  lk_breaker :: breaker
  lk_posts :: nat
  lk_server :: world
  lk_fates :: "fate list"

definition post_through ::
  "agent_settings \<Rightarrow> (nat \<Rightarrow> nat \<Rightarrow> instant) \<Rightarrow> (arrival \<Rightarrow> world \<Rightarrow> ((api_error + 'a) \<times> world) option) \<Rightarrow> link \<Rightarrow>
   (client_error + dict) \<times> link" where
  "post_through ag clock recv lk =
     (case post_signed_json ag (clock (lk_posts lk) 0) (\<lambda>n. clock (lk_posts lk) (Suc n)) (attempt_on recv)
             (lk_breaker lk) (lk_server lk, lk_fates lk) of
        (r, b, srv, fs) \<Rightarrow> (r, \<lparr>lk_breaker = b, lk_posts = lk_posts lk + 1, lk_server = srv, lk_fates = fs\<rparr>))"

definition send_task_log_chunk ::
  "agent_settings \<Rightarrow> (nat \<Rightarrow> nat \<Rightarrow> instant) \<Rightarrow> crypto \<Rightarrow> (bytes \<Rightarrow> nat) \<Rightarrow> settings \<Rightarrow> link log_sender" where
  "send_task_log_chunk ag clock cr gz s p =
     post_through ag clock (\<lambda>a. task_log_chunk cr gz s (\<lambda>_. Some p) (ar_now a) (ar_random a) (ar_request a))"

text \<open>What every call of the endpoint keeps, and what every good one brings about, holds after a post.\<close>

lemma post_attempts_pres:
  assumes step: "\<And>n x r x'. P x \<Longrightarrow> send n x = (r, x') \<Longrightarrow> P x' \<and> (\<forall>d. attempt_result r = Inr d \<longrightarrow> Q x')"
  shows "P x \<Longrightarrow> post_attempts ag clock send n left b x = (r, b', x') \<Longrightarrow> P x' \<and> (\<forall>d. r = Inr d \<longrightarrow> Q x')"
proof (induction left arbitrary: n b x)
  case (Suc left)
  obtain q y where y: "send n x = (q, y)" by fastforce
  note st = step [OF Suc.prems(1) y]
  show ?case
  proof (cases "attempt_result q")
    case (Inr d)
    with Suc.prems st show ?thesis by (auto simp: y)
  next
    case (Inl e)
    then show ?thesis using Suc.prems(2) Suc.IH st by (auto simp: y Let_def split: if_splits)
  qed
qed auto

lemma attempt_on_pres:
  assumes recv: "\<And>arr w r w'. P w \<Longrightarrow> recv arr w = Some (r, w') \<Longrightarrow> P w' \<and> (\<forall>x. r = Inr x \<longrightarrow> Q w')"
    and P: "P srv" and a: "attempt_on recv n (srv, fs) = (q, srv', fs')"
  shows "P srv' \<and> (\<forall>d. attempt_result q = Inr d \<longrightarrow> Q srv')"
proof (cases fs)
  case Nil
  with a P show ?thesis by (auto simp: attempt_on_def attempt_result_def)
next
  case (Cons fate rest)
  show ?thesis
  proof (cases fate)
    case (Cut arr)
    with a P Cons recv [OF P, of arr] show ?thesis
      by (cases "recv arr srv") (auto simp: attempt_on_def attempt_result_def split: prod.splits)
  next
    case (Through arr)
    with a P Cons recv [OF P, of arr] show ?thesis
      by (cases "recv arr srv") (auto simp: attempt_on_def attempt_result_def split: prod.splits sum.splits if_splits)
  qed (use a P Cons in \<open>auto simp: attempt_on_def attempt_result_def split: if_splits\<close>)
qed

lemma post_signed_pres:
  assumes recv: "\<And>arr w r w'. P w \<Longrightarrow> recv arr w = Some (r, w') \<Longrightarrow> P w' \<and> (\<forall>x. r = Inr x \<longrightarrow> Q w')"
    and P: "P srv" and a: "post_signed_json ag t clock (attempt_on recv) b (srv, fs) = (r, b', srv', fs')"
  shows "P srv' \<and> (\<forall>d. r = Inr d \<longrightarrow> Q srv')"
proof -
  have step: "P (fst x) \<Longrightarrow> attempt_on recv n x = (q, x') \<Longrightarrow> P (fst x') \<and> (\<forall>d. attempt_result q = Inr d \<longrightarrow> Q (fst x'))" for n x q x'
    using attempt_on_pres [where P = P and Q = Q and srv = "fst x" and fs = "snd x" and srv' = "fst x'" and fs' = "snd x'", OF recv] by simp
  show ?thesis
  proof (cases "allow_request t b")
    case None
    with a P show ?thesis by (auto simp: post_signed_json_def)
  next
    case (Some b1)
    with a have "post_attempts ag clock (attempt_on recv) 0 MAX_RETRIES b1 (srv, fs) = (r, b', srv', fs')" by (simp add: post_signed_json_def)
    with post_attempts_pres [where P = "\<lambda>x. P (fst x)" and Q = "\<lambda>x. Q (fst x)" and send = "attempt_on recv"] step P
    show ?thesis by (metis fst_conv)
  qed
qed

lemma post_through_pres:
  assumes recv: "\<And>arr w r w'. P w \<Longrightarrow> recv arr w = Some (r, w') \<Longrightarrow> P w' \<and> (\<forall>x. r = Inr x \<longrightarrow> Q w')"
    and P: "P (lk_server lk)" and a: "post_through ag clock recv lk = (r, lk')"
  shows "P (lk_server lk') \<and> (\<forall>d. r = Inr d \<longrightarrow> Q (lk_server lk'))"
proof -
  obtain b srv fs where post: "post_signed_json ag (clock (lk_posts lk) 0) (\<lambda>n. clock (lk_posts lk) (Suc n)) (attempt_on recv)
      (lk_breaker lk) (lk_server lk, lk_fates lk) = (r, b, srv, fs)" and lk': "lk_server lk' = srv"
    using a by (auto simp: post_through_def split: prod.splits)
  from post_signed_pres [where P = P and Q = Q, OF recv P post] show ?thesis by (simp add: lk')
qed

section \<open>The streams of a task do not touch each other\<close>

lemma rotate_elsewhere: "rotate_log_stream dir st fs = Some fs' \<Longrightarrow> same_elsewhere dir st fs fs'"
proof -
  have "next_archive dir st fs i = Some k \<Longrightarrow> i \<le> k \<and> k < 100000" for i k
  proof (induction dir st fs i rule: next_archive.induct)
    case (1 dir st fs i)
    then show ?case by (subst (asm) (2) next_archive.simps) (auto split: if_splits dest: Suc_leD)
  qed
  then show "rotate_log_stream dir st fs = Some fs' \<Longrightarrow> same_elsewhere dir st fs fs'"
    by (fastforce simp: rotate_log_stream_def next_log_archive_path_def same_elsewhere_def stream_files_def Let_def
        split: if_splits option.splits)
qed

lemma write_elsewhere [simp]: "same_elsewhere dir st fs (file_put (dir @ [log_name st]) c fs)"
  by (simp add: same_elsewhere_def stream_files_def)

lemma append_elsewhere:
  assumes "append_loop dir st m str fs = Some r"
  shows "same_elsewhere dir st fs (case r of Inl f \<Rightarrow> f | Inr f \<Rightarrow> f)"
proof (rule append_loop.raw_induct [where P = "\<lambda>dir st m str fs r. same_elsewhere dir st fs (case r of Inl f \<Rightarrow> f | Inr f \<Rightarrow> f)",
      OF _ assms])
  fix loop dir st m str fs r
  assume IH: "\<And>dir st m str fs r. loop dir st m str fs = Some r \<Longrightarrow> same_elsewhere dir st fs (case r of Inl f \<Rightarrow> f | Inr f \<Rightarrow> f)"
    and body: "(if str = [] then Some (Inr fs)
      else
        (let log_path = dir @ [log_name st];
             remaining_bytes = m - int (length (read_file log_path fs))
         in case (if remaining_bytes \<le> 0 then rotate_log_stream dir st fs else Some fs) of
              None \<Rightarrow> Some (Inl fs)
            | Some fs1 \<Rightarrow>
                (case take_text_prefix_by_bytes str (if remaining_bytes \<le> 0 then m else remaining_bytes) of
                   (chunk, rest) \<Rightarrow>
                     if chunk = [] then
                       (case rotate_log_stream dir st fs1 of
                          None \<Rightarrow> Some (Inl fs1)
                        | Some fs2 \<Rightarrow> loop dir st m rest fs2)
                     else
                       (let fs2 = file_put log_path (Plain (read_file log_path fs1 @ utf8_encode chunk)) fs1 in
                        case (if m \<le> int (length (read_file log_path fs2))
                              then rotate_log_stream dir st fs2 else Some fs2) of
                          None \<Rightarrow> Some (Inl fs2)
                        | Some fs3 \<Rightarrow> loop dir st m rest fs3)))) = Some r"
  note tr = same_elsewhere_trans
  show "same_elsewhere dir st fs (case r of Inl f \<Rightarrow> f | Inr f \<Rightarrow> f)"
  proof (cases "str = []")
    case True
    with body show ?thesis by auto
  next
    case False
    let ?rem = "m - int (length (read_file (dir @ [log_name st]) fs))"
    show ?thesis
    proof (cases "if ?rem \<le> 0 then rotate_log_stream dir st fs else Some fs")
      case None
      with body False show ?thesis by (auto simp: Let_def)
    next
      case (Some fs1)
      then have e1: "same_elsewhere dir st fs fs1" by (auto split: if_splits dest: rotate_elsewhere)
      obtain chunk rest where cut: "take_text_prefix_by_bytes str (if ?rem \<le> 0 then m else ?rem) = (chunk, rest)" by fastforce
      let ?fs2 = "file_put (dir @ [log_name st]) (Plain (read_file (dir @ [log_name st]) fs1 @ utf8_encode chunk)) fs1"
      have e2: "same_elsewhere dir st fs ?fs2" using tr [OF e1] by simp
      have "\<exists>f. same_elsewhere dir st fs f \<and> (r = Inl f \<or> loop dir st m rest f = Some r)"
      proof (cases "chunk = []")
        case True
        with body False have l: "(case rotate_log_stream dir st fs1 of None \<Rightarrow> Some (Inl fs1) | Some fs2 \<Rightarrow> loop dir st m rest fs2) = Some r"
          by (simp only: Let_def Some cut if_False if_True option.case prod.case simp_thms)
        show ?thesis
        proof (cases "rotate_log_stream dir st fs1")
          case None
          with l e1 show ?thesis by auto
        next
          case (Some fs2)
          with l tr [OF e1 rotate_elsewhere [OF Some]] show ?thesis by auto
        qed
      next
        case c: False
        let ?x = "if m \<le> int (length (read_file (dir @ [log_name st]) ?fs2)) then rotate_log_stream dir st ?fs2 else Some ?fs2"
        have x: "?x = Some fs3 \<Longrightarrow> same_elsewhere dir st fs fs3" for fs3
          using e2 tr [OF e2] rotate_elsewhere [of dir st ?fs2] by (auto split: if_splits)
        have "(case ?x of None \<Rightarrow> Some (Inl ?fs2) | Some fs3 \<Rightarrow> loop dir st m rest fs3) = Some r"
          using body False c by (simp only: Let_def Some cut if_False option.case prod.case)
        then show ?thesis using x e2 by (cases ?x) auto
      qed
      then obtain f where f: "same_elsewhere dir st fs f" "r = Inl f \<or> loop dir st m rest f = Some r" by blast
      then show ?thesis using IH [of dir st m rest f r] tr [OF f(1)] by auto
    qed
  qed
qed

text \<open>Another stream sees nothing of a change to the files and rows of this one.\<close>

lemma holds_elsewhere:
  assumes "same_elsewhere dir st fs fs'" and "st' \<noteq> st" and "holds_stream dir st' archives cur fs"
  shows "holds_stream dir st' archives cur fs'"
proof -
  have "file_get p fs' = file_get p fs" if "p \<in> stream_files dir st'" for p
    using assms(1) stream_files_disjoint [OF assms(2)] that unfolding same_elsewhere_def by blast
  then show ?thesis using assms(3) by (simp add: holds_stream_def stream_files_def read_file_def)
qed

lemma log_inv_elsewhere:
  assumes inv: "log_inv s tid st' w" and "st' \<noteq> st" and ok: "logs_ok w'"
    and f: "same_elsewhere (log_dir (storage_base s) tid) st (files w) (files w')"
    and r: "find_log tid st' (d_logs (db w')) = find_log tid st' (d_logs (db w))"
  shows "log_inv s tid st' w' \<and> stored_bytes s tid st' w' = stored_bytes s tid st' w \<and> stored_offset tid st' w' = stored_offset tid st' w"
proof -
  from inv obtain archives cur where h: "holds_stream (log_dir (storage_base s) tid) st' archives cur (files w)"
    and big: "\<forall>a \<in> set archives. nat (task_log_stream_max_bytes s) - 3 \<le> length a"
    unfolding log_inv_def by blast
  note h' = holds_elsewhere [OF f assms(2) h]
  have "log_inv s tid st' w'" using inv ok r h' big unfolding log_inv_def by auto
  then show ?thesis
    using stream_content_holds [OF h] stream_content_holds [OF h'] r by (simp add: stored_bytes_def stored_offset_def)
qed

lemma find_log_insert_other:
  "st' \<noteq> st \<Longrightarrow> find_log tid st' (d_logs (db (insert_log tid st off pv lp tr nt now w))) = find_log tid st' (d_logs (db w))"
  by (simp add: find_log_def insert_log_def find_append split: option.split)

lemma find_log_update_other:
  assumes "distinct (map l_id rows)" and "find_log tid st rows = Some row" and "st' \<noteq> st"
    and "\<And>r. l_task_id (f r) = l_task_id r" and "\<And>r. l_stream (f r) = l_stream r"
  shows "find_log tid st' (update_where (\<lambda>r. l_id r = l_id row) f rows) = find_log tid st' rows"
  using assms(1,2)
proof (induction rows)
  case (Cons a rows)
  show ?case
  proof (cases "l_task_id a = tid \<and> l_stream a = st")
    case True
    with Cons.prems have a: "a = row" by (simp add: find_log_def)
    from Cons.prems(1) have "l_id a \<notin> l_id ` set rows" by simp
    then have "\<forall>r \<in> set rows. l_id r \<noteq> l_id row" by (metis a image_eqI)
    then have "update_where (\<lambda>r. l_id r = l_id row) f rows = rows" by (simp add: update_where_def map_idI)
    moreover have "l_stream a \<noteq> st'" "l_stream (f a) \<noteq> st'" using True assms(3,5) by auto
    ultimately show ?thesis by (simp add: find_log_def update_where_def)
  next
    case False
    with Cons.prems have r: "find_log tid st rows = Some row" by (auto simp: find_log_def)
    with Cons.prems have "l_id a \<noteq> l_id row" by (auto simp: find_log_def dest!: find_Some_in)
    with Cons.IH r Cons.prems show ?thesis by (auto simp: find_log_def update_where_def)
  qed
qed (simp add: find_log_def)

lemma mark_truncated_other:
  fixes now :: iso and reason tid :: string and st :: stream
  assumes ok: "logs_ok w"
  defines "w' \<equiv> mark_log_truncated tid st (find_log tid st (d_logs (db w))) now reason w"
  shows "logs_ok w' \<and> files w' = files w \<and> (\<forall>st'. st' \<noteq> st \<longrightarrow> find_log tid st' (d_logs (db w')) = find_log tid st' (d_logs (db w)))"
proof (cases "find_log tid st (d_logs (db w))")
  case None
  then show ?thesis using ok by (simp add: w'_def mark_log_truncated_def logs_ok_insert find_log_insert_other)
next
  case (Some row)
  have "distinct (map l_id (d_logs (db w)))" using ok by (simp add: logs_ok_def)
  from find_log_update_other [OF this Some] Some ok show ?thesis
    by (simp add: w'_def mark_log_truncated_def logs_ok_update)
qed

lemma store_row_other:
  fixes now :: instant and a :: utext and s :: settings
  assumes ok: "logs_ok w" and ex: "ex = find_log (lp_task_id p) (lp_stream p) (d_logs (db w))"
  defines "w' \<equiv> store_log_row s now p ex a w"
  shows "logs_ok w' \<and> files w' = files w \<and>
    (\<forall>st'. st' \<noteq> lp_stream p \<longrightarrow> find_log (lp_task_id p) st' (d_logs (db w')) = find_log (lp_task_id p) st' (d_logs (db w)))"
proof (cases ex)
  case None
  then show ?thesis using ok by (simp add: w'_def store_log_row_def Let_def logs_ok_insert find_log_insert_other)
next
  case (Some row)
  have "distinct (map l_id (d_logs (db w)))" using ok by (simp add: logs_ok_def)
  from find_log_update_other [OF this ex [symmetric, unfolded Some]] Some ok show ?thesis
    by (simp add: w'_def store_log_row_def Let_def logs_ok_update)
qed

lemma emit_event_logs [simp]:
  "d_logs (db (emit_event now ev d sev w)) = d_logs (db w)" "files (emit_event now ev d sev w) = files w"
  "logs_ok (emit_event now ev d sev w) = logs_ok w"
  by (simp_all add: logs_ok_def)

text \<open>What a chunk of the stream \<open>st\<close> leaves alone.\<close>

definition others_same :: "settings \<Rightarrow> string \<Rightarrow> stream \<Rightarrow> world \<Rightarrow> world \<Rightarrow> bool" where
  "others_same s tid st w w' \<longleftrightarrow> logs_ok w' \<and> same_elsewhere (log_dir (storage_base s) tid) st (files w) (files w') \<and>
     (\<forall>st'. st' \<noteq> st \<longrightarrow> find_log tid st' (d_logs (db w')) = find_log tid st' (d_logs (db w)))"

lemma log_chunk_tx_other:
  assumes ok: "logs_ok w" and tx: "log_chunk_tx gz s now node p w = Some (y, w')"
  shows "others_same s (lp_task_id p) (lp_stream p) w w'"
proof -
  define ex where "ex = find_log (lp_task_id p) (lp_stream p) (d_logs (db w))"
  have id: "others_same s (lp_task_id p) (lp_stream p) w w" using ok by (simp add: others_same_def)
  obtain l w0 where l: "load_task_for_node node (lp_task_id p) w = (l, w0)" by fastforce
  show ?thesis
  proof (cases l)
    case (Inl e)
    then have "w' = w" using tx load_task_Inl [of node "lp_task_id p" w e w0] l by (simp add: log_chunk_tx_def)
    with id show ?thesis by simp
  next
    case (Inr row)
    note tx' = tx [unfolded log_chunk_tx_def l Inr prod.case sum.case Let_def ex_def [symmetric]]
    show ?thesis
    proof (cases "chunk_to_append ex p")
      case (Inl e)
      with tx' id show ?thesis by simp
    next
      case a: (Inr a)
      let ?trunc = "case ex of None \<Rightarrow> False | Some row \<Rightarrow> l_is_truncated row"
      let ?over = "length (utf8_encode a) \<noteq> 0 \<and>
        storage_quota_bytes s < int (storage_usage_bytes gz (storage_base s) (files w) + length (utf8_encode a))"
      show ?thesis
      proof (cases "?trunc \<or> ?over")
        case True
        have m: "others_same s (lp_task_id p) (lp_stream p) w (mark_log_truncated (lp_task_id p) (lp_stream p) ex now' r w)" for now' r
          using mark_truncated_other [OF ok, where tid = "lp_task_id p" and st = "lp_stream p", folded ex_def]
          by (simp add: others_same_def)
        show ?thesis
        proof (cases ?trunc)
          case True
          then have "w' = w" using tx' by (simp add: a)
          with id show ?thesis by simp
        next
          case False
          with True have over: ?over by blast
          from tx' have "\<exists>ev d sev. w' = emit_event now ev d sev
              (mark_log_truncated (lp_task_id p) (lp_stream p) ex (utc_now_iso now) ''storage_quota_exceeded'' w)"
            by (simp only: a sum.case False over if_True if_False option.inject prod.inject simp_thms) blast
          with m [of "utc_now_iso now" "''storage_quota_exceeded''"] show ?thesis by (auto simp: others_same_def)
        qed
      next
        case False
        then obtain f where f: "append_log_chunk (storage_base s) (lp_task_id p) (lp_stream p) a (task_log_stream_max_bytes s) (files w) = Some f"
          using tx' a by (cases "append_log_chunk (storage_base s) (lp_task_id p) (lp_stream p) a (task_log_stream_max_bytes s) (files w)")
            (auto split: if_splits)
        have e: "same_elsewhere (log_dir (storage_base s) (lp_task_id p)) (lp_stream p) (files w) (case f of Inl f \<Rightarrow> f | Inr f \<Rightarrow> f)"
          using append_elsewhere f by (simp add: append_log_chunk_def)
        show ?thesis
        proof (cases f)
          case (Inl fs)
          with tx' a False f e ok show ?thesis by (auto simp: others_same_def logs_ok_def split: if_splits)
        next
          case (Inr fs)
          let ?w = "w\<lparr>files := fs\<rparr>"
          have "logs_ok ?w" using ok by (simp add: logs_ok_def)
          from store_row_other [OF this refl, where s = s and now = now and a = a and p = p]
          have row: "others_same s (lp_task_id p) (lp_stream p) ?w (store_log_row s now p ex a ?w)" by (simp add: others_same_def ex_def)
          have "w' = store_log_row s now p ex a ?w" using tx' a False f Inr by (auto split: if_splits)
          with row e Inr show ?thesis by (auto simp: others_same_def intro: same_elsewhere_trans)
        qed
      qed
    qed
  qed
qed

lemma receive_other:
  assumes ok: "logs_ok w" and r: "receive_log_chunk gz s now node p w = Some (x, w')"
  shows "others_same s (lp_task_id p) (lp_stream p) w w'"
proof -
  from r obtain y w1 where tx: "log_chunk_tx gz s now node p w = Some (y, w1)"
    and a: "(x, w') = log_chunk_answer p (connect (\<lambda>_. (y, w1)) w)" by (auto simp: receive_log_chunk_def)
  from a have "w' = w1 \<or> w' = w1\<lparr>db := db w\<rparr>"
    by (auto simp: log_chunk_answer_def connect_def split: sum.splits prod.splits if_splits)
  with log_chunk_tx_other [OF ok tx] ok show ?thesis by (auto simp: others_same_def logs_ok_def)
qed

section \<open>The agent's view stays behind the server\<close>

text \<open>The server holds a prefix of each of the two outputs \<open>F\<close> of the task.\<close>

definition both_follow :: "settings \<Rightarrow> string \<Rightarrow> (stream \<Rightarrow> utext) \<Rightarrow> world \<Rightarrow> bool" where
  "both_follow s tid F w \<longleftrightarrow> (\<forall>st. server_log.follows s tid st (F st) w)"

definition fits :: "settings \<Rightarrow> (stream \<Rightarrow> utext) \<Rightarrow> bool" where
  "fits s F \<longleftrightarrow> (\<forall>st. length (utf8_encode (F st)) \<le> log_cap s)"

definition slice :: "string \<Rightarrow> (stream \<Rightarrow> utext) \<Rightarrow> log_payload \<Rightarrow> bool" where
  "slice tid F p \<longleftrightarrow> lp_task_id p = tid \<and> 0 \<le> lp_offset_start p \<and>
     (\<exists>n. lp_text p = take n (drop (nat (lp_offset_start p)) (F (lp_stream p))))"

lemma receive_follows:
  assumes fits: "fits s F" and sl: "slice tid F p" and f: "both_follow s tid F w"
    and r: "receive_log_chunk gz s now node p w = Some (x, w')"
  shows "both_follow s tid F w' \<and> (\<forall>st. stored_offset tid st w \<le> stored_offset tid st w') \<and>
    (\<forall>y. x = Inr y \<longrightarrow> nat (lp_offset_start p) + length (lp_text p) \<le> stored_offset tid (lp_stream p) w')"
proof -
  define st off where "st = lp_stream p" and "off = nat (lp_offset_start p)"
  from sl have tid: "lp_task_id p = tid" and nn: "0 \<le> lp_offset_start p"
    and "\<exists>n. lp_text p = take n (drop off (F st))" by (simp_all add: slice_def off_def st_def)
  then obtain n where n: "lp_text p = take n (drop off (F st))" by blast
  have o: "lp_offset_start p = int off" using nn by (simp add: off_def)
  have inv: "log_inv s tid st' w" for st' using f by (simp add: both_follow_def server_log.follows_def)
  have "p = \<lparr>lp_task_id = tid, lp_stream = st, lp_offset_start = int off, lp_text = lp_text p, lp_is_final = lp_is_final p\<rparr>"
    by (rule log_payload.equality) (simp_all add: tid st_def o [symmetric])
  then have "server_put gz s node tid st (now, lp_is_final p) off (lp_text p) w = (w', case x of Inr _ \<Rightarrow> True | Inl _ \<Rightarrow> False)"
    using r by (simp add: server_put_def split: sum.split)
  from server_log.send_follows [OF _ n _ this] f fits
  have own: "server_log.follows s tid st (F st) w'" "stored_offset tid st w \<le> stored_offset tid st w'"
    "x = Inr y \<Longrightarrow> off + length (lp_text p) \<le> stored_offset tid st w'" for y
    by (auto simp: both_follow_def fits_def)
  have ok: "logs_ok w" using inv by (simp add: log_inv_def)
  have other: "server_log.follows s tid st' (F st') w' \<and> stored_offset tid st' w' = stored_offset tid st' w" if "st' \<noteq> st" for st'
  proof -
    have "log_inv s tid st' w' \<and> stored_bytes s tid st' w' = stored_bytes s tid st' w \<and> stored_offset tid st' w' = stored_offset tid st' w"
      using receive_other [OF ok r] that by (intro log_inv_elsewhere [OF inv that]) (simp_all add: others_same_def tid st_def)
    then show ?thesis using f by (simp add: both_follow_def server_log.follows_def)
  qed
  have all: "server_log.follows s tid st' (F st') w' \<and> stored_offset tid st' w \<le> stored_offset tid st' w'" for st'
    using own(1,2) other [of st'] by (cases "st' = st") auto
  from own(3) have "\<forall>y. x = Inr y \<longrightarrow> off + length (lp_text p) \<le> stored_offset tid st w'" by blast
  with all show ?thesis by (simp add: both_follow_def st_def [symmetric] off_def [symmetric])
qed

text \<open>The authentication of a request touches neither the logs nor the files.\<close>

lemma marks_follow:
  assumes "same_but_marks w w'"
  shows "both_follow s tid F w' \<longleftrightarrow> both_follow s tid F w" and "stored_offset tid st w' = stored_offset tid st w"
proof -
  have e: "d_logs (db w') = d_logs (db w)" "files w' = files w" "d_seq (db w') T_Logs = d_seq (db w) T_Logs"
    using assms by (simp_all add: same_but_marks_def)
  have "log_inv s tid st w' \<longleftrightarrow> log_inv s tid st w" for st by (simp add: log_inv_def logs_ok_def e)
  then show "both_follow s tid F w' \<longleftrightarrow> both_follow s tid F w" "stored_offset tid st w' = stored_offset tid st w"
    by (simp_all add: both_follow_def server_log.follows_def stored_bytes_def stored_offset_def e)
qed

lemma task_log_chunk_cases:
  assumes "task_log_chunk cr gz s (\<lambda>_. Some p) now rnd req w = Some (r, w')"
  obtains w1 where "same_but_marks w w1" and
    "(\<exists>e. r = Inl e) \<and> w' = w1 \<or> (\<exists>node. receive_log_chunk gz s now node p w1 = Some (r, w'))"
proof -
  obtain a w1 where a: "authenticate_node cr s now rnd req w = (a, w1)" by fastforce
  with assms have "(\<exists>e. r = Inl e) \<and> w' = w1 \<or> (\<exists>node. receive_log_chunk gz s now node p w1 = Some (r, w'))"
    by (auto simp: task_log_chunk_def split: sum.splits prod.splits)
  with that authenticate_marksD [OF a] show ?thesis by blast
qed

lemma send_task_log_chunk_follows:
  assumes fits: "fits s F" and sl: "slice tid F p" and f: "both_follow s tid F (lk_server lk)"
    and a: "send_task_log_chunk ag clock cr gz s p lk = (r, lk')"
  shows "both_follow s tid F (lk_server lk') \<and> (\<forall>st. stored_offset tid st (lk_server lk) \<le> stored_offset tid st (lk_server lk')) \<and>
    (\<forall>d. r = Inr d \<longrightarrow> nat (lp_offset_start p) + length (lp_text p) \<le> stored_offset tid (lp_stream p) (lk_server lk'))"
proof -
  define P where "P w \<longleftrightarrow> both_follow s tid F w \<and> (\<forall>st. stored_offset tid st (lk_server lk) \<le> stored_offset tid st w)" for w
  have recv: "P w' \<and> (\<forall>x. q = Inr x \<longrightarrow> nat (lp_offset_start p) + length (lp_text p) \<le> stored_offset tid (lp_stream p) w')"
    if w: "P w" and q: "task_log_chunk cr gz s (\<lambda>_. Some p) (ar_now ar) (ar_random ar) (ar_request ar) w = Some (q, w')" for ar w q w'
    using q
  proof (rule task_log_chunk_cases)
    fix w1 assume m: "same_but_marks w w1"
      and c: "(\<exists>e. q = Inl e) \<and> w' = w1 \<or> (\<exists>node. receive_log_chunk gz s (ar_now ar) node p w1 = Some (q, w'))"
    have "P w1" using w by (simp add: P_def marks_follow [OF m])
    with c receive_follows [OF fits sl] show ?thesis unfolding P_def by (blast intro: le_trans)
  qed
  have "P (lk_server lk)" using f by (simp add: P_def)
  from post_through_pres [where P = P, OF recv this a [unfolded send_task_log_chunk_def]] show ?thesis by (simp add: P_def)
qed

text \<open>What the agent has noted as acknowledged, the server has.\<close>

definition backed :: "settings \<Rightarrow> string \<Rightarrow> (stream \<Rightarrow> utext) \<Rightarrow> log_offsets \<Rightarrow> link \<Rightarrow> bool" where
  "backed s tid F offs lk \<longleftrightarrow> both_follow s tid F (lk_server lk) \<and>
     (\<forall>st. acked_log_offset offs tid st \<le> stored_offset tid st (lk_server lk))"

definition grows :: "string \<Rightarrow> link \<Rightarrow> link \<Rightarrow> bool" where
  "grows tid lk lk' \<longleftrightarrow> (\<forall>st. stored_offset tid st (lk_server lk) \<le> stored_offset tid st (lk_server lk'))"

lemma grows_refl [simp]: "grows tid lk lk"
  by (simp add: grows_def)

lemma grows_trans: "grows tid a b \<Longrightarrow> grows tid b c \<Longrightarrow> grows tid a c"
  by (metis grows_def le_trans)

lemma acked_store [simp]:
  "acked_log_offset (store_acked_log_offset tid st n offs) tid st' = (if st' = st then n else acked_log_offset offs tid st')"
  by (simp add: acked_log_offset_def store_acked_log_offset_def task_offsets_def)

lemma acked_init [simp]: "acked_log_offset (init_log_offsets tid offs) tid st = acked_log_offset offs tid st"
  by (cases st) (auto simp: acked_log_offset_def init_log_offsets_def task_offsets_def set_default_def split: option.splits)

lemma send_backed:
  assumes "fits s F" and "slice tid F p" and "backed s tid F offs lk" and "send_task_log_chunk ag clock cr gz s p lk = (r, lk')"
  shows "backed s tid F offs lk'" and "grows tid lk lk'"
    and "r = Inr d \<Longrightarrow> nat (lp_offset_start p) + length (lp_text p) \<le> stored_offset tid (lp_stream p) (lk_server lk')"
  using send_task_log_chunk_follows [OF assms(1,2) _ assms(4)] assms(3) le_trans unfolding backed_def grows_def by blast+

lemma send_chunks_backed:
  assumes "fits s F"
  shows "backed s tid F offs lk \<Longrightarrow> drop rel tx = take n (drop offset (F st)) \<Longrightarrow>
    send_chunks (send_task_log_chunk ag clock cr gz s) tid st tx final offset rel offs lk = (r, offs', lk') \<Longrightarrow>
    backed s tid F offs' lk' \<and> grows tid lk lk' \<and>
    (\<forall>m. r = Inr m \<longrightarrow> rel < length tx \<longrightarrow> offset + (length tx - rel) \<le> stored_offset tid st (lk_server lk'))"
proof (induction "send_task_log_chunk ag clock cr gz s" tid st tx final offset rel offs lk arbitrary: n rule: send_chunks.induct)
  case (1 tid st tx final offset rel offs lk)
  show ?case
  proof (cases "rel < length tx")
    case False
    with 1(2-) show ?thesis by (subst (asm) send_chunks.simps) auto
  next
    case True
    define chunk where "chunk = take LOG_CHUNK_SIZE (drop rel tx)"
    define p where "p = \<lparr>lp_task_id = tid, lp_stream = st, lp_offset_start = int offset, lp_text = chunk,
        lp_is_final = (final \<and> length tx \<le> rel + length chunk)\<rparr>"
    obtain q lk1 where q: "send_task_log_chunk ag clock cr gz s p lk = (q, lk1)" by fastforce
    have sl: "slice tid F p" by (auto simp: slice_def p_def chunk_def 1(3))
    note sb = send_backed [OF assms sl 1(2) q]
    have len: "0 < length chunk" "rel + length chunk \<le> length tx" using True by (auto simp: chunk_def LOG_CHUNK_SIZE_def)
    show ?thesis
    proof (cases q)
      case (Inl e)
      with 1(4) True q sb(1,2) show ?thesis by (subst (asm) send_chunks.simps) (auto simp: Let_def chunk_def p_def)
    next
      case (Inr d)
      let ?offs = "store_acked_log_offset tid st (offset + length chunk) offs"
      have sent: "offset + length chunk \<le> stored_offset tid st (lk_server lk1)" using sb(3) [OF Inr] by (simp add: p_def)
      then have b: "backed s tid F ?offs lk1" using sb(1) by (simp add: backed_def)
      have rest: "drop (rel + length chunk) tx = take (n - length chunk) (drop (offset + length chunk) (F st))"
      proof -
        have "drop (rel + length chunk) tx = drop (length chunk) (drop rel tx)" by (simp add: add.commute)
        then show ?thesis by (simp add: 1(3) drop_take add.commute)
      qed
      have go: "send_chunks (send_task_log_chunk ag clock cr gz s) tid st tx final (offset + length chunk) (rel + length chunk) ?offs lk1 =
        (r, offs', lk')"
        using 1(4) True q Inr by (subst (asm) send_chunks.simps) (simp add: Let_def chunk_def p_def)
      note ih = 1(1) [OF True chunk_def q [unfolded p_def, symmetric] Inr b rest go]
      then have g: "grows tid lk1 lk'" by blast
      have "offset + (length tx - rel) \<le> stored_offset tid st (lk_server lk')" if "r = Inr m" for m
      proof (cases "rel + length chunk < length tx")
        case True
        with ih that len show ?thesis by auto
      next
        case False
        then have "length tx - rel = length chunk" using len by simp
        with sent g show ?thesis unfolding grows_def by (metis le_trans)
      qed
      with ih grows_trans [OF sb(2) g] show ?thesis by blast
    qed
  qed
qed

lemma with_ack_backed:
  assumes "fits s F" and b: "backed s tid F offs lk" and tx: "tx = take n (drop start (F st))" and start: "start \<le> stored_offset tid st (lk_server lk)"
    and r: "send_log_chunks_with_ack (send_task_log_chunk ag clock cr gz s) tid st tx start final offs lk = (r, offs', lk')"
  shows "backed s tid F offs' lk' \<and> grows tid lk lk' \<and> (\<forall>m. r = Inr m \<longrightarrow> start + length tx \<le> stored_offset tid st (lk_server lk'))"
proof (cases "tx = []")
  case False
  then have go: "send_chunks (send_task_log_chunk ag clock cr gz s) tid st tx final start 0 offs lk = (r, offs', lk')"
    using r by (simp add: send_log_chunks_with_ack_def)
  from send_chunks_backed [OF assms(1) b _ go, of n] tx False show ?thesis by simp
next
  case True
  show ?thesis
  proof (cases final)
    case False
    with True r b start show ?thesis by (auto simp: send_log_chunks_with_ack_def)
  next
    case fin: True
    define p where "p = \<lparr>lp_task_id = tid, lp_stream = st, lp_offset_start = int start, lp_text = [], lp_is_final = True\<rparr>"
    obtain q lk1 where q: "send_task_log_chunk ag clock cr gz s p lk = (q, lk1)" by fastforce
    have "slice tid F p" by (auto simp: slice_def p_def intro: exI [of _ 0])
    note sb = send_backed [OF assms(1) this b q]
    have g: "start \<le> stored_offset tid st (lk_server lk1)" using sb(2) start unfolding grows_def by (metis le_trans)
    show ?thesis
      using True fin r q sb(1,2) g by (cases q) (auto simp: send_log_chunks_with_ack_def p_def [symmetric] backed_def)
  qed
qed

lemma set_stream_offset_simps [simp]:
  "cur_task_id (set_stream_offset st n t) = cur_task_id t" "stream_path st' (set_stream_offset st n t) = stream_path st' t"
  by (cases st; cases st'; simp add: set_stream_offset_def stream_path_def)+

lemma upload_stream_backed:
  assumes fits: "fits s F" and b: "backed s tid F (dk_offsets d) lk" and t: "cur_task_id t = tid" "stream_path st t = Some p" "p \<noteq> []"
    and f: "dk_files d p = Some bs" "read_text bs = take k (F st)"
    and r: "upload_stream (send_task_log_chunk ag clock cr gz s) final st t d lk = (r, d', lk')"
  shows "backed s tid F (dk_offsets d') lk' \<and> grows tid lk lk' \<and> dk_files d' = dk_files d \<and>
    (\<forall>t'. r = Inr t' \<longrightarrow> cur_task_id t' = tid \<and> (\<forall>st'. stream_path st' t' = stream_path st' t) \<and>
      min k (length (F st)) \<le> stored_offset tid st (lk_server lk'))"
proof -
  define prev where "prev = acked_log_offset (dk_offsets d) tid st"
  have prev: "prev \<le> stored_offset tid st (lk_server lk)" using b by (simp add: backed_def prev_def)
  obtain tx new where slice: "read_text_slice (Some bs) prev = (tx, new)" by fastforce
  then have tx: "tx = take (k - prev) (drop prev (F st))" "min k (length (F st)) \<le> prev + length tx"
    using f(2) by (auto simp: read_text_slice_def Let_def drop_take split: if_splits)
  obtain q offs' lk1 where q: "(if tx \<noteq> [] \<or> final
      then send_log_chunks_with_ack (send_task_log_chunk ag clock cr gz s) tid st tx prev final (dk_offsets d) lk
      else (Inr prev, dk_offsets d, lk)) = (q, offs', lk1)" by (metis surj_pair)
  have up: "backed s tid F offs' lk1 \<and> grows tid lk lk1 \<and> (\<forall>m. q = Inr m \<longrightarrow> prev + length tx \<le> stored_offset tid st (lk_server lk1))"
  proof (cases "tx \<noteq> [] \<or> final")
    case True
    then show ?thesis using with_ack_backed [OF fits b tx(1) prev] q by simp
  next
    case False
    then show ?thesis using q b prev by auto
  qed
  have "(case q of Inl e \<Rightarrow> (Inl e, d\<lparr>dk_offsets := offs'\<rparr>, lk1)
      | Inr acked \<Rightarrow> (Inr (set_stream_offset st (if tx \<noteq> [] then acked else new) t), d\<lparr>dk_offsets := offs'\<rparr>, lk1)) = (r, d', lk')"
    using r [unfolded upload_stream_def t(1) prev_def [symmetric]] t(2,3) f(1) slice q by (cases q) simp_all
  then show ?thesis using up tx(2) t(1) by (cases q) auto
qed

lemma upload_incremental_backed:
  assumes fits: "fits s F" and b: "backed s tid F (dk_offsets d) lk"
    and t: "cur_task_id t = tid" "cur_stdout_path t = Some po" "cur_stderr_path t = Some pe" "po \<noteq> []" "pe \<noteq> []"
    and f: "dk_files d po = Some bo" "read_text bo = take ko (F Stdout)" "dk_files d pe = Some be" "read_text be = take ke (F Stderr)"
    and r: "upload_incremental_logs (send_task_log_chunk ag clock cr gz s) final t d lk = (r, d', lk')"
  shows "backed s tid F (dk_offsets d') lk' \<and>
    (\<forall>t'. r = Inr t' \<longrightarrow> cur_task_id t' = tid \<and> (\<forall>st'. stream_path st' t' = stream_path st' t) \<and>
      min ko (length (F Stdout)) \<le> stored_offset tid Stdout (lk_server lk') \<and> min ke (length (F Stderr)) \<le> stored_offset tid Stderr (lk_server lk'))"
proof -
  let ?d = "d\<lparr>dk_offsets := init_log_offsets (cur_task_id t) (dk_offsets d)\<rparr>"
  have b0: "backed s tid F (dk_offsets ?d) lk" using b by (simp add: backed_def t(1))
  have p: "stream_path Stdout t = Some po" "stream_path Stderr t = Some pe" using t by (simp_all add: stream_path_def)
  obtain q d1 lk1 where q: "upload_stream (send_task_log_chunk ag clock cr gz s) final Stdout t ?d lk = (q, d1, lk1)" by (metis surj_pair)
  have so: "backed s tid F (dk_offsets d1) lk1 \<and> dk_files d1 = dk_files d \<and>
    (\<forall>t'. q = Inr t' \<longrightarrow> cur_task_id t' = tid \<and> (\<forall>st'. stream_path st' t' = stream_path st' t) \<and>
      min ko (length (F Stdout)) \<le> stored_offset tid Stdout (lk_server lk1))"
    using upload_stream_backed [OF fits b0 t(1) p(1) t(4) _ f(2) q] f(1) by simp
  show ?thesis
  proof (cases q)
    case (Inl e)
    with r q so show ?thesis by (auto simp: upload_incremental_logs_def)
  next
    case (Inr t1)
    obtain q2 d2 lk2 where q2: "upload_stream (send_task_log_chunk ag clock cr gz s) final Stderr t1 d1 lk1 = (q2, d2, lk2)" by (metis surj_pair)
    from so Inr p have t1: "cur_task_id t1 = tid" "stream_path Stderr t1 = Some pe" "\<forall>st'. stream_path st' t1 = stream_path st' t"
      and b1: "backed s tid F (dk_offsets d1) lk1" and f1: "dk_files d1 pe = Some be"
      and o1: "min ko (length (F Stdout)) \<le> stored_offset tid Stdout (lk_server lk1)"
      using f(3) by auto
    note se = upload_stream_backed [OF fits b1 t1(1,2) t(5) f1 f(4) q2]
    have "min ko (length (F Stdout)) \<le> stored_offset tid Stdout (lk_server lk2)"
      using se o1 unfolding grows_def by (metis le_trans)
    moreover have "(case q2 of Inl e \<Rightarrow> (Inl e, d2, lk2) | Inr t \<Rightarrow> (Inr t, d2\<lparr>dk_task := Some t\<rparr>, lk2)) = (r, d', lk')"
      using r q q2 Inr by (cases q2) (auto simp: upload_incremental_logs_def)
    ultimately show ?thesis using se t1(3) by (cases q2) auto
  qed
qed

section \<open>Rounds of uploads\<close>

text \<open>
  A round: the task has written \<open>n st\<close> characters of its output \<open>R st\<close> by now, and the agent uploads while
  the network has the given fates. A round that raises leaves the loaded task state as it was. \<open>written\<close> is an
  assumption on the task, which lies outside the agent: whenever the agent reads, the file holds whole
  characters of valid UTF-8. A file that ends inside a character is the lemma
  \<open>half_written_character_is_lost\<close> of the theory \<open>Agent_Text\<close>.
\<close>

definition written :: "(stream \<Rightarrow> utext) \<Rightarrow> (stream \<Rightarrow> nat) \<Rightarrow> agent_task \<Rightarrow> agent_disk \<Rightarrow> agent_disk" where
  "written R n t d = d\<lparr>dk_files := (dk_files d)(the (cur_stdout_path t) \<mapsto> utf8_encode (take (n Stdout) (R Stdout)),
     the (cur_stderr_path t) \<mapsto> utf8_encode (take (n Stderr) (R Stderr)))\<rparr>"

definition upload_round ::
  "link log_sender \<Rightarrow> (stream \<Rightarrow> utext) \<Rightarrow> (stream \<Rightarrow> nat) \<times> bool \<times> fate list \<Rightarrow> agent_task \<times> agent_disk \<times> link \<Rightarrow>
   agent_task \<times> agent_disk \<times> link" where
  "upload_round post R x st =
     (case (x, st) of ((n, final, fates), (t, d, lk)) \<Rightarrow>
       (case upload_incremental_logs post final t (written R n t d) (lk\<lparr>lk_fates := fates\<rparr>) of
          (Inr t', d', lk') \<Rightarrow> (t', d', lk') | (Inl _, d', lk') \<Rightarrow> (t, d', lk')))"

definition seen :: "(stream \<Rightarrow> utext) \<Rightarrow> stream \<Rightarrow> utext" where
  "seen R st = universal_newlines (R st)"

definition output_task :: "string \<Rightarrow> agent_task \<Rightarrow> bool" where
  "output_task tid t \<longleftrightarrow> cur_task_id t = tid \<and> truthy (cur_stdout_path t) \<and> truthy (cur_stderr_path t) \<and>
     cur_stdout_path t \<noteq> cur_stderr_path t"

lemma round_backed:
  assumes fits: "fits s (seen R)" and b: "backed s tid (seen R) (dk_offsets d) lk" and t: "output_task tid t"
    and sc: "\<And>st. \<forall>c \<in> set (R st). scalar c"
    and r: "upload_incremental_logs (send_task_log_chunk ag clock cr gz s) final t (written R n t d) (lk\<lparr>lk_fates := fates\<rparr>) = (r, d', lk')"
  shows "backed s tid (seen R) (dk_offsets d') lk' \<and>
    (\<forall>t'. r = Inr t' \<longrightarrow> output_task tid t' \<and>
      (\<forall>st. length (R st) \<le> n st \<longrightarrow> length (seen R st) \<le> stored_offset tid st (lk_server lk')))"
proof -
  obtain po pe where p: "cur_stdout_path t = Some po" "cur_stderr_path t = Some pe" "po \<noteq> []" "pe \<noteq> []" "po \<noteq> pe"
    using t by (cases "cur_stdout_path t"; cases "cur_stderr_path t") (auto simp: output_task_def)
  have id: "cur_task_id t = tid" using t by (simp add: output_task_def)
  have rd: "\<exists>k. read_text (utf8_encode (take m (R st))) = take k (seen R st) \<and> (length (R st) \<le> m \<longrightarrow> length (seen R st) \<le> k)" for m st
    using read_text_prefix [OF sc [of st]] by (cases "length (R st) \<le> m") (auto simp: seen_def intro: exI [of _ "length (seen R st)"])
  obtain ko ke where
    k: "read_text (utf8_encode (take (n Stdout) (R Stdout))) = take ko (seen R Stdout)" "length (R Stdout) \<le> n Stdout \<longrightarrow> length (seen R Stdout) \<le> ko"
      "read_text (utf8_encode (take (n Stderr) (R Stderr))) = take ke (seen R Stderr)" "length (R Stderr) \<le> n Stderr \<longrightarrow> length (seen R Stderr) \<le> ke"
    using rd [of "n Stdout" Stdout] rd [of "n Stderr" Stderr] by blast
  have b': "backed s tid (seen R) (dk_offsets (written R n t d)) (lk\<lparr>lk_fates := fates\<rparr>)"
    using b by (simp add: backed_def written_def)
  have f: "dk_files (written R n t d) po = Some (utf8_encode (take (n Stdout) (R Stdout)))"
    "dk_files (written R n t d) pe = Some (utf8_encode (take (n Stderr) (R Stderr)))"
    using p by (simp_all add: written_def)
  note up = upload_incremental_backed [OF fits b' id p(1-4) f(1) k(1) f(2) k(3) r]
  have "output_task tid t'" if "r = Inr t'" for t'
  proof -
    from up that have "stream_path Stdout t' = stream_path Stdout t" "stream_path Stderr t' = stream_path Stderr t" "cur_task_id t' = tid"
      by blast+
    with t show ?thesis by (simp add: output_task_def stream_path_def)
  qed
  moreover have "length (seen R st) \<le> stored_offset tid st (lk_server lk')" if "r = Inr t'" "length (R st) \<le> n st" for t' st
    using up that k(2,4) by (cases st) auto
  ultimately show ?thesis using up by blast
qed

lemma rounds_backed:
  assumes fits: "fits s (seen R)" and sc: "\<And>st. \<forall>c \<in> set (R st). scalar c"
  shows "backed s tid (seen R) (dk_offsets d) lk \<Longrightarrow> output_task tid t \<Longrightarrow>
    fold (upload_round (send_task_log_chunk ag clock cr gz s) R) rounds (t, d, lk) = (t', d', lk') \<Longrightarrow>
    backed s tid (seen R) (dk_offsets d') lk' \<and> output_task tid t'"
proof (induction rounds arbitrary: t d lk)
  case (Cons x rounds)
  obtain n final fates where x: "x = (n, final, fates)" by (cases x) auto
  obtain r d1 lk1 where r: "upload_incremental_logs (send_task_log_chunk ag clock cr gz s) final t (written R n t d) (lk\<lparr>lk_fates := fates\<rparr>) =
    (r, d1, lk1)" by (metis surj_pair)
  note rb = round_backed [OF fits Cons.prems(1,2) sc r]
  define t1 where "t1 = (case r of Inr t' \<Rightarrow> t' | Inl _ \<Rightarrow> t)"
  have "output_task tid t1" using rb Cons.prems(2) by (auto simp: t1_def split: sum.split)
  moreover have "fold (upload_round (send_task_log_chunk ag clock cr gz s) R) rounds (t1, d1, lk1) = (t', d', lk')"
  proof -
    have "upload_round (send_task_log_chunk ag clock cr gz s) R x (t, d, lk) = (t1, d1, lk1)"
      by (cases r) (simp_all add: upload_round_def x r t1_def)
    with Cons.prems(3) show ?thesis by simp
  qed
  ultimately show ?case using Cons.IH rb by blast
qed auto

text \<open>A server that has nothing of the task's output yet.\<close>

definition no_output :: "settings \<Rightarrow> string \<Rightarrow> world \<Rightarrow> bool" where
  "no_output s tid w \<longleftrightarrow> (\<forall>st. log_inv s tid st w \<and> stored_offset tid st w = 0 \<and> stored_bytes s tid st w = [])"

section \<open>Properties\<close>

text \<open>A request that the server accepts, for the witnesses.\<close>

definition sample_arrival :: arrival where
  "sample_arrival = \<lparr>ar_now = sample_instant, ar_random = [], ar_request = sample_request\<rparr>"

text \<open>C31. The output of a task that writes whole characters of valid UTF-8 at a time, so that no read of the agent
  ends inside a character, arrives as it was written, over a network that loses requests and answers and
  through refused authentications, retries, an open circuit and repeated rounds. The server's limit of a
  stream (\<open>task_log_stream_max_bytes\<close>, \<open>m\<close> bytes) is at least 4, the encoding of each output (with its line ends
  made \<open>\n\<close>) has at most 99999 times \<open>m - 3\<close> bytes, which is what fits into the archives of a stream, and at first the server holds
  nothing of the output, the agent has noted no offset, and the task has two different output files. Then at any time the server holds a prefix of each of the two outputs and at least what
  the agent has noted as acknowledged; and when a round that saw the whole output returns without an
  error, the server holds exactly the output.\<close>

theorem output_arrives:
  assumes "no_output s tid (lk_server lk)" and "dk_offsets d tid = None" and "output_task tid t"
    and "\<And>st. \<forall>c \<in> set (R st). scalar c" and "\<And>st. length (utf8_encode (universal_newlines (R st))) \<le> log_cap s"
    and "fold (upload_round (send_task_log_chunk ag clock cr gz s) R) rounds (t, d, lk) = (t', d', lk')"
    and "upload_incremental_logs (send_task_log_chunk ag clock cr gz s) final t' (written R (\<lambda>st. length (R st)) t' d')
      (lk'\<lparr>lk_fates := fates\<rparr>) = (r, d2, lk2)"
  shows "(let n = stored_offset tid st (lk_server lk') in
      stored_bytes s tid st (lk_server lk') = utf8_encode (take n (universal_newlines (R st))) \<and>
      acked_log_offset (dk_offsets d') tid st \<le> n) \<and>
    (case r of Inl _ \<Rightarrow> True | Inr _ \<Rightarrow> stored_bytes s tid st (lk_server lk2) = utf8_encode (universal_newlines (R st)))"
proof -
  have fits: "fits s (seen R)" using assms(5) by (simp add: fits_def seen_def)
  have "backed s tid (seen R) (dk_offsets d) lk"
    using assms(1,2) by (simp add: backed_def no_output_def both_follow_def server_log.follows_def acked_log_offset_def task_offsets_def)
  from rounds_backed [OF fits assms(4) this assms(3,6)] have b: "backed s tid (seen R) (dk_offsets d') lk'" and t': "output_task tid t'"
    by blast+
  note last = round_backed [OF fits b t' assms(4,7)]
  have "stored_bytes s tid st (lk_server lk2) = utf8_encode (universal_newlines (R st))" if "r = Inr x" for x
  proof -
    from last that have "server_log.follows s tid st (seen R st) (lk_server lk2)" "length (seen R st) \<le> stored_offset tid st (lk_server lk2)"
      by (auto simp: backed_def both_follow_def)
    then show ?thesis by (simp add: server_log.follows_def seen_def)
  qed
  then show ?thesis using b by (simp add: backed_def both_follow_def server_log.follows_def seen_def Let_def split: sum.split)
qed

definition sample_output_task :: agent_task where
  "sample_output_task = \<lparr>cur_task_id = ''a'', cur_type = Some ''shell'', cur_pid = 1, cur_started_at = [], cur_boot_id = None, cur_run_dir = [],
     cur_workdir = [], cur_command = [], cur_timeout_sec = 60, cur_kill_grace_sec = 1, cur_execution = [], cur_modal_context = [],
     cur_stdout_path = Some ''out'', cur_stderr_path = Some ''err'', cur_stdout_offset = 0, cur_stderr_offset = 0,
     cur_cancel_requested = False, cur_timed_out = False, cur_recovery_note = None\<rparr>"

lemma output_arrives_witness:
  "case fold (upload_round (send_task_log_chunk default_agent_settings (\<lambda>_ _. 0) sample_crypto (\<lambda>_. 0) sample_log_settings)
       (\<lambda>st. if st = Stdout then [104, 13, 10] else [])) [(\<lambda>_. 2, False, [Cut sample_arrival, Through sample_arrival]), (\<lambda>_. 3, True, [Missing, Missing, Missing])]
       (sample_output_task, \<lparr>dk_offsets = Map.empty, dk_task = None, dk_files = Map.empty\<rparr>,
        \<lparr>lk_breaker = new_breaker, lk_posts = 0, lk_server = sample_world [sample_node ''n'' 1] [sample_task ''a'' ''n'' Running 1], lk_fates = []\<rparr>) of
     (t', d', lk') \<Rightarrow>
       stored_bytes sample_log_settings ''a'' Stdout (lk_server lk') = utf8_encode (take (stored_offset ''a'' Stdout (lk_server lk')) [104, 10])"
proof -
  let ?R = "(\<lambda>st. if st = Stdout then [104, 13, 10] else []) :: stream \<Rightarrow> utext"
  let ?w = "sample_world [sample_node ''n'' 1] [sample_task ''a'' ''n'' Running 1]"
  let ?d = "\<lparr>dk_offsets = Map.empty, dk_task = None, dk_files = Map.empty\<rparr>"
  let ?lk = "\<lparr>lk_breaker = new_breaker, lk_posts = 0, lk_server = ?w, lk_fates = []\<rparr>"
  let ?send = "send_task_log_chunk default_agent_settings (\<lambda>_ _. 0) sample_crypto (\<lambda>_. 0) sample_log_settings"
  obtain t' d' lk' where f: "fold (upload_round ?send ?R) [(\<lambda>_. 2, False, [Cut sample_arrival, Through sample_arrival]), (\<lambda>_. 3, True, [Missing, Missing, Missing])]
      (sample_output_task, ?d, ?lk) = (t', d', lk')" by (metis surj_pair)
  obtain r d2 lk2 where l: "upload_incremental_logs ?send True t' (written ?R (\<lambda>st. length (?R st)) t' d') (lk'\<lparr>lk_fates := []\<rparr>) = (r, d2, lk2)"
    by (metis surj_pair)
  have inv: "no_output sample_log_settings ''a'' (lk_server ?lk)"
  proof -
    have "log_inv sample_log_settings ''a'' st ?w" for st
      unfolding log_inv_def
      by (auto simp: sample_log_settings_def logs_ok_def find_log_def holds_stream_def file_get_def read_file_def
          intro!: exI [of _ "[]"])
    moreover have "stored_bytes sample_log_settings ''a'' st ?w = []" for st
    proof -
      have "holds_stream (log_dir (storage_base sample_log_settings) ''a'') st [] [] (files ?w)"
        by (simp add: holds_stream_def file_get_def read_file_def)
      from stream_content_holds [OF this] show ?thesis by (simp add: stored_bytes_def)
    qed
    ultimately show ?thesis by (simp add: no_output_def stored_offset_def find_log_def)
  qed
  have c: "length (utf8_encode (universal_newlines (?R st))) \<le> log_cap sample_log_settings" for st
    by (simp add: log_cap_def sample_log_settings_def utf8_char_def)
  have t: "output_task ''a'' sample_output_task" by (simp add: output_task_def sample_output_task_def)
  have "\<forall>c \<in> set (?R st). scalar c" for st by (auto simp: scalar_def)
  from output_arrives [OF inv _ t this c f l, where st = Stdout] show ?thesis by (simp only: f prod.case Let_def) simp
qed

end
