(* ===== verification/Agent_Secret.thy ===== *)
theory Agent_Secret
  imports Agent_Client
begin

text \<open>
  The sealed node secret of the agent (\<open>node_agent/.../security.py\<close>). The secret file is the JSON object in
  it. On Windows the data protection API seals; it is a parameter, as are the random salt and nonce.
  An error is the name of the Python exception.
\<close>

section \<open>Sealing with a passphrase\<close>

definition SECRET_STORE_CONTEXT :: bytes where
  "SECRET_STORE_CONTEXT = str_utf8 ''gpufleet-agent-node-secret-v1''"

definition FALLBACK_KDF_ROUNDS :: nat where
  "FALLBACK_KDF_ROUNDS = 200000"

definition store_key :: "string \<Rightarrow> bytes \<Rightarrow> nat \<Rightarrow> bytes" where
  "store_key passphrase salt iterations = pbkdf2_sha256_32 (str_utf8 passphrase) salt iterations"

definition store_tag :: "bytes \<Rightarrow> bytes \<Rightarrow> bytes \<Rightarrow> bytes" where
  "store_tag key nonce ciphertext = hmac_sha256 key (SECRET_STORE_CONTEXT @ nonce @ ciphertext)"

definition fallback_encrypt :: "bytes \<Rightarrow> bytes \<Rightarrow> utext \<Rightarrow> string \<Rightarrow> string + dict" where
  "fallback_encrypt salt nonce secret passphrase =
     (let key = store_key passphrase salt FALLBACK_KDF_ROUNDS; plaintext = utf8_encode secret in
      try_then (or_raise ''OverflowError'' (keystream_bytes key nonce (length plaintext))) (\<lambda>keystream.
        let ciphertext = xor_bytes plaintext keystream; tag = store_tag key nonce ciphertext in
        Inr [(''scheme'', JStr ''passphrase-v1''), (''iterations'', JInt (int FALLBACK_KDF_ROUNDS)),
          (''salt_b64'', JStr (b64encode salt)), (''nonce_b64'', JStr (b64encode nonce)),
          (''ciphertext_b64'', JStr (b64encode ciphertext)), (''tag_b64'', JStr (b64encode tag))]))"

text \<open>\<open>base64.b64decode(str(payload[key]))\<close>\<close>

definition payload_bytes :: "dict \<Rightarrow> string \<Rightarrow> string + bytes" where
  "payload_bytes payload key =
     try_then (or_raise ''KeyError'' (dict_get payload key)) (\<lambda>v.
       if list_ex (\<lambda>c. 128 \<le> (of_char c :: nat)) (py_str v) then Inl ''ValueError''
       else or_raise ''ValueError'' (b64decode False (py_str v)))"

text \<open>\<open>int(v)\<close> of a JSON value.\<close>

definition int_of_json :: "json \<Rightarrow> string + int" where
  "int_of_json v =
     (case v of JInt i \<Rightarrow> Inr i | JBool b \<Rightarrow> Inr (if b then 1 else 0)
      | JFloat r _ \<Rightarrow> Inr (if 0 \<le> r then \<lfloor>r\<rfloor> else \<lceil>r\<rceil>) | JStr s \<Rightarrow> or_raise ''ValueError'' (py_int s)
      | _ \<Rightarrow> Inl ''TypeError'')"

definition kdf_rounds :: "dict \<Rightarrow> string + nat" where
  "kdf_rounds payload =
     try_then (case dict_get payload ''iterations'' of None \<Rightarrow> Inr (int FALLBACK_KDF_ROUNDS) | Some v \<Rightarrow> int_of_json v)
       (\<lambda>i. if i \<le> 0 then Inl ''ValueError'' else if 2147483647 < i then Inl ''OverflowError'' else Inr (nat i))"

definition fallback_decrypt :: "dict \<Rightarrow> string \<Rightarrow> string + utext" where
  "fallback_decrypt payload passphrase =
     try_then (payload_bytes payload ''salt_b64'') (\<lambda>salt.
     try_then (payload_bytes payload ''nonce_b64'') (\<lambda>nonce.
     try_then (payload_bytes payload ''ciphertext_b64'') (\<lambda>ciphertext.
     try_then (payload_bytes payload ''tag_b64'') (\<lambda>expected_tag.
     try_then (kdf_rounds payload) (\<lambda>iterations.
       let key = store_key passphrase salt iterations in
       if store_tag key nonce ciphertext \<noteq> expected_tag then Inl ''ValueError''
       else try_then (or_raise ''OverflowError'' (keystream_bytes key nonce (length ciphertext))) (\<lambda>keystream.
         or_raise ''ValueError'' (utf8_decode (xor_bytes ciphertext keystream))))))))"

section \<open>The secret file\<close>

record secret_host =
  sh_nt :: bool
  sh_protect :: "bytes \<Rightarrow> bytes option"
  sh_unprotect :: "bytes \<Rightarrow> bytes option"

definition dpapi_encrypt :: "secret_host \<Rightarrow> utext \<Rightarrow> string + dict" where
  "dpapi_encrypt host secret =
     (if \<not> sh_nt host then Inl ''ValueError''
      else try_then (or_raise ''OSError'' (sh_protect host (utf8_encode secret))) (\<lambda>raw.
        Inr [(''scheme'', JStr ''dpapi-v1''), (''ciphertext_b64'', JStr (b64encode raw))]))"

definition dpapi_decrypt :: "secret_host \<Rightarrow> dict \<Rightarrow> string + utext" where
  "dpapi_decrypt host payload =
     (if \<not> sh_nt host then Inl ''ValueError''
      else try_then (payload_bytes payload ''ciphertext_b64'') (\<lambda>ciphertext.
        try_then (or_raise ''OSError'' (sh_unprotect host ciphertext)) (\<lambda>raw. or_raise ''ValueError'' (utf8_decode raw))))"

text \<open>What \<open>seal_node_secret\<close> writes.\<close>

definition seal_node_secret :: "secret_host \<Rightarrow> bytes \<Rightarrow> bytes \<Rightarrow> agent_settings \<Rightarrow> utext \<Rightarrow> string + dict" where
  "seal_node_secret host salt nonce ag node_secret =
     (if sh_nt host then dpapi_encrypt host node_secret
      else if ag_node_secret_passphrase ag = [] then Inl ''ValueError''
      else fallback_encrypt salt nonce node_secret (ag_node_secret_passphrase ag))"

definition load_encrypted_node_secret :: "secret_host \<Rightarrow> agent_settings \<Rightarrow> dict \<Rightarrow> string + utext" where
  "load_encrypted_node_secret host ag payload =
     (let scheme = strip (case dict_get payload ''scheme'' of None \<Rightarrow> [] | Some v \<Rightarrow> py_str v) in
      if scheme = ''dpapi-v1'' then dpapi_decrypt host payload
      else if scheme = ''passphrase-v1'' then
        (if ag_node_secret_passphrase ag = [] then Inl ''ValueError''
         else fallback_decrypt payload (ag_node_secret_passphrase ag))
      else Inl ''ValueError'')"

text \<open>The file before and after; None is a file that does not exist.\<close>

definition load_or_seal_node_secret ::
  "secret_host \<Rightarrow> bytes \<Rightarrow> bytes \<Rightarrow> agent_settings \<Rightarrow> dict option \<Rightarrow> (string + utext) \<times> dict option" where
  "load_or_seal_node_secret host salt nonce ag file =
     (let plaintext = of_string (strip (ag_node_secret ag));
          seal = (case seal_node_secret host salt nonce ag plaintext of
                    Inl e \<Rightarrow> (Inl e, file) | Inr payload \<Rightarrow> (Inr plaintext, Some payload))
      in case file of
           Some payload \<Rightarrow>
             (case load_encrypted_node_secret host ag payload of
                Inl e \<Rightarrow> (Inl e, file)
              | Inr stored \<Rightarrow> if plaintext \<noteq> [] \<and> plaintext \<noteq> stored then seal else (Inr stored, file))
         | None \<Rightarrow>
             if plaintext = [] \<or> plaintext = of_string ''replace-me'' then (Inl ''ValueError'', None) else seal)"

section \<open>What was sealed is read back\<close>

lemma load_frame [simp]:
  "load_encrypted_node_secret host (ag\<lparr>ag_node_secret := x\<rparr>) payload = load_encrypted_node_secret host ag payload"
  "load_encrypted_node_secret (host\<lparr>sh_protect := f\<rparr>) ag payload = load_encrypted_node_secret host ag payload"
  by (simp_all add: load_encrypted_node_secret_def dpapi_decrypt_def Let_def)

lemma ascii_b64: "\<not> list_ex (\<lambda>c. 128 \<le> (of_char c :: nat)) (b64encode bs)"
proof
  assume "list_ex (\<lambda>c. 128 \<le> (of_char c :: nat)) (b64encode bs)"
  then obtain c where c: "c \<in> set (b64encode bs)" "128 \<le> (of_char c :: nat)" by (auto simp: list_ex_iff)
  from c(1) b64_chars [of bs] have "c = CHR ''='' \<or> b64_val c \<noteq> None" by (auto simp: list_all_iff)
  with c(2) show False by (auto simp: b64_val_def Let_def split: if_splits)
qed

lemma payload_bytes_encode: "dict_get p k = Some (JStr (b64encode bs)) \<Longrightarrow> payload_bytes p k = Inr bs"
  by (simp add: payload_bytes_def or_raise_def py_str_def ascii_b64 b64decode_encode)

lemma fallback_round_trip:
  assumes "\<forall>c \<in> set secret. scalar c" and "fallback_encrypt salt nonce secret pw = Inr payload"
  shows "fallback_decrypt payload pw = Inr secret \<and> dict_get payload ''scheme'' = Some (JStr ''passphrase-v1'')"
proof -
  define key where "key = store_key pw salt FALLBACK_KDF_ROUNDS"
  obtain ks where ks: "keystream_bytes key nonce (length (utf8_encode secret)) = Some ks"
    and p: "payload = [(''scheme'', JStr ''passphrase-v1''), (''iterations'', JInt (int FALLBACK_KDF_ROUNDS)),
          (''salt_b64'', JStr (b64encode salt)), (''nonce_b64'', JStr (b64encode nonce)),
          (''ciphertext_b64'', JStr (b64encode (xor_bytes (utf8_encode secret) ks))),
          (''tag_b64'', JStr (b64encode (store_tag key nonce (xor_bytes (utf8_encode secret) ks))))]"
    using assms(2) by (auto simp: fallback_encrypt_def Let_def key_def or_raise_def split: option.splits)
  have len: "length ks = length (utf8_encode secret)" by (rule keystream_bytes_length [OF ks])
  have bytes: "payload_bytes payload ''salt_b64'' = Inr salt" "payload_bytes payload ''nonce_b64'' = Inr nonce"
    "payload_bytes payload ''ciphertext_b64'' = Inr (xor_bytes (utf8_encode secret) ks)"
    "payload_bytes payload ''tag_b64'' = Inr (store_tag key nonce (xor_bytes (utf8_encode secret) ks))"
    by (rule payload_bytes_encode, simp add: p dict_get_def)+
  have rounds: "kdf_rounds payload = Inr FALLBACK_KDF_ROUNDS"
    by (simp add: kdf_rounds_def p dict_get_def int_of_json_def FALLBACK_KDF_ROUNDS_def)
  have "length (xor_bytes (utf8_encode secret) ks) = length (utf8_encode secret)" by (simp add: xor_bytes_length len)
  then have "fallback_decrypt payload pw = Inr secret"
    using xor_bytes_twice [of "utf8_encode secret" ks] len utf8_decode_encode [OF assms(1)]
    by (simp add: fallback_decrypt_def bytes rounds key_def [symmetric] ks or_raise_def Let_def)
  then show ?thesis by (simp add: p dict_get_def)
qed

lemma seal_round_trip:
  assumes "\<forall>c \<in> set secret. scalar c" and "\<And>x y. sh_protect host x = Some y \<Longrightarrow> sh_unprotect host y = Some x"
    and "seal_node_secret host salt nonce ag secret = Inr payload"
  shows "load_encrypted_node_secret host ag payload = Inr secret"
proof (cases "sh_nt host")
  case True
  with assms(3) obtain raw where raw: "sh_protect host (utf8_encode secret) = Some raw"
    and p: "payload = [(''scheme'', JStr ''dpapi-v1''), (''ciphertext_b64'', JStr (b64encode raw))]"
    by (auto simp: seal_node_secret_def dpapi_encrypt_def or_raise_def split: option.splits)
  have "payload_bytes payload ''ciphertext_b64'' = Inr raw" by (rule payload_bytes_encode) (simp add: p dict_get_def)
  with True assms(2) [OF raw] utf8_decode_encode [OF assms(1)] show ?thesis
    by (simp add: load_encrypted_node_secret_def dpapi_decrypt_def p dict_get_def py_str_def strip_def is_space_def or_raise_def Let_def)
next
  case False
  with assms(3) have pw: "ag_node_secret_passphrase ag \<noteq> []"
    and e: "fallback_encrypt salt nonce secret (ag_node_secret_passphrase ag) = Inr payload"
    by (auto simp: seal_node_secret_def split: if_splits)
  from fallback_round_trip [OF assms(1) e] pw show ?thesis
    by (simp add: load_encrypted_node_secret_def py_str_def strip_def is_space_def Let_def)
qed

lemma seal_succeeds:
  assumes "\<not> sh_nt host" and "ag_node_secret_passphrase ag \<noteq> []" and "length (utf8_encode secret) \<le> 137438953472"
  shows "\<exists>payload. seal_node_secret host salt nonce ag secret = Inr payload"
  using keystream_bytes_total [of "length (utf8_encode secret)" "store_key (ag_node_secret_passphrase ag) salt FALLBACK_KDF_ROUNDS" nonce]
    assms by (auto simp: seal_node_secret_def fallback_encrypt_def or_raise_def Let_def)

section \<open>Properties\<close>

text \<open>C32. The secret is needed once: when the first start with the secret in the environment succeeds, every later start
  without it, with the same passphrase or the same Windows account, gives the same secret and leaves
  the file alone.\<close>

theorem sealed_secret_is_read_back:
  assumes "\<And>x y. sh_protect host x = Some y \<Longrightarrow> sh_unprotect host y = Some x"
    and "load_or_seal_node_secret host salt nonce ag None = (Inr secret, file)"
  shows "secret = of_string (strip (ag_node_secret ag)) \<and> secret \<noteq> [] \<and>
    load_or_seal_node_secret host salt' nonce' (ag\<lparr>ag_node_secret := []\<rparr>) file = (Inr secret, file)"
proof -
  from assms(2) obtain payload where s: "secret = of_string (strip (ag_node_secret ag))" "secret \<noteq> []" "file = Some payload"
    and seal: "seal_node_secret host salt nonce ag secret = Inr payload"
    by (auto simp: load_or_seal_node_secret_def Let_def split: if_splits sum.splits)
  have "\<forall>c \<in> set secret. scalar c" using s(1) scalar_of_string by auto
  from seal_round_trip [OF this assms(1) seal] have "load_encrypted_node_secret host (ag\<lparr>ag_node_secret := []\<rparr>) payload = Inr secret"
    by simp
  then show ?thesis using s by (simp add: load_or_seal_node_secret_def strip_def of_string_def Let_def)
qed

lemma sealed_secret_is_read_back_witness:
  "\<exists>file. load_or_seal_node_secret \<lparr>sh_nt = False, sh_protect = \<lambda>_. None, sh_unprotect = \<lambda>_. None\<rparr> [] []
     (default_agent_settings\<lparr>ag_node_secret_passphrase := ''p''\<rparr>) file = (Inr (of_string ''s''), file)"
proof -
  let ?host = "\<lparr>sh_nt = False, sh_protect = \<lambda>_. None, sh_unprotect = \<lambda>_. None\<rparr>"
  let ?ag = "default_agent_settings\<lparr>ag_node_secret_passphrase := ''p'', ag_node_secret := ''s''\<rparr>"
  have s: "strip ''s'' = ''s''" by (simp add: strip_def is_space_def)
  obtain payload where "seal_node_secret ?host [1] [2] ?ag (of_string ''s'') = Inr payload"
    using seal_succeeds [of ?host ?ag "of_string ''s''" "[1]" "[2]"] by (auto simp: of_string_def utf8_char_def)
  then have "load_or_seal_node_secret ?host [1] [2] ?ag None = (Inr (of_string ''s''), Some payload)"
    by (simp add: load_or_seal_node_secret_def s of_string_def)
  from sealed_secret_is_read_back [OF _ this, of "[]" "[]"] show ?thesis by (auto simp: default_agent_settings_def)
qed

text \<open>C33. The placeholder destroys a sealed secret: started with \<open>replace-me\<close> in the environment, where a first start is
  refused, an agent that has a secret file seals the placeholder in its place, and the old secret is
  gone for every later start.\<close>

theorem placeholder_replaces_sealed_secret:
  assumes "\<not> sh_nt host" and "ag_node_secret_passphrase ag \<noteq> []" and "ag_node_secret ag = ''replace-me''"
    and "load_encrypted_node_secret host ag payload = Inr secret" and "secret \<noteq> of_string ''replace-me''"
  shows "load_or_seal_node_secret host salt nonce ag None = (Inl ''ValueError'', None) \<and>
    (\<exists>file. load_or_seal_node_secret host salt nonce ag (Some payload) = (Inr (of_string ''replace-me''), file) \<and>
      load_or_seal_node_secret host salt' nonce' (ag\<lparr>ag_node_secret := []\<rparr>) file = (Inr (of_string ''replace-me''), file))"
proof -
  have s: "strip ''replace-me'' = ''replace-me''" by (simp add: strip_def is_space_def)
  have sc: "\<forall>c \<in> set (of_string ''replace-me''). scalar c" using scalar_of_string by auto
  have "length (utf8_encode (of_string ''replace-me'')) \<le> 137438953472" by (simp add: of_string_def utf8_char_def)
  from seal_succeeds [OF assms(1,2) this] obtain p where
    p: "seal_node_secret host salt nonce ag (of_string ''replace-me'') = Inr p" by blast
  have "load_encrypted_node_secret host ag p = Inr (of_string ''replace-me'')"
  proof -
    have "seal_node_secret (host\<lparr>sh_protect := \<lambda>_. None\<rparr>) salt nonce ag (of_string ''replace-me'') = Inr p"
      using p assms(1) by (simp add: seal_node_secret_def)
    from seal_round_trip [OF sc _ this] have "load_encrypted_node_secret (host\<lparr>sh_protect := \<lambda>_. None\<rparr>) ag p = Inr (of_string ''replace-me'')"
      by simp
    then show ?thesis by simp
  qed
  then have again: "load_encrypted_node_secret host (ag\<lparr>ag_node_secret := []\<rparr>) p = Inr (of_string ''replace-me'')"
    by simp
  have ne: "of_string ''replace-me'' \<noteq> []" by (simp add: of_string_def)
  show ?thesis
    using assms(3-5) p ne again by (simp add: load_or_seal_node_secret_def s Let_def) (simp add: strip_def of_string_def)
qed

lemma placeholder_replaces_sealed_secret_witness:
  "\<exists>payload file. load_or_seal_node_secret \<lparr>sh_nt = False, sh_protect = \<lambda>_. None, sh_unprotect = \<lambda>_. None\<rparr> [] []
     (default_agent_settings\<lparr>ag_node_secret_passphrase := ''p'', ag_node_secret := ''replace-me''\<rparr>) (Some payload) =
     (Inr (of_string ''replace-me''), file)"
proof -
  let ?host = "\<lparr>sh_nt = False, sh_protect = \<lambda>_. None, sh_unprotect = \<lambda>_. None\<rparr>"
  let ?ag = "default_agent_settings\<lparr>ag_node_secret_passphrase := ''p'', ag_node_secret := ''replace-me''\<rparr>"
  obtain payload where p: "seal_node_secret ?host [1] [2] ?ag (of_string ''s'') = Inr payload"
    using seal_succeeds [of ?host ?ag "of_string ''s''" "[1]" "[2]"] by (auto simp: of_string_def utf8_char_def)
  have "\<forall>c \<in> set (of_string ''s''). scalar c" using scalar_of_string by auto
  from seal_round_trip [OF this _ p] have l: "load_encrypted_node_secret ?host ?ag payload = Inr (of_string ''s'')" by simp
  from placeholder_replaces_sealed_secret [OF _ _ _ l, where salt = "[]" and nonce = "[]" and salt' = "[]" and nonce' = "[]"]
  show ?thesis by (intro exI [of _ payload]) (auto simp: of_string_def)
qed

end
