(* ===== verification/Agent_Execution.thy ===== *)
theory Agent_Execution
  imports Agent_Secret
begin

text \<open>
  The environments in which the agent runs a command: \<open>node_agent/.../execution.py\<close>, on a POSIX host.
  What the code asks its host (\<open>shutil.which\<close>, the files that exist, \<open>os.environ\<close>, the interpreter) is a
  record; the host has no symbolic links. An error is the name of the exception.
\<close>

section \<open>The host\<close>

record host =
  ho_cwd :: path
  ho_which :: "string \<Rightarrow> string option"
  ho_exists :: "path \<Rightarrow> bool"
  ho_is_file :: "path \<Rightarrow> bool"
  ho_env :: "string \<Rightarrow> string option"
  ho_executable :: string
  ho_prefix :: string
  ho_base_prefix :: string
  ho_version :: string

definition is_absolute :: "path \<Rightarrow> bool" where
  "is_absolute p \<longleftrightarrow> p \<noteq> [] \<and> hd p \<in> {''/'', ''//''}"

text \<open>\<open>str(path)\<close>, \<open>path.resolve(strict=False)\<close>, \<open>path.parent\<close>, \<open>path.name\<close>\<close>

definition path_str :: "path \<Rightarrow> string" where
  "path_str p = (if p = [] then ''.'' else if is_absolute p then hd p @ join ''/'' (tl p) else join ''/'' p)"

definition full_path :: "host \<Rightarrow> path \<Rightarrow> path" where
  "full_path h p = resolve_path (if is_absolute p then p else ho_cwd h @ p)"

definition path_parent :: "path \<Rightarrow> path" where
  "path_parent p = (if is_absolute p \<and> length p = 1 then p else butlast p)"

definition path_name_of :: "path \<Rightarrow> string" where
  "path_name_of p = (if p = [] \<or> is_absolute p \<and> length p = 1 then [] else last p)"

section \<open>What a payload asks for\<close>

definition SUPPORTED_EXECUTION_BACKENDS :: "string set" where
  "SUPPORTED_EXECUTION_BACKENDS = {''default'', ''system_python'', ''venv_path'', ''uv_project'', ''conda_name'', ''conda_prefix'',
     ''micromamba_prefix''}"

record execution_spec =
  es_backend :: string
  es_target :: "string option"
  es_python :: "string option"

text \<open>\<open>str(v).strip() if v not in {None, ""} else None\<close>; a list or an object is not hashable.\<close>

definition optional_text :: "json option \<Rightarrow> string + string option" where
  "optional_text v =
     (case v of None \<Rightarrow> Inr None | Some JNull \<Rightarrow> Inr None | Some (JList _) \<Rightarrow> Inl ''TypeError'' | Some (JObj _) \<Rightarrow> Inl ''TypeError''
      | Some x \<Rightarrow> Inr (if x = JStr [] then None else Some (strip (py_str x))))"

definition parse_execution_spec :: "dict \<Rightarrow> string + execution_spec" where
  "parse_execution_spec payload =
     (case dict_get payload ''execution'' of
        None \<Rightarrow> Inr \<lparr>es_backend = ''default'', es_target = None, es_python = None\<rparr>
      | Some JNull \<Rightarrow> Inr \<lparr>es_backend = ''default'', es_target = None, es_python = None\<rparr>
      | Some (JObj raw) \<Rightarrow>
          (let b = strip (case dict_get raw ''backend'' of None \<Rightarrow> ''default'' | Some v \<Rightarrow> py_str v);
               backend = (if b = [] then ''default'' else b)
           in if backend \<notin> SUPPORTED_EXECUTION_BACKENDS then Inl ''ValueError''
              else try_then (optional_text (dict_get raw ''target'')) (\<lambda>target.
                try_then (optional_text (dict_get raw ''python'')) (\<lambda>python.
                Inr \<lparr>es_backend = backend, es_target = target, es_python = python\<rparr>)))
      | Some _ \<Rightarrow> Inl ''ValueError'')"

section \<open>Interpreters and paths\<close>

definition resolve_executable :: "host \<Rightarrow> string option \<Rightarrow> string option \<Rightarrow> string option" where
  "resolve_executable h candidate fallback_name =
     (let fallback = (if truthy fallback_name then ho_which h (the fallback_name) else None)
      in if \<not> truthy candidate then fallback
         else (case ho_which h (the candidate) of
             Some r \<Rightarrow> Some r
           | None \<Rightarrow> let p = path_parts (the candidate) in
                      if ho_exists h (full_path h p) then Some (path_str (full_path h p)) else fallback))"

definition usable :: "string option \<Rightarrow> string + string" where
  "usable x = (if truthy x then Inr (the x) else Inl ''ValueError'')"

definition resolve_default_python :: "host \<Rightarrow> agent_settings \<Rightarrow> string + string" where
  "resolve_default_python h ag =
     (if truthy (ag_python_executable ag) then usable (resolve_executable h (ag_python_executable ag) None)
      else Inr (ho_executable h))"

definition resolve_uv_executable :: "host \<Rightarrow> agent_settings \<Rightarrow> string option" where
  "resolve_uv_executable h ag = resolve_executable h (ag_uv_executable ag) (Some ''uv'')"

definition resolve_conda_executable :: "host \<Rightarrow> agent_settings \<Rightarrow> string option" where
  "resolve_conda_executable h ag = resolve_executable h (ag_conda_executable ag) (Some ''conda'')"

definition resolve_micromamba_executable :: "host \<Rightarrow> agent_settings \<Rightarrow> string option" where
  "resolve_micromamba_executable h ag = resolve_executable h (ag_micromamba_executable ag) (Some ''micromamba'')"

definition resolve_path_target :: "host \<Rightarrow> string \<Rightarrow> path \<Rightarrow> path" where
  "resolve_path_target h raw_target base_dir = full_path h (join_path base_dir raw_target)"

definition resolve_venv_python :: "host \<Rightarrow> string \<Rightarrow> path \<Rightarrow> string + path" where
  "resolve_venv_python h raw_target base_dir =
     (let target_path = resolve_path_target h raw_target base_dir;
          candidate = target_path @ [''bin'', ''python'']
      in if ho_is_file h target_path then Inr target_path
         else if ho_exists h candidate then Inr (full_path h candidate)
         else Inl ''ValueError'')"

definition shell_wrapper :: "string \<Rightarrow> string list" where
  "shell_wrapper command_text = [''/bin/bash'', ''-lc'', command_text]"

definition build_venv_env :: "host \<Rightarrow> path \<Rightarrow> (string \<times> string) list" where
  "build_venv_env h venv_python =
     [(''VIRTUAL_ENV'', path_str (path_parent (path_parent venv_python))),
      (''PATH'', join '':'' (filter (\<lambda>part. part \<noteq> []) [path_str (path_parent venv_python), or_else (ho_env h ''PATH'') []]))]"

definition conda_run_prefix :: "string \<Rightarrow> path \<Rightarrow> string \<Rightarrow> string \<Rightarrow> string list" where
  "conda_run_prefix executable workdir flag target = [executable, ''run'', ''--cwd'', path_str workdir, flag, target]"

section \<open>Commands\<close>

record prepared_command =
  pc_command :: "string list"
  pc_env_overrides :: "(string \<times> string) list"
  pc_summary :: dict

definition spec_summary :: "execution_spec \<Rightarrow> dict" where
  "spec_summary spec = [(''backend'', JStr (es_backend spec)), (''target'', opt_json JStr (es_target spec)),
     (''python'', opt_json JStr (es_python spec))]"

definition text_or :: "string option \<Rightarrow> string \<Rightarrow> string" where
  "text_or s d = (if truthy s then the s else d)"

text \<open>The branches \<open>conda_name\<close>, \<open>conda_prefix\<close>, \<open>micromamba_prefix\<close> and \<open>uv_project\<close> find their executable and target first.\<close>

definition prepare_python_command :: "host \<Rightarrow> agent_settings \<Rightarrow> dict \<Rightarrow> string list \<Rightarrow> path \<Rightarrow> string + prepared_command" where
  "prepare_python_command h ag payload argv workdir =
     try_then (parse_execution_spec payload) (\<lambda>spec.
       let summary = spec_summary spec; backend = es_backend spec; python_name = text_or (es_python spec) ''python'' in
       if backend \<in> {''default'', ''system_python''} then
         try_then (if truthy (es_python spec) then Inr (the (es_python spec)) else resolve_default_python h ag) (\<lambda>interpreter.
         try_then (usable (resolve_executable h (Some interpreter) None)) (\<lambda>resolved.
           Inr \<lparr>pc_command = resolved # argv, pc_env_overrides = [], pc_summary = summary @ [(''resolved_python'', JStr resolved)]\<rparr>))
       else if backend = ''venv_path'' then
         (let target = (if truthy (es_target spec) then es_target spec else ag_venv_path ag) in
          if \<not> truthy target then Inl ''ValueError''
          else try_then (resolve_venv_python h (the target) workdir) (\<lambda>venv_python.
            let env = build_venv_env h venv_python in
            Inr \<lparr>pc_command = path_str venv_python # argv, pc_env_overrides = env,
              pc_summary = summary @ [(''resolved_python'', JStr (path_str venv_python)),
                (''resolved_venv'', JStr (the (map_of env ''VIRTUAL_ENV'')))]\<rparr>))
       else if backend = ''uv_project'' then
         try_then (usable (resolve_uv_executable h ag)) (\<lambda>uv.
           let project_dir = resolve_path_target h (text_or (es_target spec) (path_str workdir)) workdir in
           Inr \<lparr>pc_command = [uv, ''run'', ''--project'', path_str project_dir, python_name] @ argv, pc_env_overrides = [],
             pc_summary = summary @ [(''resolved_project'', JStr (path_str project_dir))]\<rparr>)
       else if backend = ''conda_name'' then
         try_then (usable (resolve_conda_executable h ag)) (\<lambda>conda.
           if \<not> truthy (es_target spec) then Inl ''ValueError''
           else Inr \<lparr>pc_command = conda_run_prefix conda workdir ''-n'' (the (es_target spec)) @ python_name # argv,
             pc_env_overrides = [], pc_summary = summary @ [(''resolved_conda'', JStr conda)]\<rparr>)
       else if backend = ''conda_prefix'' then
         try_then (usable (resolve_conda_executable h ag)) (\<lambda>conda.
           if \<not> truthy (es_target spec) then Inl ''ValueError''
           else (let prefix = path_str (resolve_path_target h (the (es_target spec)) workdir) in
             Inr \<lparr>pc_command = conda_run_prefix conda workdir ''-p'' prefix @ python_name # argv, pc_env_overrides = [],
               pc_summary = summary @ [(''resolved_conda'', JStr conda), (''resolved_prefix'', JStr prefix)]\<rparr>))
       else if backend = ''micromamba_prefix'' then
         try_then (usable (resolve_micromamba_executable h ag)) (\<lambda>mm.
           if \<not> truthy (es_target spec) then Inl ''ValueError''
           else (let prefix = path_str (resolve_path_target h (the (es_target spec)) workdir) in
             Inr \<lparr>pc_command = [mm, ''run'', ''-p'', prefix, python_name] @ argv, pc_env_overrides = [],
               pc_summary = summary @ [(''resolved_micromamba'', JStr mm), (''resolved_prefix'', JStr prefix)]\<rparr>))
       else Inl ''ValueError'')"

definition prepare_shell_command :: "host \<Rightarrow> agent_settings \<Rightarrow> dict \<Rightarrow> string \<Rightarrow> path \<Rightarrow> string + prepared_command" where
  "prepare_shell_command h ag payload command_text workdir =
     try_then (parse_execution_spec payload) (\<lambda>spec.
       let summary = spec_summary spec; backend = es_backend spec; wrapped_shell = shell_wrapper command_text in
       if backend \<in> {''default'', ''system_python''} then
         Inr \<lparr>pc_command = wrapped_shell, pc_env_overrides = [], pc_summary = summary\<rparr>
       else if backend = ''venv_path'' then
         (let target = (if truthy (es_target spec) then es_target spec else ag_venv_path ag) in
          if \<not> truthy target then Inl ''ValueError''
          else try_then (resolve_venv_python h (the target) workdir) (\<lambda>venv_python.
            let env = build_venv_env h venv_python in
            Inr \<lparr>pc_command = wrapped_shell, pc_env_overrides = env,
              pc_summary = summary @ [(''resolved_venv'', JStr (the (map_of env ''VIRTUAL_ENV'')))]\<rparr>))
       else if backend = ''uv_project'' then
         try_then (usable (resolve_uv_executable h ag)) (\<lambda>uv.
           let project_dir = resolve_path_target h (text_or (es_target spec) (path_str workdir)) workdir in
           Inr \<lparr>pc_command = [uv, ''run'', ''--project'', path_str project_dir] @ wrapped_shell, pc_env_overrides = [],
             pc_summary = summary @ [(''resolved_project'', JStr (path_str project_dir))]\<rparr>)
       else if backend = ''conda_name'' then
         try_then (usable (resolve_conda_executable h ag)) (\<lambda>conda.
           if \<not> truthy (es_target spec) then Inl ''ValueError''
           else Inr \<lparr>pc_command = conda_run_prefix conda workdir ''-n'' (the (es_target spec)) @ wrapped_shell,
             pc_env_overrides = [], pc_summary = summary @ [(''resolved_conda'', JStr conda)]\<rparr>)
       else if backend = ''conda_prefix'' then
         try_then (usable (resolve_conda_executable h ag)) (\<lambda>conda.
           if \<not> truthy (es_target spec) then Inl ''ValueError''
           else (let prefix = path_str (resolve_path_target h (the (es_target spec)) workdir) in
             Inr \<lparr>pc_command = conda_run_prefix conda workdir ''-p'' prefix @ wrapped_shell, pc_env_overrides = [],
               pc_summary = summary @ [(''resolved_conda'', JStr conda), (''resolved_prefix'', JStr prefix)]\<rparr>))
       else if backend = ''micromamba_prefix'' then
         try_then (usable (resolve_micromamba_executable h ag)) (\<lambda>mm.
           if \<not> truthy (es_target spec) then Inl ''ValueError''
           else (let prefix = path_str (resolve_path_target h (the (es_target spec)) workdir) in
             Inr \<lparr>pc_command = [mm, ''run'', ''-p'', prefix] @ wrapped_shell, pc_env_overrides = [],
               pc_summary = summary @ [(''resolved_micromamba'', JStr mm), (''resolved_prefix'', JStr prefix)]\<rparr>))
       else Inl ''ValueError'')"

section \<open>What the agent announces\<close>

record python_env =
  pe_python_executable :: string
  pe_venv_path :: "string option"
  pe_python_version :: string
  pe_resolution_failed :: bool
  pe_environment_kind :: string
  pe_environment_name :: "string option"
  pe_conda_prefix :: "string option"
  pe_conda_default_env :: "string option"
  pe_mamba_root_prefix :: "string option"
  pe_uv_executable :: "string option"
  pe_conda_executable :: "string option"
  pe_micromamba_executable :: "string option"
  pe_supported_backends :: "string list"

definition supported_backends :: "host \<Rightarrow> agent_settings \<Rightarrow> string list" where
  "supported_backends h ag =
     [''default'', ''system_python'', ''venv_path''] @
     (if truthy (resolve_uv_executable h ag) then [''uv_project''] else []) @
     (if truthy (resolve_conda_executable h ag) then [''conda_name'', ''conda_prefix''] else []) @
     (if truthy (resolve_micromamba_executable h ag) then [''micromamba_prefix''] else [])"

definition active_environment :: "host \<Rightarrow> string option \<Rightarrow> string \<times> string option" where
  "active_environment h detected_venv =
     (let conda_prefix = ho_env h ''CONDA_PREFIX'';
          conda_name = (if truthy (ho_env h ''CONDA_DEFAULT_ENV'') then ho_env h ''CONDA_DEFAULT_ENV''
                        else Some (path_name_of (path_parts (or_else conda_prefix []))))
      in if truthy (ho_env h ''MAMBA_ROOT_PREFIX'') \<and> truthy conda_prefix then (''micromamba'', conda_name)
         else if truthy conda_prefix then (''conda'', conda_name)
         else if truthy detected_venv then (''venv'', Some (path_name_of (path_parts (the detected_venv))))
         else (''system'', None))"

definition detect_python_env :: "host \<Rightarrow> agent_settings \<Rightarrow> python_env" where
  "detect_python_env h ag =
     (let python = resolve_default_python h ag;
          detected_venv = (if \<not> truthy (ag_venv_path ag) \<and> ho_prefix h \<noteq> ho_base_prefix h then Some (ho_prefix h) else ag_venv_path ag);
          active = active_environment h detected_venv
      in \<lparr>pe_python_executable = (case python of Inr p \<Rightarrow> p | Inl _ \<Rightarrow> text_or (ag_python_executable ag) (ho_executable h)),
          pe_venv_path = detected_venv, pe_python_version = ho_version h,
          pe_resolution_failed = (case python of Inl _ \<Rightarrow> True | Inr _ \<Rightarrow> False),
          pe_environment_kind = fst active, pe_environment_name = snd active, pe_conda_prefix = ho_env h ''CONDA_PREFIX'',
          pe_conda_default_env = ho_env h ''CONDA_DEFAULT_ENV'', pe_mamba_root_prefix = ho_env h ''MAMBA_ROOT_PREFIX'',
          pe_uv_executable = resolve_uv_executable h ag, pe_conda_executable = resolve_conda_executable h ag,
          pe_micromamba_executable = resolve_micromamba_executable h ag, pe_supported_backends = supported_backends h ag\<rparr>)"

section \<open>Properties\<close>

lemma spec_supported: "parse_execution_spec payload = Inr spec \<Longrightarrow> es_backend spec \<in> SUPPORTED_EXECUTION_BACKENDS"
  by (auto simp: parse_execution_spec_def try_then_Inr Let_def SUPPORTED_EXECUTION_BACKENDS_def split: option.splits json.splits if_splits)

lemma usable_Inr [simp]: "usable x = Inr y \<longleftrightarrow> truthy x \<and> y = the x"
  by (auto simp: usable_def)

definition uniform :: "host \<Rightarrow> agent_settings \<Rightarrow> dict \<Rightarrow> ('a \<Rightarrow> string list) \<Rightarrow> ('a \<Rightarrow> string + prepared_command) \<Rightarrow> bool" where
  "uniform h ag payload args prepare \<longleftrightarrow>
     (\<exists>e. \<forall>x. prepare x = Inl e) \<or>
     (\<exists>spec prefix env summary. parse_execution_spec payload = Inr spec \<and> es_backend spec \<in> set (supported_backends h ag) \<and>
        (\<forall>x. prepare x = Inr \<lparr>pc_command = prefix @ args x, pc_env_overrides = env, pc_summary = summary\<rparr>))"

text \<open>C34. What the administrator's command says cannot change how it is run: for a payload and a working directory the
  agent either refuses every command alike, or runs each as the same prefix followed by the command, a
  shell text being one single argument of \<open>/bin/bash -lc\<close>; and it does so only in an environment
  that its heartbeat announces.\<close>

theorem command_runs_in_announced_environment:
  "uniform h ag payload shell_wrapper (\<lambda>cmd. prepare_shell_command h ag payload cmd workdir) \<and>
   uniform h ag payload (\<lambda>argv. argv) (\<lambda>argv. prepare_python_command h ag payload argv workdir)"
proof (cases "parse_execution_spec payload")
  case (Inl e)
  then show ?thesis by (simp add: uniform_def prepare_shell_command_def prepare_python_command_def)
next
  case (Inr spec)
  note defs = prepare_shell_command_def prepare_python_command_def uniform_def Inr Let_def supported_backends_def usable_def conda_run_prefix_def
  from spec_supported [OF Inr] consider "es_backend spec \<in> {''default'', ''system_python''}" | "es_backend spec = ''venv_path''"
    | "es_backend spec = ''uv_project''" | "es_backend spec = ''conda_name''" | "es_backend spec = ''conda_prefix''"
    | "es_backend spec = ''micromamba_prefix''" by (auto simp: SUPPORTED_EXECUTION_BACKENDS_def)
  then show ?thesis
  proof cases
    case 1
    define x where "x = try_then (if truthy (es_python spec) then Inr (the (es_python spec)) else resolve_default_python h ag)
      (\<lambda>i. usable (resolve_executable h (Some i) None))"
    have "prepare_python_command h ag payload argv workdir = try_then x (\<lambda>r. Inr \<lparr>pc_command = [r] @ argv, pc_env_overrides = [],
        pc_summary = spec_summary spec @ [(''resolved_python'', JStr r)]\<rparr>)" for argv
      using 1 by (cases "if truthy (es_python spec) then Inr (the (es_python spec)) else resolve_default_python h ag")
        (auto simp: prepare_python_command_def Inr Let_def x_def)
    moreover have "prepare_shell_command h ag payload cmd workdir = Inr \<lparr>pc_command = [] @ shell_wrapper cmd, pc_env_overrides = [],
        pc_summary = spec_summary spec\<rparr>" for cmd using 1 by (auto simp: prepare_shell_command_def Inr Let_def)
    ultimately show ?thesis using 1 by (cases x) (auto simp: uniform_def Inr supported_backends_def)
  next
    case 2
    define target where "target = (if truthy (es_target spec) then es_target spec else ag_venv_path ag)"
    show ?thesis
    proof (cases "truthy target")
      case True
      with 2 show ?thesis
        by (cases "resolve_venv_python h (the target) workdir") (auto simp: defs target_def [symmetric] intro: exI [of _ "[]"])
    next
      case False
      with 2 show ?thesis by (simp add: defs target_def [symmetric])
    qed
  next
    case 3
    then show ?thesis by (cases "truthy (resolve_uv_executable h ag)") (auto simp: defs)
  next
    case 4
    then show ?thesis
      by (cases "truthy (resolve_conda_executable h ag)"; cases "truthy (es_target spec)") (auto simp: defs)
  next
    case 5
    then show ?thesis
      by (cases "truthy (resolve_conda_executable h ag)"; cases "truthy (es_target spec)") (auto simp: defs)
  next
    case 6
    then show ?thesis
      by (cases "truthy (resolve_micromamba_executable h ag)"; cases "truthy (es_target spec)") (auto simp: defs)
  qed
qed

end
