(* ===== verification/Agent_Modal.thy ===== *)
theory Agent_Modal
  imports Agent_Execution
begin

text \<open>
  The pool of Modal credentials of an agent: \<open>node_agent/.../modal_support.py\<close>. The credential file and the
  file with the position in the pool are what \<open>json.loads\<close> makes of them. An error is the name of the
  exception.
\<close>

section \<open>The pool\<close>

record modal_disk =
  md_pool :: "json option"
  md_state :: "json option"

text \<open>\<open>v.get(key)\<close>, and \<open>x or y\<close> of JSON values\<close>

definition get_of :: "json \<Rightarrow> string \<Rightarrow> string + json option" where
  "get_of v key = (case v of JObj d \<Rightarrow> Inr (dict_get d key) | _ \<Rightarrow> Inl ''AttributeError'')"

definition json_or :: "json option \<Rightarrow> json \<Rightarrow> json" where
  "json_or x y = (case x of Some v \<Rightarrow> if json_truth v then v else y | None \<Rightarrow> y)"

definition load_modal_credential_pool :: "agent_settings \<Rightarrow> modal_disk \<Rightarrow> string + json list" where
  "load_modal_credential_pool ag d =
     (if ag_modal_credentials_path ag = None then Inr []
      else try_then (get_of (case md_pool d of None \<Rightarrow> JObj [] | Some v \<Rightarrow> v) ''credentials'') (\<lambda>entries.
        Inr (case entries of Some (JList es) \<Rightarrow> es | _ \<Rightarrow> [])))"

fun enabled_entries :: "json list \<Rightarrow> string + dict list" where
  "enabled_entries [] = Inr []"
| "enabled_entries (e # es) =
     try_then (get_of e ''enabled'') (\<lambda>v.
     try_then (enabled_entries es) (\<lambda>rest.
     Inr (if (case v of None \<Rightarrow> True | Some x \<Rightarrow> json_truth x) then (case e of JObj d \<Rightarrow> d # rest | _ \<Rightarrow> rest) else rest)))"

text \<open>\<open>str(entry.get(key, "")).strip()\<close>\<close>

definition entry_text :: "dict \<Rightarrow> string \<Rightarrow> string" where
  "entry_text entry key = strip (case dict_get entry key of None \<Rightarrow> [] | Some v \<Rightarrow> py_str v)"

section \<open>The choice of a credential\<close>

definition wanted_name :: "agent_settings \<Rightarrow> dict \<Rightarrow> string" where
  "wanted_name ag payload =
     (let explicit_name = strip (py_str (json_or (dict_get payload ''credential_name'')
            (json_or (dict_get payload ''modal_credential_name'') (JStr []))))
      in if explicit_name \<noteq> [] then explicit_name else strip (or_else (ag_modal_default_credential_name ag) []))"

definition next_index_of :: "json option \<Rightarrow> string + int" where
  "next_index_of state =
     try_then (get_of (case state of None \<Rightarrow> JObj [(''next_index'', JInt 0)] | Some v \<Rightarrow> v) ''next_index'') (\<lambda>v.
       case v of None \<Rightarrow> Inr 0 | Some x \<Rightarrow> int_of_json x)"

definition choose_modal_credential :: "agent_settings \<Rightarrow> dict \<Rightarrow> modal_disk \<Rightarrow> (string + dict option) \<times> modal_disk" where
  "choose_modal_credential ag payload d =
     (case try_then (load_modal_credential_pool ag d) enabled_entries of
        Inl e \<Rightarrow> (Inl e, d)
      | Inr entries \<Rightarrow>
          if entries = [] then (Inr None, d)
          else (let wanted = wanted_name ag payload in
            if wanted \<noteq> [] then
              (case List.find (\<lambda>entry. entry_text entry ''name'' = wanted) entries of
                 Some entry \<Rightarrow> (Inr (Some entry), d)
               | None \<Rightarrow> (Inl ''ValueError'', d))
            else (case next_index_of (md_state d) of
                Inl e \<Rightarrow> (Inl e, d)
              | Inr next_index \<Rightarrow>
                  (Inr (Some (entries ! nat (next_index mod int (length entries)))),
                   d\<lparr>md_state := Some (JObj [(''next_index'', JInt ((next_index + 1) mod int (length entries)))])\<rparr>))))"

section \<open>The environment of a task\<close>

type_synonym modal_setup = "(string \<times> string) list \<times> dict"

definition modal_context :: "string option \<Rightarrow> string option \<Rightarrow> string option \<Rightarrow> dict" where
  "modal_context credential_name workspace environment_name =
     [(''credential_name'', opt_json JStr credential_name), (''workspace'', opt_json JStr workspace),
      (''environment'', opt_json JStr environment_name)]"

definition text_given :: "string \<Rightarrow> string option" where
  "text_given s = (if s = [] then None else Some s)"

definition modal_overrides :: "agent_settings \<Rightarrow> dict \<Rightarrow> dict option \<Rightarrow> string + modal_setup" where
  "modal_overrides ag payload chosen =
     (case chosen of
        None \<Rightarrow>
          (if truthy (ag_modal_default_environment ag)
           then Inr ([(''MODAL_ENVIRONMENT'', the (ag_modal_default_environment ag))], modal_context None None (ag_modal_default_environment ag))
           else Inr ([], modal_context None None None))
      | Some entry \<Rightarrow>
          (let token_id = entry_text entry ''token_id''; token_secret = entry_text entry ''token_secret'' in
           if token_id = [] \<or> token_secret = [] then Inl ''ValueError''
           else (let given = json_or (dict_get entry ''workspace'') JNull;
                     workspace = (if given \<noteq> JNull then Some (py_str given)
                                  else if truthy (ag_modal_default_workspace ag) then ag_modal_default_workspace ag else None);
                     environment_name = strip (py_str (json_or (dict_get payload ''modal_environment'')
                       (json_or (dict_get entry ''environment'') (JStr (or_else (ag_modal_default_environment ag) [])))))
                 in Inr ([(''MODAL_TOKEN_ID'', token_id), (''MODAL_TOKEN_SECRET'', token_secret)] @
                      (if environment_name \<noteq> [] then [(''MODAL_ENVIRONMENT'', environment_name)] else []),
                    modal_context (text_given (entry_text entry ''name'')) workspace (text_given environment_name)))))"

definition build_modal_env_overrides :: "agent_settings \<Rightarrow> dict \<Rightarrow> modal_disk \<Rightarrow> (string + modal_setup) \<times> modal_disk" where
  "build_modal_env_overrides ag payload d =
     (case choose_modal_credential ag payload d of (chosen, d') \<Rightarrow> (try_then chosen (modal_overrides ag payload), d'))"

definition collect_modal_runtime_status :: "host \<Rightarrow> agent_settings \<Rightarrow> modal_disk \<Rightarrow> string + dict" where
  "collect_modal_runtime_status h ag d =
     try_then (try_then (load_modal_credential_pool ag d) enabled_entries) (\<lambda>entries.
       Inr [(''deployment_mode'', JStr (effective_deployment_mode (ho_env h) ag)),
         (''modal_cli_available'', JBool (truthy (ho_which h ''modal''))),
         (''credential_pool_size'', JInt (int (length entries))),
         (''default_credential_name'', opt_json JStr (ag_modal_default_credential_name ag)),
         (''default_environment'', opt_json JStr (ag_modal_default_environment ag)),
         (''default_workspace'', opt_json JStr (ag_modal_default_workspace ag)),
         (''credentials_path'', opt_json (\<lambda>p. JStr (path_str p)) (resolve_agent_path (ho_cwd h) (ag_modal_credentials_path ag))),
         (''env_token_id_present'', JBool (truthy (ho_env h ''MODAL_TOKEN_ID''))),
         (''env_token_secret_present'', JBool (truthy (ho_env h ''MODAL_TOKEN_SECRET'')))])"

section \<open>Properties\<close>

text \<open>The choices for a sequence of tasks, one after the other.\<close>

fun choices :: "agent_settings \<Rightarrow> dict list \<Rightarrow> modal_disk \<Rightarrow> (string + dict option) list \<times> modal_disk" where
  "choices ag [] d = ([], d)"
| "choices ag (payload # payloads) d =
     (case choose_modal_credential ag payload d of (c, d') \<Rightarrow>
       (case choices ag payloads d' of (cs, d'') \<Rightarrow> (c # cs, d'')))"

lemma choose_next:
  assumes "try_then (load_modal_credential_pool ag d) enabled_entries = Inr es" and "es \<noteq> []"
    and "wanted_name ag payload = []" and "next_index_of (md_state d) = Inr i"
  shows "choose_modal_credential ag payload d =
    (Inr (Some (es ! nat (i mod int (length es)))),
     d\<lparr>md_state := Some (JObj [(''next_index'', JInt ((i + 1) mod int (length es)))])\<rparr>)"
  using assms by (simp add: choose_modal_credential_def Let_def)

lemma next_index_stored [simp]: "next_index_of (Some (JObj [(''next_index'', JInt i)])) = Inr i"
  by (simp add: next_index_of_def get_of_def dict_get_def int_of_json_def)

lemma choices_cycle:
  assumes "try_then (load_modal_credential_pool ag d) enabled_entries = Inr es" and "es \<noteq> []"
    and "\<forall>p \<in> set payloads. wanted_name ag p = []" and "next_index_of (md_state d) = Inr i"
  shows "fst (choices ag payloads d) =
    map (\<lambda>k. Inr (Some (es ! nat ((i + int k) mod int (length es))))) [0..<length payloads]"
  using assms
proof (induction payloads arbitrary: d i)
  case (Cons p ps)
  define d' where "d' = d\<lparr>md_state := Some (JObj [(''next_index'', JInt ((i + 1) mod int (length es)))])\<rparr>"
  have pool: "load_modal_credential_pool ag d' = load_modal_credential_pool ag d"
    by (simp add: load_modal_credential_pool_def d'_def)
  have "fst (choices ag ps d') = map (\<lambda>k. Inr (Some (es ! nat (((i + 1) mod int (length es) + int k) mod int (length es))))) [0..<length ps]"
    by (rule Cons.IH) (use Cons.prems pool in \<open>auto simp: d'_def\<close>)
  also have "\<dots> = map (\<lambda>k. Inr (Some (es ! nat ((i + int (Suc k)) mod int (length es))))) [0..<length ps]"
  proof -
    have "((i + 1) mod int (length es) + int k) mod int (length es) = (i + int (Suc k)) mod int (length es)" for k
      unfolding mod_add_left_eq by (simp add: algebra_simps)
    then show ?thesis by (simp only:)
  qed
  finally show ?case
    using choose_next [of ag d es p i] Cons.prems
    by (simp add: d'_def [symmetric] split_beta map_upt_Suc del: upt_Suc)
qed simp

lemma rotation:
  assumes "es \<noteq> []"
  shows "map (\<lambda>k. es ! nat ((a + int k) mod int (length es))) [0..<length es] = rotate (nat (a mod int (length es))) es"
proof (rule nth_equalityI)
  fix k assume "k < length (map (\<lambda>k. es ! nat ((a + int k) mod int (length es))) [0..<length es])"
  then have k: "k < length es" by simp
  have n: "0 < int (length es)" using assms by simp
  have "(nat (a mod int (length es)) + k) mod length es = nat ((a mod int (length es) + int k) mod int (length es))"
    using pos_mod_sign [OF n, of a] by (simp add: nat_mod_distrib nat_add_distrib)
  also have "\<dots> = nat ((a + int k) mod int (length es))" by (simp add: mod_add_left_eq)
  finally show "map (\<lambda>k. es ! nat ((a + int k) mod int (length es))) [0..<length es] ! k =
      rotate (nat (a mod int (length es))) es ! k"
    using k by (simp add: nth_rotate)
qed simp

text \<open>Modal tasks that name no credential share the pool fairly: among any \<open>n\<close> consecutive ones, \<open>n\<close> being the
  number of enabled credentials, every credential is used exactly once, in the order of the pool from the
  stored position on.\<close>

theorem credentials_used_in_turn:
  assumes "try_then (load_modal_credential_pool ag d) enabled_entries = Inr es" and "es \<noteq> []"
    and "\<forall>p \<in> set payloads. wanted_name ag p = []" and "next_index_of (md_state d) = Inr i"
    and "j + length es \<le> length payloads"
  shows "take (length es) (drop j (fst (choices ag payloads d))) =
    map (Inr \<circ> Some) (rotate (nat ((i + int j) mod int (length es))) es)"
proof -
  have "take (length es) (drop j (fst (choices ag payloads d))) =
      map (\<lambda>k. Inr (Some (es ! nat ((i + int k) mod int (length es))))) [j..<j + length es]"
    using assms(5) unfolding choices_cycle [OF assms(1-4)] by (simp add: drop_map take_map drop_upt take_upt)
  also have "\<dots> = map (\<lambda>k. Inr (Some (es ! nat (((i + int j) + int k) mod int (length es))))) [0..<length es]"
    by (rule nth_equalityI) (simp_all add: algebra_simps)
  also have "\<dots> = map (Inr \<circ> Some) (map (\<lambda>k. es ! nat (((i + int j) + int k) mod int (length es))) [0..<length es])" by simp
  finally show ?thesis unfolding rotation [OF assms(2)] .
qed

lemma credentials_used_in_turn_witness:
  "(let ag = default_agent_settings\<lparr>ag_modal_credentials_path := Some ''pool.json''\<rparr>;
        a = [(''name'', JStr ''a'')]; b = [(''name'', JStr ''b'')];
        d = \<lparr>md_pool = Some (JObj [(''credentials'', JList [JObj a, JObj [(''enabled'', JBool False)], JObj b])]), md_state = None\<rparr>
    in take 2 (drop 1 (fst (choices ag [[], [], []] d))) = [Inr (Some b), Inr (Some a)])"
proof -
  let ?ag = "default_agent_settings\<lparr>ag_modal_credentials_path := Some ''pool.json''\<rparr>"
  let ?a = "[(''name'', JStr ''a'')]" and ?b = "[(''name'', JStr ''b'')]"
  let ?d = "\<lparr>md_pool = Some (JObj [(''credentials'', JList [JObj ?a, JObj [(''enabled'', JBool False)], JObj ?b])]), md_state = None\<rparr>"
  have 1: "try_then (load_modal_credential_pool ?ag ?d) enabled_entries = Inr [?a, ?b]"
    by (simp add: load_modal_credential_pool_def get_of_def dict_get_def)
  have 2: "\<forall>p \<in> set [[], [], []]. wanted_name ?ag p = []"
    by (simp add: wanted_name_def dict_get_def json_or_def default_agent_settings_def strip_def py_str_def)
  have 3: "next_index_of (md_state ?d) = Inr 0" by (simp add: next_index_of_def get_of_def dict_get_def int_of_json_def)
  from credentials_used_in_turn [OF 1 _ 2 3, of 1] show ?thesis by (simp add: Let_def numeral_2_eq_2)
qed

end
