(* ===== verification/Agent_Disk.thy ===== *)
theory Agent_Disk
  imports Agent_Modal "HOL-Library.AList" "HOL-Library.Sublist"
begin

text \<open>
  The file system under the agent, as far as \<open>pathlib\<close>, \<open>shutil\<close> and \<open>zipfile\<close> use it: folders and files
  at absolute paths, no links, permissions and quotas. Every error of the operating system is \<open>OSError\<close>.
  \<open>confined\<close> is what the file tasks of the agent owe: whatever they do, happens below the allowed roots.
\<close>

section \<open>Folders and files\<close>

datatype entry = Folder | File_Of bytes

type_synonym disk = "(path \<times> entry) list"

definition is_folder :: "path \<Rightarrow> disk \<Rightarrow> bool" where
  "is_folder p fs \<longleftrightarrow> map_of fs p = Some Folder"

definition read_bytes :: "path \<Rightarrow> (disk, string, bytes) act" where
  "read_bytes p fs = (case map_of fs p of Some (File_Of b) \<Rightarrow> (Inr b, fs) | _ \<Rightarrow> (Inl ''OSError'', fs))"

text \<open>\<open>path.mkdir(parents=True, exist_ok=True)\<close>\<close>

definition make_dirs :: "path \<Rightarrow> (disk, string, unit) act" where
  "make_dirs p fs =
     (if list_ex (\<lambda>q. case map_of fs q of Some (File_Of _) \<Rightarrow> True | _ \<Rightarrow> False) (prefixes p) then (Inl ''OSError'', fs)
      else (Inr (), fold (\<lambda>q fs. AList.update q Folder fs) (filter (\<lambda>q. q \<noteq> [] \<and> map_of fs q = None) (prefixes p)) fs))"

definition write_bytes :: "path \<Rightarrow> bytes \<Rightarrow> (disk, string, unit) act" where
  "write_bytes p b fs =
     (if is_folder p fs \<or> \<not> is_folder (butlast p) fs then (Inl ''OSError'', fs) else (Inr (), AList.update p (File_Of b) fs))"

definition remove_file :: "path \<Rightarrow> (disk, string, unit) act" where
  "remove_file p fs =
     (case map_of fs p of Some (File_Of _) \<Rightarrow> (Inr (), AList.delete p fs) | _ \<Rightarrow> (Inl ''OSError'', fs))"

text \<open>\<open>shutil.rmtree\<close>: the root itself cannot go, but all below it does.\<close>

definition remove_tree :: "path \<Rightarrow> (disk, string, unit) act" where
  "remove_tree p fs =
     (if length p = 1 then (Inl ''OSError'', filter (\<lambda>(q, _). \<not> strict_prefix p q) fs)
      else (Inr (), filter (\<lambda>(q, _). \<not> prefix p q) fs))"

text \<open>
  \<open>os.rename\<close>, and \<open>shutil.move\<close> to a place whose parent exists; its fallback, a copy, then fails in the same
  cases.
\<close>

definition move_key :: "path \<Rightarrow> path \<Rightarrow> path \<Rightarrow> path" where
  "move_key s t q = (if prefix s q then t @ drop (length s) q else q)"

definition rename_path :: "path \<Rightarrow> path \<Rightarrow> (disk, string, unit) act" where
  "rename_path s t fs =
     (if \<not> is_folder (butlast t) fs then (Inl ''OSError'', fs)
      else case map_of fs s of
        None \<Rightarrow> (Inl ''OSError'', fs)
      | Some (File_Of b) \<Rightarrow>
          if is_folder t fs then (Inl ''OSError'', fs)
          else if s = t then (Inr (), fs) else (Inr (), AList.update t (File_Of b) (AList.delete s fs))
      | Some Folder \<Rightarrow>
          if prefix s t then (Inl ''Error'', fs)
          else if map_of fs t \<noteq> None then (Inl ''OSError'', fs)
          else (Inr (), map (\<lambda>(q, e). (move_key s t q, e)) fs))"

definition move_path :: "path \<Rightarrow> path \<Rightarrow> (disk, string, unit) act" where
  "move_path s t fs =
     (if \<not> is_folder t fs then rename_path s t fs
      else if s = t then (Inr (), fs)
      else if map_of fs (t @ [last s]) \<noteq> None then (Inl ''Error'', fs)
      else rename_path s (t @ [last s]) fs)"

text \<open>\<open>ZipFile.extractall\<close> of the members \<open>(name, content)\<close>, a folder being a name that ends in a slash\<close>

definition member_path :: "path \<Rightarrow> string \<Rightarrow> path" where
  "member_path dir name = dir @ filter (\<lambda>c. c \<notin> {[], ''.'', ''..''}) (split_on (CHR ''/'') name)"

definition extract_member :: "path \<Rightarrow> string \<times> bytes \<Rightarrow> (disk, string, unit) act" where
  "extract_member dir m =
     (let p = member_path dir (fst m) in
      andthen (\<lambda>fs. if map_of fs (butlast p) \<noteq> None then (Inr (), fs) else make_dirs (butlast p) fs) (\<lambda>_ fs.
        if fst m \<noteq> [] \<and> last (fst m) = CHR ''/''
        then (if is_folder p fs then (Inr (), fs)
              else if map_of fs p \<noteq> None \<or> \<not> is_folder (butlast p) fs then (Inl ''OSError'', fs)
              else (Inr (), AList.update p Folder fs))
        else if p = dir then (Inl ''OSError'', fs)
        else write_bytes p (snd m) fs))"

fun extract_all :: "path \<Rightarrow> (string \<times> bytes) list \<Rightarrow> (disk, string, unit) act" where
  "extract_all dir [] = ok ()"
| "extract_all dir (m # ms) = andthen (extract_member dir m) (\<lambda>_. extract_all dir ms)"

section \<open>Confinement\<close>

text \<open>Outside the roots nothing changes, except that a folder may appear on the way to a root.\<close>

definition kept :: "path list \<Rightarrow> disk \<Rightarrow> disk \<Rightarrow> bool" where
  "kept roots fs fs' \<longleftrightarrow> (\<forall>q. (\<forall>r \<in> set roots. \<not> prefix r q) \<longrightarrow>
     map_of fs' q = map_of fs q \<or> map_of fs q = None \<and> map_of fs' q = Some Folder \<and> (\<exists>r \<in> set roots. prefix q r))"

definition inside :: "path list \<Rightarrow> path \<Rightarrow> bool" where
  "inside roots p \<longleftrightarrow> (\<exists>r \<in> set roots. prefix r p)"

definition confined :: "path list \<Rightarrow> (disk, string, 'a) act \<Rightarrow> bool" where
  "confined roots m \<longleftrightarrow> (\<forall>fs. kept roots fs (snd (m fs)))"

lemma kept_refl [simp]: "kept roots fs fs"
  by (simp add: kept_def)

lemma kept_trans: "kept roots fs fs' \<Longrightarrow> kept roots fs' fs'' \<Longrightarrow> kept roots fs fs''"
  unfolding kept_def by (metis option.distinct(1))

lemma kept_inside: "(\<And>q. \<not> inside roots q \<Longrightarrow> map_of fs' q = map_of fs q) \<Longrightarrow> kept roots fs fs'"
  by (auto simp: kept_def inside_def)

lemma inside_prefix: "inside roots p \<Longrightarrow> prefix p q \<Longrightarrow> inside roots q"
  by (auto simp: inside_def intro: prefix_order.trans)

lemma map_of_filter_key: "map_of (filter (\<lambda>(q, _). P q) fs) p = (if P p then map_of fs p else None)"
  by (induction fs) auto

lemma map_of_move_key:
  assumes "\<not> prefix s q" and "\<not> prefix t q"
  shows "map_of (map (\<lambda>(p, e). (move_key s t p, e)) fs) q = map_of fs q"
  using assms by (induction fs) (auto simp: move_key_def)

lemma map_of_make_dirs:
  "map_of (fold (\<lambda>q fs. AList.update q Folder fs) qs fs) q = (if q \<in> set qs then Some Folder else map_of fs q)"
  by (induction qs arbitrary: fs) (auto simp: update_conv')

lemma confined_andthen:
  assumes "confined roots m" and "\<And>x. confined roots (k x)"
  shows "confined roots (andthen m k)"
  unfolding confined_def
proof
  fix fs
  obtain r fs1 where m: "m fs = (r, fs1)" by fastforce
  have 1: "kept roots fs fs1" using assms(1) m by (metis confined_def snd_conv)
  show "kept roots fs (snd (andthen m k fs))"
  proof (cases r)
    case (Inr x)
    have "kept roots fs1 (snd (k x fs1))" using assms(2) by (simp add: confined_def)
    with 1 have "kept roots fs (snd (k x fs1))" by (rule kept_trans)
    then show ?thesis by (simp add: andthen_def m Inr)
  qed (simp add: andthen_def m 1)
qed

lemma confined_ok: "confined roots (ok x)"
  by (simp add: confined_def ok_def)

lemma confined_read: "confined roots (read_bytes p)"
  by (simp add: confined_def read_bytes_def split: option.split entry.split)

lemma confined_make_above:
  assumes "inside roots p" and "prefix q p"
  shows "confined roots (make_dirs q)"
  using assms unfolding confined_def kept_def inside_def make_dirs_def
  by (auto simp: map_of_make_dirs dest: prefix_same_cases prefix_order.trans)

lemma confined_make_dirs: "inside roots p \<Longrightarrow> confined roots (make_dirs p)"
  by (rule confined_make_above [of roots p p]) simp_all

lemma confined_make_parent: "inside roots p \<Longrightarrow> confined roots (make_dirs (path_parent p))"
proof (rule confined_make_above [of roots p])
  show "prefix (path_parent p) p" by (auto simp: path_parent_def prefixeq_butlast)
qed

lemma confined_write: "inside roots p \<Longrightarrow> confined roots (write_bytes p b)"
  by (auto simp: confined_def write_bytes_def update_conv' intro!: kept_inside)

lemma confined_remove_file: "inside roots p \<Longrightarrow> confined roots (remove_file p)"
  by (auto simp: confined_def remove_file_def delete_conv' intro!: kept_inside split: option.split entry.split)

lemma confined_remove_tree: "inside roots p \<Longrightarrow> confined roots (remove_tree p)"
  by (auto simp: confined_def remove_tree_def map_of_filter_key strict_prefix_def intro!: kept_inside dest: inside_prefix)

lemma confined_rename: "inside roots s \<Longrightarrow> inside roots t \<Longrightarrow> confined roots (rename_path s t)"
  by (auto simp: confined_def rename_path_def update_conv' delete_conv' intro!: kept_inside map_of_move_key dest: inside_prefix
      split: option.split entry.split)

lemma confined_move: "inside roots s \<Longrightarrow> inside roots t \<Longrightarrow> confined roots (move_path s t)"
  using confined_rename [of roots s t] confined_rename [of roots s "t @ [last s]"] inside_prefix [of roots t "t @ [last s]"]
  by (simp add: confined_def move_path_def)

lemma member_inside: "inside roots dir \<Longrightarrow> inside roots (member_path dir name)"
  by (rule inside_prefix) (auto simp: member_path_def)

lemma confined_extract_member:
  assumes "inside roots dir"
  shows "confined roots (extract_member dir m)"
proof -
  define p where "p = member_path dir (fst m)"
  have b: "inside roots p" unfolding p_def by (rule member_inside [OF assms])
  have parent: "confined roots (make_dirs (butlast p))" using b by (rule confined_make_above) (rule prefixeq_butlast)
  have out: "confined roots (write_bytes p (snd m))" by (rule confined_write [OF b])
  have folder: "kept roots fs (AList.update p Folder fs)" for fs
    using b by (auto simp: update_conv' intro!: kept_inside)
  show ?thesis
    unfolding extract_member_def Let_def p_def [symmetric]
  proof (rule confined_andthen)
    show "confined roots (\<lambda>fs. if map_of fs (butlast p) \<noteq> None then (Inr (), fs) else make_dirs (butlast p) fs)"
      using parent by (simp add: confined_def)
  qed (use out folder in \<open>simp add: confined_def\<close>)
qed

lemma confined_extract_all: "inside roots dir \<Longrightarrow> confined roots (extract_all dir ms)"
  by (induction ms) (simp_all add: confined_ok confined_andthen confined_extract_member)

lemmas confined_rules = confined_andthen confined_ok confined_read confined_make_dirs confined_make_parent confined_write confined_remove_file
  confined_remove_tree confined_move confined_extract_all

end
