(* ===== verification/Agent_Files.thy ===== *)
theory Agent_Files
  imports Agent_Disk Agent_Logs Node_Runtime
begin

text \<open>
  The tasks that the agent carries out itself, on files: \<open>runner/artifact.py\<close>. The codecs of Python, the
  reader of zip archives, the network and the probes of a health check are parameters. A task may only
  touch what lies below the agent's folders and its own working directory.
\<close>

section \<open>The machine\<close>

record codec =
  co_encode :: "utext \<Rightarrow> bytes option"
  co_decode :: "bytes \<Rightarrow> utext option"
  co_replace :: "bytes \<Rightarrow> utext"

record machine =
  mc_host :: host
  mc_codec :: "string \<Rightarrow> codec option"
  mc_unzip :: "bytes \<Rightarrow> (string \<times> bytes) list option"
  mc_fetch :: "string \<Rightarrow> int \<Rightarrow> string + bytes \<times> string option"
  mc_health :: "string + dict"

text \<open>The state: the disk and the outside, to which \<open>post\<close> sends an artifact.\<close>

type_synonym 'w artifact_poster = "dict \<Rightarrow> 'w \<Rightarrow> (client_error + dict) \<times> 'w"

definition on_disk :: "(disk, string, 'a) act \<Rightarrow> (disk \<times> 'w, string, 'a) act" where
  "on_disk m s = (case m (fst s) of (r, fs) \<Rightarrow> (r, fs, snd s))"

definition post_artifact :: "'w artifact_poster \<Rightarrow> dict \<Rightarrow> (disk \<times> 'w, string, unit) act" where
  "post_artifact post payload s =
     (case post payload (snd s) of (r, w) \<Rightarrow> (case r of Inl _ \<Rightarrow> Inl ''RequestException'' | Inr _ \<Rightarrow> Inr (), fst s, w))"

definition lift_error :: "string + 'a \<Rightarrow> ('s, string, 'a) act" where
  "lift_error r s = (r, s)"

section \<open>Paths\<close>

definition safe_task_name :: "string \<Rightarrow> string" where
  "safe_task_name task_id = map (\<lambda>ch. let n = (of_char ch :: nat) in
     if 48 \<le> n \<and> n \<le> 57 \<or> 65 \<le> n \<and> n \<le> 90 \<or> 97 \<le> n \<and> n \<le> 122 \<or> ch = CHR ''-'' \<or> ch = CHR ''_'' then ch else CHR ''_'') task_id"

fun payload_value :: "dict \<Rightarrow> string list \<Rightarrow> json" where
  "payload_value payload [] = JNull"
| "payload_value payload (key # ks) = (case dict_get payload key of Some v \<Rightarrow> v | None \<Rightarrow> payload_value payload ks)"

text \<open>\<open>timestamp\<close> is the local time as \<open>%Y%m%d_%H%M%S\<close>.\<close>

definition prepare_run_dir :: "host \<Rightarrow> agent_settings \<Rightarrow> string \<Rightarrow> string \<Rightarrow> (disk \<times> 'w, string, path) act" where
  "prepare_run_dir h ag timestamp task_id =
     (let run_dir = path_parts (ag_runs_dir ag) @ [timestamp @ ''_'' @ safe_task_name task_id] in
      andthen (on_disk (make_dirs (full_path h run_dir))) (\<lambda>_. ok run_dir))"

definition resolve_workdir :: "task_envelope \<Rightarrow> path \<Rightarrow> path" where
  "resolve_workdir task run_dir = (if truthy (tv_workdir task) then path_parts (the (tv_workdir task)) else run_dir)"

definition task_extra_roots :: "task_envelope \<Rightarrow> string list" where
  "task_extra_roots task = (if truthy (tv_workdir task) then [the (tv_workdir task)] else [])"

definition allowed_roots :: "host \<Rightarrow> agent_settings \<Rightarrow> string list \<Rightarrow> path list" where
  "allowed_roots h ag extra_roots =
     map (\<lambda>p. full_path h (path_parts p))
       ([ag_agent_root ag, ag_repos_dir ag, ag_runs_dir ag, ag_artifacts_dir ag, ag_logs_dir ag, ag_state_dir ag] @ extra_roots)"

definition is_within :: "host \<Rightarrow> path \<Rightarrow> path \<Rightarrow> bool" where
  "is_within h child parent \<longleftrightarrow> prefix (full_path h parent) (full_path h child)"

text \<open>The parameter \<open>allow_missing\<close> of the code chooses between two spellings of the same resolution.\<close>

definition resolve_safe_path :: "host \<Rightarrow> agent_settings \<Rightarrow> string list \<Rightarrow> string \<Rightarrow> string + path" where
  "resolve_safe_path h ag extra_roots raw_path =
     (let resolved = full_path h (path_parts raw_path)
      in if list_ex (is_within h resolved) (allowed_roots h ag extra_roots) then Inr resolved else Inl ''ValueError'')"

section \<open>Text files\<close>

definition encoding_of :: "dict \<Rightarrow> string" where
  "encoding_of payload = (case dict_get payload ''encoding'' of None \<Rightarrow> ''utf-8'' | Some v \<Rightarrow> py_str v)"

text \<open>\<open>path.write_text\<close>: the file is opened, and so emptied, before the codec is looked up and used.\<close>

definition write_text :: "machine \<Rightarrow> path \<Rightarrow> string \<Rightarrow> utext \<Rightarrow> (disk, string, unit) act" where
  "write_text mc p encoding txt =
     andthen (write_bytes p []) (\<lambda>_.
       case mc_codec mc encoding of
         None \<Rightarrow> raise ''LookupError''
       | Some c \<Rightarrow> (case co_encode c txt of None \<Rightarrow> raise ''UnicodeEncodeError'' | Some b \<Rightarrow> write_bytes p b))"

definition read_text_file :: "machine \<Rightarrow> path \<Rightarrow> string \<Rightarrow> bool \<Rightarrow> (disk, string, utext) act" where
  "read_text_file mc p encoding replace =
     andthen (read_bytes p) (\<lambda>b.
       case mc_codec mc encoding of
         None \<Rightarrow> raise ''LookupError''
       | Some c \<Rightarrow> if replace then ok (universal_newlines (co_replace c b))
                   else (case co_decode c b of None \<Rightarrow> raise ''UnicodeDecodeError'' | Some t \<Rightarrow> ok (universal_newlines t)))"

text \<open>\<open>source.replace(old, new, count)\<close> with a count that is not negative\<close>

fun interleave :: "nat \<Rightarrow> 'a list \<Rightarrow> 'a list \<Rightarrow> 'a list" where
  "interleave 0 new s = s"
| "interleave (Suc n) new [] = new"
| "interleave (Suc n) new (c # s) = new @ c # interleave n new s"

function replace_nonempty :: "nat \<Rightarrow> 'a list \<Rightarrow> 'a list \<Rightarrow> 'a list \<Rightarrow> 'a list" where
  "replace_nonempty n old new s =
     (if n = 0 \<or> old = [] \<or> s = [] then s
      else if take (length old) s = old then new @ replace_nonempty (n - 1) old new (drop (length old) s)
      else hd s # replace_nonempty n old new (tl s))"
  by pat_completeness auto

termination by (relation "measure (\<lambda>(n, old, new, s). length s)") auto

declare replace_nonempty.simps [simp del]

definition str_replace :: "'a list \<Rightarrow> 'a list \<Rightarrow> 'a list \<Rightarrow> nat \<Rightarrow> 'a list" where
  "str_replace old new s n = (if old = [] then interleave n new s else replace_nonempty n old new s)"

text \<open>\<open>json.dumps(value, ensure_ascii=False, indent=2)\<close>, at a depth\<close>

definition pretty_lines :: "nat \<Rightarrow> string \<Rightarrow> string \<Rightarrow> string list \<Rightarrow> string" where
  "pretty_lines depth l r items =
     (if items = [] then l @ r
      else l @ [CHR 10] @ join ('','' @ [CHR 10]) (map (\<lambda>i. replicate (2 * (depth + 1)) (CHR '' '') @ i) items) @
        [CHR 10] @ replicate (2 * depth) (CHR '' '') @ r)"

fun dumps_indent :: "nat \<Rightarrow> json \<Rightarrow> string" where
  "dumps_indent depth (JList xs) = pretty_lines depth ''['' '']'' (map (dumps_indent (depth + 1)) xs)"
| "dumps_indent depth (JObj d) = pretty_lines depth ''{'' ''}'' (map (\<lambda>(k, v). json_string k @ '': '' @ dumps_indent (depth + 1) v) d)"
| "dumps_indent depth v = dumps v"

section \<open>The file tasks\<close>

text \<open>Slices \<open>xs[:n]\<close>, the suffix of a path, the entries of a folder in the order of the preview\<close>

definition slice_to :: "int \<Rightarrow> 'a list \<Rightarrow> 'a list" where
  "slice_to n xs = take (nat (if n < 0 then max 0 (int (length xs) + n) else n)) xs"

definition path_suffix :: "path \<Rightarrow> string" where
  "path_suffix p =
     (let name = path_name_of p; ext = takeWhile (\<lambda>c. c \<noteq> CHR ''.'') (rev name)
      in if ext \<noteq> [] \<and> length ext + 1 < length name then CHR ''.'' # rev ext else [])"

definition folder_entries :: "path \<Rightarrow> disk \<Rightarrow> (path \<times> entry) list" where
  "folder_entries p fs = order_by (\<lambda>(q, _). lower (last q)) (filter (\<lambda>(q, _). prefix p q \<and> length q = length p + 1) fs)"

definition entry_json :: "path \<times> entry \<Rightarrow> json" where
  "entry_json x = (case x of (q, e) \<Rightarrow>
     JObj [(''name'', JStr (last q)), (''is_dir'', JBool (e = Folder)),
       (''size_bytes'', case e of File_Of b \<Rightarrow> JInt (int (length b)) | Folder \<Rightarrow> JNull)])"

definition int_value :: "json \<Rightarrow> string + int" where
  "int_value v = int_of_json v"

definition default_value :: "dict \<Rightarrow> string \<Rightarrow> json \<Rightarrow> json" where
  "default_value payload key d = (case dict_get payload key of None \<Rightarrow> d | Some v \<Rightarrow> v)"

definition required :: "json \<Rightarrow> ('s, string, unit) act" where
  "required v = (if json_truth v then ok () else raise ''ValueError'')"

definition on_unzipped :: "machine \<Rightarrow> path \<Rightarrow> path \<Rightarrow> (disk, string, unit) act" where
  "on_unzipped mc archive target_dir =
     andthen (read_bytes archive) (\<lambda>b.
       case mc_unzip mc b of None \<Rightarrow> raise ''BadZipFile'' | Some ms \<Rightarrow> extract_all target_dir ms)"

definition unpack :: "machine \<Rightarrow> path \<Rightarrow> path \<Rightarrow> (disk \<times> 'w, string, unit) act" where
  "unpack mc archive target_dir =
     andthen (on_disk (make_dirs target_dir)) (\<lambda>_.
     andthen (if lower (path_suffix archive) \<noteq> ''.zip'' then raise ''ValueError'' else ok ()) (\<lambda>_.
     on_disk (on_unzipped mc archive target_dir)))"

definition preview_folder :: "'w artifact_poster \<Rightarrow> task_envelope \<Rightarrow> path \<Rightarrow> (disk \<times> 'w, string, dict) act" where
  "preview_folder post task target =
     andthen (lift_error (int_value (default_value (tv_payload task) ''limit'' (JInt 50)))) (\<lambda>limit s.
       let entries = map entry_json (slice_to limit (folder_entries target (fst s)));
           preview = [(''path'', JStr (path_str target)), (''entry_count'', JInt (int (length entries)))];
           preview_bytes = str_utf8 (dumps_indent 0 (JObj [(''path'', JStr (path_str target)), (''entries'', JList entries)]))
       in andthen (post_artifact post (artifact_upload_payload (tv_task_id task) ''file_preview.json'' ''file_preview'' preview_bytes
            (Some ''application/json'') (Some preview))) (\<lambda>_. ok preview) s)"

definition preview_file :: "machine \<Rightarrow> 'w artifact_poster \<Rightarrow> task_envelope \<Rightarrow> path \<Rightarrow> (disk \<times> 'w, string, dict) act" where
  "preview_file mc post task target =
     andthen (on_disk (read_text_file mc target (encoding_of (tv_payload task)) True)) (\<lambda>txt.
     andthen (lift_error (int_value (let v = payload_value (tv_payload task) [''max_chars'', ''max_bytes'']
                in if json_truth v then v else JInt 4000))) (\<lambda>max_chars.
       let preview_text = slice_to max_chars txt;
           preview = [(''path'', JStr (path_str target)), (''chars'', JInt (int (length preview_text)))]
       in andthen (post_artifact post (artifact_upload_payload (tv_task_id task) (path_name_of target @ ''.preview.txt'') ''file_preview''
            (utf8_encode preview_text) (Some ''text/plain'') (Some preview))) (\<lambda>_. ok preview)))"

definition download_to :: "machine \<Rightarrow> 'w artifact_poster \<Rightarrow> task_envelope \<Rightarrow> string \<Rightarrow> path \<Rightarrow> (disk \<times> 'w, string, dict) act" where
  "download_to mc post task url target_path =
     andthen (on_disk (make_dirs (path_parent target_path))) (\<lambda>_.
     andthen (lift_error (int_value (default_value (tv_payload task) ''timeout_sec'' (JInt 60)))) (\<lambda>timeout.
     andthen (lift_error (mc_fetch mc url timeout)) (\<lambda>(content, content_type).
     andthen (on_disk (write_bytes target_path content)) (\<lambda>_.
       let preview = [(''url'', JStr url), (''target_path'', JStr (path_str target_path)),
             (''size_bytes'', JInt (int (length content))), (''content_type'', opt_json JStr content_type)]
       in andthen (post_artifact post (artifact_upload_payload (tv_task_id task) (path_name_of target_path @ ''.download.json'')
            ''download_summary'' (str_utf8 (dumps_indent 0 (JObj preview))) (Some ''application/json'') (Some preview)))
            (\<lambda>_. ok preview)))))"

definition patch_text :: "machine \<Rightarrow> dict \<Rightarrow> path \<Rightarrow> (disk, string, unit) act" where
  "patch_text mc payload target =
     andthen (read_text_file mc target (encoding_of payload) False) (\<lambda>source.
       let old_text = of_string (py_str (json_or (Some (payload_value payload [''old_text'', ''anchor''])) (JStr [])));
           new_text = of_string (py_str (json_or (Some (payload_value payload [''new_text'', ''replacement''])) (JStr [])));
           count = (if json_truth (default_value payload ''replace_all'' JNull) then length source + 1 else 1)
       in if \<not> contains old_text source then raise ''ValueError''
          else write_text mc target (encoding_of payload) (str_replace old_text new_text source count))"

definition execute_native_task ::
  "machine \<Rightarrow> agent_settings \<Rightarrow> 'w artifact_poster \<Rightarrow> task_envelope \<Rightarrow> (disk \<times> 'w, string, dict option) act" where
  "execute_native_task mc ag post task =
     (let payload = tv_payload task; ty = tv_type task;
          safe = (\<lambda>raw. lift_error (resolve_safe_path (mc_host mc) ag (task_extra_roots task) (py_str raw)));
          path_raw = payload_value payload [''path'', ''target_path''];
          text = (\<lambda>k p. (k, JStr (path_str p)))
      in if ty = ''health_check'' then andthen (lift_error (mc_health mc)) (\<lambda>d. ok (Some d))
         else if ty = ''file_mkdir'' then
           andthen (required path_raw) (\<lambda>_. andthen (safe path_raw) (\<lambda>target.
           andthen (on_disk (make_dirs target)) (\<lambda>_. ok (Some [text ''path'' target, (''created'', JBool True)]))))
         else if ty = ''file_write'' then
           andthen (required path_raw) (\<lambda>_. andthen (safe path_raw) (\<lambda>target.
           andthen (on_disk (make_dirs (path_parent target))) (\<lambda>_.
             let content = of_string (py_str (default_value payload ''content'' (JStr []))) in
             andthen (on_disk (write_text mc target (encoding_of payload) content)) (\<lambda>_.
             ok (Some [text ''path'' target, (''bytes'', JInt (int (length (utf8_encode content))))])))))
         else if ty = ''file_patch_text'' then
           andthen (required path_raw) (\<lambda>_. andthen (safe path_raw) (\<lambda>target.
           andthen (on_disk (patch_text mc payload target)) (\<lambda>_.
             ok (Some [text ''path'' target, (''replaced'', JBool True)]))))
         else if ty = ''file_move'' then
           (let source_raw = payload_value payload [''source'', ''source_path'']; target_raw = payload_value payload [''target'', ''target_path'']
            in andthen (required source_raw) (\<lambda>_. andthen (required target_raw) (\<lambda>_.
               andthen (safe source_raw) (\<lambda>source. andthen (safe target_raw) (\<lambda>target.
               andthen (on_disk (make_dirs (path_parent target))) (\<lambda>_.
               andthen (on_disk (move_path source target)) (\<lambda>_.
               ok (Some [text ''source'' source, text ''target'' target]))))))))
         else if ty = ''file_delete'' then
           andthen (required path_raw) (\<lambda>_. andthen (safe path_raw) (\<lambda>target s.
             if is_folder target (fst s)
             then andthen (on_disk (remove_tree target)) (\<lambda>_. ok (Some [text ''path'' target, (''deleted'', JStr ''directory'')])) s
             else andthen (on_disk (remove_file target)) (\<lambda>_. ok (Some [text ''path'' target, (''deleted'', JStr ''file'')])) s))
         else if ty = ''file_extract'' then
           (case dict_get payload ''archive_path'' of
              None \<Rightarrow> raise ''KeyError''
            | Some archive_raw \<Rightarrow>
                (let target_dir_raw = payload_value payload [''target_dir'', ''target_path''] in
                 andthen (safe archive_raw) (\<lambda>archive. andthen (required target_dir_raw) (\<lambda>_.
                 andthen (safe target_dir_raw) (\<lambda>target_dir. andthen (unpack mc archive target_dir) (\<lambda>_.
                 ok (Some [text ''archive_path'' archive, text ''target_dir'' target_dir])))))))
         else if ty = ''file_preview'' then
           andthen (required path_raw) (\<lambda>_. andthen (safe path_raw) (\<lambda>target s.
             andthen (if is_folder target (fst s) then preview_folder post task target else preview_file mc post task target)
               (\<lambda>d. ok (Some d)) s))
         else if ty = ''upload_and_unpack'' then
           (case dict_get payload ''archive_path'' of
              None \<Rightarrow> raise ''KeyError''
            | Some archive_raw \<Rightarrow>
                andthen (safe archive_raw) (\<lambda>archive.
                  case dict_get payload ''target_dir'' of
                    None \<Rightarrow> raise ''KeyError''
                  | Some target_dir_raw \<Rightarrow>
                      andthen (safe target_dir_raw) (\<lambda>target_dir. andthen (unpack mc archive target_dir) (\<lambda>_.
                      ok (Some [text ''archive_path'' archive, text ''target_dir'' target_dir, (''unpacked'', JBool True)])))))
         else if ty = ''download_file'' then
           (let url = strip (py_str (default_value payload ''url'' (JStr []))); target_raw = default_value payload ''target_path'' JNull
            in andthen (if url = [] then raise ''ValueError'' else required target_raw) (\<lambda>_. andthen (safe target_raw) (\<lambda>target_path.
               andthen (download_to mc post task url target_path) (\<lambda>d. ok (Some d)))))
         else ok None)"

section \<open>What is reported of a command\<close>

definition write_local_logs :: "path \<Rightarrow> utext \<Rightarrow> utext \<Rightarrow> (disk, string, unit) act" where
  "write_local_logs run_dir stdout_text stderr_text =
     andthen (write_bytes (run_dir @ [''stdout.log'']) (utf8_encode stdout_text)) (\<lambda>_.
     write_bytes (run_dir @ [''stderr.log'']) (utf8_encode stderr_text))"

text \<open>\<open>text.count(sub)\<close>, and \<open>re.findall(r"https://modal\.com/apps/\S+", text)\<close>\<close>

function count_text :: "'a list \<Rightarrow> 'a list \<Rightarrow> nat" where
  "count_text sub txt =
     (if sub = [] \<or> txt = [] then 0
      else if take (length sub) txt = sub then 1 + count_text sub (drop (length sub) txt)
      else count_text sub (tl txt))"
  by pat_completeness auto

termination by (relation "measure (\<lambda>(sub, txt). length txt)") auto

declare count_text.simps [simp del]

definition white_space :: "nat set" where
  "white_space = {9..13} \<union> {28..32} \<union> {133, 160, 5760, 8232, 8233, 8239, 8287, 12288} \<union> {8192..8202}"

definition app_url_head :: utext where
  "app_url_head = of_string ''https://modal.com/apps/''"

function app_urls :: "utext \<Rightarrow> utext list" where
  "app_urls txt =
     (if txt = [] then []
      else
        (let tail = takeWhile (\<lambda>c. c \<notin> white_space) (drop (length app_url_head) txt)
         in if take (length app_url_head) txt = app_url_head \<and> tail \<noteq> []
            then (app_url_head @ tail) # app_urls (drop (length app_url_head + length tail) txt)
            else app_urls (tl txt)))"
  by pat_completeness auto

termination by (relation "measure length") auto

declare app_urls.simps [simp del]

record modal_report =
  mr_app_urls :: "utext list"
  mr_cache_hit_count :: nat
  mr_credential_name :: json
  mr_workspace :: json
  mr_environment :: json

record result_summary =
  rs_run_dir :: string
  rs_workdir :: string
  rs_command :: "string list"
  rs_stdout_preview :: utext
  rs_stderr_preview :: utext
  rs_modal :: "modal_report option"

definition last_chars :: "nat \<Rightarrow> 'a list \<Rightarrow> 'a list" where
  "last_chars n xs = drop (length xs - n) xs"

definition build_result_summary :: "string \<Rightarrow> dict \<Rightarrow> path \<Rightarrow> path \<Rightarrow> string list \<Rightarrow> utext \<Rightarrow> utext \<Rightarrow> result_summary" where
  "build_result_summary ty modal run_dir workdir command stdout_text stderr_text =
     (let combined = join [10] (filter (\<lambda>part. part \<noteq> []) [stdout_text, stderr_text]);
          given = (\<lambda>k. default_value modal k JNull)
      in \<lparr>rs_run_dir = path_str run_dir, rs_workdir = path_str workdir, rs_command = command,
          rs_stdout_preview = last_chars 500 stdout_text, rs_stderr_preview = last_chars 500 stderr_text,
          rs_modal = (if ty = ''modal_command''
            then Some \<lparr>mr_app_urls = app_urls combined, mr_cache_hit_count = count_text (of_string ''cache hit'') combined,
                   mr_credential_name = given ''credential_name'', mr_workspace = given ''workspace'',
                   mr_environment = given ''environment''\<rparr>
            else None)\<rparr>)"

section \<open>The tasks stay within their roots\<close>

definition stays :: "path list \<Rightarrow> (disk \<times> 'w, string, 'a) act \<Rightarrow> bool" where
  "stays roots m \<longleftrightarrow> (\<forall>s. kept roots (fst s) (fst (snd (m s))))"

lemma stays_andthen:
  assumes "stays roots m" and "\<And>x. stays roots (k x)"
  shows "stays roots (andthen m k)"
  unfolding stays_def
proof
  fix s
  obtain r s1 where m: "m s = (r, s1)" by (cases "m s")
  have 1: "kept roots (fst s) (fst s1)" using assms(1) m by (metis stays_def snd_conv)
  show "kept roots (fst s) (fst (snd (andthen m k s)))"
  proof (cases r)
    case (Inr x)
    have "kept roots (fst s1) (fst (snd (k x s1)))" using assms(2) [of x] unfolding stays_def by blast
    with 1 have "kept roots (fst s) (fst (snd (k x s1)))" by (rule kept_trans)
    then show ?thesis by (simp add: andthen_def m Inr)
  qed (simp add: andthen_def m 1)
qed

lemma stays_still: "stays roots (ok x)" "stays roots (raise e)" "stays roots (lift_error r)" "stays roots (required v)"
  by (simp_all add: stays_def ok_def raise_def lift_error_def required_def)

lemma stays_post: "stays roots (post_artifact post payload)"
  by (simp add: stays_def post_artifact_def split_beta)

lemma stays_on_disk: "confined roots m \<Longrightarrow> stays roots (on_disk m)"
  by (auto simp: stays_def confined_def on_disk_def split_beta)

lemma stays_if: "stays roots m \<Longrightarrow> stays roots m' \<Longrightarrow> stays roots (if b then m else m')"
  by simp

lemma stays_choice: "stays roots m \<Longrightarrow> stays roots m' \<Longrightarrow> stays roots (\<lambda>s. if P s then m s else m' s)"
  by (simp add: stays_def)

lemma stays_report: "stays roots (\<lambda>s. andthen (post_artifact post (f s)) (\<lambda>_. ok (g s)) s)"
  by (simp add: stays_def andthen_def post_artifact_def ok_def split: prod.split sum.split)

lemma confined_raise: "confined roots (raise (e :: string))"
  by (simp add: confined_def raise_def)

lemma confined_write_text: "inside roots p \<Longrightarrow> confined roots (write_text mc p encoding txt)"
  unfolding write_text_def by (auto intro!: confined_rules confined_raise split: option.split)

lemma confined_read_text: "confined roots (read_text_file mc p encoding replace)"
  unfolding read_text_file_def by (auto intro!: confined_rules confined_raise split: option.split)

lemma confined_patch: "inside roots p \<Longrightarrow> confined roots (patch_text mc payload p)"
  unfolding patch_text_def Let_def by (auto intro!: confined_rules confined_raise confined_read_text confined_write_text)

lemma confined_unzipped: "inside roots target \<Longrightarrow> confined roots (on_unzipped mc archive target)"
  unfolding on_unzipped_def by (auto intro!: confined_rules confined_raise split: option.split)

lemmas stays_rules = stays_andthen stays_still stays_post stays_on_disk stays_if confined_write_text confined_read_text confined_patch
  confined_unzipped confined_make_dirs confined_make_parent confined_write confined_remove_file confined_remove_tree confined_move

lemma stays_unpack: "inside roots target \<Longrightarrow> stays roots (unpack mc archive target)"
  unfolding unpack_def by (intro stays_rules)

lemma stays_preview_folder: "stays roots (preview_folder post task target)"
  unfolding preview_folder_def Let_def by (intro stays_andthen stays_still stays_report)

lemma stays_preview_file: "stays roots (preview_file mc post task target)"
  unfolding preview_file_def Let_def by (intro stays_rules)

lemma stays_download: "inside roots target \<Longrightarrow> stays roots (download_to mc post task url target)"
  unfolding download_to_def Let_def by (intro stays_andthen) (auto split: prod.split intro!: stays_rules)

text \<open>A checked path lies below a root.\<close>

lemma full_path_again: "is_absolute (ho_cwd h) \<Longrightarrow> full_path h (full_path h p) = full_path h p"
proof -
  assume cwd: "is_absolute (ho_cwd h)"
  define q where "q = (if is_absolute p then p else ho_cwd h @ p)"
  have q: "q \<noteq> []" "hd q \<in> {''/'', ''//''}" using cwd by (auto simp: q_def is_absolute_def)
  then have "is_absolute (resolve_path q)" using resolve_absolute [OF q] by (auto simp: is_absolute_def)
  then show ?thesis using resolve_again [OF q] by (simp add: full_path_def q_def [symmetric])
qed

lemma safe_path_below:
  assumes "is_absolute (ho_cwd h)" and "resolve_safe_path h ag extra raw = Inr p"
  shows "inside (allowed_roots h ag extra) p"
  using assms by (auto simp: resolve_safe_path_def Let_def list_ex_iff is_within_def inside_def allowed_roots_def full_path_again
      split: if_splits)

lemma stays_safe:
  assumes "is_absolute (ho_cwd h)" and "\<And>p. inside (allowed_roots h ag extra) p \<Longrightarrow> stays (allowed_roots h ag extra) (k p)"
  shows "stays (allowed_roots h ag extra) (andthen (lift_error (resolve_safe_path h ag extra raw)) k)"
proof (cases "resolve_safe_path h ag extra raw")
  case (Inl e)
  then show ?thesis by (simp add: stays_def andthen_def lift_error_def)
next
  case (Inr p)
  with assms have "stays (allowed_roots h ag extra) (k p)" by (metis safe_path_below)
  then show ?thesis by (simp add: stays_def andthen_def lift_error_def Inr)
qed

lemma stays_option: "stays roots n \<Longrightarrow> (\<And>x. stays roots (f x)) \<Longrightarrow> stays roots (case v of None \<Rightarrow> n | Some x \<Rightarrow> f x)"
  by (cases v) simp_all

lemma stays_after_health: "(\<And>d. stays roots (k d)) \<Longrightarrow> stays roots (andthen (lift_error (mc_health mc)) k)"
  by (rule stays_andthen [OF stays_still(3)])

lemma stays_after_url: "(\<And>d. stays roots (k d)) \<Longrightarrow> stays roots (andthen (if b then raise e else required v) k)"
  by (rule stays_andthen [OF stays_if [OF stays_still(2) stays_still(4)]])

lemma stays_after_preview:
  "(\<And>d. stays roots (k d)) \<Longrightarrow>
    stays roots (\<lambda>s. andthen (if P s then preview_folder post task p else preview_file mc post task p) k s)"
  using stays_andthen [OF stays_preview_folder, of roots k post task p] stays_andthen [OF stays_preview_file, of roots k mc post task p]
  by (simp add: stays_def)

lemmas stays_after = stays_after_health stays_after_url stays_after_preview stays_andthen [OF stays_still(4)]
  stays_andthen [OF stays_on_disk] stays_andthen [OF stays_unpack] stays_andthen [OF stays_download]

lemma stays_native:
  assumes "is_absolute (ho_cwd (mc_host mc))"
  shows "stays (allowed_roots (mc_host mc) ag (task_extra_roots task)) (execute_native_task mc ag post task)"
  unfolding execute_native_task_def Let_def
  by (intro stays_if stays_option stays_after stays_safe [OF assms] stays_choice stays_still confined_write_text confined_patch
      confined_make_dirs confined_make_parent confined_remove_file confined_remove_tree confined_move)

section \<open>Properties\<close>

text \<open>C35. A file task of the agent changes nothing outside its allowed roots (the agent's folders and the task's own
  working directory), however it ends and whatever its payload, the archive it unpacks or the file it
  downloads; only folders that lead to a root may appear.\<close>

theorem native_task_confined:
  assumes "is_absolute (ho_cwd (mc_host mc))" and "execute_native_task mc ag post task (fs, w) = (r, fs', w')"
    and "\<forall>root \<in> set (allowed_roots (mc_host mc) ag (task_extra_roots task)). \<not> prefix root q"
  shows "map_of fs' q = map_of fs q \<or>
    map_of fs q = None \<and> map_of fs' q = Some Folder \<and>
      (\<exists>root \<in> set (allowed_roots (mc_host mc) ag (task_extra_roots task)). prefix q root)"
  using stays_native [OF assms(1), of ag task post] assms(2,3) by (simp add: stays_def kept_def) (metis fst_conv snd_conv)

definition sample_machine :: machine where
  "sample_machine = \<lparr>mc_host = \<lparr>ho_cwd = [''/'', ''srv''], ho_which = (\<lambda>_. None), ho_exists = (\<lambda>_. False), ho_is_file = (\<lambda>_. False),
       ho_env = (\<lambda>_. None), ho_executable = ''/bin/python'', ho_prefix = [], ho_base_prefix = [], ho_version = []\<rparr>,
     mc_codec = (\<lambda>e. if e = ''ascii''
       then Some \<lparr>co_encode = (\<lambda>t. if list_all (\<lambda>c. c < 128) t then Some (map of_nat t) else None),
              co_decode = (\<lambda>b. Some (map unat b)), co_replace = map unat\<rparr>
       else None),
     mc_unzip = (\<lambda>_. None), mc_fetch = (\<lambda>_ _. Inl ''URLError''), mc_health = Inr []\<rparr>"

definition sample_file_task :: "string \<Rightarrow> dict \<Rightarrow> string option \<Rightarrow> task_envelope" where
  "sample_file_task ty payload workdir =
     (task_envelope_of (sample_task ''a'' ''n'' Running 1))\<lparr>tv_type := ty, tv_payload := payload, tv_workdir := workdir\<rparr>"

lemma sample_cwd: "is_absolute (ho_cwd (mc_host sample_machine))"
  by (simp add: sample_machine_def is_absolute_def)

lemma native_task_confined_witness:
  "map_of (fst (snd (execute_native_task sample_machine default_agent_settings (\<lambda>_ w. (Inr [], w))
       (sample_file_task ''file_delete'' [(''path'', JStr ''runtime/runs'')] None)
       ([([''/''], Folder), ([''/'', ''srv''], Folder), ([''/'', ''srv'', ''a''], File_Of [1])], ())))) [''/'', ''srv'', ''a''] =
   Some (File_Of [1])"
proof -
  let ?t = "sample_file_task ''file_delete'' [(''path'', JStr ''runtime/runs'')] None"
  let ?fs = "[([''/''], Folder), ([''/'', ''srv''], Folder), ([''/'', ''srv'', ''a''], File_Of [1])]"
  obtain r fs' w' where e: "execute_native_task sample_machine default_agent_settings (\<lambda>_ w. (Inr [], w)) ?t (?fs, ()) = (r, fs', w')"
    by (metis surj_pair)
  have "\<forall>root \<in> set (allowed_roots (mc_host sample_machine) default_agent_settings (task_extra_roots ?t)). \<not> prefix root [''/'', ''srv'', ''a'']"
    by (simp add: allowed_roots_def sample_machine_def default_agent_settings_def sample_file_task_def task_extra_roots_def full_path_def
        path_parts_def posix_root_def is_absolute_def resolve_path_def)
  from native_task_confined [OF sample_cwd e this] show ?thesis by (simp add: e)
qed

text \<open>A patch that cannot be encoded destroys the file: when the new text has a character that the file's encoding
  lacks, the task fails and the file, which was opened for writing first, is empty.\<close>

theorem failed_patch_empties_file:
  assumes "map_of fs p = Some (File_Of b)" and "is_folder (butlast p) fs" and "mc_codec mc (encoding_of payload) = Some c"
    and "co_decode c b = Some txt" and "dict_get payload ''old_text'' = Some (JStr old)" and "old \<noteq> []"
    and "dict_get payload ''new_text'' = Some (JStr new)" and "new \<noteq> []" and "contains (of_string old) (universal_newlines txt)"
    and "\<forall>n > 0. co_encode c (str_replace (of_string old) (of_string new) (universal_newlines txt) n) = None"
  shows "patch_text mc payload p fs = (Inl ''UnicodeEncodeError'', AList.update p (File_Of []) fs)"
  using assms by (simp add: patch_text_def read_text_file_def write_text_def andthen_def read_bytes_def write_bytes_def is_folder_def
      ok_def raise_def json_or_def py_str_def Let_def split: option.split)

lemma failed_patch_empties_file_witness:
  "patch_text sample_machine [(''encoding'', JStr ''ascii''), (''old_text'', JStr ''a''), (''new_text'', JStr [CHR 0xE9])] [''/'', ''f'']
     [([''/''], Folder), ([''/'', ''f''], File_Of [97, 98])] =
   (Inl ''UnicodeEncodeError'', [([''/''], Folder), ([''/'', ''f''], File_Of [])])"
proof -
  let ?p = "[(''encoding'', JStr ''ascii''), (''old_text'', JStr ''a''), (''new_text'', JStr [CHR 0xE9])]"
  obtain c where c: "mc_codec sample_machine (encoding_of ?p) = Some c" and e: "co_encode c = (\<lambda>t. if list_all (\<lambda>c. c < 128) t then Some (map of_nat t) else None)"
    and d: "co_decode c [97, 98] = Some [97, 98]"
    by (simp add: sample_machine_def encoding_of_def dict_get_def py_str_def)
  have n: "co_encode c (str_replace (of_string ''a'') (of_string [CHR 0xE9]) [97, 98] n) = None" if "0 < n" for n
    using that by (cases n) (auto simp: e str_replace_def of_string_def replace_nonempty.simps)
  show ?thesis
    using failed_patch_empties_file [OF _ _ c d, of "[([''/''], Folder), ([''/'', ''f''], File_Of [97, 98])]" "[''/'', ''f'']" "''a''" "[CHR 0xE9]"] n
    by (simp add: is_folder_def dict_get_def of_string_def)
qed

lemma foldl_climb:
  assumes "\<forall>c \<in> set cs. proper_name c"
  shows "foldl (\<lambda>acc c. if c = ''..'' then (case acc of [] \<Rightarrow> [c] | d # rest \<Rightarrow>
         if d = ''..'' then c # acc else if d = ''/'' then acc else rest)
     else (if c = ''//'' then ''/'' else c) # acc) acc (cs @ replicate (length cs) ''..'') = acc"
  using assms
proof (induction cs rule: rev_induct)
  case (snoc c cs)
  then have "proper_name c" by simp
  then have "c \<noteq> ''..''" "c \<noteq> ''/''" "c \<noteq> ''//''" by (auto simp: proper_name_def)
  with snoc show ?case by (simp add: append_assoc)
qed simp

lemma workdir_resolves_to_root:
  assumes "cs \<noteq> []" and "\<forall>c \<in> set cs. proper_name c"
  defines "w \<equiv> concat (map ((#) (CHR ''/'')) (cs @ replicate (length cs) ''..''))"
  shows "path_parts w = ''/'' # cs @ replicate (length cs) ''..''" and "full_path h (path_parts w) = [''/'']"
proof -
  have 1: "path_parts w = ''/'' # cs @ replicate (length cs) ''..''"
    unfolding w_def by (rule path_parts_absolute) (use assms(1,2) in \<open>auto simp: proper_name_def\<close>)
  show "path_parts w = ''/'' # cs @ replicate (length cs) ''..''" by (fact 1)
  show "full_path h (path_parts w) = [''/'']"
    using foldl_climb [OF assms(2), of "[''/'']"] by (simp add: 1 full_path_def is_absolute_def resolve_path_def)
qed

text \<open>C36. The check of working directories on the server and the one on the agent do not fit together: below any allowed
  directory, enough dots lead to a working directory that the server accepts and that the agent resolves
  to the root of the disk, so that every path is allowed to the task's file operations.\<close>

theorem workdir_opens_the_whole_disk:
  assumes "is_absolute (ho_cwd h)" and "cs \<noteq> []" and "\<forall>c \<in> set cs. proper_name c"
    and "tv_workdir task = Some (concat (map ((#) (CHR ''/'')) (cs @ replicate (length cs) ''..'')))"
  shows "ensure_workdir_allowed (tv_workdir task) [concat (map ((#) (CHR ''/'')) cs)] \<and>
    resolve_safe_path h ag (task_extra_roots task) raw = Inr (full_path h (path_parts raw))"
proof -
  define w where "w = concat (map ((#) (CHR ''/'')) (cs @ replicate (length cs) ''..''))"
  define a where "a = concat (map ((#) (CHR ''/'')) cs)"
  have w: "path_parts w = ''/'' # cs @ replicate (length cs) ''..''" "full_path h (path_parts w) = [''/'']"
    unfolding w_def by (rule workdir_resolves_to_root [OF assms(2,3)])+
  have a: "path_parts a = ''/'' # cs"
    unfolding a_def by (rule path_parts_absolute) (use assms(2,3) in \<open>auto simp: proper_name_def\<close>)
  have ne: "w \<noteq> []" using assms(2) by (cases cs) (simp_all add: w_def)
  have t: "tv_workdir task = Some w" by (simp add: assms(4) w_def)
  have 1: "ensure_workdir_allowed (Some w) [a]"
    using ne by (auto simp: ensure_workdir_allowed_iff w a)
  have "full_path h (full_path h (path_parts raw)) = full_path h (path_parts raw)" by (rule full_path_again [OF assms(1)])
  moreover obtain ds where "full_path h (path_parts raw) = ''/'' # ds"
  proof -
    define q where "q = (if is_absolute (path_parts raw) then path_parts raw else ho_cwd h @ path_parts raw)"
    have q: "q \<noteq> []" "hd q \<in> {''/'', ''//''}" using assms(1) by (auto simp: q_def is_absolute_def)
    show ?thesis using resolve_absolute [OF q] that by (auto simp: full_path_def q_def [symmetric])
  qed
  moreover have "full_path h [''/''] = [''/'']" by (simp add: full_path_def is_absolute_def resolve_path_def)
  ultimately have 2: "resolve_safe_path h ag [w] raw = Inr (full_path h (path_parts raw))"
    by (simp add: resolve_safe_path_def Let_def allowed_roots_def is_within_def w(2))
  show ?thesis using 1 2 ne by (simp add: t task_extra_roots_def a_def)
qed

lemma workdir_opens_the_whole_disk_witness:
  "ensure_workdir_allowed (Some ''/data/..'') [''/data''] \<and>
   resolve_safe_path (mc_host sample_machine) default_agent_settings
     (task_extra_roots (sample_file_task ''file_write'' [] (Some ''/data/..''))) ''/etc/passwd'' = Inr [''/'', ''etc'', ''passwd'']"
proof -
  have p: "full_path (mc_host sample_machine) (path_parts ''/etc/passwd'') = [''/'', ''etc'', ''passwd'']"
    by (simp add: full_path_def path_parts_def posix_root_def is_absolute_def resolve_path_def)
  show ?thesis
    using workdir_opens_the_whole_disk [OF sample_cwd, of "[''data'']" "sample_file_task ''file_write'' [] (Some ''/data/..'')"
        default_agent_settings "''/etc/passwd''"] p
    by (simp add: proper_name_def sample_file_task_def)
qed

end
