(* ===== verification/Agent_Runner.thy ===== *)
theory Agent_Runner
  imports Agent_Files
begin

text \<open>
  Running tasks on the agent: \<open>runner/executor.py\<close> (commands, environments, the execution of one task at a
  time) and \<open>runner/dispatcher.py\<close> (the task in the background, its end, and its recovery). What the
  operating system answers (process ids, exit codes, whether a process lives) is an input of each step;
  \<open>post\<close> sends a message to the control plane. An error is the name of the exception.
\<close>

section \<open>The agent's state\<close>

record 'w runner =
  rn_disk :: disk
  rn_boot_id :: "string option"
  rn_offsets :: log_offsets
  rn_task :: "agent_task option"
  rn_modal :: modal_disk
  rn_procs :: "(string \<times> int) list"
  rn_signals :: "(int \<times> string) list"
  rn_dirty :: bool
  rn_out :: 'w

text \<open>The machine at the moment: clock, a fresh UUID, the local time as text, the environment, and \<open>Popen\<close>.\<close>

record moment =
  mo_now :: instant
  mo_finished :: instant
  mo_uuid :: string
  mo_timestamp :: string
  mo_environ :: "(string \<times> string) list"
  mo_spawn :: "string list \<Rightarrow> path \<Rightarrow> (string \<times> string) list \<Rightarrow> int option"

text \<open>What the agent reports of a task; a message.\<close>

datatype result_body = Command_Result result_summary dict | Native_Result string dict

record result_message =
  tr_task_id :: string
  tr_final_status :: task_status
  tr_exit_code :: "int option"
  tr_summary :: result_body
  tr_boot_id :: "string option"
  tr_pid :: "int option"
  tr_pgid_or_job_id :: "string option"
  tr_started_at :: "string option"
  tr_finished_at :: "string option"

datatype agent_message =
  Event_Message event_payload string string
| Log_Message log_payload
| Result_Message result_message
| Artifact_Message dict

type_synonym 'w poster = "agent_message \<Rightarrow> 'w \<Rightarrow> (client_error + dict) \<times> 'w"
type_synonym ('w, 'a) step = "('w runner, string, 'a) act"

definition client_error_name :: "client_error \<Rightarrow> string" where
  "client_error_name e =
     (case e of Circuit_Open \<Rightarrow> ''CircuitOpenError'' | Http_Error _ \<Rightarrow> ''HTTPError'' | Connection_Error \<Rightarrow> ''ConnectionError''
      | Timeout_Error \<Rightarrow> ''Timeout'' | Invalid_Json \<Rightarrow> ''JSONDecodeError'' | Other_Error \<Rightarrow> ''RequestException'')"

definition named_error :: "client_error + 'a \<Rightarrow> string + 'a" where
  "named_error r = (case r of Inl e \<Rightarrow> Inl (client_error_name e) | Inr x \<Rightarrow> Inr x)"

definition send :: "'w poster \<Rightarrow> agent_message \<Rightarrow> ('w, dict) step" where
  "send post m s = (case post m (rn_out s) of (r, w) \<Rightarrow> (named_error r, s\<lparr>rn_out := w\<rparr>))"

definition in_disk :: "(disk, string, 'a) act \<Rightarrow> ('w, 'a) step" where
  "in_disk m s = (case m (rn_disk s) of (r, fs) \<Rightarrow> (r, s\<lparr>rn_disk := fs\<rparr>))"

definition in_files :: "(disk \<times> 'w, string, 'a) act \<Rightarrow> ('w, 'a) step" where
  "in_files m s = (case m (rn_disk s, rn_out s) of (r, fs, w) \<Rightarrow> (r, s\<lparr>rn_disk := fs, rn_out := w\<rparr>))"

text \<open>The host as the disk is now\<close>

definition host_on :: "machine \<Rightarrow> disk \<Rightarrow> host" where
  "host_on mc fs = (mc_host mc)\<lparr>ho_exists := (\<lambda>p. map_of fs p \<noteq> None),
     ho_is_file := (\<lambda>p. map_of fs p \<noteq> None \<and> \<not> is_folder p fs)\<rparr>"

text \<open>\<open>get_boot_id\<close>\<close>

definition get_boot_id :: "moment \<Rightarrow> ('w, string) step" where
  "get_boot_id mo s = (let b = or_else (rn_boot_id s) (mo_uuid mo) in (Inr b, s\<lparr>rn_boot_id := Some b\<rparr>))"

section \<open>Environments and commands\<close>

definition env_default :: "string \<Rightarrow> string \<Rightarrow> (string \<times> string) list \<Rightarrow> (string \<times> string) list" where
  "env_default k v env = (if map_of env k = None then env @ [(k, v)] else env)"

definition env_update :: "(string \<times> string) list \<Rightarrow> (string \<times> string) list \<Rightarrow> (string \<times> string) list" where
  "env_update new env = fold (\<lambda>(k, v). AList.update k v) new env"

definition build_env ::
  "host \<Rightarrow> agent_settings \<Rightarrow> (string \<times> string) list \<Rightarrow> task_envelope \<Rightarrow> path \<Rightarrow> (string \<times> string) list \<Rightarrow> (string \<times> string) list" where
  "build_env h ag environ task run_dir modal_env =
     (let env = env_update (tv_env task) environ;
          env = env_default ''GPUFLEET_TASK_ID'' (tv_task_id task) env;
          env = env_default ''GPUFLEET_RUN_DIR'' (path_str run_dir) env;
          env = env_default ''GPUFLEET_AGENT_ROOT'' (path_str (full_path h (path_parts (ag_agent_root ag)))) env;
          env = env_default ''PYTHONIOENCODING'' ''utf-8'' env;
          env = env_default ''PYTHONUTF8'' ''1'' env;
          env = (if tv_requested_gpu_ids task \<noteq> []
                 then env_default ''CUDA_VISIBLE_DEVICES'' (join '','' (map int_str (tv_requested_gpu_ids task))) env else env)
      in if tv_type task = ''modal_command'' then env_update modal_env env else env)"

text \<open>\<open>workdir / value\<close>, or the value when it is an absolute path\<close>

definition under_workdir :: "path \<Rightarrow> json \<Rightarrow> string + string" where
  "under_workdir workdir v =
     (case v of JStr s \<Rightarrow> Inr (if starts_with ''/'' s then s else path_str (join_path workdir s)) | _ \<Rightarrow> Inl ''TypeError'')"

definition list_arg :: "dict \<Rightarrow> string \<Rightarrow> string + json list" where
  "list_arg payload key =
     (case dict_get payload key of None \<Rightarrow> Inr [] | Some JNull \<Rightarrow> Inr [] | Some (JList xs) \<Rightarrow> Inr xs | _ \<Rightarrow> Inl ''ValueError'')"

definition text_arg :: "dict \<Rightarrow> string \<Rightarrow> string" where
  "text_arg payload key = strip (py_str (default_value payload key (JStr [])))"

definition modal_flags :: "dict \<Rightarrow> string list" where
  "modal_flags payload =
     map fst (filter (\<lambda>(flag, key). json_truth (default_value payload key JNull))
       [(''--detach'', ''detach''), (''--interactive'', ''interactive''), (''--quiet'', ''quiet''), (''--timestamps'', ''timestamps'')])"

definition result_path_args :: "host \<Rightarrow> agent_settings \<Rightarrow> task_envelope \<Rightarrow> path \<Rightarrow> (disk, string, string list) act" where
  "result_path_args h ag task workdir =
     (let v = default_value (tv_payload task) ''write_result_path'' JNull in
      if \<not> json_truth v then ok []
      else andthen (lift_error (try_then (under_workdir workdir v) (resolve_safe_path h ag (task_extra_roots task)))) (\<lambda>p.
           andthen (make_dirs (path_parent p)) (\<lambda>_. ok [''--write-result'', path_str p])))"

definition modal_target :: "host \<Rightarrow> agent_settings \<Rightarrow> task_envelope \<Rightarrow> path \<Rightarrow> string + string list" where
  "modal_target h ag task workdir =
     (let module_path = default_value (tv_payload task) ''module_path'' JNull;
          script_path = default_value (tv_payload task) ''script_path'' JNull
      in if json_truth module_path then
           (let target = strip (py_str module_path) in if target = [] then Inl ''ValueError'' else Inr [''-m'', target])
         else if json_truth script_path then
           try_then (try_then (under_workdir workdir script_path) (resolve_safe_path h ag (task_extra_roots task))) (\<lambda>p. Inr [path_str p])
         else Inl ''ValueError'')"

definition build_modal_command :: "host \<Rightarrow> agent_settings \<Rightarrow> task_envelope \<Rightarrow> path \<Rightarrow> (disk, string, string list) act" where
  "build_modal_command h ag task workdir =
     (let payload = tv_payload task; raw_command = text_arg payload ''command''; entrypoint = text_arg payload ''entrypoint'';
          modal_env = text_arg payload ''modal_env''
      in if \<not> truthy (ho_which h ''modal'') then raise ''ValueError''
         else if raw_command \<noteq> [] then ok [''/bin/bash'', ''-lc'', raw_command]
         else andthen (lift_error (list_arg payload ''args'')) (\<lambda>args.
              andthen (result_path_args h ag task workdir) (\<lambda>result_args.
              andthen (lift_error (modal_target h ag task workdir)) (\<lambda>target.
                ok ([the (ho_which h ''modal''), ''run''] @ modal_flags payload @
                  (if modal_env \<noteq> [] then [''--env'', modal_env] else []) @ result_args @ butlast target @
                  [if entrypoint \<noteq> [] then last target @ ''::'' @ entrypoint else last target] @ map py_str args)))))"

record built_command =
  bc_command :: "string list"
  bc_inline_script_path :: "string option"
  bc_env_overrides :: "(string \<times> string) list"
  bc_summary :: dict

definition backend_only :: "string \<Rightarrow> string list \<Rightarrow> built_command" where
  "backend_only backend command =
     \<lparr>bc_command = command, bc_inline_script_path = None, bc_env_overrides = [], bc_summary = [(''backend'', JStr backend)]\<rparr>"

definition of_prepared :: "string option \<Rightarrow> prepared_command \<Rightarrow> built_command" where
  "of_prepared script pc = \<lparr>bc_command = pc_command pc, bc_inline_script_path = script, bc_env_overrides = pc_env_overrides pc,
     bc_summary = pc_summary pc\<rparr>"

definition health_check_script :: string where
  "health_check_script = ''import json,os,platform,sys;print(json.dumps({'' @ [CHR 39] @ ''ok'' @ [CHR 39] @ '': True,'' @ [CHR 39] @ ''python'' @ [CHR 39] @
     '': sys.version.split()[0],'' @ [CHR 39] @ ''executable'' @ [CHR 39] @ '': sys.executable,'' @ [CHR 39] @ ''cwd'' @ [CHR 39] @ '': os.getcwd(),'' @
     [CHR 39] @ ''platform'' @ [CHR 39] @ '': platform.platform()}, ensure_ascii=False))''"

definition git_command :: "host \<Rightarrow> agent_settings \<Rightarrow> task_envelope \<Rightarrow> disk \<Rightarrow> string + built_command" where
  "git_command h ag task fs =
     (let payload = tv_payload task; repo_url = text_arg payload ''repo_url''; repo_dir = default_value payload ''repo_dir'' JNull;
          branch = text_arg payload ''branch''
      in if repo_url = [] \<or> \<not> json_truth repo_dir then Inl ''ValueError''
         else try_then (resolve_safe_path h ag (task_extra_roots task) (py_str repo_dir)) (\<lambda>p.
           let dir = path_str p in
           Inr (backend_only ''native''
             (if map_of fs p = None \<or> map_of fs (p @ [''.git'']) = None
              then (if branch \<noteq> [] then [''git'', ''clone'', ''--branch'', branch, repo_url, dir] else [''git'', ''clone'', repo_url, dir])
              else (if branch \<noteq> [] then [''git'', ''-C'', dir, ''pull'', ''origin'', branch] else [''git'', ''-C'', dir, ''pull''])))))"

definition pip_command :: "host \<Rightarrow> agent_settings \<Rightarrow> dict \<Rightarrow> path \<Rightarrow> string + built_command" where
  "pip_command h ag payload workdir =
     (case dict_get payload ''packages'' of
        Some (JList packages) \<Rightarrow>
          if packages = [] then Inl ''ValueError''
          else try_then (list_arg payload ''extra_args'') (\<lambda>extra.
            let package_values = map py_str packages; extra_args = map py_str extra;
                local_package = list_ex (\<lambda>item. item \<noteq> [] \<and> ho_exists h (full_path h (path_parts item))) package_values;
                extra_args = (if local_package \<and> ''--no-build-isolation'' \<notin> set extra_args then extra_args @ [''--no-build-isolation''] else extra_args)
            in try_then (prepare_python_command h ag payload ([''-m'', ''pip'', ''install''] @ package_values @ extra_args) workdir)
                 (\<lambda>pc. Inr (of_prepared None pc)))
      | _ \<Rightarrow> Inl ''ValueError'')"

definition build_command :: "machine \<Rightarrow> agent_settings \<Rightarrow> task_envelope \<Rightarrow> path \<Rightarrow> path \<Rightarrow> (disk, string, built_command) act" where
  "build_command mc ag task run_dir workdir fs =
     (let h = host_on mc fs; payload = tv_payload task; ty = tv_type task in
      if ty = ''health_check'' then
        (Inr (backend_only ''default'' [text_or (ag_python_executable ag) (ho_executable h), ''-c'', health_check_script]), fs)
      else if ty = ''shell'' then
        (let command_text = text_arg payload ''command'' in
         (if command_text = [] then Inl ''ValueError''
          else try_then (prepare_shell_command h ag payload command_text workdir) (\<lambda>pc. Inr (of_prepared None pc)), fs))
      else if ty = ''python_script'' then
        (let script_text = text_arg payload ''script''; script_path = run_dir @ [''inline_task.py''] in
         if script_text = [] then (Inl ''ValueError'', fs)
         else andthen (write_bytes (full_path h script_path) (str_utf8 (script_text @ [CHR 10]))) (\<lambda>_ fs.
           (try_then (prepare_python_command (host_on mc fs) ag payload [path_str script_path] workdir)
              (\<lambda>pc. Inr (of_prepared (Some (path_str script_path)) pc)), fs)) fs)
      else if ty = ''pip_install'' then (pip_command h ag payload workdir, fs)
      else if ty = ''git_pull'' then (git_command h ag task fs, fs)
      else if ty = ''modal_command'' then andthen (build_modal_command h ag task workdir) (\<lambda>c. ok (backend_only ''modal'' c)) fs
      else (Inl ''ValueError'', fs))"

section \<open>Ending a process\<close>

text \<open>
  What the system says while a process group is told to end: whether the group exists, the seconds until
  the process ends after SIGTERM (None: it does not), whether the group is still there, and the seconds after
  SIGKILL.
\<close>

record end_reply =
  er_has_group :: bool
  er_after_term :: "nat option"
  er_group_left :: bool
  er_after_kill :: "nat option"

definition ends_within :: "int \<Rightarrow> nat option \<Rightarrow> bool" where
  "ends_within limit t = (case t of None \<Rightarrow> False | Some n \<Rightarrow> int n \<le> limit)"

definition signal :: "int \<Rightarrow> string \<Rightarrow> 'w runner \<Rightarrow> 'w runner" where
  "signal pid sig s = s\<lparr>rn_signals := rn_signals s @ [(pid, sig)]\<rparr>"

definition terminate_process_tree :: "end_reply \<Rightarrow> int \<Rightarrow> int \<Rightarrow> ('w, unit) step" where
  "terminate_process_tree er pid grace_sec s =
     (if \<not> er_has_group er then (Inr (), s)
      else (let s = signal pid ''SIGTERM'' s in
        if ends_within (max grace_sec 1) (er_after_term er) then (Inr (), s)
        else if \<not> er_group_left er then (Inr (), s)
        else (let s = signal pid ''SIGKILL'' s in
          if ends_within 10 (er_after_kill er) then (Inr (), s) else (Inl ''TimeoutExpired'', s))))"

section \<open>Starting a task in the background\<close>

text \<open>
  \<open>rn_task\<close> is what \<open>current_task.json\<close> holds. The model assumes that \<open>save_json\<close> succeeds and that the file is read back as it
  was written: a full disk, a write cut short, and the \<open>JSONDecodeError\<close> of the next \<open>load_json\<close> are outside it.
\<close>

definition set_current_task :: "agent_task option \<Rightarrow> ('w, unit) step" where
  "set_current_task t s = (Inr (), s\<lparr>rn_task := t\<rparr>)"

definition has_active_task :: "'w runner \<Rightarrow> bool" where
  "has_active_task s = (case rn_task s of None \<Rightarrow> False | Some t \<Rightarrow> cur_task_id t \<noteq> [])"

definition modal_setup_of :: "agent_settings \<Rightarrow> task_envelope \<Rightarrow> ('w, modal_setup) step" where
  "modal_setup_of ag task s =
     (if tv_type task = ''modal_command''
      then (case build_modal_env_overrides ag (tv_payload task) (rn_modal s) of (r, d) \<Rightarrow> (r, s\<lparr>rn_modal := d\<rparr>))
      else (Inr ([], []), s))"

text \<open>\<open>task_metadata.json\<close>\<close>

definition task_metadata :: "task_envelope \<Rightarrow> string \<Rightarrow> path \<Rightarrow> path \<Rightarrow> built_command \<Rightarrow> dict \<Rightarrow> bytes" where
  "task_metadata task started_at run_dir workdir bc modal =
     str_utf8 (dumps_indent 0 (JObj [(''task_id'', JStr (tv_task_id task)), (''type'', JStr (tv_type task)), (''started_at'', JStr started_at),
       (''run_dir'', JStr (path_str run_dir)), (''workdir'', JStr (path_str workdir)), (''command'', JList (map JStr (bc_command bc))),
       (''inline_script_path'', opt_json JStr (bc_inline_script_path bc)), (''execution'', JObj (bc_summary bc)), (''modal_context'', JObj modal)]))"

text \<open>The directory, the environment and the command of a task, which both ways of running it prepare first\<close>

record prepared_task =
  pt_boot_id :: string
  pt_started_at :: string
  pt_run_dir :: path
  pt_workdir :: path
  pt_env :: "(string \<times> string) list"
  pt_command :: built_command
  pt_modal :: dict

definition prepare_workdir :: "machine \<Rightarrow> agent_settings \<Rightarrow> task_envelope \<Rightarrow> path \<Rightarrow> ('w, path) step" where
  "prepare_workdir mc ag task run_dir =
     (let workdir = resolve_workdir task run_dir in
      andthen (in_disk (make_dirs (full_path (mc_host mc) workdir))) (\<lambda>_. ok workdir))"

definition prepare_command :: "machine \<Rightarrow> moment \<Rightarrow> agent_settings \<Rightarrow> task_envelope \<Rightarrow> string \<Rightarrow> path \<Rightarrow> ('w, prepared_task) step" where
  "prepare_command mc mo ag task boot_id run_dir =
     andthen (prepare_workdir mc ag task run_dir) (\<lambda>workdir.
     andthen (modal_setup_of ag task) (\<lambda>(modal_env, modal).
     let env = build_env (mc_host mc) ag (mo_environ mo) task run_dir modal_env in
     andthen (in_disk (build_command mc ag task run_dir workdir)) (\<lambda>bc.
     ok \<lparr>pt_boot_id = boot_id, pt_started_at = utc_now_iso (mo_now mo), pt_run_dir = run_dir, pt_workdir = workdir,
         pt_env = env_update (bc_env_overrides bc) env, pt_command = bc, pt_modal = modal\<rparr>)))"

definition running_event :: "task_envelope \<Rightarrow> prepared_task \<Rightarrow> agent_message" where
  "running_event task pt =
     Event_Message \<lparr>ep_task_id = tv_task_id task, ep_event = Ev_Running, ep_boot_id = Some (pt_boot_id pt), ep_pid = None,
       ep_pgid_or_job_id = None\<rparr> (path_str (pt_run_dir pt)) (path_str (pt_workdir pt))"

definition background_state :: "task_envelope \<Rightarrow> prepared_task \<Rightarrow> int \<Rightarrow> agent_task" where
  "background_state task pt pid =
     \<lparr>cur_task_id = tv_task_id task, cur_type = Some (tv_type task), cur_pid = pid, cur_started_at = pt_started_at pt,
      cur_boot_id = Some (pt_boot_id pt), cur_run_dir = path_str (pt_run_dir pt), cur_workdir = path_str (pt_workdir pt),
      cur_command = bc_command (pt_command pt), cur_timeout_sec = tv_timeout_sec task, cur_kill_grace_sec = tv_kill_grace_sec task,
      cur_execution = bc_summary (pt_command pt), cur_modal_context = pt_modal pt,
      cur_stdout_path = Some (path_str (pt_run_dir pt @ [''stdout.log''])), cur_stderr_path = Some (path_str (pt_run_dir pt @ [''stderr.log''])),
      cur_stdout_offset = 0, cur_stderr_offset = 0, cur_cancel_requested = False, cur_timed_out = False, cur_recovery_note = None\<rparr>"

definition empty_files :: "path list \<Rightarrow> (disk, string, unit) act" where
  "empty_files ps = fold (\<lambda>p m. andthen m (\<lambda>_. write_bytes p [])) ps (ok ())"

definition spawn_process :: "moment \<Rightarrow> task_envelope \<Rightarrow> prepared_task \<Rightarrow> ('w, int) step" where
  "spawn_process mo task pt s =
     (case mo_spawn mo (bc_command (pt_command pt)) (pt_workdir pt) (pt_env pt) of
        None \<Rightarrow> (Inl ''OSError'', s)
      | Some pid \<Rightarrow> (Inr pid, s\<lparr>rn_procs := AList.update (tv_task_id task) pid (rn_procs s)\<rparr>))"

definition start_background_task ::
  "machine \<Rightarrow> moment \<Rightarrow> agent_settings \<Rightarrow> 'w poster \<Rightarrow> task_envelope \<Rightarrow> ('w, agent_task) step" where
  "start_background_task mc mo ag post task =
     andthen (get_boot_id mo) (\<lambda>boot_id.
     andthen (in_files (prepare_run_dir (mc_host mc) ag (mo_timestamp mo) (tv_task_id task))) (\<lambda>run_dir.
     andthen (prepare_command mc mo ag task boot_id run_dir) (\<lambda>pt.
     let run_path = full_path (mc_host mc) run_dir; outputs = [run_path @ [''stdout.log''], run_path @ [''stderr.log'']] in
     andthen (in_disk (empty_files outputs)) (\<lambda>_.
     andthen (in_disk (write_bytes (run_path @ [''task_metadata.json''])
       (task_metadata task (pt_started_at pt) run_dir (pt_workdir pt) (pt_command pt) (pt_modal pt)))) (\<lambda>_.
     andthen (send post (running_event task pt)) (\<lambda>_.
     andthen (in_disk (empty_files outputs)) (\<lambda>_.
     andthen (spawn_process mo task pt) (\<lambda>pid s.
       let t = background_state task pt pid in
       (Inr t, s\<lparr>rn_offsets := init_log_offsets (tv_task_id task) (rn_offsets s), rn_task := Some t\<rparr>)))))))))"

definition start_tasks_background ::
  "machine \<Rightarrow> moment \<Rightarrow> agent_settings \<Rightarrow> 'w poster \<Rightarrow> task_envelope list \<Rightarrow> ('w, string list) step" where
  "start_tasks_background mc mo ag post tasks s =
     (if has_active_task s then (Inr [], s)
      else (case tasks of
          [] \<Rightarrow> (Inr [], s)
        | task # _ \<Rightarrow> andthen (start_background_task mc mo ag post task) (\<lambda>t. ok [cur_task_id t]) s))"

section \<open>The end of a background task\<close>

definition disk_file :: "host \<Rightarrow> disk \<Rightarrow> string \<Rightarrow> bytes option" where
  "disk_file h fs p = (case map_of fs (full_path h (path_parts p)) of Some (File_Of b) \<Rightarrow> Some b | _ \<Rightarrow> None)"

definition upload_logs :: "machine \<Rightarrow> 'w poster \<Rightarrow> bool \<Rightarrow> agent_task \<Rightarrow> ('w, agent_task) step" where
  "upload_logs mc post final t s =
     (case upload_incremental_logs (\<lambda>p. post (Log_Message p)) final t
             \<lparr>dk_offsets = rn_offsets s, dk_task = rn_task s, dk_files = disk_file (mc_host mc) (rn_disk s)\<rparr> (rn_out s) of
        (r, d, w) \<Rightarrow> (named_error r, s\<lparr>rn_offsets := dk_offsets d, rn_task := dk_task d, rn_out := w\<rparr>))"

text \<open>\<open>Path(path).read_text(encoding="utf-8", errors="replace")\<close> when there is a path\<close>

definition output_text :: "machine \<Rightarrow> string option \<Rightarrow> disk \<Rightarrow> string + utext" where
  "output_text mc p fs =
     (if \<not> truthy p then Inr [] else try_then (or_raise ''OSError'' (disk_file (mc_host mc) fs (the p))) (\<lambda>b. Inr (read_text b)))"

definition result_artifact :: "string \<Rightarrow> string option \<Rightarrow> task_status \<Rightarrow> int option \<Rightarrow> string \<Rightarrow> string \<Rightarrow> string \<Rightarrow> utext \<Rightarrow> utext \<Rightarrow> dict" where
  "result_artifact task_id ty final_status exit_code started_at finished_at run_dir stdout_text stderr_text =
     artifact_upload_payload task_id ''result_summary.json'' ''task_summary''
       (str_utf8 (dumps_indent 0 (JObj [(''task_id'', JStr task_id), (''type'', opt_json JStr ty), (''final_status'', JStr (status_str final_status)),
          (''exit_code'', opt_json JInt exit_code), (''started_at'', JStr started_at), (''finished_at'', JStr finished_at),
          (''run_dir'', JStr run_dir), (''stdout_bytes'', JInt (int (length (utf8_encode stdout_text)))),
          (''stderr_bytes'', JInt (int (length (utf8_encode stderr_text))))])))
       (Some ''application/json'') (Some [(''final_status'', JStr (status_str final_status)), (''exit_code'', opt_json JInt exit_code)])"

definition result_of_task :: "agent_task \<Rightarrow> task_status \<Rightarrow> int option \<Rightarrow> string \<Rightarrow> result_summary \<Rightarrow> result_message" where
  "result_of_task t final_status exit_code finished_at summary =
     \<lparr>tr_task_id = cur_task_id t, tr_final_status = final_status, tr_exit_code = exit_code,
      tr_summary = Command_Result summary (cur_execution t), tr_boot_id = cur_boot_id t, tr_pid = Some (cur_pid t),
      tr_pgid_or_job_id = (if cur_pid t \<noteq> 0 then Some (int_str (cur_pid t)) else None),
      tr_started_at = Some (cur_started_at t), tr_finished_at = Some finished_at\<rparr>"

definition path_or_dot :: "string \<Rightarrow> path" where
  "path_or_dot s = path_parts (if s = [] then ''.'' else s)"

definition forget_task :: "string \<Rightarrow> ('w, unit) step" where
  "forget_task task_id s = (Inr (), s\<lparr>rn_procs := AList.delete task_id (rn_procs s), rn_offsets := clear_log_offsets task_id (rn_offsets s),
     rn_task := None\<rparr>)"

definition finalize_background_task ::
  "machine \<Rightarrow> moment \<Rightarrow> 'w poster \<Rightarrow> agent_task \<Rightarrow> task_status \<Rightarrow> int option \<Rightarrow> ('w, unit) step" where
  "finalize_background_task mc mo post t final_status exit_code =
     andthen (upload_logs mc post True t) (\<lambda>t s.
     let finished_at = utc_now_iso (mo_finished mo) in
     andthen (lift_error (output_text mc (cur_stdout_path t) (rn_disk s))) (\<lambda>stdout_text.
     andthen (lift_error (output_text mc (cur_stderr_path t) (rn_disk s))) (\<lambda>stderr_text.
     let summary = build_result_summary (or_else (cur_type t) []) (cur_modal_context t) (path_or_dot (cur_run_dir t)) (path_or_dot (cur_workdir t))
           (cur_command t) stdout_text stderr_text in
     andthen (send post (Result_Message (result_of_task t final_status exit_code finished_at summary))) (\<lambda>_.
     andthen (send post (Artifact_Message (result_artifact (cur_task_id t) (cur_type t) final_status exit_code (cur_started_at t) finished_at
         (cur_run_dir t) stdout_text stderr_text))) (\<lambda>_.
     forget_task (cur_task_id t))))) s)"

section \<open>Following and recovering a task\<close>

text \<open>What the system says during a turn: the exit code of the process before and after the deadline is checked, and how it ends.\<close>

record process_reply =
  pr_poll :: "int option"
  pr_poll_after :: "int option"
  pr_end :: end_reply
  pr_end_late :: end_reply
  pr_alive :: bool

definition overdue :: "moment \<Rightarrow> agent_task \<Rightarrow> string + bool" where
  "overdue mo t =
     try_then (if cur_started_at t = [] then Inr (mo_now mo) else or_raise ''ValueError'' (parse_utc (replace_Z (cur_started_at t)))) (\<lambda>started_at.
       Inr (seconds (cur_timeout_sec t) < mo_now mo - started_at))"

definition request_cancel :: "end_reply \<Rightarrow> int \<Rightarrow> agent_task \<Rightarrow> ('w, agent_task) step" where
  "request_cancel er pid t =
     (let t = t\<lparr>cur_cancel_requested := True\<rparr> in
      andthen (set_current_task (Some t)) (\<lambda>_. andthen (terminate_process_tree er pid (cur_kill_grace_sec t)) (\<lambda>_. ok t)))"

definition enforce_timeout :: "moment \<Rightarrow> process_reply \<Rightarrow> int \<Rightarrow> agent_task \<Rightarrow> ('w, agent_task) step" where
  "enforce_timeout mo pr pid t =
     andthen (lift_error (overdue mo t)) (\<lambda>late.
       if pr_poll pr = None \<and> late
       then andthen (terminate_process_tree (pr_end_late pr) pid (cur_kill_grace_sec t)) (\<lambda>_.
            let t = t\<lparr>cur_timed_out := True\<rparr> in andthen (set_current_task (Some t)) (\<lambda>_. ok t))
       else ok t)"

definition final_status_of :: "agent_task \<Rightarrow> int \<Rightarrow> task_status" where
  "final_status_of t return_code =
     (if cur_cancel_requested t then Cancelled else if cur_timed_out t then Timeout else if return_code = 0 then Succeeded else Failed)"

definition sync_active_task ::
  "machine \<Rightarrow> moment \<Rightarrow> process_reply \<Rightarrow> 'w poster \<Rightarrow> string list \<Rightarrow> ('w, unit) step" where
  "sync_active_task mc mo pr post cancels s =
     (case rn_task s of
        None \<Rightarrow> (Inr (), s)
      | Some t \<Rightarrow>
          (case map_of (rn_procs s) (cur_task_id t) of
             None \<Rightarrow> (Inr (), s)
           | Some pid \<Rightarrow>
               andthen (if cur_task_id t \<in> set cancels \<and> \<not> cur_cancel_requested t then request_cancel (pr_end pr) pid t else ok t) (\<lambda>t.
               andthen (upload_logs mc post False t) (\<lambda>t.
               andthen (enforce_timeout mo pr pid t) (\<lambda>t.
               case pr_poll_after pr of
                 None \<Rightarrow> ok ()
               | Some return_code \<Rightarrow> finalize_background_task mc mo post t (final_status_of t return_code) (Some return_code)))) s))"

definition recovered :: "bool \<Rightarrow> agent_task \<Rightarrow> task_status \<times> string" where
  "recovered process_alive t =
     (if process_alive then (Lost, ''agent restarted while task process was still alive; reattach not supported in MVP'')
      else if cur_cancel_requested t then (Cancelled, ''agent recovered a previously cancelled task without live process handle'')
      else if cur_timed_out t then (Timeout, ''agent recovered a timed-out task without live process handle'')
      else (Failed, ''agent recovered an orphaned task after restart; exit code unavailable''))"

definition recover_orphaned_task :: "machine \<Rightarrow> moment \<Rightarrow> process_reply \<Rightarrow> 'w poster \<Rightarrow> ('w, unit) step" where
  "recover_orphaned_task mc mo pr post s =
     (case rn_task s of
        None \<Rightarrow> (Inr (), s)
      | Some t \<Rightarrow>
          if cur_task_id t = [] \<or> map_of (rn_procs s) (cur_task_id t) \<noteq> None then (Inr (), s)
          else andthen (upload_logs mc post True t) (\<lambda>t.
            case recovered (pr_alive pr \<and> cur_pid t \<noteq> 0) t of (final_status, note) \<Rightarrow>
              let t = t\<lparr>cur_recovery_note := Some note\<rparr> in
              andthen (set_current_task (Some t)) (\<lambda>_. finalize_background_task mc mo post t final_status None)) s)"

section \<open>One task at a time\<close>

text \<open>
  \<open>execute_task\<close>, the way of \<open>heartbeat-once\<close>: its local variables as they are when the \<open>try\<close> block
  ends, normally or not.
\<close>

record attempt =
  at_final_status :: task_status
  at_exit_code :: "int option"
  at_finished_at :: string
  at_pid :: "int option"
  at_command :: "string list"
  at_workdir :: path
  at_execution :: dict
  at_modal_context :: dict
  at_stdout :: utext
  at_stderr :: utext

text \<open>
  What the system says of the process: the seconds until it ends, its output and exit code; how it is ended,
  and its output then; and the line for an exception.
\<close>

record process_run =
  fr_ends_after :: "nat option"
  fr_output :: "utext \<times> utext"
  fr_exit_code :: int
  fr_end :: end_reply
  fr_late_output :: "utext \<times> utext"
  fr_explain :: "string \<Rightarrow> utext"

definition new_attempt :: "moment \<Rightarrow> path \<Rightarrow> attempt" where
  "new_attempt mo run_dir =
     \<lparr>at_final_status = Failed, at_exit_code = None, at_finished_at = utc_now_iso (mo_now mo), at_pid = None, at_command = [],
      at_workdir = run_dir, at_execution = [(''backend'', JStr ''default'')], at_modal_context = [], at_stdout = [], at_stderr = []\<rparr>"

definition in_runner :: "('w, 'a) step \<Rightarrow> ('w runner \<times> attempt, string, 'a) act" where
  "in_runner m s = (case m (fst s) of (r, rn) \<Rightarrow> (r, rn, snd s))"

definition set_local :: "(attempt \<Rightarrow> attempt) \<Rightarrow> ('w runner \<times> attempt, string, unit) act" where
  "set_local f s = (Inr (), fst s, f (snd s))"

definition native_result :: "moment \<Rightarrow> string \<Rightarrow> task_envelope \<Rightarrow> path \<Rightarrow> dict \<Rightarrow> result_message" where
  "native_result mo boot_id task run_dir d =
     \<lparr>tr_task_id = tv_task_id task, tr_final_status = Succeeded, tr_exit_code = Some 0, tr_summary = Native_Result (path_str run_dir) d,
      tr_boot_id = Some boot_id, tr_pid = None, tr_pgid_or_job_id = None, tr_started_at = Some (utc_now_iso (mo_now mo)),
      tr_finished_at = Some (utc_now_iso (mo_finished mo))\<rparr>"

definition native_artifact :: "moment \<Rightarrow> task_envelope \<Rightarrow> path \<Rightarrow> dict \<Rightarrow> dict" where
  "native_artifact mo task run_dir d =
     artifact_upload_payload (tv_task_id task) ''result_summary.json'' ''task_summary''
       (str_utf8 (dumps_indent 0 (JObj [(''task_id'', JStr (tv_task_id task)), (''type'', JStr (tv_type task)),
          (''final_status'', JStr ''succeeded''), (''exit_code'', JInt 0), (''started_at'', JStr (utc_now_iso (mo_now mo))),
          (''finished_at'', JStr (utc_now_iso (mo_finished mo))), (''run_dir'', JStr (path_str run_dir)), (''native_result'', JObj d)])))
       (Some ''application/json'') (Some [(''final_status'', JStr ''succeeded''), (''exit_code'', JInt 0)])"

text \<open>The body of the \<open>try\<close> block for a command, up to its end or its timeout\<close>

definition command_attempt ::
  "machine \<Rightarrow> moment \<Rightarrow> agent_settings \<Rightarrow> 'w poster \<Rightarrow> process_run \<Rightarrow> task_envelope \<Rightarrow> string \<Rightarrow> path \<Rightarrow> ('w runner \<times> attempt, string, unit) act" where
  "command_attempt mc mo ag post fr task boot_id run_dir =
     andthen (set_local (at_workdir_update (\<lambda>_. resolve_workdir task run_dir))) (\<lambda>_.
     andthen (in_runner (prepare_command mc mo ag task boot_id run_dir)) (\<lambda>pt.
     andthen (set_local (\<lambda>a. a\<lparr>at_command := bc_command (pt_command pt), at_execution := bc_summary (pt_command pt),
       at_modal_context := pt_modal pt\<rparr>)) (\<lambda>_.
     andthen (in_runner (in_disk (write_bytes (full_path (mc_host mc) run_dir @ [''task_metadata.json''])
       (task_metadata task (pt_started_at pt) run_dir (pt_workdir pt) (pt_command pt) (pt_modal pt))))) (\<lambda>_.
     andthen (in_runner (send post (running_event task pt))) (\<lambda>_.
     case mo_spawn mo (bc_command (pt_command pt)) (pt_workdir pt) (pt_env pt) of
       None \<Rightarrow> raise ''OSError''
     | Some pid \<Rightarrow>
         andthen (set_local (at_pid_update (\<lambda>_. Some pid))) (\<lambda>_.
         andthen (in_runner (set_current_task (Some
           \<lparr>cur_task_id = tv_task_id task, cur_type = None, cur_pid = pid, cur_started_at = pt_started_at pt, cur_boot_id = None,
            cur_run_dir = path_str run_dir, cur_workdir = [], cur_command = [], cur_timeout_sec = 3600, cur_kill_grace_sec = 15,
            cur_execution = [(''backend'', JStr ''default'')], cur_modal_context = [], cur_stdout_path = None, cur_stderr_path = None,
            cur_stdout_offset = 0, cur_stderr_offset = 0, cur_cancel_requested = False, cur_timed_out = False,
            cur_recovery_note = None\<rparr>))) (\<lambda>_.
         if \<not> ends_within (tv_timeout_sec task) (fr_ends_after fr) then raise ''TimeoutExpired''
         else set_local (\<lambda>a. a\<lparr>at_stdout := fst (fr_output fr), at_stderr := snd (fr_output fr), at_exit_code := Some (fr_exit_code fr),
           at_finished_at := utc_now_iso (mo_finished mo), at_final_status := (if fr_exit_code fr = 0 then Succeeded else Failed)\<rparr>))))))))"

text \<open>The \<open>try\<close> block; True when the task was native and has been reported\<close>

definition try_block ::
  "machine \<Rightarrow> moment \<Rightarrow> agent_settings \<Rightarrow> 'w poster \<Rightarrow> process_run \<Rightarrow> task_envelope \<Rightarrow> string \<Rightarrow> path \<Rightarrow> ('w runner \<times> attempt, string, bool) act" where
  "try_block mc mo ag post fr task boot_id run_dir =
     andthen (in_runner (in_files (execute_native_task mc ag (\<lambda>d. post (Artifact_Message d)) task))) (\<lambda>native.
       case native of
         Some d \<Rightarrow>
           andthen (in_runner (send post (Result_Message (native_result mo boot_id task run_dir d)))) (\<lambda>_.
           andthen (in_runner (send post (Artifact_Message (native_artifact mo task run_dir d)))) (\<lambda>_. ok True))
       | None \<Rightarrow> andthen (command_attempt mc mo ag post fr task boot_id run_dir) (\<lambda>_. ok False))"

text \<open>
  The two \<open>except\<close> clauses. A timeout ends the process and keeps what it wrote; an error while it is ended is
  not caught. (No process: \<open>TimeoutExpired\<close> comes from waiting for one.)
\<close>

definition except_block :: "moment \<Rightarrow> process_run \<Rightarrow> task_envelope \<Rightarrow> string \<Rightarrow> ('w runner \<times> attempt, string, unit) act" where
  "except_block mo fr task e s =
     (if e = ''TimeoutExpired'' then
        andthen (case at_pid (snd s) of
            None \<Rightarrow> ok ()
          | Some pid \<Rightarrow>
              andthen (in_runner (terminate_process_tree (fr_end fr) pid (tv_kill_grace_sec task))) (\<lambda>_.
              set_local (\<lambda>a. a\<lparr>at_stdout := fst (fr_late_output fr), at_stderr := snd (fr_late_output fr)\<rparr>)))
          (\<lambda>_. set_local (\<lambda>a. a\<lparr>at_finished_at := utc_now_iso (mo_finished mo), at_final_status := Timeout, at_exit_code := None\<rparr>)) s
      else set_local (\<lambda>a. a\<lparr>at_finished_at := utc_now_iso (mo_finished mo), at_final_status := Failed,
        at_stderr := fr_explain fr e\<rparr>) s)"

definition upload_text :: "'w poster \<Rightarrow> string \<Rightarrow> stream \<Rightarrow> utext \<Rightarrow> ('w, unit) step" where
  "upload_text post task_id st txt s =
     (case upload_log_text (\<lambda>p. post (Log_Message p)) task_id st txt (rn_offsets s) (rn_out s) of
        (r, offs, w) \<Rightarrow> (named_error r, s\<lparr>rn_offsets := offs, rn_out := w\<rparr>))"

definition finally_block :: "machine \<Rightarrow> 'w poster \<Rightarrow> task_envelope \<Rightarrow> path \<Rightarrow> attempt \<Rightarrow> ('w, unit) step" where
  "finally_block mc post task run_dir a =
     andthen (in_disk (write_local_logs (full_path (mc_host mc) run_dir) (at_stdout a) (at_stderr a))) (\<lambda>_.
     andthen (upload_text post (tv_task_id task) Stdout (at_stdout a)) (\<lambda>_.
     andthen (upload_text post (tv_task_id task) Stderr (at_stderr a)) (\<lambda>_.
     set_current_task None)))"

definition result_of_attempt :: "task_envelope \<Rightarrow> string \<Rightarrow> moment \<Rightarrow> path \<Rightarrow> attempt \<Rightarrow> result_message" where
  "result_of_attempt task boot_id mo run_dir a =
     \<lparr>tr_task_id = tv_task_id task, tr_final_status = at_final_status a, tr_exit_code = at_exit_code a,
      tr_summary = Command_Result (build_result_summary (tv_type task) (at_modal_context a) run_dir (at_workdir a) (at_command a)
        (at_stdout a) (at_stderr a)) (at_execution a),
      tr_boot_id = Some boot_id, tr_pid = at_pid a, tr_pgid_or_job_id = map_option int_str (at_pid a),
      tr_started_at = Some (utc_now_iso (mo_now mo)), tr_finished_at = Some (at_finished_at a)\<rparr>"

definition report_attempt :: "machine \<Rightarrow> moment \<Rightarrow> 'w poster \<Rightarrow> task_envelope \<Rightarrow> string \<Rightarrow> path \<Rightarrow> attempt \<Rightarrow> ('w, task_status) step" where
  "report_attempt mc mo post task boot_id run_dir a =
     andthen (send post (Result_Message (result_of_attempt task boot_id mo run_dir a))) (\<lambda>_.
     andthen (send post (Artifact_Message (result_artifact (tv_task_id task) (Some (tv_type task)) (at_final_status a) (at_exit_code a)
       (utc_now_iso (mo_now mo)) (at_finished_at a) (path_str run_dir) (at_stdout a) (at_stderr a)))) (\<lambda>_. ok (at_final_status a)))"

definition execute_task ::
  "machine \<Rightarrow> moment \<Rightarrow> agent_settings \<Rightarrow> 'w poster \<Rightarrow> process_run \<Rightarrow> task_envelope \<Rightarrow> ('w, task_status) step" where
  "execute_task mc mo ag post fr task =
     andthen (get_boot_id mo) (\<lambda>boot_id.
     andthen (in_files (prepare_run_dir (mc_host mc) ag (mo_timestamp mo) (tv_task_id task))) (\<lambda>run_dir s.
       case (case try_block mc mo ag post fr task boot_id run_dir (s, new_attempt mo run_dir) of
               (Inr reported, s, a) \<Rightarrow> (Inr reported, s, a)
             | (Inl e, s, a) \<Rightarrow> andthen (except_block mo fr task e) (\<lambda>_. ok False) (s, a)) of
         (r, s, a) \<Rightarrow>
           andthen (finally_block mc post task run_dir a) (\<lambda>_.
             case r of Inl e \<Rightarrow> raise e
             | Inr reported \<Rightarrow> if reported then ok Succeeded else report_attempt mc mo post task boot_id run_dir a) s))"

fun execute_tasks ::
  "machine \<Rightarrow> agent_settings \<Rightarrow> 'w poster \<Rightarrow> (moment \<times> process_run \<times> task_envelope) list \<Rightarrow> ('w, task_status list) step" where
  "execute_tasks mc ag post [] = ok []"
| "execute_tasks mc ag post ((mo, fr, task) # rest) =
     andthen (execute_task mc mo ag post fr task) (\<lambda>st. andthen (execute_tasks mc ag post rest) (\<lambda>sts. ok (st # sts)))"

end
