(* ===== verification/Agent_Report.thy ===== *)
theory Agent_Report
  imports Agent_Runner
begin

text \<open>
  What the agent owes the control plane: it forgets a task only once the control plane knows how the task
  ended. The control plane is the locale \<open>reporting\<close>; the facts about the dispatcher are proved there.
\<close>

section \<open>Sending logs\<close>

text \<open>What every chunk keeps holds after all of them.\<close>

lemma send_chunks_pres:
  assumes chunk: "\<And>p w r w'. P w \<Longrightarrow> post p w = (r, w') \<Longrightarrow> P w'"
  shows "P w \<Longrightarrow> send_chunks post tid st x final offset rel offs w = (r, offs', w') \<Longrightarrow> P w'"
proof (induction "length x - rel" arbitrary: offset rel offs w rule: less_induct)
  case less
  show ?case
  proof (cases "rel < length x")
    case False
    with less.prems show ?thesis by (simp add: send_chunks.simps [of post tid st x final offset rel])
  next
    case True
    define ch where "ch = take LOG_CHUNK_SIZE (drop rel x)"
    have pos: "0 < length ch" using True by (simp add: ch_def LOG_CHUNK_SIZE_def)
    obtain q w1 where p: "post \<lparr>lp_task_id = tid, lp_stream = st, lp_offset_start = int offset, lp_text = ch,
        lp_is_final = (final \<and> length x \<le> rel + length ch)\<rparr> w = (q, w1)" by fastforce
    have P1: "P w1" using chunk [OF less.prems(1) p] .
    show ?thesis
    proof (cases q)
      case (Inl e)
      with less.prems(2) True p P1 show ?thesis by (simp add: send_chunks.simps [of post tid st x final offset rel] Let_def ch_def)
    next
      case (Inr d)
      with less.prems(2) True p have "send_chunks post tid st x final (offset + length ch) (rel + length ch)
          (store_acked_log_offset tid st (offset + length ch) offs) w1 = (r, offs', w')"
        by (simp add: send_chunks.simps [of post tid st x final offset rel] Let_def ch_def)
      with less.hyps [OF _ P1] True pos show ?thesis by (metis diff_less_mono2 less_add_same_cancel1)
    qed
  qed
qed

lemma send_log_chunks_pres:
  assumes chunk: "\<And>p w r w'. P w \<Longrightarrow> post p w = (r, w') \<Longrightarrow> P w'"
    and P: "P w" and r: "send_log_chunks_with_ack post tid st x start final offs w = (r, offs', w')"
  shows "P w'"
proof -
  have one: "post p w = (q, w1) \<Longrightarrow> P w1" for p q w1 using chunk [OF P] .
  have "send_chunks post tid st x final start 0 offs w = (r, offs', w') \<Longrightarrow> P w'" using send_chunks_pres [where P = P, OF chunk P] .
  with r one P show ?thesis by (auto simp: send_log_chunks_with_ack_def split: if_splits prod.splits sum.splits)
qed

lemma upload_stream_pres:
  assumes chunk: "\<And>p w r w'. P w \<Longrightarrow> post p w = (r, w') \<Longrightarrow> P w'"
    and P: "P w" and r: "upload_stream post final st t d w = (r, d', w')"
  shows "P w' \<and> dk_task d' = dk_task d \<and> (\<forall>t'. r = Inr t' \<longrightarrow> cur_task_id t' = cur_task_id t)"
proof -
  have set: "cur_task_id (set_stream_offset st n t) = cur_task_id t" for n
    by (simp add: set_stream_offset_def split: stream.split)
  have sent: "send_log_chunks_with_ack post tid st x start final offs w = (q, o1, w1) \<Longrightarrow> P w1" for tid st x start final offs q o1 w1
    using send_log_chunks_pres [where P = P, OF chunk P] .
  show ?thesis
    using r P by (auto simp: upload_stream_def Let_def set split: if_splits prod.splits sum.splits dest: sent)
qed

lemma upload_incremental_pres:
  assumes chunk: "\<And>p w r w'. P w \<Longrightarrow> post p w = (r, w') \<Longrightarrow> P w'"
    and P: "P w" and r: "upload_incremental_logs post final t d w = (r, d', w')"
  shows "P w' \<and> (case r of Inl _ \<Rightarrow> dk_task d' = dk_task d | Inr t' \<Rightarrow> dk_task d' = Some t' \<and> cur_task_id t' = cur_task_id t)"
proof -
  define d0 where "d0 = d\<lparr>dk_offsets := init_log_offsets (cur_task_id t) (dk_offsets d)\<rparr>"
  obtain q1 d1 w1 where s1: "upload_stream post final Stdout t d0 w = (q1, d1, w1)" using prod_cases3 by blast
  note k1 = upload_stream_pres [where P = P, OF chunk P s1]
  have d0: "dk_task d0 = dk_task d" by (simp add: d0_def)
  have up: "upload_incremental_logs post final t d w = (case q1 of
      Inl e \<Rightarrow> (Inl e, d1, w1)
    | Inr t \<Rightarrow> (case upload_stream post final Stderr t d1 w1 of
          (Inl e, d, w) \<Rightarrow> (Inl e, d, w) | (Inr t, d, w) \<Rightarrow> (Inr t, d\<lparr>dk_task := Some t\<rparr>, w)))"
    unfolding upload_incremental_logs_def s1 [unfolded d0_def] by (cases q1) (simp_all only: prod.case sum.case)
  show ?thesis
  proof (cases q1)
    case (Inl e)
    have "(r, d', w') = (Inl e, d1, w1)" using r unfolding up Inl sum.case by (rule sym)
    with k1 d0 show ?thesis by simp
  next
    case (Inr t1)
    obtain q2 d2 w2 where s2: "upload_stream post final Stderr t1 d1 w1 = (q2, d2, w2)" using prod_cases3 by blast
    note k2 = upload_stream_pres [where P = P, OF chunk conjunct1 [OF k1] s2]
    have up2: "(r, d', w') = (case q2 of Inl e \<Rightarrow> (Inl e, d2, w2) | Inr t \<Rightarrow> (Inr t, d2\<lparr>dk_task := Some t\<rparr>, w2))"
      using r unfolding up Inr sum.case s2 prod.case by (rule sym)
    have t1: "cur_task_id t1 = cur_task_id t" and d1: "dk_task d1 = dk_task d" using k1 d0 Inr by simp_all
    show ?thesis using up2 conjunct1 [OF k2] conjunct2 [OF k2] t1 d1 by (cases q2) simp_all
  qed
qed

section \<open>The contract of the control plane\<close>

text \<open>The agent reports \<open>running\<close> and final statuses; it does not send the events of the background scan.\<close>

definition agent_says :: "agent_message \<Rightarrow> bool" where
  "agent_says m \<longleftrightarrow>
     (case m of Event_Message p _ _ \<Rightarrow> ep_event p = Ev_Running | Result_Message p \<Rightarrow> tr_final_status p \<in> TERMINAL_TASK_STATUSES
      | _ \<Rightarrow> True)"

definition current :: "string \<Rightarrow> 'w runner \<Rightarrow> bool" where
  "current tid s \<longleftrightarrow> map_option cur_task_id (rn_task s) = Some tid"

lemma current_Some: "rn_task s = Some t \<Longrightarrow> current tid s \<longleftrightarrow> cur_task_id t = tid"
  by (simp add: current_def)

lemma current_new [simp]: "current tid (s\<lparr>rn_task := Some t\<rparr>) \<longleftrightarrow> cur_task_id t = tid"
  by (simp add: current_def)

lemma current_same: "rn_task s' = rn_task s \<Longrightarrow> current tid s' = current tid s"
  by (simp add: current_def)

definition runs :: "string \<Rightarrow> 'w runner \<Rightarrow> bool" where
  "runs tid s \<longleftrightarrow> tid \<noteq> [] \<and> current tid s"

text \<open>Nothing settled is unsettled, and a task is forgotten only when it is settled.\<close>

definition calm :: "('w \<Rightarrow> bool) \<Rightarrow> (string \<Rightarrow> 'w \<Rightarrow> bool) \<Rightarrow> 'w \<Rightarrow> 'w \<Rightarrow> bool" where
  "calm good settled w w' \<longleftrightarrow> (good w \<longrightarrow> good w' \<and> (\<forall>tid. settled tid w \<longrightarrow> settled tid w'))"

definition tracked :: "('w \<Rightarrow> bool) \<Rightarrow> (string \<Rightarrow> 'w \<Rightarrow> bool) \<Rightarrow> 'w runner \<Rightarrow> 'w runner \<Rightarrow> bool" where
  "tracked good settled s s' \<longleftrightarrow> calm good settled (rn_out s) (rn_out s') \<and>
     (good (rn_out s) \<longrightarrow> (\<forall>tid. runs tid s \<longrightarrow> runs tid s' \<or> settled tid (rn_out s')))"

definition calm_step :: "('w \<Rightarrow> bool) \<Rightarrow> (string \<Rightarrow> 'w \<Rightarrow> bool) \<Rightarrow> ('w, 'a) step \<Rightarrow> bool" where
  "calm_step good settled m \<longleftrightarrow> (\<forall>s r s'. m s = (r, s') \<longrightarrow> calm good settled (rn_out s) (rn_out s'))"

text \<open>A step on the current task \<open>tid\<close> whose result is the state of the same task.\<close>

definition on_task :: "('w \<Rightarrow> bool) \<Rightarrow> (string \<Rightarrow> 'w \<Rightarrow> bool) \<Rightarrow> string \<Rightarrow> 'w runner \<Rightarrow> string + agent_task \<Rightarrow> 'w runner \<Rightarrow> bool" where
  "on_task good settled tid s r s' \<longleftrightarrow>
     tracked good settled s s' \<and> current tid s' \<and> (case r of Inl _ \<Rightarrow> True | Inr t \<Rightarrow> cur_task_id t = tid)"

lemma on_taskD:
  assumes "on_task good settled tid s r s'"
  shows "tracked good settled s s'" and "current tid s'" and "r = Inr t \<Longrightarrow> cur_task_id t = tid"
  using assms by (auto simp: on_task_def)

lemma andthen_cases:
  assumes "andthen m k s = (r, s'')"
  obtains (fails) e where "m s = (Inl e, s'')" and "r = Inl e" | (goes) a s' where "m s = (Inr a, s')" and "k a s' = (r, s'')"
  using assms by (auto simp: andthen_def split: prod.splits sum.splits)

section \<open>Steps that only touch the disk\<close>

definition quiet :: "('w, 'a) step \<Rightarrow> bool" where
  "quiet m \<longleftrightarrow> (\<forall>s r s'. m s = (r, s') \<longrightarrow> rn_out s' = rn_out s \<and> rn_task s' = rn_task s)"

lemma quietD: "quiet m \<Longrightarrow> m s = (r, s') \<Longrightarrow> rn_out s' = rn_out s \<and> rn_task s' = rn_task s"
  by (simp add: quiet_def)

lemma quiet_andthen: "quiet m \<Longrightarrow> (\<And>a. quiet (k a)) \<Longrightarrow> quiet (andthen m k)"
  by (fastforce simp: quiet_def andthen_def split: prod.splits sum.splits)

lemma quiet_ok: "quiet (ok a)" and quiet_raise: "quiet (raise e)"
  by (simp_all add: quiet_def ok_def raise_def)

lemma quiet_lift: "quiet (lift_error r)"
  by (simp add: quiet_def lift_error_def)

lemma quiet_boot_id: "quiet (get_boot_id mo)"
  by (auto simp: quiet_def get_boot_id_def Let_def)

lemma quiet_disk: "quiet (in_disk m)"
  by (auto simp: quiet_def in_disk_def split: prod.splits)

lemma quiet_run_dir: "quiet (in_files (prepare_run_dir h ag ts tid))"
  by (auto simp: quiet_def in_files_def prepare_run_dir_def Let_def on_disk_def ok_def elim!: andthen_cases split: prod.splits)

lemma quiet_modal: "quiet (modal_setup_of ag task)"
  by (auto simp: quiet_def modal_setup_of_def split: prod.splits)

lemma quiet_spawn: "quiet (spawn_process mo task pt)"
  by (auto simp: quiet_def spawn_process_def split: option.splits)

lemma quiet_terminate: "quiet (terminate_process_tree er pid grace)"
  by (auto simp: quiet_def terminate_process_tree_def signal_def Let_def)

lemma quiet_prepare: "quiet (prepare_command mc mo ag task boot_id run_dir)"
  unfolding prepare_command_def prepare_workdir_def Let_def
  by (rule quiet_andthen, rule quiet_andthen, rule quiet_disk, rule quiet_ok, rule quiet_andthen, rule quiet_modal)
    (auto intro!: quiet_andthen quiet_disk quiet_ok split: prod.splits)

locale reporting =
  fixes post :: "'w poster" and good :: "'w \<Rightarrow> bool" and settled :: "string \<Rightarrow> 'w \<Rightarrow> bool"
  assumes post_calm: "agent_says m \<Longrightarrow> post m w = (r, w') \<Longrightarrow> calm good settled w w'"
    and post_result: "good w \<Longrightarrow> agent_says (Result_Message p) \<Longrightarrow> post (Result_Message p) w = (Inr d, w') \<Longrightarrow> settled (tr_task_id p) w'"
begin

lemma calm_refl: "calm good settled w w"
  by (simp add: calm_def)

lemma calm_trans: "calm good settled w w1 \<Longrightarrow> calm good settled w1 w2 \<Longrightarrow> calm good settled w w2"
  by (simp add: calm_def)

lemma tracked_calm: "tracked good settled s s' \<Longrightarrow> calm good settled (rn_out s) (rn_out s')"
  by (simp add: tracked_def)

lemma tracked_trans: "tracked good settled s s1 \<Longrightarrow> tracked good settled s1 s2 \<Longrightarrow> tracked good settled s s2"
  by (auto simp: tracked_def calm_def)

lemma current_tracked: "calm good settled (rn_out s) (rn_out s') \<Longrightarrow> current tid s \<Longrightarrow> current tid s' \<Longrightarrow> tracked good settled s s'"
  by (auto simp: tracked_def runs_def current_def)

lemma same_task_tracked: "calm good settled (rn_out s) (rn_out s') \<Longrightarrow> rn_task s' = rn_task s \<Longrightarrow> tracked good settled s s'"
  by (simp add: tracked_def runs_def current_def)

lemma tracked_refl: "tracked good settled s s"
  by (simp add: same_task_tracked calm_refl)

lemma idle_tracked: "calm good settled (rn_out s) (rn_out s') \<Longrightarrow> \<not> has_active_task s \<Longrightarrow> tracked good settled s s'"
  by (auto simp: tracked_def runs_def current_def has_active_task_def)

lemma send_calm:
  assumes "agent_says m" and "send post m s = (r, s')"
  shows "calm good settled (rn_out s) (rn_out s') \<and> rn_task s' = rn_task s"
  using assms(2) post_calm [OF assms(1)] by (auto simp: send_def split: prod.splits)

lemma upload_logs_tracked:
  assumes t: "current (cur_task_id t) s" and u: "upload_logs mc post final t s = (r, s')"
  shows "on_task good settled (cur_task_id t) s r s'"
proof -
  define d where "d = \<lparr>dk_offsets = rn_offsets s, dk_task = rn_task s, dk_files = disk_file (mc_host mc) (rn_disk s)\<rparr>"
  obtain q d' w' where up: "upload_incremental_logs (\<lambda>p. post (Log_Message p)) final t d (rn_out s) = (q, d', w')"
    using prod_cases3 by blast
  have chunk: "calm good settled (rn_out s) w \<Longrightarrow> post (Log_Message p) w = (r, w') \<Longrightarrow> calm good settled (rn_out s) w'" for p w r w'
    using calm_trans post_calm [of "Log_Message p"] by (auto simp: agent_says_def)
  note k = upload_incremental_pres [where P = "calm good settled (rn_out s)", OF chunk calm_refl up]
  have s': "s' = s\<lparr>rn_offsets := dk_offsets d', rn_task := dk_task d', rn_out := w'\<rparr>" and r: "r = named_error q"
    using u up by (simp_all add: upload_logs_def d_def)
  have c: "current (cur_task_id t) s'" using k t by (cases q) (auto simp: s' d_def current_def)
  moreover have "tracked good settled s s'" using current_tracked [OF _ t c] k by (simp add: s')
  moreover have "case r of Inl _ \<Rightarrow> True | Inr t' \<Rightarrow> cur_task_id t' = cur_task_id t" using k by (cases q) (simp_all add: r named_error_def)
  ultimately show ?thesis by (simp add: on_task_def)
qed

lemma not_good_tracked: "\<not> good (rn_out s) \<Longrightarrow> tracked good settled s s'"
  by (simp add: tracked_def calm_def)

lemma send_tracked: "agent_says m \<Longrightarrow> send post m s = (r, s') \<Longrightarrow> tracked good settled s s'"
  using send_calm by (simp add: same_task_tracked)

lemma forget_tracked:
  assumes "forget_task tid s = (r, s')" and "current tid s" and "settled tid (rn_out s)"
  shows "tracked good settled s s'"
  using assms by (auto simp: forget_task_def tracked_def runs_def current_def calm_refl)

text \<open>The end of a task: it is forgotten after its result has arrived.\<close>

lemma report_tracked:
  assumes t: "current (tr_task_id p) s" and p: "agent_says (Result_Message p)"
    and f: "andthen (send post (Result_Message p)) (\<lambda>_. andthen (send post (Artifact_Message a)) (\<lambda>_. forget_task (tr_task_id p))) s = (r, s')"
  shows "tracked good settled s s'"
proof (cases "good (rn_out s)")
  case False
  then show ?thesis by (rule not_good_tracked)
next
  case g: True
  have art: "agent_says (Artifact_Message a)" by (simp add: agent_says_def)
  from f show ?thesis
  proof (cases rule: andthen_cases)
    case (fails e)
    then show ?thesis using send_tracked [OF p] by blast
  next
    case sent: (goes d s1)
    have "settled (tr_task_id p) (rn_out s1)"
      using sent(1) post_result [OF g p] by (auto simp: send_def named_error_def split: prod.splits sum.splits)
    note s1 = this send_calm [OF p sent(1)]
    from sent(2) show ?thesis
    proof (cases rule: andthen_cases)
      case (fails e)
      then show ?thesis using send_tracked [OF p sent(1)] send_tracked [OF art] tracked_trans by blast
    next
      case (goes d' s2)
      note s2 = send_calm [OF art goes(1)]
      have "settled (tr_task_id p) (rn_out s2)" using s1 s2 g by (simp add: calm_def)
      have c2: "current (tr_task_id p) s2" using t s1 s2 by (simp add: current_def)
      from \<open>settled (tr_task_id p) (rn_out s2)\<close> have "tracked good settled s2 s'"
        by (rule forget_tracked [OF goes(2) c2])
      then show ?thesis using tracked_trans send_tracked [OF p sent(1)] send_tracked [OF art goes(1)] by blast
    qed
  qed
qed

lemma finalize_tracked:
  assumes t: "current (cur_task_id t) s" and st: "st \<in> TERMINAL_TASK_STATUSES"
    and f: "finalize_background_task mc mo post t st ec s = (r, s')"
  shows "tracked good settled s s'"
  using f unfolding finalize_background_task_def
proof (cases rule: andthen_cases)
  case (fails e)
  with on_taskD(1) [OF upload_logs_tracked [OF t]] show ?thesis by blast
next
  case up: (goes t1 s1)
  note u = on_taskD(1,2) [OF upload_logs_tracked [OF t up(1)]] on_taskD(3) [OF upload_logs_tracked [OF t up(1)] refl]
  have id: "current (cur_task_id t1) s1" using u by simp
  have reported: "andthen (send post (Result_Message (result_of_task t1 st ec fin sm))) (\<lambda>_.
      andthen (send post (Artifact_Message a)) (\<lambda>_. forget_task (cur_task_id t1))) s1 = (r, s') \<Longrightarrow> tracked good settled s1 s'" for fin sm a
    using report_tracked [where s = s1 and p = "result_of_task t1 st ec fin sm" and a = a] id st by (simp add: result_of_task_def agent_says_def)
  have "tracked good settled s1 s'"
    using up(2) unfolding Let_def lift_error_def
  proof (cases rule: andthen_cases)
    case (goes so s2)
    then show ?thesis using reported by (auto simp: tracked_refl elim: andthen_cases [where m = "\<lambda>s. (output_text _ _ _, s)"])
  qed (simp add: tracked_refl)
  with u(1) show ?thesis using tracked_trans by blast
qed

lemma quiet_tracked: "quiet m \<Longrightarrow> m s = (r, s') \<Longrightarrow> tracked good settled s s'"
  by (drule (1) quietD) (simp add: same_task_tracked calm_refl)

lemma request_cancel_tracked:
  assumes t: "current (cur_task_id t) s" and r: "request_cancel er pid t s = (r, s')"
  shows "on_task good settled (cur_task_id t) s r s'"
proof -
  define s1 where "s1 = s\<lparr>rn_task := Some (t\<lparr>cur_cancel_requested := True\<rparr>)\<rparr>"
  obtain q s2 where q: "terminate_process_tree er pid (cur_kill_grace_sec t) s1 = (q, s2)" by fastforce
  have "request_cancel er pid t s = andthen (terminate_process_tree er pid (cur_kill_grace_sec t)) (\<lambda>_. ok (t\<lparr>cur_cancel_requested := True\<rparr>)) s1"
    by (simp add: request_cancel_def Let_def andthen_Inr [OF set_current_task_def] s1_def)
  also have "\<dots> = (case q of Inl e \<Rightarrow> Inl e | Inr _ \<Rightarrow> Inr (t\<lparr>cur_cancel_requested := True\<rparr>), s2)"
    by (cases q) (simp_all add: andthen_def q ok_def)
  finally have x: "s' = s2" "r = (case q of Inl e \<Rightarrow> Inl e | Inr _ \<Rightarrow> Inr (t\<lparr>cur_cancel_requested := True\<rparr>))"
    unfolding r by simp_all
  have k: "rn_out s2 = rn_out s" "rn_task s2 = rn_task s1" using quietD [OF quiet_terminate q] by (simp_all add: s1_def)
  have c: "current (cur_task_id t) s2" using k(2) by (simp add: s1_def current_def)
  have "tracked good settled s s2" using k(1) calm_refl by (intro current_tracked [OF _ t c]) simp
  with c show ?thesis by (cases q) (simp_all add: on_task_def x)
qed

lemma enforce_timeout_tracked:
  assumes t: "current (cur_task_id t) s" and r: "enforce_timeout mo pr pid t s = (r, s')"
  shows "on_task good settled (cur_task_id t) s r s'"
proof -
  obtain q s2 where q: "terminate_process_tree (pr_end_late pr) pid (cur_kill_grace_sec t) s = (q, s2)" by fastforce
  have k: "rn_out s2 = rn_out s" "rn_task s2 = rn_task s" using quietD [OF quiet_terminate q] by simp_all
  define t' where "t' = t\<lparr>cur_timed_out := True\<rparr>"
  define late where "late = (case q of Inl e \<Rightarrow> (Inl e, s2) | Inr _ \<Rightarrow> (Inr t', s2\<lparr>rn_task := Some t'\<rparr>))"
  have "andthen (terminate_process_tree (pr_end_late pr) pid (cur_kill_grace_sec t))
      (\<lambda>_. let t = t\<lparr>cur_timed_out := True\<rparr> in andthen (set_current_task (Some t)) (\<lambda>_. ok t)) s = late"
    unfolding late_def by (cases q) (simp_all add: andthen_def q ok_def set_current_task_def Let_def t'_def)
  then have x: "(r, s') = (case overdue mo t of Inl e \<Rightarrow> (Inl e, s) | Inr l \<Rightarrow> if pr_poll pr = None \<and> l then late else (Inr t, s))"
    unfolding r [symmetric] enforce_timeout_def andthen_def [of "lift_error _"] lift_error_def
    by (cases "overdue mo t") (simp_all add: ok_def)
  have "on_task good settled (cur_task_id t) s (fst late) (snd late)"
  proof (cases q)
    case (Inl e)
    have "tracked good settled s s2" by (rule same_task_tracked [OF _ k(2)]) (simp add: k(1) calm_refl)
    moreover have "current (cur_task_id t) s2" using t current_same [OF k(2)] by blast
    ultimately show ?thesis by (simp add: late_def on_task_def Inl)
  next
    case (Inr u)
    have "tracked good settled s (s2\<lparr>rn_task := Some t'\<rparr>)"
      by (rule current_tracked [OF _ t]) (simp_all add: k calm_refl t'_def)
    with Inr show ?thesis by (simp add: late_def on_task_def t'_def)
  qed
  moreover have "on_task good settled (cur_task_id t) s (Inr t) s" "on_task good settled (cur_task_id t) s (Inl e) s" for e
    using t tracked_refl by (simp_all add: on_task_def)
  ultimately show ?thesis using x by (auto split: sum.splits if_splits simp: prod_eq_iff)
qed

lemma final_status_terminal: "final_status_of t rc \<in> TERMINAL_TASK_STATUSES"
  by (simp add: final_status_of_def TERMINAL_TASK_STATUSES_def)

lemma recovered_terminal: "fst (recovered alive t) \<in> TERMINAL_TASK_STATUSES"
  by (simp add: recovered_def TERMINAL_TASK_STATUSES_def)

lemma sync_tracked:
  assumes "sync_active_task mc mo pr post cancels s = (r, s')"
  shows "tracked good settled s s'"
proof (cases "rn_task s")
  case None
  with assms show ?thesis by (simp add: sync_active_task_def tracked_refl)
next
  case (Some t)
  show ?thesis
  proof (cases "map_of (rn_procs s) (cur_task_id t)")
    case None
    with assms Some show ?thesis by (simp add: sync_active_task_def tracked_refl)
  next
    case pid: (Some pid)
    have t: "current (cur_task_id t) s" using Some by (simp add: current_Some)
    define cancel :: "('w, agent_task) step" where
      "cancel = (if cur_task_id t \<in> set cancels \<and> \<not> cur_cancel_requested t then request_cancel (pr_end pr) pid t else ok t)"
    have run: "andthen cancel (\<lambda>t. andthen (upload_logs mc post False t) (\<lambda>t. andthen (enforce_timeout mo pr pid t) (\<lambda>t.
        case pr_poll_after pr of None \<Rightarrow> ok ()
        | Some rc \<Rightarrow> finalize_background_task mc mo post t (final_status_of t rc) (Some rc)))) s = (r, s')"
      using assms Some pid by (simp add: sync_active_task_def cancel_def)
    have c: "cancel s = (q, s1) \<Longrightarrow> on_task good settled (cur_task_id t) s q s1" for q s1
      using request_cancel_tracked [OF t] t tracked_refl by (auto simp: cancel_def ok_def on_task_def split: if_splits)
    from run show ?thesis
    proof (cases rule: andthen_cases)
      case (fails e)
      with on_taskD(1) [OF c] show ?thesis by blast
    next
      case one: (goes t1 s1)
      note k1 = on_taskD(1,2) [OF c [OF one(1)]] on_taskD(3) [OF c [OF one(1)] refl]
      have t1: "current (cur_task_id t1) s1" using k1 by simp
      from one(2) show ?thesis
      proof (cases rule: andthen_cases)
        case (fails e)
        with k1(1) on_taskD(1) [OF upload_logs_tracked [OF t1]] tracked_trans show ?thesis by blast
      next
        case two: (goes t2 s2)
        note k2 = on_taskD(1,2) [OF upload_logs_tracked [OF t1 two(1)]] on_taskD(3) [OF upload_logs_tracked [OF t1 two(1)] refl]
        have t2: "current (cur_task_id t2) s2" using k2 by simp
        have k12: "tracked good settled s s2" using tracked_trans [OF k1(1) k2(1)] .
        from two(2) show ?thesis
        proof (cases rule: andthen_cases)
          case (fails e)
          with k12 on_taskD(1) [OF enforce_timeout_tracked [OF t2]] tracked_trans show ?thesis by blast
        next
          case three: (goes t3 s3)
          note k3 = on_taskD(1,2) [OF enforce_timeout_tracked [OF t2 three(1)]] on_taskD(3) [OF enforce_timeout_tracked [OF t2 three(1)] refl]
          have t3: "current (cur_task_id t3) s3" using k3 by simp
          have "tracked good settled s3 s'"
            using three(2) finalize_tracked [OF t3 final_status_terminal] tracked_refl by (auto simp: ok_def split: option.splits)
          with k12 k3(1) tracked_trans show ?thesis by blast
        qed
      qed
    qed
  qed
qed

lemma recover_tracked:
  assumes "recover_orphaned_task mc mo pr post s = (r, s')"
  shows "tracked good settled s s'"
proof (cases "rn_task s")
  case None
  with assms show ?thesis by (simp add: recover_orphaned_task_def tracked_refl)
next
  case (Some t)
  have t: "current (cur_task_id t) s" using Some by (simp add: current_Some)
  show ?thesis
  proof (cases "cur_task_id t = [] \<or> map_of (rn_procs s) (cur_task_id t) \<noteq> None")
    case True
    with assms Some show ?thesis by (auto simp: recover_orphaned_task_def tracked_refl)
  next
    case False
    with assms Some have "andthen (upload_logs mc post True t) (\<lambda>t. case recovered (pr_alive pr \<and> cur_pid t \<noteq> 0) t of (fs, note) \<Rightarrow>
        let t = t\<lparr>cur_recovery_note := Some note\<rparr> in
        andthen (set_current_task (Some t)) (\<lambda>_. finalize_background_task mc mo post t fs None)) s = (r, s')"
      by (auto simp: recover_orphaned_task_def)
    then show ?thesis
    proof (cases rule: andthen_cases)
      case (fails e)
      with on_taskD(1) [OF upload_logs_tracked [OF t]] show ?thesis by blast
    next
      case (goes t1 s1)
      note k1 = on_taskD(1,2) [OF upload_logs_tracked [OF t goes(1)]] on_taskD(3) [OF upload_logs_tracked [OF t goes(1)] refl]
      obtain fs note' where rec: "recovered (pr_alive pr \<and> cur_pid t1 \<noteq> 0) t1 = (fs, note')" by fastforce
      have fs: "fs \<in> TERMINAL_TASK_STATUSES" using recovered_terminal [of "pr_alive pr \<and> cur_pid t1 \<noteq> 0" t1] by (simp add: rec)
      define t2 where "t2 = t1\<lparr>cur_recovery_note := Some note'\<rparr>"
      have fin: "finalize_background_task mc mo post t2 fs None (s1\<lparr>rn_task := Some t2\<rparr>) = (r, s')"
        using goes(2) by (simp add: rec Let_def andthen_def set_current_task_def t2_def)
      have "tracked good settled s1 (s1\<lparr>rn_task := Some t2\<rparr>)"
        by (rule current_tracked [OF _ k1(2)]) (simp_all add: t2_def calm_refl k1(3))
      moreover have "tracked good settled (s1\<lparr>rn_task := Some t2\<rparr>) s'"
        by (rule finalize_tracked [OF _ fs fin]) simp
      ultimately show ?thesis using k1(1) tracked_trans by blast
    qed
  qed
qed

text \<open>Starting a task: only while the agent is idle.\<close>

lemma calm_andthen: "calm_step good settled m \<Longrightarrow> (\<And>a. calm_step good settled (k a)) \<Longrightarrow> calm_step good settled (andthen m k)"
  unfolding calm_step_def by (blast elim: andthen_cases intro: calm_trans)

lemma calm_quiet: "quiet m \<Longrightarrow> calm_step good settled m"
  unfolding calm_step_def by (auto dest: quietD simp: calm_refl)

lemma calm_send: "agent_says m \<Longrightarrow> calm_step good settled (send post m)"
  unfolding calm_step_def using send_calm by blast

lemma start_calm: "calm_step good settled (start_background_task mc mo ag post task)"
proof -
  have "agent_says (running_event task pt)" for pt
    by (simp add: agent_says_def running_event_def)
  moreover have "calm_step good settled (\<lambda>s. (Inr (background_state task pt pid), s\<lparr>rn_offsets := f s, rn_task := u\<rparr>))" for pt pid f u
    by (simp add: calm_step_def calm_refl)
  ultimately show ?thesis
    unfolding start_background_task_def Let_def
    by (intro calm_andthen calm_send calm_quiet [OF quiet_boot_id] calm_quiet [OF quiet_run_dir] calm_quiet [OF quiet_prepare]
        calm_quiet [OF quiet_disk] calm_quiet [OF quiet_spawn]) auto
qed

lemma start_tracked:
  assumes "start_tasks_background mc mo ag post tasks s = (r, s')"
  shows "tracked good settled s s'"
proof (cases "has_active_task s \<or> tasks = []")
  case True
  with assms show ?thesis by (auto simp: start_tasks_background_def tracked_refl split: list.splits)
next
  case False
  then obtain task rest where [simp]: "tasks = task # rest" by (cases tasks) auto
  have idle: "\<not> has_active_task s" using False by simp
  obtain q s1 where q: "start_background_task mc mo ag post task s = (q, s1)" by fastforce
  have "s' = s1" using assms idle q by (cases q) (simp_all add: start_tasks_background_def andthen_def ok_def)
  moreover have "calm good settled (rn_out s) (rn_out s1)" using start_calm q unfolding calm_step_def by blast
  ultimately show ?thesis using idle_tracked idle by blast
qed

end

end
