(* ===== verification/Agent_Loop.thy ===== *)
theory Agent_Loop
  imports Agent_Report Background
begin

text \<open>
  The main loop of the agent (\<open>node_agent/.../cli.py\<close>) and the agent and the server together: the messages
  of the agent reach the endpoints of \<open>node_runtime_service.py\<close>, authentication included, over a network that
  loses requests and answers.
\<close>

section \<open>One turn\<close>

text \<open>
  What a turn meets: the clock and the system, and \<open>beat\<close>, the heartbeat, whose answer holds tasks, the
  tasks to cancel and whether to refresh the fingerprint. A turn swallows every exception.
\<close>

record turn =
  tn_recovery :: moment
  tn_recovery_reply :: process_reply
  tn_sync :: moment
  tn_sync_reply :: process_reply
  tn_start :: moment

type_synonym 'w beat = "'w runner \<Rightarrow> (client_error + heartbeat_response) \<times> 'w"

definition loop_turn :: "machine \<Rightarrow> agent_settings \<Rightarrow> 'w poster \<Rightarrow> 'w beat \<Rightarrow> turn \<Rightarrow> 'w runner \<Rightarrow> 'w runner" where
  "loop_turn mc ag post beat tn s =
     (case beat s of
        (Inl e, w) \<Rightarrow> s\<lparr>rn_out := w\<rparr>
      | (Inr answer, w) \<Rightarrow>
          (let s = s\<lparr>rn_out := w, rn_dirty := (rn_dirty s \<or> hr_refresh_fingerprint answer)\<rparr>;
               s = snd (recover_orphaned_task mc (tn_recovery tn) (tn_recovery_reply tn) post s)
           in case sync_active_task mc (tn_sync tn) (tn_sync_reply tn) post (map fst (hr_task_controls answer)) s of
                (Inl e, s) \<Rightarrow> s
              | (Inr _, s) \<Rightarrow>
                  if hr_tasks answer \<noteq> [] \<and> \<not> has_active_task s
                  then snd (start_tasks_background mc (tn_start tn) ag post (hr_tasks answer) s) else s))"

definition run_loop :: "machine \<Rightarrow> agent_settings \<Rightarrow> 'w poster \<Rightarrow> ('w beat \<times> turn) list \<Rightarrow> 'w runner \<Rightarrow> 'w runner" where
  "run_loop mc ag post turns s = fold (\<lambda>(beat, tn). loop_turn mc ag post beat tn) turns s"

text \<open>\<open>heartbeat-once\<close>: the tasks of the answer are executed one after the other; \<open>sys\<close> is what the system says to each.\<close>

definition run_once ::
  "machine \<Rightarrow> agent_settings \<Rightarrow> 'w poster \<Rightarrow> 'w beat \<Rightarrow> moment \<Rightarrow> process_reply \<Rightarrow> (task_envelope \<Rightarrow> moment \<times> process_run) \<Rightarrow> ('w, unit) step" where
  "run_once mc ag post beat mo pr sys s =
     (case beat s of
        (Inl e, w) \<Rightarrow> (Inl (client_error_name e), s\<lparr>rn_out := w\<rparr>)
      | (Inr answer, w) \<Rightarrow>
          andthen (execute_tasks mc ag post (map (\<lambda>task. (fst (sys task), snd (sys task), task)) (hr_tasks answer))) (\<lambda>_. ok ())
            (snd (recover_orphaned_task mc mo pr post (s\<lparr>rn_out := w\<rparr>))))"

text \<open>The end of the loop: every process is told to end, then the current task is reported as cancelled.\<close>

definition terminate_active_processes :: "(int \<Rightarrow> bool) \<Rightarrow> (int \<Rightarrow> bool) \<Rightarrow> ('w, unit) step" where
  "terminate_active_processes ends_on_term ends_on_kill s =
     (let pids = map snd (rn_procs s); stubborn = filter (\<lambda>pid. \<not> ends_on_term pid) pids;
          killed = takeWhile ends_on_kill stubborn @ take 1 (dropWhile ends_on_kill stubborn);
          s = fold (\<lambda>pid. signal pid ''SIGKILL'') killed (fold (\<lambda>pid. signal pid ''SIGTERM'') pids s)
      in (if list_all ends_on_kill stubborn then Inr () else Inl ''TimeoutExpired'', s))"

definition finalize_shutdown_task :: "machine \<Rightarrow> moment \<Rightarrow> process_reply \<Rightarrow> 'w poster \<Rightarrow> 'w runner \<Rightarrow> 'w runner" where
  "finalize_shutdown_task mc mo pr post s =
     (if \<not> has_active_task s then s
      else (let t = (the (rn_task s))\<lparr>cur_cancel_requested := True\<rparr>
            in snd (recover_orphaned_task mc mo pr post (s\<lparr>rn_task := Some t, rn_procs := []\<rparr>))))"

text \<open>The last steps of \<open>run_loop\<close>\<close>

definition shut_down :: "machine \<Rightarrow> moment \<Rightarrow> process_reply \<Rightarrow> (int \<Rightarrow> bool) \<Rightarrow> (int \<Rightarrow> bool) \<Rightarrow> 'w poster \<Rightarrow> ('w, unit) step" where
  "shut_down mc mo pr ends_on_term ends_on_kill post =
     andthen (terminate_active_processes ends_on_term ends_on_kill) (\<lambda>_ s. (Inr (), finalize_shutdown_task mc mo pr post s))"

section \<open>The agent and the server\<close>

definition result_payload_of :: "(result_body \<Rightarrow> dict) \<Rightarrow> result_message \<Rightarrow> result_payload" where
  "result_payload_of js m =
     \<lparr>rp_task_id = tr_task_id m, rp_final_status = tr_final_status m, rp_exit_code = tr_exit_code m, rp_summary = js (tr_summary m),
      rp_boot_id = tr_boot_id m, rp_pid = tr_pid m, rp_pgid_or_job_id = tr_pgid_or_job_id m, rp_started_at = tr_started_at m,
      rp_finished_at = tr_finished_at m\<rparr>"

definition text_field :: "dict \<Rightarrow> string \<Rightarrow> string option" where
  "text_field d k = (case dict_get d k of Some (JStr s) \<Rightarrow> Some s | _ \<Rightarrow> None)"

definition artifact_payload_of :: "dict \<Rightarrow> artifact_payload" where
  "artifact_payload_of d =
     \<lparr>ap_task_id = or_else (text_field d ''task_id'') [], ap_artifact_name = or_else (text_field d ''artifact_name'') [],
      ap_artifact_type = or_else (text_field d ''artifact_type'') [], ap_content_base64 = or_else (text_field d ''content_base64'') [],
      ap_content_type = text_field d ''content_type'', ap_preview = (case dict_get d ''preview'' of Some (JObj p) \<Rightarrow> p | _ \<Rightarrow> [])\<rparr>"

text \<open>
  The endpoint of each message; \<open>js\<close> is the JSON of a result's summary. The body of the request is the message, so its
  validation gives the message back; whether the request is accepted depends on the headers it arrives with.
\<close>

definition server_receives ::
  "crypto \<Rightarrow> (bytes \<Rightarrow> nat) \<Rightarrow> (result_body \<Rightarrow> dict) \<Rightarrow> settings \<Rightarrow> agent_message \<Rightarrow> arrival \<Rightarrow> world \<Rightarrow> ((api_error + unit) \<times> world) option" where
  "server_receives cr gz js s m a w =
     (let now = ar_now a; rnd = ar_random a; req = ar_request a in
      case m of
        Event_Message p _ _ \<Rightarrow> Some (case task_events cr s (\<lambda>_. Some p) now rnd req w of (r, w) \<Rightarrow> (map_sum id (\<lambda>_. ()) r, w))
      | Log_Message p \<Rightarrow> map_option (\<lambda>(r, w). (map_sum id (\<lambda>_. ()) r, w)) (task_log_chunk cr gz s (\<lambda>_. Some p) now rnd req w)
      | Result_Message p \<Rightarrow>
          Some (case task_result cr s (\<lambda>_. Some (result_payload_of js p)) now rnd req w of (r, w) \<Rightarrow> (map_sum id (\<lambda>_. ()) r, w))
      | Artifact_Message d \<Rightarrow>
          Some (case artifact_upload cr s (\<lambda>_. Some (artifact_payload_of d)) now rnd req w of (r, w) \<Rightarrow> (map_sum id (\<lambda>_. ()) r, w)))"

definition post_to_server ::
  "agent_settings \<Rightarrow> (nat \<Rightarrow> nat \<Rightarrow> instant) \<Rightarrow> crypto \<Rightarrow> (bytes \<Rightarrow> nat) \<Rightarrow> (result_body \<Rightarrow> dict) \<Rightarrow> settings \<Rightarrow> link poster" where
  "post_to_server ag clock cr gz js s m = post_through ag clock (server_receives cr gz js s m)"

section \<open>Settled tasks stay settled\<close>

definition ids_ok :: "world \<Rightarrow> bool" where
  "ids_ok w \<longleftrightarrow> distinct (map t_task_id (d_tasks (db w)))"

definition task_settled :: "string \<Rightarrow> world \<Rightarrow> bool" where
  "task_settled tid w \<longleftrightarrow> (case get_task tid (d_tasks (db w)) of None \<Rightarrow> False | Some r \<Rightarrow> t_status r \<in> TERMINAL_TASK_STATUSES)"

lemma log_chunk_tasks:
  assumes "receive_log_chunk gz s now node p w = Some (r, w')"
  shows "d_tasks (db w') = d_tasks (db w)"
proof -
  obtain q w1 where tx: "log_chunk_tx gz s now node p w = Some (q, w1)" and r: "(r, w') = log_chunk_answer p (connect (\<lambda>_. (q, w1)) w)"
    using assms by (auto simp: receive_log_chunk_def)
  have "d_tasks (db (mark_log_truncated t st ex n re w)) = d_tasks (db w)" for t st ex n re w
    by (simp add: mark_log_truncated_def split: option.split)
  moreover have "d_tasks (db (store_log_row s now p ex tx w)) = d_tasks (db w)" for ex tx w
    by (simp add: store_log_row_def Let_def split: option.split)
  ultimately have "d_tasks (db w1) = d_tasks (db w)"
    using tx by (auto simp: log_chunk_tx_def Let_def load_task_for_node_def split: option.splits sum.splits if_splits prod.splits)
  with r show ?thesis by (cases q) (auto simp: log_chunk_answer_def connect_def split: if_splits)
qed

lemma upsert_tasks [simp]: "d_tasks (db (upsert_task_attempt t n v b p g st fi ec sm w)) = d_tasks (db w)"
  by (simp add: upsert_task_attempt_def bump_def upd_attempts_def split: option.split)

lemma artifact_tasks: "receive_artifact s now node p w = (r, w') \<Longrightarrow> d_tasks (db w') = d_tasks (db w)"
  by (auto simp: receive_artifact_def reject_upload_def record_artifact_def connect_def load_task_for_node_def bump_def upd_artifacts_def
      Let_def split: prod.splits sum.splits option.splits if_splits)

lemma wrote_settled:
  assumes w: "wrote_task tid row' w w'" and g: "get_task tid (d_tasks (db w)) = Some row" and u: "ids_ok w" and k: "t_task_id row' = tid"
  shows "ids_ok w' \<and> (get_task t (d_tasks (db w')) = (if t = tid then Some row' else get_task t (d_tasks (db w))))"
proof -
  have "map t_task_id (put_task tid (\<lambda>_. row') (d_tasks (db w))) = map t_task_id (d_tasks (db w))"
    using k by (auto simp: put_task_def update_where_def)
  then show ?thesis
    using w u get_put_task_same [OF k g] get_put_task_other [OF k, of t] by (auto simp: wrote_task_def ids_ok_def)
qed

lemma event_settled:
  assumes u: "ids_ok w" and e: "connect (task_event_tx now node p) w = (r, w')" and b: "ep_event p \<notin> background_events"
  shows "ids_ok w' \<and> (task_settled tid w \<longrightarrow> task_settled tid w')"
proof (cases r)
  case (Inl x)
  have "db w' = db w" by (rule connect_Inl_db [OF e [unfolded Inl]])
  with u show ?thesis by (simp add: ids_ok_def task_settled_def)
next
  case (Inr d)
  then obtain row' w1 where
    t: "transition_task (ep_task_id p) (ep_event p) (utc_now_iso now) (Some (utc_now_iso now)) (Some (utc_now_iso now)) None None w = (Inr row', w1)"
    and w': "d_tasks (db w') = d_tasks (db w1)"
    using e by (auto simp: connect_Inr task_event_tx_def task_state_409_def load_task_for_node_def
        elim!: andthen_InrE split: prod.splits sum.splits option.splits)
  obtain row where g: "get_task (ep_task_id p) (d_tasks (db w)) = Some row"
    and st: "row_step (ep_event p) (utc_now_iso now) (Some (utc_now_iso now)) (Some (utc_now_iso now)) None None row = Inr row'"
    and wr: "wrote_task (ep_task_id p) row' w w1"
    using transition_Inr [OF u [unfolded ids_ok_def] t] by blast
  have k: "t_task_id row' = ep_task_id p" using row_step_key [OF st] get_task_in [OF g] by simp
  have nt: "t_status row \<notin> TERMINAL_TASK_STATUSES" using row_step_terminal [of row, OF _ b] st by (metis sum.distinct(1))
  note ws = wrote_settled [OF wr g u k]
  have "task_settled tid w \<Longrightarrow> task_settled tid w1"
    using ws [of tid] g nt by (auto simp: task_settled_def split: if_splits)
  with ws w' show ?thesis by (simp add: task_settled_def ids_ok_def)
qed

lemma result_settled:
  assumes u: "ids_ok w" and e: "receive_task_result now node p w = (r, w')" and f: "rp_final_status p \<in> TERMINAL_TASK_STATUSES"
  shows "ids_ok w' \<and> (task_settled tid w \<longrightarrow> task_settled tid w') \<and> (\<forall>x. r = Inr x \<longrightarrow> task_settled (rp_task_id p) w')"
proof -
  obtain q w1 where c: "connect (task_result_tx now node p) w = (q, w1)" by fastforce
  show ?thesis
  proof (cases q)
    case (Inl x)
    then have "db w' = db w" using connect_Inl_db [of "task_result_tx now node p" w x w1] c e by (auto simp: receive_task_result_def)
    with u show ?thesis using e c Inl by (auto simp: ids_ok_def task_settled_def receive_task_result_def)
  next
    case (Inr y)
    have w': "d_tasks (db w') = d_tasks (db w1)" using e c Inr by (auto simp: receive_task_result_def split: prod.splits if_splits)
    obtain st fi row' dup w2 where
      t: "finalize_task_result (rp_task_id p) (rp_final_status p) st fi (utc_now_iso now) w = (Inr (row', dup), w2)"
      and w2: "d_tasks (db w1) = d_tasks (db w2)"
      using c Inr by (auto simp: connect_Inr task_result_tx_def task_state_409_def load_task_for_node_def Let_def
          elim!: andthen_InrE split: prod.splits sum.splits option.splits if_splits)
    obtain row where g: "get_task (rp_task_id p) (d_tasks (db w)) = Some row"
      using t by (cases "get_task (rp_task_id p) (d_tasks (db w))") (auto simp: finalize_task_result_def)
    show ?thesis
    proof (cases "result_open row")
      case True
      obtain w3 where w3: "finalize_task_result (rp_task_id p) (rp_final_status p) st fi (utc_now_iso now) w =
          (Inr (with_result (rp_final_status p) st fi (utc_now_iso now) row, False), w3)"
        and wr: "wrote_task (rp_task_id p) (with_result (rp_final_status p) st fi (utc_now_iso now) row) w w3"
        using finalize_accepts [OF u [unfolded ids_ok_def] g True] by blast
      have k: "t_task_id (with_result (rp_final_status p) st fi (utc_now_iso now) row) = rp_task_id p" using get_task_in [OF g] by simp
      note ws = wrote_settled [OF wr g u k]
      have "w3 = w2" using t w3 by simp
      with ws [of tid] ws [of "rp_task_id p"] w' w2 f show ?thesis
        by (auto simp: task_settled_def ids_ok_def with_result_def)
    next
      case False
      with finalize_refuses [OF u [unfolded ids_ok_def] g False] t have "w2 = w" "t_status row \<in> TERMINAL_TASK_STATUSES"
        by (auto split: if_splits)
      with w' w2 u g show ?thesis by (simp add: task_settled_def ids_ok_def)
    qed
  qed
qed

section \<open>A heartbeat over the network\<close>

text \<open>
  The heartbeat reports the current task; \<open>payload\<close> is the rest of it. The answer that counts is the one of
  the last request that was answered.
\<close>

definition hear_heartbeat ::
  "crypto \<Rightarrow> settings \<Rightarrow> heartbeat_request \<Rightarrow> arrival \<Rightarrow> world \<times> heartbeat_response option \<Rightarrow>
   ((api_error + unit) \<times> world \<times> heartbeat_response option) option" where
  "hear_heartbeat cr s payload a st =
     (case heartbeat cr s (\<lambda>_. Some payload) (ar_now a) (ar_random a) (ar_request a) (fst st) of
        (Inl e, w) \<Rightarrow> Some (Inl e, w, None)
      | (Inr answer, w) \<Rightarrow> Some (Inr (), w, Some answer))"

definition send_heartbeat ::
  "agent_settings \<Rightarrow> (nat \<Rightarrow> nat \<Rightarrow> instant) \<Rightarrow> crypto \<Rightarrow> settings \<Rightarrow> heartbeat_request \<Rightarrow> link beat" where
  "send_heartbeat ag clock cr s payload rn =
     (let lk = rn_out rn; payload = payload\<lparr>hb_active_task_id := map_option cur_task_id (rn_task rn)\<rparr> in
      case post_signed_json ag (clock (lk_posts lk) 0) (\<lambda>n. clock (lk_posts lk) (Suc n)) (attempt_on (hear_heartbeat cr s payload))
             (lk_breaker lk) ((lk_server lk, None), lk_fates lk) of
        (r, b, (srv, answer), fs) \<Rightarrow>
          (case r of Inl e \<Rightarrow> Inl e | Inr _ \<Rightarrow> (case answer of None \<Rightarrow> Inl Invalid_Json | Some a \<Rightarrow> Inr a),
           \<lparr>lk_breaker = b, lk_posts = lk_posts lk + 1, lk_server = srv, lk_fates = fs\<rparr>))"

section \<open>A turn tracks the current task\<close>

text \<open>What happens at the server before a turn keeps settled tasks settled.\<close>

definition beat_calm :: "('w \<Rightarrow> bool) \<Rightarrow> (string \<Rightarrow> 'w \<Rightarrow> bool) \<Rightarrow> 'w beat \<Rightarrow> bool" where
  "beat_calm good settled beat \<longleftrightarrow> (\<forall>s. calm good settled (rn_out s) (snd (beat s)))"

context reporting
begin

lemma turn_tracked:
  assumes b: "beat_calm good settled beat"
  shows "tracked good settled s (loop_turn mc ag post beat tn s)"
proof -
  obtain a w where a: "beat s = (a, w)" by fastforce
  have w: "calm good settled (rn_out s) w" using b a unfolding beat_calm_def by (metis snd_conv)
  have same: "tracked good settled s (s\<lparr>rn_out := w, rn_dirty := d\<rparr>)" for d
    using w by (intro same_task_tracked) simp_all
  show ?thesis
  proof (cases a)
    case (Inl e)
    have "tracked good settled s (s\<lparr>rn_out := w\<rparr>)" using w by (intro same_task_tracked) simp_all
    with a Inl show ?thesis by (simp add: loop_turn_def)
  next
    case (Inr answer)
    define s1 where "s1 = s\<lparr>rn_out := w, rn_dirty := (rn_dirty s \<or> hr_refresh_fingerprint answer)\<rparr>"
    obtain q2 s2 where s2: "recover_orphaned_task mc (tn_recovery tn) (tn_recovery_reply tn) post s1 = (q2, s2)" by fastforce
    obtain q3 s3 where s3: "sync_active_task mc (tn_sync tn) (tn_sync_reply tn) post (map fst (hr_task_controls answer)) s2 = (q3, s3)" by fastforce
    obtain q4 s4 where s4: "start_tasks_background mc (tn_start tn) ag post (hr_tasks answer) s3 = (q4, s4)" by fastforce
    have "loop_turn mc ag post beat tn s \<in> {s3, s4}"
      using s2 s3 s4 by (simp add: loop_turn_def a Inr s1_def split: sum.split)
    moreover have "tracked good settled s s3"
      using tracked_trans [OF tracked_trans [OF same recover_tracked [OF s2 [unfolded s1_def]]] sync_tracked [OF s3]] .
    ultimately show ?thesis using tracked_trans start_tracked [OF s4] by blast
  qed
qed

lemma loop_tracked:
  "\<forall>(beat, tn) \<in> set turns. beat_calm good settled beat \<Longrightarrow> tracked good settled s (run_loop mc ag post turns s)"
proof (induction turns arbitrary: s)
  case Nil
  then show ?case by (simp add: run_loop_def tracked_refl)
next
  case (Cons t turns)
  have b: "beat_calm good settled (fst t)" using Cons.prems by (simp add: case_prod_beta)
  have "run_loop mc ag post (t # turns) s = run_loop mc ag post turns (loop_turn mc ag post (fst t) (snd t) s)"
    by (simp add: run_loop_def case_prod_beta)
  moreover have "tracked good settled (loop_turn mc ag post (fst t) (snd t) s) (run_loop mc ag post turns (loop_turn mc ag post (fst t) (snd t) s))"
    using Cons by simp
  ultimately show ?case using tracked_trans turn_tracked [OF b] by metis
qed

end

section \<open>The server meets the contract\<close>

definition link_ok :: "link \<Rightarrow> bool" where
  "link_ok lk \<longleftrightarrow> ids_ok (lk_server lk)"

definition link_settled :: "string \<Rightarrow> link \<Rightarrow> bool" where
  "link_settled tid lk \<longleftrightarrow> task_settled tid (lk_server lk)"

lemma same_tasks_settled: "d_tasks (db w') = d_tasks (db w) \<Longrightarrow> (ids_ok w' \<longleftrightarrow> ids_ok w) \<and> (task_settled tid w' \<longleftrightarrow> task_settled tid w)"
  by (simp add: ids_ok_def task_settled_def)

text \<open>A signed request: its marks, then the refusal or what the handler does.\<close>

lemma signed_cases:
  assumes "andthen (authenticate_node cr s now rnd req) (\<lambda>(node, _). body node) w = (r, w')"
  obtains w1 where "same_but_marks w w1" and "(\<exists>e. r = Inl e) \<and> w' = w1 \<or> (\<exists>node. body node w1 = (r, w'))"
proof -
  obtain a w1 where a: "authenticate_node cr s now rnd req w = (a, w1)" by fastforce
  with assms have "(\<exists>e. r = Inl e) \<and> w' = w1 \<or> (\<exists>node. body node w1 = (r, w'))"
    by (auto simp: andthen_def split: sum.splits prod.splits)
  with that authenticate_marksD [OF a] show ?thesis by blast
qed

lemma events_cases:
  assumes "task_events cr s (\<lambda>_. Some p) now rnd req w = (r, w')"
  obtains w1 where "same_but_marks w w1" and "(\<exists>e. r = Inl e) \<and> w' = w1 \<or> (\<exists>node. connect (task_event_tx now node p) w1 = (r, w'))"
  by (rule signed_cases [OF assms [unfolded task_events_def option.case]]) (rule that)

lemma result_cases:
  assumes "task_result cr s (\<lambda>_. Some p) now rnd req w = (r, w')"
  obtains w1 where "same_but_marks w w1" and "(\<exists>e. r = Inl e) \<and> w' = w1 \<or> (\<exists>node. receive_task_result now node p w1 = (r, w'))"
  by (rule signed_cases [OF assms [unfolded task_result_def option.case]]) (rule that)

lemma marks_tasks: "same_but_marks w w' \<Longrightarrow> d_tasks (db w') = d_tasks (db w)"
  by (simp add: same_but_marks_def)

lemma upload_tasks:
  assumes "artifact_upload cr s (\<lambda>_. Some p) now rnd req w = (r, w')"
  shows "d_tasks (db w') = d_tasks (db w)"
proof -
  obtain a w1 where a: "authenticate_node cr s now rnd req w = (a, w1)" by fastforce
  show ?thesis using assms marks_tasks [OF authenticate_marksD [OF a]]
    by (auto simp: artifact_upload_def a reject_upload_def dest!: artifact_tasks split: option.splits sum.splits prod.splits)
qed

lemmas marks_settled = same_tasks_settled [OF marks_tasks]

lemma server_receives_keeps:
  assumes u: "ids_ok w \<and> (task_settled tid w0 \<longrightarrow> task_settled tid w)" and m: "agent_says m" and r: "server_receives cr gz js s m a w = Some (r, w')"
  shows "(ids_ok w' \<and> (task_settled tid w0 \<longrightarrow> task_settled tid w')) \<and> (\<forall>x. r = Inr x \<longrightarrow> (\<forall>p. m = Result_Message p \<longrightarrow> task_settled (tr_task_id p) w'))"
proof (cases m)
  case (Event_Message p rd wd)
  have b: "ep_event p \<notin> background_events" using m Event_Message by (simp add: agent_says_def background_events_def)
  obtain q where "task_events cr s (\<lambda>_. Some p) (ar_now a) (ar_random a) (ar_request a) w = (q, w')"
    using r Event_Message by (auto simp: server_receives_def Let_def split: prod.splits)
  then obtain w1 where w1: "same_but_marks w w1" and
    c: "(\<exists>e. q = Inl e) \<and> w' = w1 \<or> (\<exists>node. connect (task_event_tx (ar_now a) node p) w1 = (q, w'))"
    by (rule events_cases)
  have "ids_ok w1" using u marks_settled [OF w1] by blast
  with c event_settled [OF this _ b] u marks_settled [OF w1, of tid] Event_Message show ?thesis by auto
next
  case (Log_Message p)
  obtain q where "task_log_chunk cr gz s (\<lambda>_. Some p) (ar_now a) (ar_random a) (ar_request a) w = Some (q, w')"
    using r Log_Message by (auto simp: server_receives_def Let_def)
  then have "d_tasks (db w') = d_tasks (db w)"
    by (rule task_log_chunk_cases) (auto dest!: log_chunk_tasks marks_tasks)
  from same_tasks_settled [OF this] u Log_Message show ?thesis by auto
next
  case (Result_Message p)
  have f: "rp_final_status (result_payload_of js p) \<in> TERMINAL_TASK_STATUSES"
    using m Result_Message by (simp add: agent_says_def result_payload_of_def)
  have id: "rp_task_id (result_payload_of js p) = tr_task_id p" by (simp add: result_payload_of_def)
  obtain q where q: "task_result cr s (\<lambda>_. Some (result_payload_of js p)) (ar_now a) (ar_random a) (ar_request a) w = (q, w')"
    and r': "r = map_sum id (\<lambda>_. ()) q"
    using r Result_Message by (auto simp: server_receives_def Let_def split: prod.splits)
  from q obtain w1 where w1: "same_but_marks w w1" and
    c: "(\<exists>e. q = Inl e) \<and> w' = w1 \<or> (\<exists>node. receive_task_result (ar_now a) node (result_payload_of js p) w1 = (q, w'))"
    by (rule result_cases)
  have "ids_ok w1" using u marks_settled [OF w1] by blast
  with c result_settled [OF this _ f] u marks_settled [OF w1, of tid] Result_Message id r' show ?thesis by (cases q) auto
next
  case (Artifact_Message d)
  obtain q where "artifact_upload cr s (\<lambda>_. Some (artifact_payload_of d)) (ar_now a) (ar_random a) (ar_request a) w = (q, w')"
    using r Artifact_Message by (auto simp: server_receives_def Let_def split: prod.splits)
  from same_tasks_settled [OF upload_tasks [OF this]] u Artifact_Message show ?thesis by auto
qed

lemma post_to_server_keeps:
  assumes m: "agent_says m" and u: "link_ok lk" and r: "post_to_server ag clock cr gz js s m lk = (r, lk')"
  shows "(ids_ok (lk_server lk') \<and> (task_settled tid (lk_server lk) \<longrightarrow> task_settled tid (lk_server lk'))) \<and>
    (\<forall>d. r = Inr d \<longrightarrow> (\<forall>p. m = Result_Message p \<longrightarrow> task_settled (tr_task_id p) (lk_server lk')))"
proof (rule post_through_pres [where P = "\<lambda>w. ids_ok w \<and> (task_settled tid (lk_server lk) \<longrightarrow> task_settled tid w)"
      and Q = "\<lambda>w. \<forall>p. m = Result_Message p \<longrightarrow> task_settled (tr_task_id p) w"])
  show "ids_ok (lk_server lk) \<and> (task_settled tid (lk_server lk) \<longrightarrow> task_settled tid (lk_server lk))"
    using u by (simp add: link_ok_def)
  show "post_through ag clock (server_receives cr gz js s m) lk = (r, lk')" using r by (simp add: post_to_server_def)
qed (rule server_receives_keeps [OF _ m])

interpretation server: reporting "post_to_server ag clock cr gz js s" link_ok link_settled
proof (unfold_locales, goal_cases)
  case (1 m lk r lk')
  from post_to_server_keeps [OF 1(1) _ 1(2)] show ?case unfolding calm_def link_settled_def link_ok_def by blast
next
  case (2 lk p d lk')
  from post_to_server_keeps [OF 2(2,1,3)] show ?case unfolding link_settled_def by blast
qed

lemma claim_settled:
  assumes u: "ids_ok w" and f: "\<And>r. t_task_id (f r) = t_task_id r" and P: "\<And>r. P r \<Longrightarrow> t_status r = Pending"
  shows "ids_ok (upd_tasks (update_where P f) w) \<and> (task_settled tid w \<longrightarrow> task_settled tid (upd_tasks (update_where P f) w))"
proof -
  have "task_settled tid w \<Longrightarrow> task_settled tid (upd_tasks (update_where P f) w)"
  proof -
    assume "task_settled tid w"
    then obtain r where g: "get_task tid (d_tasks (db w)) = Some r" and t: "t_status r \<in> TERMINAL_TASK_STATUSES"
      by (auto simp: task_settled_def split: option.splits)
    have "\<not> P r" using t P by (auto simp: TERMINAL_TASK_STATUSES_def)
    moreover have "get_task tid (update_where P f rows) = (case get_task tid rows of None \<Rightarrow> None | Some r \<Rightarrow> Some (if P r then f r else r))" for rows
      by (induction rows) (auto simp: get_task_def update_where_def f)
    ultimately show ?thesis using g t by (simp add: task_settled_def upd_tasks_def)
  qed
  moreover have "ids_ok (upd_tasks (update_where P f) w)" using u by (simp add: ids_ok_def upd_tasks_def map_update_where_same f)
  ultimately show ?thesis by blast
qed

lemma sync_settled:
  assumes u: "ids_ok w" and r: "sync_reported_active_task node tid now w = (q, w')"
  shows "ids_ok w' \<and> (task_settled t w \<longrightarrow> task_settled t w')"
proof (cases "w' = w")
  case True
  with u show ?thesis by simp
next
  case False
  define k where "k = the tid"
  define f :: "task_row \<Rightarrow> task_row" where "f = (\<lambda>x. x\<lparr>t_status := Claimed, t_claimed_at := coalesce (t_claimed_at x) (Some now)\<rparr>)"
  obtain row where row: "List.find (\<lambda>r. t_node_id r = node \<and> t_task_id r = k) (d_tasks (db w)) = Some row" "t_status row = Pending"
    and w': "w' = upd_tasks (put_task k f) w"
    using r False by (auto simp: sync_reported_active_task_def Let_def k_def f_def split: if_splits option.splits)
  have "row \<in> set (d_tasks (db w))" "t_task_id row = k" using row(1) by (auto simp: find_Some_iff)
  then have only: "x \<in> set (d_tasks (db w)) \<Longrightarrow> t_task_id x = k \<Longrightarrow> x = row" for x
    using u by (auto simp: ids_ok_def dest: inj_onD [OF distinct_map [THEN iffD1, THEN conjunct2]])
  have "put_task k f (d_tasks (db w)) = update_where (\<lambda>x. t_task_id x = k \<and> t_status x = Pending) f (d_tasks (db w))"
    using only row(2) by (auto simp: put_task_def update_where_def)
  then have "w' = upd_tasks (update_where (\<lambda>x. t_task_id x = k \<and> t_status x = Pending) f) w" by (simp add: w' upd_tasks_def)
  with claim_settled [OF u, of f "\<lambda>x. t_task_id x = k \<and> t_status x = Pending" t] show ?thesis by (simp add: f_def)
qed

lemma assign_settled:
  assumes u: "ids_ok w" and r: "heartbeat_assign node tid now w = (q, w')"
  shows "ids_ok w' \<and> (task_settled t w \<longrightarrow> task_settled t w')"
proof -
  obtain q1 w1 where s: "sync_reported_active_task node tid now w = (q1, w1)" by fastforce
  note k = sync_settled [OF u s]
  have claim: "ids_ok w2 \<and> (task_settled t w1 \<longrightarrow> task_settled t w2)" if "claim_next_task_for_node node now w1 = (q2, w2)" for q2 w2
  proof (cases "next_pending node (d_tasks (db w1))")
    case None
    with that k show ?thesis by (simp add: claim_next_task_for_node_def)
  next
    case (Some row)
    with that have "w2 = upd_tasks (update_where (\<lambda>x. t_task_id x = t_task_id row \<and> t_status x = Pending)
        (\<lambda>x. x\<lparr>t_status := Claimed, t_claimed_at := Some now\<rparr>)) w1"
      by (simp add: claim_next_task_for_node_def Let_def)
    with claim_settled [OF conjunct1 [OF k], of "\<lambda>x. x\<lparr>t_status := Claimed, t_claimed_at := Some now\<rparr>"
        "\<lambda>x. t_task_id x = t_task_id row \<and> t_status x = Pending" t]
    show ?thesis by simp
  qed
  show ?thesis using r s k claim by (auto simp: heartbeat_assign_def split: option.splits)
qed

lemma heartbeat_settled:
  assumes u: "ids_ok w" and r: "receive_heartbeat s now node_id node payload w = (a, w')"
  shows "ids_ok w' \<and> (task_settled t w \<longrightarrow> task_settled t w')"
proof -
  have snap: "d_tasks (db (fold insert_snapshot rows w)) = d_tasks (db w)" for rows w
    by (induction rows arbitrary: w) (simp_all add: insert_snapshot_def bump_def)
  define w2 where "w2 = fold insert_snapshot (build_snapshot_rows node_id (utc_now_iso now) payload)
      (upd_nodes (put_node node_id (heartbeat_node (utc_now_iso now) payload (n_hostname node))) w)"
  obtain c w3 where c: "heartbeat_assign node_id (hb_active_task_id payload) (utc_now_iso now) w2 = (c, w3)" by fastforce
  have t2: "d_tasks (db w2) = d_tasks (db w)" by (simp add: w2_def snap upd_nodes_def)
  have t3: "d_tasks (db w') = d_tasks (db w3)"
    using r c by (auto simp: receive_heartbeat_def heartbeat_tx_def Let_def w2_def [symmetric] trim_node_status_history_def upd_snapshots_def)
  show ?thesis using assign_settled [OF _ c] same_tasks_settled [OF t2] same_tasks_settled [OF t3] u by blast
qed

lemma heartbeat_endpoint_settled:
  assumes u: "ids_ok w" and r: "heartbeat cr s (\<lambda>_. Some payload) now rnd req w = (a, w')"
  shows "ids_ok w' \<and> (task_settled t w \<longrightarrow> task_settled t w')"
proof -
  obtain q w1 where a: "authenticate_node cr s now rnd req w = (q, w1)" by fastforce
  note m = marks_settled [OF authenticate_marksD [OF a], of t]
  obtain h w2 where h: "heartbeat_impl cr s (\<lambda>_. Some payload) now rnd req w = (h, w2)" by fastforce
  have "w2 = w1 \<or> (\<exists>node_id node answer. receive_heartbeat s now node_id node payload w1 = (answer, w2))"
    using h by (auto simp: heartbeat_impl_def a split: sum.splits prod.splits)
  moreover have "d_tasks (db w') = d_tasks (db w2)" using r h by (auto simp: heartbeat_def observe_def split: sum.splits)
  ultimately show ?thesis using u m heartbeat_settled [of w1 s now] same_tasks_settled by metis
qed

lemma send_heartbeat_calm: "beat_calm link_ok link_settled (send_heartbeat ag clock cr s payload)"
  unfolding beat_calm_def calm_def
proof (intro allI impI)
  fix rn :: "link runner"
  assume u: "link_ok (rn_out rn)"
  define pl where "pl = payload\<lparr>hb_active_task_id := map_option cur_task_id (rn_task rn)\<rparr>"
  define lk where "lk = rn_out rn"
  obtain r b srv answer fs where post: "post_signed_json ag (clock (lk_posts lk) 0) (\<lambda>n. clock (lk_posts lk) (Suc n))
      (attempt_on (hear_heartbeat cr s pl)) (lk_breaker lk) ((lk_server lk, None), lk_fates lk) = (r, b, (srv, answer), fs)"
    by (metis surj_pair)
  have "snd (send_heartbeat ag clock cr s payload rn) = \<lparr>lk_breaker = b, lk_posts = lk_posts lk + 1, lk_server = srv, lk_fates = fs\<rparr>"
    unfolding send_heartbeat_def Let_def post [unfolded lk_def pl_def] lk_def by (simp only: prod.case snd_conv)
  then have lk': "lk_server (snd (send_heartbeat ag clock cr s payload rn)) = srv" by simp
  have "ids_ok srv \<and> (task_settled t (lk_server lk) \<longrightarrow> task_settled t srv)" for t
  proof -
    let ?P = "\<lambda>x :: world \<times> heartbeat_response option. ids_ok (fst x) \<and> (task_settled t (lk_server lk) \<longrightarrow> task_settled t (fst x))"
    have recv: "?P x' \<and> (\<forall>y. r = Inr y \<longrightarrow> True)" if P: "?P x" and h: "hear_heartbeat cr s pl ar x = Some (r, x')" for ar x r x'
    proof -
      obtain q w where q: "heartbeat cr s (\<lambda>_. Some pl) (ar_now ar) (ar_random ar) (ar_request ar) (fst x) = (q, w)" by fastforce
      have "fst x' = w" using h q by (auto simp: hear_heartbeat_def split: sum.splits)
      with heartbeat_endpoint_settled [OF conjunct1 [OF P] q, of t] P show ?thesis by simp
    qed
    have "?P (srv, answer) \<and> (\<forall>d. r = Inr d \<longrightarrow> True)"
    proof (rule post_signed_pres [where P = ?P and Q = "\<lambda>_. True"])
      show "?P (lk_server lk, None)" using u by (simp add: link_ok_def lk_def)
      show "post_signed_json ag (clock (lk_posts lk) 0) (\<lambda>n. clock (lk_posts lk) (Suc n))
        (attempt_on (hear_heartbeat cr s pl)) (lk_breaker lk) ((lk_server lk, None), lk_fates lk) = (r, b, (srv, answer), fs)"
        by (rule post)
    qed (rule recv)
    then show ?thesis by simp
  qed
  then show "link_ok (snd (send_heartbeat ag clock cr s payload rn)) \<and>
    (\<forall>tid. link_settled tid (rn_out rn) \<longrightarrow> link_settled tid (snd (send_heartbeat ag clock cr s payload rn)))"
    by (simp add: link_ok_def link_settled_def lk' lk_def)
qed

section \<open>A stream that the server has closed\<close>

definition stream_closed :: "string \<Rightarrow> stream \<Rightarrow> world \<Rightarrow> bool" where
  "stream_closed tid st w \<longleftrightarrow> (case find_log tid st (d_logs (db w)) of None \<Rightarrow> False | Some row \<Rightarrow> l_is_truncated row)"

lemma closed_refuses:
  assumes c: "stream_closed (lp_task_id p) (lp_stream p) w" and r: "receive_log_chunk gz s now node p w = Some (r, w')"
  shows "w' = w \<and> (\<exists>e. r = Inl e)"
proof -
  obtain row where row: "find_log (lp_task_id p) (lp_stream p) (d_logs (db w)) = Some row" "l_is_truncated row"
    using c by (auto simp: stream_closed_def split: option.splits)
  have "\<exists>e. log_chunk_tx gz s now node p w = Some (Inl e, w)"
    using row by (auto simp: log_chunk_tx_def Let_def load_task_for_node_def split: option.split sum.split)
  then obtain e where "log_chunk_tx gz s now node p w = Some (Inl e, w)" by blast
  with r show ?thesis by (auto simp: receive_log_chunk_def log_chunk_answer_def connect_def)
qed

lemma marks_closed: "same_but_marks w w' \<Longrightarrow> stream_closed tid st w' = stream_closed tid st w"
  by (simp add: stream_closed_def same_but_marks_def)

lemma task_log_chunk_refused:
  assumes c: "stream_closed (lp_task_id p) (lp_stream p) w" and r: "task_log_chunk cr gz s (\<lambda>_. Some p) now rnd req w = Some (r, w')"
  shows "same_but_marks w w' \<and> (\<exists>e. r = Inl e)"
  using r
proof (rule task_log_chunk_cases)
  fix w1
  assume m: "same_but_marks w w1" and d: "(\<exists>e. r = Inl e) \<and> w' = w1 \<or> (\<exists>node. receive_log_chunk gz s now node p w1 = Some (r, w'))"
  from d closed_refuses [of p w1] c m marks_closed [OF m] show ?thesis by blast
qed

lemma refused_sending:
  assumes post: "\<And>p w r w'. P w \<Longrightarrow> lp_task_id p = tid \<Longrightarrow> lp_stream p = st \<Longrightarrow> post p w = (r, w') \<Longrightarrow> P w' \<and> (\<exists>e. r = Inl e)"
    and P: "P w" and r: "send_log_chunks_with_ack post tid st x start True offs w = (r, offs', w')"
  shows "P w' \<and> (\<exists>e. r = Inl e)"
proof -
  define ch where "ch = take LOG_CHUNK_SIZE x"
  define p where "p = \<lparr>lp_task_id = tid, lp_stream = st, lp_offset_start = int start, lp_text = ch, lp_is_final = (length x \<le> length ch)\<rparr>"
  obtain q w1 where q: "post p w = (q, w1)" by fastforce
  have "P w1 \<and> (\<exists>e. q = Inl e)" using post [OF P _ _ q] by (simp add: p_def)
  then obtain e where k: "P w1" "q = Inl e" by blast
  have "(r, offs', w') = (Inl e, offs, w1)"
  proof (cases "x = []")
    case True
    then have "p = \<lparr>lp_task_id = tid, lp_stream = st, lp_offset_start = int start, lp_text = [], lp_is_final = True\<rparr>" by (simp add: p_def ch_def)
    with r q k True show ?thesis by (auto simp: send_log_chunks_with_ack_def)
  next
    case False
    with r q k show ?thesis
      by (auto simp: send_log_chunks_with_ack_def send_chunks.simps [of post tid st x True start 0] Let_def p_def ch_def)
  qed
  with k show ?thesis by simp
qed

lemma refused_upload:
  assumes post: "\<And>p w r w'. P w \<Longrightarrow> lp_task_id p = cur_task_id t \<Longrightarrow> lp_stream p = Stdout \<Longrightarrow> post p w = (r, w') \<Longrightarrow> P w' \<and> (\<exists>e. r = Inl e)"
    and P: "P w" and t: "truthy (cur_stdout_path t)" and r: "upload_incremental_logs post True t d w = (r, d', w')"
  shows "P w' \<and> dk_task d' = dk_task d \<and> (\<exists>e. r = Inl e)"
proof -
  define d0 where "d0 = d\<lparr>dk_offsets := init_log_offsets (cur_task_id t) (dk_offsets d)\<rparr>"
  define prev where "prev = acked_log_offset (dk_offsets d0) (cur_task_id t) Stdout"
  obtain x off where sl: "read_text_slice (dk_files d0 (the (cur_stdout_path t))) prev = (x, off)" by fastforce
  obtain q offs w1 where snd: "send_log_chunks_with_ack post (cur_task_id t) Stdout x prev True (dk_offsets d0) w = (q, offs, w1)"
    using prod_cases3 by blast
  obtain e where k: "P w1" "q = Inl e"
  proof -
    have "P w1 \<and> (\<exists>e. q = Inl e)" by (rule refused_sending [where P = P, OF _ P snd]) (rule post)
    with that show ?thesis by blast
  qed
  have "upload_stream post True Stdout t d0 w = (Inl e, d0\<lparr>dk_offsets := offs\<rparr>, w1)"
    using t sl snd k(2) by (simp add: upload_stream_def stream_path_def Let_def flip: prev_def)
  then have "(r, d', w') = (Inl e, d0\<lparr>dk_offsets := offs\<rparr>, w1)"
    using r unfolding upload_incremental_logs_def d0_def by simp
  with k show ?thesis by (simp add: d0_def)
qed

text \<open>C11. Once the server has truncated the standard output of a task, the agent cannot report its end: whatever
  the network does, the upload that comes before the result is refused, the end fails with an
  exception, the task stays the agent's current task, and the server is as it was but for its counters and the marks of accepted
  requests (new nonces, and of the nodes' rows the last timestamp, the time of the update and a re-encrypted key): no
  task, attempt, log, artifact, audit event or file changes.\<close>

theorem truncated_log_blocks_result:
  assumes c: "stream_closed (cur_task_id t) Stdout (lk_server (rn_out s))" and t: "truthy (cur_stdout_path t)"
    and f: "finalize_background_task mc mo (post_to_server ag clock cr gz js st) t final_status exit_code s = (r, s')"
  shows "(\<exists>e. r = Inl e) \<and> rn_task s' = rn_task s \<and> same_but_marks (lk_server (rn_out s)) (lk_server (rn_out s'))"
proof -
  let ?P = "\<lambda>lk. same_but_marks (lk_server (rn_out s)) (lk_server lk)"
  define post where "post = (\<lambda>p. post_to_server ag clock cr gz js st (Log_Message p))"
  have refuse: "?P lk' \<and> (\<exists>e. r = Inl e)"
    if P: "?P lk" and p: "lp_task_id p = cur_task_id t" "lp_stream p = Stdout" and r: "post p lk = (r, lk')" for p lk r lk'
  proof -
    have "?P lk' \<and> (\<forall>d. r = Inr d \<longrightarrow> False)"
    proof (rule post_through_pres [where P = "same_but_marks (lk_server (rn_out s))" and Q = "\<lambda>_. False"])
      show "post_through ag clock (server_receives cr gz js st (Log_Message p)) lk = (r, lk')" using r by (simp add: post_def post_to_server_def)
      fix arr w r w'
      assume w: "same_but_marks (lk_server (rn_out s)) w" and "server_receives cr gz js st (Log_Message p) arr w = Some (r, w')"
      then obtain q where q: "task_log_chunk cr gz st (\<lambda>_. Some p) (ar_now arr) (ar_random arr) (ar_request arr) w = Some (q, w')"
        and r: "r = map_sum id (\<lambda>_. ()) q" by (auto simp: server_receives_def Let_def)
      have "stream_closed (lp_task_id p) (lp_stream p) w" using c p marks_closed [OF w] by simp
      from task_log_chunk_refused [OF this q] r
      show "same_but_marks (lk_server (rn_out s)) w' \<and> (\<forall>x. r = Inr x \<longrightarrow> False)" by (auto intro: same_but_marks_trans [OF w])
    qed (rule P)
    then show ?thesis by (cases r) auto
  qed
  define d where "d = \<lparr>dk_offsets = rn_offsets s, dk_task = rn_task s, dk_files = disk_file (mc_host mc) (rn_disk s)\<rparr>"
  obtain q d' w' where up: "upload_incremental_logs post True t d (rn_out s) = (q, d', w')" using prod_cases3 by blast
  have k: "?P w' \<and> dk_task d' = dk_task d \<and> (\<exists>e. q = Inl e)"
    by (rule refused_upload [where P = ?P, OF _ _ t up]) (rule refuse, simp_all)
  then obtain e where e: "q = Inl e" by blast
  have "upload_logs mc (post_to_server ag clock cr gz js st) True t s =
      (Inl (client_error_name e), s\<lparr>rn_offsets := dk_offsets d', rn_task := dk_task d', rn_out := w'\<rparr>)"
    using up by (simp add: upload_logs_def post_def d_def e named_error_def)
  then have "(r, s') = (Inl (client_error_name e), s\<lparr>rn_offsets := dk_offsets d', rn_task := dk_task d', rn_out := w'\<rparr>)"
    using f by (simp add: finalize_background_task_def andthen_def)
  with k show ?thesis by (simp add: d_def)
qed

section \<open>Runs of the agent and the server\<close>

text \<open>
  One turn of the whole system: the server changes by itself (administrators, the scan, other nodes), then the
  agent takes its turn.
\<close>

definition after_change :: "(world \<Rightarrow> world) \<Rightarrow> link beat \<Rightarrow> link beat" where
  "after_change f beat rn = beat (rn\<lparr>rn_out := (rn_out rn)\<lparr>lk_server := f (lk_server (rn_out rn))\<rparr>\<rparr>)"

definition run_system ::
  "machine \<Rightarrow> agent_settings \<Rightarrow> (nat \<Rightarrow> nat \<Rightarrow> instant) \<Rightarrow> crypto \<Rightarrow> (bytes \<Rightarrow> nat) \<Rightarrow> (result_body \<Rightarrow> dict) \<Rightarrow> settings \<Rightarrow>
   ((world \<Rightarrow> world) \<times> heartbeat_request \<times> turn) list \<Rightarrow> link runner \<Rightarrow> link runner" where
  "run_system mc ag clock cr gz js st plan =
     run_loop mc ag (post_to_server ag clock cr gz js st)
       (map (\<lambda>(f, payload, tn). (after_change f (send_heartbeat ag clock cr st payload), tn)) plan)"

definition settles_only :: "(world \<Rightarrow> world) \<Rightarrow> bool" where
  "settles_only f \<longleftrightarrow> (\<forall>w. ids_ok w \<longrightarrow> ids_ok (f w) \<and> (\<forall>tid. task_settled tid w \<longrightarrow> task_settled tid (f w)))"

lemma after_change_calm:
  assumes f: "settles_only f" and b: "beat_calm link_ok link_settled beat"
  shows "beat_calm link_ok link_settled (after_change f beat)"
  unfolding beat_calm_def
proof
  fix rn :: "link runner"
  define rn1 where "rn1 = rn\<lparr>rn_out := (rn_out rn)\<lparr>lk_server := f (lk_server (rn_out rn))\<rparr>\<rparr>"
  have "calm link_ok link_settled (rn_out rn) (rn_out rn1)"
    using f by (simp add: calm_def settles_only_def link_ok_def link_settled_def rn1_def)
  moreover have "calm link_ok link_settled (rn_out rn1) (snd (beat rn1))" using b by (simp add: beat_calm_def)
  ultimately show "calm link_ok link_settled (rn_out rn) (snd (after_change f beat rn))"
    by (simp add: after_change_def calm_def flip: rn1_def)
qed

lemma system_tracked:
  assumes "\<forall>(f, payload, tn) \<in> set plan. settles_only f"
  shows "tracked link_ok link_settled s (run_system mc ag clock cr gz js st plan s)"
  unfolding run_system_def
  by (rule server.loop_tracked) (use assms in \<open>auto intro!: after_change_calm send_heartbeat_calm\<close>)

text \<open>C4. The agent forgets a task only when the server knows how it ended: along any run of the loop, whatever the
  network loses, whatever fails on the node, and whatever else happens at the server meanwhile that leaves
  settled tasks settled, the current task of the agent stays its current task until the server's row
  of it has a final status.\<close>

theorem agent_forgets_only_settled_tasks:
  assumes "\<forall>(f, payload, tn) \<in> set plan. settles_only f"
    and "ids_ok (lk_server (rn_out s))" and "rn_task s = Some t" and "cur_task_id t \<noteq> []"
  shows "current (cur_task_id t) (run_system mc ag clock cr gz js st plan s) \<or>
    task_settled (cur_task_id t) (lk_server (rn_out (run_system mc ag clock cr gz js st plan s)))"
  using system_tracked [OF assms(1), of s mc ag clock cr gz js st] assms(2-4)
  by (auto simp: tracked_def runs_def current_def link_ok_def link_settled_def)

section \<open>Tasks that the agent cannot start\<close>

definition BACKGROUND_TYPES :: "string set" where
  "BACKGROUND_TYPES = {''health_check'', ''shell'', ''python_script'', ''pip_install'', ''git_pull'', ''modal_command''}"

lemma unsupported_command: "tv_type task \<notin> BACKGROUND_TYPES \<Longrightarrow> \<exists>e. build_command mc ag task run_dir workdir fs = (Inl e, fs)"
  by (simp add: build_command_def BACKGROUND_TYPES_def Let_def)

lemma unsupported_prepare:
  assumes "tv_type task \<notin> BACKGROUND_TYPES" and "prepare_command mc mo ag task boot_id run_dir s = (r, s')"
  shows "\<exists>e. r = Inl e"
  using assms(2) unsupported_command [OF assms(1)]
  by (auto simp: prepare_command_def andthen_def in_disk_def Let_def split: prod.splits sum.splits)
    (metis Pair_inject sum.distinct(1))

text \<open>C12. A task that the server accepts but \<open>build_command\<close> does not know stops its node: its start fails with an
  exception before any message is sent and without becoming the current task; as long as its row is claimed
  and the node keeps its heartbeats, the server hands out no other task and the scan keeps the row.\<close>

theorem unsupported_task_blocks_the_node:
  assumes ty: "tv_type task \<in> set TaskType - BACKGROUND_TYPES"
    and start: "start_background_task mc mo ag post task s = (r, s')"
    and row: "row \<in> set (d_tasks (db w))" "t_node_id row = node" "t_status row = Claimed"
    and seen: "parse_utc_or_none (n_last_seen_at n) = Inr (Some t)" "now - t \<le> seconds (3 * heartbeat_interval n)"
  shows "(\<exists>e. r = Inl e) \<and> rn_out s' = rn_out s \<and> rn_task s' = rn_task s \<and>
    claim_next_task_for_node node now_iso w = (None, w) \<and> verdict_of now audits n row = Inr Keep"
proof -
  have agent: "(\<exists>e. r = Inl e) \<and> rn_out s' = rn_out s \<and> rn_task s' = rn_task s"
    using start unfolding start_background_task_def
  proof (cases rule: andthen_cases)
    case (fails e)
    with quietD [OF quiet_boot_id fails(1)] show ?thesis by blast
  next
    case boot: (goes boot_id s1)
    note q1 = quietD [OF quiet_boot_id boot(1)]
    from boot(2) show ?thesis
    proof (cases rule: andthen_cases)
      case (fails e)
      with q1 quietD [OF quiet_run_dir fails(1)] show ?thesis by simp
    next
      case dir: (goes run_dir s2)
      note q2 = quietD [OF quiet_run_dir dir(1)]
      from dir(2) show ?thesis
      proof (cases rule: andthen_cases)
        case (fails e)
        with q1 q2 quietD [OF quiet_prepare fails(1)] show ?thesis by simp
      next
        case (goes pt s3)
        with unsupported_prepare [OF _ goes(1)] ty show ?thesis by simp
      qed
    qed
  qed
  have "node_has_active node (d_tasks (db w))" using row by (auto simp: node_has_active_def)
  then have "claim_next_task_for_node node now_iso w = (None, w)" by (simp add: claim_next_task_for_node_def next_pending_def)
  moreover have "truthy (n_last_seen_at n)" using seen(1) by (cases "truthy (n_last_seen_at n)") (simp_all add: parse_utc_or_none_def)
  then have "verdict_of now audits n row = Inr Keep" using row(3) seen by (simp add: verdict_of_def past_deadline_def silent_verdict_def)
  ultimately show ?thesis using agent by blast
qed

section \<open>Witnesses\<close>

definition sample_link :: "world \<Rightarrow> fate list \<Rightarrow> link" where
  "sample_link w fs = \<lparr>lk_breaker = new_breaker, lk_posts = 0, lk_server = w, lk_fates = fs\<rparr>"

definition sample_runner :: "agent_task option \<Rightarrow> link \<Rightarrow> link runner" where
  "sample_runner t lk = \<lparr>rn_disk = [], rn_boot_id = None, rn_offsets = Map.empty, rn_task = t,
     rn_modal = \<lparr>md_pool = None, md_state = None\<rparr>, rn_procs = [], rn_signals = [], rn_dirty = False, rn_out = lk\<rparr>"

definition sample_moment :: moment where
  "sample_moment = \<lparr>mo_now = 0, mo_finished = 0, mo_uuid = ''u'', mo_timestamp = ''t'', mo_environ = [], mo_spawn = (\<lambda>_ _ _. Some 7)\<rparr>"

definition sample_end :: end_reply where
  "sample_end = \<lparr>er_has_group = True, er_after_term = Some 0, er_group_left = False, er_after_kill = None\<rparr>"

definition sample_turn :: turn where
  "sample_turn = (let pr = \<lparr>pr_poll = None, pr_poll_after = Some 0, pr_end = sample_end, pr_end_late = sample_end, pr_alive = False\<rparr>
     in \<lparr>tn_recovery = sample_moment, tn_recovery_reply = pr, tn_sync = sample_moment, tn_sync_reply = pr, tn_start = sample_moment\<rparr>)"

definition sample_heartbeat :: heartbeat_request where
  "sample_heartbeat = \<lparr>hb_boot_id = ''b'', hb_hostname = None, hb_heartbeat_interval_sec = 5, hb_cpu_usage_percent = None,
     hb_memory_usage_percent = None, hb_gpus = [], hb_active_task_id = None, hb_samples = [], hb_cpu_dump = JNull,
     hb_memory_dump = JNull, hb_disks_dump = JNull, hb_nvidia_dump = JNull, hb_python_env_dump = JNull,
     hb_task_runtime_dump = JNull, hb_dump = JNull\<rparr>"

lemma agent_forgets_only_settled_tasks_witness:
  "let s = run_system sample_machine default_agent_settings (\<lambda>_ _. 0) sample_crypto (\<lambda>_. 0) (\<lambda>_. []) sample_log_settings
         [(\<lambda>w. w, sample_heartbeat, sample_turn)]
         (sample_runner (Some sample_output_task) (sample_link (sample_world [sample_node ''n'' 1] [sample_task ''a'' ''n'' Running 1])
            [Missing, Through sample_arrival, Cut sample_arrival]))
   in current ''a'' s \<or> task_settled ''a'' (lk_server (rn_out s))"
  unfolding Let_def
  using agent_forgets_only_settled_tasks [where plan = "[(\<lambda>w. w, sample_heartbeat, sample_turn)]" and t = sample_output_task
      and s = "sample_runner (Some sample_output_task) (sample_link (sample_world [sample_node ''n'' 1] [sample_task ''a'' ''n'' Running 1])
            [Missing, Through sample_arrival, Cut sample_arrival])"]
  by (simp add: settles_only_def ids_ok_def sample_runner_def sample_link_def sample_output_task_def)

lemma truncated_log_blocks_result_witness:
  "let w = insert_log ''a'' Stdout 0 [] None True ''storage_quota_exceeded'' [] (sample_world [sample_node ''n'' 1] [sample_task ''a'' ''n'' Running 1]);
       s = sample_runner (Some sample_output_task) (sample_link w [Through sample_arrival])
   in \<exists>e s'. finalize_background_task sample_machine sample_moment
       (post_to_server default_agent_settings (\<lambda>_ _. 0) sample_crypto (\<lambda>_. 0) (\<lambda>_. []) sample_log_settings) sample_output_task Succeeded (Some 0) s = (Inl e, s') \<and>
     rn_task s' = Some sample_output_task"
proof -
  define w where "w = insert_log ''a'' Stdout 0 [] None True ''storage_quota_exceeded'' [] (sample_world [sample_node ''n'' 1] [sample_task ''a'' ''n'' Running 1])"
  define s where "s = sample_runner (Some sample_output_task) (sample_link w [Through sample_arrival])"
  obtain r s' where f: "finalize_background_task sample_machine sample_moment
       (post_to_server default_agent_settings (\<lambda>_ _. 0) sample_crypto (\<lambda>_. 0) (\<lambda>_. []) sample_log_settings) sample_output_task Succeeded (Some 0) s = (r, s')"
    by fastforce
  have "stream_closed (cur_task_id sample_output_task) Stdout (lk_server (rn_out s))"
    by (simp add: s_def sample_runner_def sample_link_def w_def stream_closed_def insert_log_def find_log_def bump_def sample_output_task_def)
  from truncated_log_blocks_result [OF this _ f] show ?thesis
    unfolding Let_def w_def [symmetric] s_def [symmetric] using f by (auto simp: sample_output_task_def s_def sample_runner_def)
qed

lemma unsupported_task_blocks_the_node_witness:
  "is_ok (fst (start_background_task sample_machine sample_moment default_agent_settings
      (post_to_server default_agent_settings (\<lambda>_ _. 0) sample_crypto (\<lambda>_. 0) (\<lambda>_. []) sample_log_settings)
      (sample_file_task ''file_write'' [] None) (sample_runner None (sample_link (sample_world [] []) [])))) = False \<and>
   fst (claim_next_task_for_node ''n'' [] (sample_world [] [sample_task ''a'' ''n'' Claimed 1, sample_task ''b'' ''n'' Pending 2])) = None"
proof -
  obtain r s' where s: "start_background_task sample_machine sample_moment default_agent_settings
      (post_to_server default_agent_settings (\<lambda>_ _. 0) sample_crypto (\<lambda>_. 0) (\<lambda>_. []) sample_log_settings)
      (sample_file_task ''file_write'' [] None) (sample_runner None (sample_link (sample_world [] []) [])) = (r, s')" by fastforce
  have "tv_type (sample_file_task ''file_write'' [] None) \<in> set TaskType - BACKGROUND_TYPES"
    by (simp add: sample_file_task_def TaskType_def BACKGROUND_TYPES_def)
  from unsupported_task_blocks_the_node [OF this s, of "sample_task ''a'' ''n'' Claimed 1"
      "sample_world [] [sample_task ''a'' ''n'' Claimed 1, sample_task ''b'' ''n'' Pending 2]" "''n''"
      sample_silent_node 63902822400000000 63902822400000000 "[]" "[]"]
  show ?thesis by (auto simp: s sample_silent_node_def sample_seen heartbeat_interval_def seconds_def)
qed

end
