(* ===== verification/Agent_Sampler.thy ===== *)
theory Agent_Sampler
  imports Agent_Runner Admin_Nodes Webhook
begin

text \<open>
  What a heartbeat says of the node: the sampler with its ring buffer (\<open>node_agent/.../sampler.py\<close>), the cached
  fingerprint (\<open>fingerprint.py\<close>) and the payload that joins them (\<open>heartbeat.py\<close>). What psutil, NVML and PDH
  read is an input of each step. Floating-point numbers are exact rationals.
\<close>

section \<open>Numbers\<close>

text \<open>\<open>round(x)\<close> and \<open>round(x, 2)\<close>: halves go to the even neighbour; \<open>int(x)\<close> truncates.\<close>

definition round_even :: "rat \<Rightarrow> int" where
  "round_even x = (let f = \<lfloor>x\<rfloor>; d = x - of_int f in if d < 1 / 2 \<or> d = 1 / 2 \<and> even f then f else f + 1)"

definition round2 :: "rat \<Rightarrow> rat" where
  "round2 x = of_int (round_even (x * 100)) / 100"

definition truncate_rat :: "rat \<Rightarrow> int" where
  "truncate_rat r = (if 0 \<le> r then \<lfloor>r\<rfloor> else \<lceil>r\<rceil>)"

definition jfloat :: "rat \<Rightarrow> json" where
  "jfloat r = JFloat r []"

section \<open>One sample\<close>

text \<open>One GPU as NVML reads it; the power is None when the card does not report it.\<close>

record gpu_reading =
  gr_util :: rat
  gr_temp :: rat
  gr_used :: int
  gr_power_mw :: "rat option"

text \<open>The readings of a sample; a GPU that cannot be read is None, and so is a clock that PDH cannot read.\<close>

record probe =
  pb_ts :: string
  pb_per_core :: "rat list"
  pb_memory_percent :: rat
  pb_memory_used :: int
  pb_memory_available :: int
  pb_pdh :: bool
  pb_pdh_clock :: "rat option"
  pb_psutil_clock :: "rat option"
  pb_nvml :: bool
  pb_gpus :: "gpu_reading option list"

definition gpu_sample :: "nat \<Rightarrow> gpu_reading \<Rightarrow> json" where
  "gpu_sample idx g =
     JObj [(''idx'', JInt (int idx)), (''util'', jfloat (gr_util g)), (''temp_c'', jfloat (gr_temp g)), (''vram_used_bytes'', JInt (gr_used g)),
       (''power_w'', opt_json (\<lambda>mw. jfloat (round2 (mw / 1000))) (gr_power_mw g))]"

definition collect_gpus_lite :: "probe \<Rightarrow> json list" where
  "collect_gpus_lite pb =
     (if \<not> pb_nvml pb then []
      else concat (map (\<lambda>(idx, g). case g of None \<Rightarrow> [] | Some g \<Rightarrow> [gpu_sample idx g]) (enumerate 0 (pb_gpus pb))))"

definition read_current_cpu_freq_mhz :: "probe \<Rightarrow> int option" where
  "read_current_cpu_freq_mhz pb =
     (if pb_pdh pb then map_option truncate_rat (pb_pdh_clock pb)
      else (case pb_psutil_clock pb of None \<Rightarrow> None | Some f \<Rightarrow> if f = 0 then None else Some (round_even f)))"

definition collect_sample :: "probe \<Rightarrow> dict" where
  "collect_sample pb =
     (let per_core_percent = map round2 (pb_per_core pb);
          cpu_percent = (if per_core_percent = [] then 0 else round2 (sum_list per_core_percent / of_nat (length per_core_percent)))
      in [(''ts'', JStr (pb_ts pb)), (''cpu_percent'', jfloat cpu_percent), (''per_core_percent'', JList (map jfloat per_core_percent)),
          (''cpu_current_clock_mhz'', opt_json JInt (read_current_cpu_freq_mhz pb)), (''memory_percent'', jfloat (round2 (pb_memory_percent pb))),
          (''memory_used_bytes'', JInt (pb_memory_used pb)), (''memory_available_bytes'', JInt (pb_memory_available pb)),
          (''gpus'', JList (collect_gpus_lite pb))])"

section \<open>The ring buffer\<close>

record ring =
  rb_capacity :: nat
  rb_buf :: "dict list"
  rb_last_net_io :: "(int \<times> int) option"
  rb_last_net_time :: "rat option"

definition new_ring :: "int \<Rightarrow> string + ring" where
  "new_ring capacity =
     (if capacity < 1 then Inl ''ValueError''
      else Inr \<lparr>rb_capacity = nat capacity, rb_buf = [], rb_last_net_io = None, rb_last_net_time = None\<rparr>)"

text \<open>The clock in seconds and the network counters, sent and received; None is an exception of psutil.\<close>

record net_probe =
  np_now :: rat
  np_io :: "(int \<times> int) option"

definition net_rates :: "net_probe \<Rightarrow> ring \<Rightarrow> (rat \<times> rat) option" where
  "net_rates np rb =
     (case (np_io np, rb_last_net_io rb, rb_last_net_time rb) of
        (Some (sent, recv), Some (sent0, recv0), Some t0) \<Rightarrow>
          (let dt = np_now np - t0; d_sent = sent - sent0; d_recv = recv - recv0 in
           if 0 < dt \<and> 0 \<le> d_sent \<and> 0 \<le> d_recv then Some (round2 (of_int d_sent / dt), round2 (of_int d_recv / dt)) else None)
      | _ \<Rightarrow> None)"

definition enrich_with_net_bps :: "net_probe \<Rightarrow> dict \<Rightarrow> ring \<Rightarrow> dict \<times> ring" where
  "enrich_with_net_bps np sample rb =
     (dict_set ''download_bps'' (opt_json (\<lambda>r. jfloat (snd r)) (net_rates np rb))
        (dict_set ''upload_bps'' (opt_json (\<lambda>r. jfloat (fst r)) (net_rates np rb)) sample),
      (case np_io np of None \<Rightarrow> rb | Some io \<Rightarrow> rb\<lparr>rb_last_net_io := Some io, rb_last_net_time := Some (np_now np)\<rparr>))"

definition push :: "net_probe \<Rightarrow> dict \<Rightarrow> ring \<Rightarrow> ring" where
  "push np sample rb =
     (case enrich_with_net_bps np sample rb of (sample, rb) \<Rightarrow> rb\<lparr>rb_buf := keep_newest (rb_capacity rb) (rb_buf rb @ [sample])\<rparr>)"

definition drain :: "ring \<Rightarrow> dict list \<times> ring" where
  "drain rb = (rb_buf rb, rb\<lparr>rb_buf := []\<rparr>)"

text \<open>One round of the sampler's thread; a sample that fails is skipped.\<close>

definition sampler_tick :: "probe option \<Rightarrow> net_probe \<Rightarrow> ring \<Rightarrow> ring" where
  "sampler_tick pb np rb = (case pb of None \<Rightarrow> rb | Some pb \<Rightarrow> push np (collect_sample pb) rb)"

section \<open>The fingerprint\<close>

record fingerprint =
  fp_boot_id :: string
  fp_agent_version :: string
  fp_hostname :: string
  fp_heartbeat_interval_sec :: int
  fp_sample_interval_sec :: int
  fp_cpu :: dict
  fp_memory :: dict
  fp_disks :: json
  fp_gpus :: "dict list"
  fp_nvidia :: json
  fp_python_env :: json
  fp_extra :: dict

record fp_state =
  fs_cache :: "fingerprint option"
  fs_dirty :: bool
  fs_worker_started :: bool

definition get_cached :: "(string + fingerprint) \<Rightarrow> fp_state \<Rightarrow> (string + fingerprint) \<times> fp_state" where
  "get_cached collected fs =
     (case fs_cache fs of
        Some fp \<Rightarrow> (Inr fp, fs)
      | None \<Rightarrow> (case collected of Inl e \<Rightarrow> (Inl e, fs) | Inr fp \<Rightarrow> (Inr fp, fs\<lparr>fs_cache := Some fp\<rparr>)))"

definition mark_dirty :: "fp_state \<Rightarrow> fp_state" where
  "mark_dirty fs = fs\<lparr>fs_dirty := True\<rparr>"

text \<open>
  One round of the refresh worker: the request is taken before the collection starts, so that one that comes
  meanwhile (\<open>during\<close>) is a request of the next round. A failed collection leaves the cache.
\<close>

definition refresh_round :: "bool \<Rightarrow> bool \<Rightarrow> (string + fingerprint) \<Rightarrow> fp_state \<Rightarrow> fp_state" where
  "refresh_round stopping during collected fs =
     (if stopping \<or> \<not> fs_dirty fs then fs
      else (case collected of Inl e \<Rightarrow> fs\<lparr>fs_dirty := during\<rparr> | Inr fp \<Rightarrow> fs\<lparr>fs_dirty := during, fs_cache := Some fp\<rparr>))"

definition start_refresh_worker :: "fp_state \<Rightarrow> bool \<times> fp_state" where
  "start_refresh_worker fs = (\<not> fs_worker_started fs, fs\<lparr>fs_worker_started := True\<rparr>)"

section \<open>The payload\<close>

text \<open>\<open>d[key] = value\<close> when a value is given\<close>

definition given_value :: "json option \<Rightarrow> json option" where
  "given_value v = (case v of None \<Rightarrow> None | Some x \<Rightarrow> if x = JNull then None else Some x)"

definition set_given :: "string \<Rightarrow> json option \<Rightarrow> dict \<Rightarrow> dict" where
  "set_given k v d = (case given_value v of None \<Rightarrow> d | Some x \<Rightarrow> dict_set k x d)"

definition latest_sample :: "dict list \<Rightarrow> dict option" where
  "latest_sample samples = (if samples = [] then None else Some (last samples))"

text \<open>\<open>gpu.get("index", idx)\<close> of each GPU as a number; \<open>Inl\<close> is the exception of \<open>int\<close>.\<close>

fun gpu_indexes :: "nat \<Rightarrow> dict list \<Rightarrow> string + int list" where
  "gpu_indexes n [] = Inr []"
| "gpu_indexes n (g # gs) =
     try_then (int_of_json (default_value g ''index'' (JInt (int n)))) (\<lambda>i.
     try_then (gpu_indexes (Suc n) gs) (\<lambda>is. Inr (i # is)))"

text \<open>The place of the last GPU with an index, which is the one the dict comprehension keeps\<close>

definition gpu_place :: "int \<Rightarrow> int list \<Rightarrow> nat option" where
  "gpu_place i idxs = (case filter (\<lambda>n. idxs ! n = i) [0..<length idxs] of [] \<Rightarrow> None | ns \<Rightarrow> Some (last ns))"

text \<open>Numbers only: the sampler writes no text into a sample.\<close>

definition used_vram_mb :: "json \<Rightarrow> string + json" where
  "used_vram_mb v = (case json_number v of None \<Rightarrow> Inl ''ValueError'' | Some r \<Rightarrow> Inr (JInt (round_even (r / (1024 * 1024)))))"

definition patch_gpu :: "dict \<Rightarrow> dict \<Rightarrow> string + dict" where
  "patch_gpu sg gpu =
     (let gpu = set_given ''temperature_c'' (dict_get sg ''temp_c'') (set_given ''utilization_percent'' (dict_get sg ''util'') gpu) in
      try_then (case given_value (dict_get sg ''vram_used_bytes'') of None \<Rightarrow> Inr gpu
                | Some v \<Rightarrow> try_then (used_vram_mb v) (\<lambda>mb. Inr (dict_set ''used_vram_mb'' mb gpu))) (\<lambda>gpu.
      Inr (set_given ''power_draw_w'' (dict_get sg ''power_w'') gpu)))"

fun patch_gpus :: "int list \<Rightarrow> json list \<Rightarrow> dict list \<Rightarrow> string + dict list" where
  "patch_gpus idxs [] gpus = Inr gpus"
| "patch_gpus idxs (sg # sgs) gpus =
     (case sg of
        JObj d \<Rightarrow>
          (case given_value (dict_get d ''idx'') of
             None \<Rightarrow> patch_gpus idxs sgs gpus
           | Some v \<Rightarrow>
               try_then (int_of_json v) (\<lambda>i.
                 case gpu_place i idxs of
                   None \<Rightarrow> patch_gpus idxs sgs gpus
                 | Some n \<Rightarrow> try_then (patch_gpu d (gpus ! n)) (\<lambda>g. patch_gpus idxs sgs (gpus[n := g]))))
      | _ \<Rightarrow> patch_gpus idxs sgs gpus)"

definition live_cpu :: "dict \<Rightarrow> dict \<Rightarrow> dict" where
  "live_cpu latest cpu =
     set_given ''current_clock_mhz'' (dict_get latest ''cpu_current_clock_mhz'')
       (set_given ''per_core_percent'' (case dict_get latest ''per_core_percent'' of Some (JList xs) \<Rightarrow> if xs = [] then None else Some (JList xs) | _ \<Rightarrow> None)
         (set_given ''usage_percent'' (dict_get latest ''cpu_percent'') cpu))"

definition live_memory :: "dict \<Rightarrow> dict \<Rightarrow> dict" where
  "live_memory latest memory =
     set_given ''available_bytes'' (dict_get latest ''memory_available_bytes'')
       (set_given ''used_bytes'' (dict_get latest ''memory_used_bytes'') (set_given ''usage_percent'' (dict_get latest ''memory_percent'') memory))"

definition live_extra :: "dict \<Rightarrow> dict \<Rightarrow> dict" where
  "live_extra latest extra =
     (let up = dict_get latest ''upload_bps''; down = dict_get latest ''download_bps'' in
      if given_value up = None \<and> given_value down = None then extra
      else dict_set ''network'' (JObj (set_given ''rx_bytes_per_sec'' down (set_given ''tx_bytes_per_sec'' up
        (case dict_get extra ''network'' of Some (JObj n) \<Rightarrow> n | _ \<Rightarrow> [])))) extra)"

definition merge_live_sample_metrics :: "fingerprint \<Rightarrow> dict list \<Rightarrow> string + dict \<times> dict \<times> dict list \<times> dict" where
  "merge_live_sample_metrics fp samples =
     (case latest_sample samples of
        None \<Rightarrow> Inr (fp_cpu fp, fp_memory fp, fp_gpus fp, fp_extra fp)
      | Some latest \<Rightarrow>
          try_then (gpu_indexes 0 (fp_gpus fp)) (\<lambda>idxs.
          try_then (patch_gpus idxs (case dict_get latest ''gpus'' of Some (JList gs) \<Rightarrow> gs | _ \<Rightarrow> []) (fp_gpus fp)) (\<lambda>gpus.
          Inr (live_cpu latest (fp_cpu fp), live_memory latest (fp_memory fp), gpus, live_extra latest (fp_extra fp)))))"

text \<open>The loaded state of the current task; the exception of \<open>load_json\<close> on a damaged \<open>current_task.json\<close> is not modelled.\<close>

definition collect_task_runtime :: "agent_task option \<Rightarrow> dict" where
  "collect_task_runtime t =
     [(''active_task_id'', opt_json (\<lambda>t. JStr (cur_task_id t)) t), (''active_pid'', opt_json (\<lambda>t. JInt (cur_pid t)) t),
      (''started_at'', opt_json (\<lambda>t. JStr (cur_started_at t)) t)]"

text \<open>The buffer is there when the sampler runs; it is emptied even when the payload cannot be built.\<close>

definition build_heartbeat_payload ::
  "(string + fingerprint) \<Rightarrow> agent_task option \<Rightarrow> fp_state \<times> ring option \<Rightarrow> (string + dict) \<times> fp_state \<times> ring option" where
  "build_heartbeat_payload collected t st =
     (case st of (fs, rb) \<Rightarrow>
        case get_cached collected fs of
          (Inl e, fs) \<Rightarrow> (Inl e, fs, rb)
        | (Inr fp, fs) \<Rightarrow>
            (let samples = (case rb of None \<Rightarrow> [] | Some rb \<Rightarrow> fst (drain rb)) in
             (try_then (merge_live_sample_metrics fp samples) (\<lambda>(cpu, memory, gpus, extra).
                Inr [(''boot_id'', JStr (fp_boot_id fp)), (''agent_version'', JStr (fp_agent_version fp)), (''hostname'', JStr (fp_hostname fp)),
                  (''heartbeat_interval_sec'', JInt (fp_heartbeat_interval_sec fp)),
                  (''sample_interval_sec'', if rb = None then JNull else JInt (fp_sample_interval_sec fp)),
                  (''cpu'', JObj cpu), (''memory'', JObj memory), (''disks'', fp_disks fp), (''gpus'', JList (map JObj gpus)),
                  (''nvidia'', fp_nvidia fp), (''python_env'', fp_python_env fp), (''extra'', JObj extra),
                  (''task_runtime'', JObj (collect_task_runtime t)), (''samples'', JList (map JObj samples))]),
              fs, map_option (\<lambda>rb. snd (drain rb)) rb)))"

section \<open>Runs of the sampler\<close>

datatype sampler_op = Tick "probe option" net_probe | Beat

text \<open>What each heartbeat drains; the bounded buffer, and beside it the samples themselves without a bound.\<close>

fun run_sampler :: "sampler_op list \<Rightarrow> ring \<Rightarrow> dict list list \<times> ring" where
  "run_sampler [] rb = ([], rb)"
| "run_sampler (Tick pb np # ops) rb = run_sampler ops (sampler_tick pb np rb)"
| "run_sampler (Beat # ops) rb = (case drain rb of (batch, rb) \<Rightarrow> case run_sampler ops rb of (bs, rb) \<Rightarrow> (batch # bs, rb))"

fun taken_between :: "sampler_op list \<Rightarrow> dict list \<Rightarrow> ring \<Rightarrow> dict list list" where
  "taken_between [] taken net = []"
| "taken_between (Tick None np # ops) taken net = taken_between ops taken net"
| "taken_between (Tick (Some pb) np # ops) taken net =
     (case enrich_with_net_bps np (collect_sample pb) net of (sample, net) \<Rightarrow> taken_between ops (taken @ [sample]) net)"
| "taken_between (Beat # ops) taken net = taken # taken_between ops [] net"

lemma keep_newest_again: "keep_newest n (keep_newest n xs @ [x]) = keep_newest n (xs @ [x])"
  by (cases "n = 0"; cases "n \<le> length xs") (auto simp: keep_newest_def Suc_diff_le not_le)

text \<open>The counters of the network are all that a new sample needs of the ring.\<close>

definition same_net :: "ring \<Rightarrow> ring \<Rightarrow> bool" where
  "same_net a b \<longleftrightarrow> rb_last_net_io a = rb_last_net_io b \<and> rb_last_net_time a = rb_last_net_time b"

lemma enrich_same:
  assumes "same_net a b"
  shows "fst (enrich_with_net_bps np d a) = fst (enrich_with_net_bps np d b) \<and>
    same_net (snd (enrich_with_net_bps np d a)) (snd (enrich_with_net_bps np d b)) \<and>
    rb_buf (snd (enrich_with_net_bps np d a)) = rb_buf a \<and> rb_capacity (snd (enrich_with_net_bps np d a)) = rb_capacity a"
  using assms by (auto simp: enrich_with_net_bps_def net_rates_def same_net_def split: option.split)

lemma run_sampler_batches:
  "same_net rb net \<Longrightarrow> rb_buf rb = keep_newest (rb_capacity rb) taken \<Longrightarrow>
   fst (run_sampler ops rb) = map (keep_newest (rb_capacity rb)) (taken_between ops taken net)"
proof (induction ops taken net arbitrary: rb rule: taken_between.induct)
  case (2 np ops taken net)
  then show ?case by (simp add: sampler_tick_def)
next
  case (3 pb np ops taken net)
  define sample where "sample = fst (enrich_with_net_bps np (collect_sample pb) net)"
  define net' where "net' = snd (enrich_with_net_bps np (collect_sample pb) net)"
  define rb1 where "rb1 = snd (enrich_with_net_bps np (collect_sample pb) rb)"
  define rb2 where "rb2 = rb1\<lparr>rb_buf := keep_newest (rb_capacity rb1) (rb_buf rb1 @ [sample])\<rparr>"
  note e = enrich_same [OF "3.prems"(1), of np "collect_sample pb"]
  have tick: "sampler_tick (Some pb) np rb = rb2"
    using e by (simp add: sampler_tick_def push_def rb2_def rb1_def sample_def case_prod_beta)
  have cap: "rb_capacity rb2 = rb_capacity rb" using e by (simp add: rb2_def rb1_def)
  have net2: "same_net rb2 net'" using e by (simp add: same_net_def rb2_def rb1_def net'_def)
  have buf2: "rb_buf rb2 = keep_newest (rb_capacity rb2) (taken @ [sample])"
    using e "3.prems"(2) keep_newest_again by (simp add: rb2_def rb1_def)
  have "fst (run_sampler ops rb2) = map (keep_newest (rb_capacity rb2)) (taken_between ops (taken @ [sample]) net')"
    by (rule "3.IH" [OF _ net2 buf2]) (simp add: sample_def net'_def)
  then show ?case by (simp add: tick cap case_prod_beta sample_def net'_def)
next
  case (4 ops taken net)
  define rb' where "rb' = rb\<lparr>rb_buf := []\<rparr>"
  have "fst (run_sampler ops rb') = map (keep_newest (rb_capacity rb')) (taken_between ops [] net)"
    by (rule "4.IH") (use "4.prems" in \<open>simp_all add: rb'_def same_net_def keep_newest_def\<close>)
  then show ?case using "4.prems"(2) by (simp add: drain_def case_prod_beta rb'_def)
qed simp

text \<open>C38. Each heartbeat drains the newest samples since the one before, in the order they were taken, as many as the
  buffer holds; no sample is drained twice, and with a capacity of at least the number of samples between
  two heartbeats none is lost.\<close>

theorem heartbeats_drain_newest_samples:
  assumes "new_ring capacity = Inr rb"
  shows "fst (run_sampler ops rb) = map (keep_newest (nat capacity)) (taken_between ops [] rb) \<and>
    (\<forall>batch \<in> set (taken_between ops [] rb). int (length batch) \<le> capacity \<longrightarrow> keep_newest (nat capacity) batch = batch)"
proof -
  have rb: "rb_capacity rb = nat capacity" "rb_buf rb = []" using assms by (auto simp: new_ring_def split: if_splits)
  have "fst (run_sampler ops rb) = map (keep_newest (rb_capacity rb)) (taken_between ops [] rb)"
    by (rule run_sampler_batches) (simp_all add: same_net_def rb keep_newest_def)
  then show ?thesis by (auto simp: rb keep_newest_def)
qed

definition sample_probe :: "string \<Rightarrow> probe" where
  "sample_probe ts = \<lparr>pb_ts = ts, pb_per_core = [1 / 2], pb_memory_percent = 10, pb_memory_used = 1, pb_memory_available = 9,
     pb_pdh = False, pb_pdh_clock = None, pb_psutil_clock = None, pb_nvml = True,
     pb_gpus = [None, Some \<lparr>gr_util = 50, gr_temp = 40, gr_used = 3145728, gr_power_mw = None\<rparr>]\<rparr>"

definition sample_net :: "rat \<Rightarrow> int \<Rightarrow> net_probe" where
  "sample_net t b = \<lparr>np_now = t, np_io = Some (b, 2 * b)\<rparr>"

lemma enriched_ts: "dict_get (fst (enrich_with_net_bps np (collect_sample pb) rb)) ''ts'' = Some (JStr (pb_ts pb))"
  by (simp add: enrich_with_net_bps_def dict_set_def dict_get_def collect_sample_def Let_def)

lemma taken_tick: "taken_between (Tick (Some pb) np # ops) taken net =
    taken_between ops (taken @ [fst (enrich_with_net_bps np (collect_sample pb) net)]) (snd (enrich_with_net_bps np (collect_sample pb) net))"
  by (simp add: case_prod_beta)

lemma heartbeats_drain_newest_samples_witness:
  "\<exists>rb. new_ring 1 = Inr rb \<and>
     map (map (\<lambda>d. dict_get d ''ts'')) (fst (run_sampler
       [Tick (Some (sample_probe ''1'')) (sample_net 1 100), Tick (Some (sample_probe ''2'')) (sample_net 3 400), Beat, Beat] rb)) =
     [[Some (JStr ''2'')], []]"
proof -
  define rb where "rb = \<lparr>rb_capacity = 1, rb_buf = [], rb_last_net_io = None, rb_last_net_time = None\<rparr>"
  have n: "new_ring 1 = Inr rb" by (simp add: new_ring_def rb_def)
  define ops where "ops = [Tick (Some (sample_probe ''1'')) (sample_net 1 100), Tick (Some (sample_probe ''2'')) (sample_net 3 400), Beat, Beat]"
  define s1 where "s1 = enrich_with_net_bps (sample_net 1 100) (collect_sample (sample_probe ''1'')) rb"
  define s2 where "s2 = enrich_with_net_bps (sample_net 3 400) (collect_sample (sample_probe ''2'')) (snd s1)"
  have "taken_between ops [] rb = [[fst s1, fst s2], []]"
    unfolding ops_def taken_tick s1_def [symmetric] s2_def [symmetric] by simp
  with heartbeats_drain_newest_samples [OF n, of ops] have "fst (run_sampler ops rb) = [[fst s2], []]"
    by (simp add: keep_newest_def)
  moreover have "dict_get (fst s2) ''ts'' = Some (JStr ''2'')"
    unfolding s2_def enriched_ts by (simp add: sample_probe_def)
  ultimately show ?thesis using n unfolding ops_def by (intro exI [of _ rb]) simp
qed

section \<open>A heartbeat can always be built\<close>

lemma dict_get_set [simp]: "dict_get (dict_set k v d) q = (if q = k then Some v else dict_get d q)"
proof (cases "k \<in> fst ` set d")
  case True
  have "map_of (map (\<lambda>(q, x). if q = k then (q, v) else (q, x)) xs) q = (if q = k \<and> k \<in> fst ` set xs then Some v else map_of xs q)" for xs
  proof (induction xs)
    case (Cons p xs)
    then show ?case by (cases p; cases "fst p = k"; cases "q = k") simp_all
  qed simp
  with True show ?thesis by (simp add: dict_get_def dict_set_def)
next
  case False
  then have "map_of d k = None" by (simp add: map_of_eq_None_iff)
  with False show ?thesis by (auto simp: dict_get_def dict_set_def map_add_def split: option.split)
qed

lemma dict_get_set_given: "dict_get (set_given k v d) q = (case given_value v of None \<Rightarrow> dict_get d q | Some x \<Rightarrow> if q = k then Some x else dict_get d q)"
  by (simp add: set_given_def split: option.split)

definition gpu_typed :: "dict \<Rightarrow> bool" where
  "gpu_typed g \<longleftrightarrow> (\<exists>i. dict_get g ''index'' = Some (JInt i))"

definition gpu_sample_typed :: "json \<Rightarrow> bool" where
  "gpu_sample_typed j \<longleftrightarrow> (\<exists>d i u. j = JObj d \<and> dict_get d ''idx'' = Some (JInt i) \<and> dict_get d ''vram_used_bytes'' = Some (JInt u))"

definition sample_typed :: "dict \<Rightarrow> bool" where
  "sample_typed d \<longleftrightarrow> (\<exists>gs. dict_get d ''gpus'' = Some (JList gs) \<and> list_all gpu_sample_typed gs)"

lemma lite_typed: "list_all gpu_sample_typed (collect_gpus_lite pb)"
proof -
  have "gpu_sample_typed (gpu_sample idx g)" for idx g
    by (simp add: gpu_sample_typed_def gpu_sample_def dict_get_def)
  then show ?thesis by (auto simp: collect_gpus_lite_def list_all_iff split: option.splits)
qed

lemma sample_typed_new: "sample_typed (fst (enrich_with_net_bps np (collect_sample pb) rb))"
  by (simp add: enrich_with_net_bps_def sample_typed_def) (simp add: collect_sample_def Let_def dict_get_def lite_typed)

lemma tick_typed: "list_all sample_typed (rb_buf rb) \<Longrightarrow> list_all sample_typed (rb_buf (sampler_tick pb np rb))"
proof (cases pb)
  case (Some p)
  assume t: "list_all sample_typed (rb_buf rb)"
  define s where "s = fst (enrich_with_net_bps np (collect_sample p) rb)"
  have "rb_buf (sampler_tick pb np rb) = keep_newest (rb_capacity rb) (rb_buf rb @ [s])"
    using enrich_same [of rb rb np "collect_sample p"] by (simp add: Some sampler_tick_def push_def case_prod_beta s_def same_net_def)
  moreover have "sample_typed s" unfolding s_def by (rule sample_typed_new)
  ultimately show ?thesis using t by (auto simp: list_all_iff keep_newest_def dest: in_set_dropD)
qed (simp add: sampler_tick_def)

lemma run_typed: "list_all sample_typed (rb_buf rb) \<Longrightarrow> list_all sample_typed (rb_buf (snd (run_sampler ops rb)))"
proof (induction ops rb rule: run_sampler.induct)
  case (2 pb np ops rb)
  then show ?case using tick_typed by simp
next
  case (3 ops rb)
  then show ?case by (simp add: drain_def case_prod_beta)
qed simp

lemma indexes_typed: "list_all gpu_typed gs \<Longrightarrow> \<exists>idxs. gpu_indexes n gs = Inr idxs \<and> length idxs = length gs"
proof (induction gs arbitrary: n)
  case (Cons g gs)
  obtain i where "dict_get g ''index'' = Some (JInt i)" using Cons.prems by (auto simp: gpu_typed_def)
  moreover obtain idxs where "gpu_indexes (Suc n) gs = Inr idxs" "length idxs = length gs" using Cons by force
  ultimately show ?case by (simp add: default_value_def int_of_json_def)
qed simp

lemma patch_gpu_typed:
  assumes "gpu_sample_typed (JObj d)"
  shows "\<exists>g. patch_gpu d gpu = Inr g"
proof -
  obtain u where "dict_get d ''vram_used_bytes'' = Some (JInt u)"
    using assms by (auto simp: gpu_sample_typed_def)
  then show ?thesis by (simp add: patch_gpu_def Let_def given_value_def used_vram_mb_def json_number_def)
qed

lemma patch_gpus_typed: "list_all gpu_sample_typed sgs \<Longrightarrow> \<exists>gs. patch_gpus idxs sgs gpus = Inr gs"
proof (induction sgs arbitrary: gpus)
  case (Cons sg sgs)
  obtain d i where sg: "sg = JObj d" "dict_get d ''idx'' = Some (JInt i)" using Cons.prems
    by (auto simp: gpu_sample_typed_def)
  show ?case
  proof (cases "gpu_place i idxs")
    case None
    with sg Cons show ?thesis by (simp add: given_value_def int_of_json_def)
  next
    case (Some n)
    obtain g where "patch_gpu d (gpus ! n) = Inr g" using patch_gpu_typed Cons.prems sg by fastforce
    with sg Cons Some show ?thesis by (simp add: given_value_def int_of_json_def)
  qed
qed simp

lemma merge_typed:
  assumes "list_all gpu_typed (fp_gpus fp)" and "list_all sample_typed samples"
  shows "\<exists>x. merge_live_sample_metrics fp samples = Inr x"
proof (cases "samples = []")
  case True
  then show ?thesis by (simp add: merge_live_sample_metrics_def latest_sample_def)
next
  case False
  have "sample_typed (last samples)" using assms(2) False by (simp add: list_all_iff)
  then obtain gs where gs: "dict_get (last samples) ''gpus'' = Some (JList gs)" "list_all gpu_sample_typed gs"
    by (auto simp: sample_typed_def)
  obtain idxs where "gpu_indexes 0 (fp_gpus fp) = Inr idxs" using indexes_typed [OF assms(1), of 0] by blast
  moreover obtain gpus where "patch_gpus idxs gs (fp_gpus fp) = Inr gpus" using patch_gpus_typed [OF gs(2)] by blast
  ultimately show ?thesis using False gs(1) by (simp add: merge_live_sample_metrics_def latest_sample_def)
qed

section \<open>What a heartbeat shows\<close>

definition LIVE_GPU_KEYS :: "string set" where
  "LIVE_GPU_KEYS = {''utilization_percent'', ''temperature_c'', ''used_vram_mb'', ''power_draw_w''}"

lemma patch_gpu_static:
  assumes "patch_gpu d gpu = Inr g" and "k \<notin> LIVE_GPU_KEYS"
  shows "dict_get g k = dict_get gpu k"
  using assms by (auto simp: patch_gpu_def Let_def try_then_Inr dict_get_set_given LIVE_GPU_KEYS_def split: option.splits)

lemma gpu_place_bound: "gpu_place i idxs = Some n \<Longrightarrow> n < length idxs"
proof -
  assume "gpu_place i idxs = Some n"
  then have "n \<in> set (filter (\<lambda>n. idxs ! n = i) [0..<length idxs])"
    unfolding gpu_place_def by (cases "filter (\<lambda>n. idxs ! n = i) [0..<length idxs]") (simp, metis last_in_set list.distinct(1) list.simps(5) option.inject)
  then show ?thesis by simp
qed

lemma patch_gpus_step:
  assumes "patch_gpus idxs (sg # sgs) gpus = Inr gs"
  shows "patch_gpus idxs sgs gpus = Inr gs \<or>
    (\<exists>d n g. n < length idxs \<and> patch_gpu d (gpus ! n) = Inr g \<and> patch_gpus idxs sgs (gpus[n := g]) = Inr gs)"
proof (cases sg)
  case (JObj d)
  with assms gpu_place_bound show ?thesis
    by (cases "given_value (dict_get d ''idx'')") (auto simp: try_then_Inr split: option.splits)
qed (use assms in simp_all)

lemma patch_gpus_static:
  "patch_gpus idxs sgs gpus = Inr gs \<Longrightarrow> length idxs = length gpus \<Longrightarrow>
   length gs = length gpus \<and> (\<forall>n < length gpus. \<forall>k. k \<notin> LIVE_GPU_KEYS \<longrightarrow> dict_get (gs ! n) k = dict_get (gpus ! n) k)"
proof (induction sgs arbitrary: gpus)
  case (Cons sg sgs)
  from patch_gpus_step [OF Cons.prems(1)] show ?case
  proof (elim disjE exE conjE)
    assume "patch_gpus idxs sgs gpus = Inr gs"
    with Cons.IH Cons.prems(2) show ?thesis by blast
  next
    fix d n g
    assume n: "n < length idxs" and g: "patch_gpu d (gpus ! n) = Inr g" and r: "patch_gpus idxs sgs (gpus[n := g]) = Inr gs"
    have "length idxs = length (gpus[n := g])" using Cons.prems(2) by simp
    note ih = Cons.IH [OF r this]
    have "dict_get (gpus[n := g] ! m) k = dict_get (gpus ! m) k" if "k \<notin> LIVE_GPU_KEYS" "m < length gpus" for m k
      using patch_gpu_static [OF g that(1)] that(2) by (cases "m = n") simp_all
    with ih show ?thesis by simp
  qed
qed simp

lemma gpu_indexes_length: "gpu_indexes n gs = Inr idxs \<Longrightarrow> length idxs = length gs"
  by (induction gs arbitrary: n idxs) (auto simp: try_then_Inr)

text \<open>What is shown under a key: the sample's value, if it has one, else what was there.\<close>

definition shown :: "json option \<Rightarrow> json option \<Rightarrow> json option" where
  "shown new old = (case given_value new of None \<Rightarrow> old | Some v \<Rightarrow> Some v)"

lemma dict_get_given_shown: "dict_get (set_given k v d) q = (if q = k then shown v (dict_get d q) else dict_get d q)"
  by (simp add: dict_get_set_given shown_def split: option.split)

text \<open>
  The sample's entries for the \<open>n\<close>th GPU: those whose \<open>idx\<close> is its index; of several GPUs with one index the
  last one gets them.
\<close>

definition entry_index :: "json \<Rightarrow> int option" where
  "entry_index sg =
     (case sg of JObj d \<Rightarrow> Option.bind (given_value (dict_get d ''idx'')) (\<lambda>v. case int_of_json v of Inl _ \<Rightarrow> None | Inr i \<Rightarrow> Some i)
      | _ \<Rightarrow> None)"

definition gpu_entries :: "int list \<Rightarrow> nat \<Rightarrow> json list \<Rightarrow> dict list" where
  "gpu_entries idxs n sgs =
     (if idxs ! n \<in> set (drop (Suc n) idxs) then []
      else concat (map (\<lambda>sg. case sg of JObj d \<Rightarrow> if entry_index sg = Some (idxs ! n) then [d] else [] | _ \<Rightarrow> []) sgs))"

text \<open>Bytes as MiB\<close>

definition in_mib :: "json option \<Rightarrow> json option" where
  "in_mib v = Option.bind (Option.bind (given_value v) json_number) (\<lambda>r. Some (JInt (round_even (r / 1048576))))"

definition gpu_shows :: "dict list \<Rightarrow> dict \<Rightarrow> dict \<Rightarrow> bool" where
  "gpu_shows entries old new \<longleftrightarrow>
     dict_get new ''utilization_percent'' = fold (\<lambda>e. shown (dict_get e ''util'')) entries (dict_get old ''utilization_percent'') \<and>
     dict_get new ''temperature_c'' = fold (\<lambda>e. shown (dict_get e ''temp_c'')) entries (dict_get old ''temperature_c'') \<and>
     dict_get new ''used_vram_mb'' = fold (\<lambda>e. shown (in_mib (dict_get e ''vram_used_bytes''))) entries (dict_get old ''used_vram_mb'') \<and>
     dict_get new ''power_draw_w'' = fold (\<lambda>e. shown (dict_get e ''power_w'')) entries (dict_get old ''power_draw_w'') \<and>
     (\<forall>k. k \<notin> LIVE_GPU_KEYS \<longrightarrow> dict_get new k = dict_get old k)"

lemma gpu_shows_none [simp]: "gpu_shows [] g g"
  by (simp add: gpu_shows_def)

lemma gpu_shows_append: "gpu_shows [d] a b \<Longrightarrow> gpu_shows es b c \<Longrightarrow> gpu_shows (d # es) a c"
  by (simp add: gpu_shows_def)

lemma patch_gpu_shows:
  assumes "patch_gpu d gpu = Inr g"
  shows "gpu_shows [d] gpu g"
proof (cases "given_value (dict_get d ''vram_used_bytes'')")
  case None
  with assms show ?thesis
    by (auto simp: patch_gpu_def Let_def try_then_Inr gpu_shows_def dict_get_given_shown LIVE_GPU_KEYS_def in_mib_def shown_def [of None]
        given_value_def [of None])
next
  case (Some v)
  with assms obtain r where "json_number v = Some r"
    by (auto simp: patch_gpu_def Let_def try_then_Inr used_vram_mb_def split: option.splits)
  with Some assms show ?thesis
    by (auto simp: patch_gpu_def Let_def try_then_Inr gpu_shows_def dict_get_given_shown LIVE_GPU_KEYS_def in_mib_def used_vram_mb_def
        shown_def [of "Some _"] given_value_def [of "Some _"])
qed

lemma gpu_place_Some:
  assumes "gpu_place i idxs = Some n"
  shows "n < length idxs" and "idxs ! n = i" and "i \<notin> set (drop (Suc n) idxs)"
proof -
  let ?ns = "filter (\<lambda>n. idxs ! n = i) [0..<length idxs]"
  have n: "?ns \<noteq> []" "last ?ns = n" using assms by (auto simp: gpu_place_def split: list.splits)
  then have in_ns: "n \<in> set ?ns" using last_in_set by metis
  then show "n < length idxs" "idxs ! n = i" by auto
  have max: "m \<le> n" if "m \<in> set ?ns" for m
  proof -
    have "?ns = butlast ?ns @ [n]" using n by (metis append_butlast_last_id)
    moreover have "sorted ?ns" by (simp add: sorted_wrt_filter)
    ultimately have "\<forall>x \<in> set (butlast ?ns). x \<le> n" "set ?ns = insert n (set (butlast ?ns))"
      by (metis sorted_append list.set_intros(1), metis Un_insert_right append_Nil2 list.simps(15) set_append list.set(1) sup_bot.right_neutral)
    with that show ?thesis by auto
  qed
  show "i \<notin> set (drop (Suc n) idxs)"
  proof
    assume "i \<in> set (drop (Suc n) idxs)"
    then obtain k where k: "k < length idxs - Suc n" "idxs ! (Suc n + k) = i" by (auto simp: in_set_conv_nth)
    then have "Suc n + k \<in> set ?ns" by auto
    from max [OF this] show False by simp
  qed
qed

lemma gpu_place_None: "gpu_place i idxs = None \<Longrightarrow> i \<notin> set idxs"
  by (auto simp: gpu_place_def filter_empty_conv in_set_conv_nth split: list.splits)

lemma gpu_entries_Cons:
  "gpu_entries idxs n (sg # sgs) =
     (case sg of JObj d \<Rightarrow> if entry_index sg = Some (idxs ! n) \<and> idxs ! n \<notin> set (drop (Suc n) idxs) then d # gpu_entries idxs n sgs
        else gpu_entries idxs n sgs | _ \<Rightarrow> gpu_entries idxs n sgs)"
  by (simp add: gpu_entries_def split: json.split)

text \<open>An entry reaches the GPU of its index and no other.\<close>

lemma patch_gpus_shows:
  "patch_gpus idxs sgs gpus = Inr gs \<Longrightarrow> length idxs = length gpus \<Longrightarrow> n < length gpus \<Longrightarrow>
   gpu_shows (gpu_entries idxs n sgs) (gpus ! n) (gs ! n)"
proof (induction sgs arbitrary: gpus)
  case Nil
  then show ?case by (simp add: gpu_entries_def)
next
  case (Cons sg sgs)
  have skip: ?case if "patch_gpus idxs sgs gpus = Inr gs" "gpu_entries idxs n (sg # sgs) = gpu_entries idxs n sgs"
    using Cons.IH [OF that(1)] Cons.prems(2,3) that(2) by simp
  show ?case
  proof (cases "entry_index sg")
    case None
    show ?thesis
    proof (rule skip)
      show "gpu_entries idxs n (sg # sgs) = gpu_entries idxs n sgs" using None by (auto simp: gpu_entries_Cons split: json.split)
      show "patch_gpus idxs sgs gpus = Inr gs" using Cons.prems(1) None
        by (auto simp: entry_index_def try_then_Inr split: json.splits option.splits sum.splits bind_splits)
    qed
  next
    case (Some i)
    then obtain d v where sg: "sg = JObj d" and v: "given_value (dict_get d ''idx'') = Some v" "int_of_json v = Inr i"
      by (auto simp: entry_index_def split: json.splits sum.splits bind_splits)
    show ?thesis
    proof (cases "gpu_place i idxs")
      case None
      have "i \<noteq> idxs ! n" using gpu_place_None [OF None] Cons.prems(2,3) by auto
      with Cons.prems(1) sg v None Some show ?thesis by (intro skip) (auto simp: gpu_entries_Cons try_then_Inr)
    next
      case place: (Some m)
      then obtain g where g: "patch_gpu d (gpus ! m) = Inr g" and r: "patch_gpus idxs sgs (gpus[m := g]) = Inr gs"
        using Cons.prems(1) sg v by (auto simp: try_then_Inr)
      have m: "m < length gpus" using gpu_place_Some(1) [OF place] Cons.prems(2) by simp
      have ih: "gpu_shows (gpu_entries idxs n sgs) (gpus[m := g] ! n) (gs ! n)"
        using Cons.IH [OF r] Cons.prems(2,3) by simp
      show ?thesis
      proof (cases "n = m")
        case True
        have "gpu_entries idxs n (sg # sgs) = d # gpu_entries idxs n sgs"
          using gpu_place_Some [OF place] Some sg True by (simp add: gpu_entries_Cons)
        with gpu_shows_append [OF patch_gpu_shows [OF g]] ih m True show ?thesis by simp
      next
        case False
        have "\<not> (idxs ! n = i \<and> i \<notin> set (drop (Suc n) idxs))"
        proof
          assume i: "idxs ! n = i \<and> i \<notin> set (drop (Suc n) idxs)"
          note p = gpu_place_Some [OF place]
          have "idxs ! b \<in> set (drop (Suc a) idxs)" if "a < b" "b < length idxs" for a b
            using that by (auto simp: in_set_conv_nth intro!: exI [of _ "b - Suc a"])
          with i p False Cons.prems(2,3) show False by (metis linorder_neqE_nat)
        qed
        then have "gpu_entries idxs n (sg # sgs) = gpu_entries idxs n sgs" using Some sg by (auto simp: gpu_entries_Cons)
        with ih False show ?thesis by simp
      qed
    qed
  qed
qed

lemma gpu_indexes_nth:
  "gpu_indexes m gs = Inr idxs \<Longrightarrow> n < length gs \<Longrightarrow> int_of_json (default_value (gs ! n) ''index'' (JInt (int (m + n)))) = Inr (idxs ! n)"
proof (induction gs arbitrary: m n idxs)
  case (Cons g gs)
  from Cons.prems(1) obtain i idxs' where i: "int_of_json (default_value g ''index'' (JInt (int m))) = Inr i"
    "gpu_indexes (Suc m) gs = Inr idxs'" "idxs = i # idxs'" by (auto simp: try_then_Inr)
  show ?case
  proof (cases n)
    case (Suc k)
    with Cons.IH [OF i(2), of k] Cons.prems(2) i(3) show ?thesis by simp
  qed (simp add: i)
qed simp

lemma patch_gpus_length: "patch_gpus idxs sgs gpus = Inr gs \<Longrightarrow> length gs = length gpus"
proof (induction sgs arbitrary: gpus)
  case (Cons sg sgs)
  with patch_gpus_step [OF Cons.prems] show ?case by fastforce
qed simp

text \<open>C39. A heartbeat shows the newest sample on top of the fingerprint. Of the CPU the load, the load per core (when the sample has a list
  with a core) and the clock, and of the memory the share, the used and the available bytes are the sample's values
  where it has them; of each GPU the load, the temperature, the used memory (in MiB) and the power are those of the
  sample's entries whose \<open>idx\<close> is the index of this GPU (its \<open>index\<close>, or its place in the list; of several GPUs with one
  index the last one gets them), a later entry over an earlier one; of the network the two rates. Every other entry of the CPU, the
  memory, each GPU and the extra data, and the number of GPUs, are those of the fingerprint; so is a value that
  the sample lacks.\<close>

theorem heartbeat_shows_newest_sample:
  assumes "merge_live_sample_metrics fp (samples @ [latest]) = Inr (cpu, memory, gpus, extra)"
  shows "dict_get cpu ''usage_percent'' = shown (dict_get latest ''cpu_percent'') (dict_get (fp_cpu fp) ''usage_percent'') \<and>
    dict_get cpu ''current_clock_mhz'' = shown (dict_get latest ''cpu_current_clock_mhz'') (dict_get (fp_cpu fp) ''current_clock_mhz'') \<and>
    dict_get cpu ''per_core_percent'' = (case dict_get latest ''per_core_percent'' of
        Some (JList (x # xs)) \<Rightarrow> Some (JList (x # xs)) | _ \<Rightarrow> dict_get (fp_cpu fp) ''per_core_percent'') \<and>
    (\<forall>k. k \<notin> {''usage_percent'', ''per_core_percent'', ''current_clock_mhz''} \<longrightarrow> dict_get cpu k = dict_get (fp_cpu fp) k) \<and>
    dict_get memory ''usage_percent'' = shown (dict_get latest ''memory_percent'') (dict_get (fp_memory fp) ''usage_percent'') \<and>
    dict_get memory ''used_bytes'' = shown (dict_get latest ''memory_used_bytes'') (dict_get (fp_memory fp) ''used_bytes'') \<and>
    dict_get memory ''available_bytes'' = shown (dict_get latest ''memory_available_bytes'') (dict_get (fp_memory fp) ''available_bytes'') \<and>
    (\<forall>k. k \<notin> {''usage_percent'', ''used_bytes'', ''available_bytes''} \<longrightarrow> dict_get memory k = dict_get (fp_memory fp) k) \<and>
    (\<forall>v. given_value (dict_get latest ''upload_bps'') = Some v \<longrightarrow>
       (\<exists>n. dict_get extra ''network'' = Some (JObj n) \<and> dict_get n ''tx_bytes_per_sec'' = Some v)) \<and>
    (\<forall>v. given_value (dict_get latest ''download_bps'') = Some v \<longrightarrow>
       (\<exists>n. dict_get extra ''network'' = Some (JObj n) \<and> dict_get n ''rx_bytes_per_sec'' = Some v)) \<and>
    (\<forall>k. k \<noteq> ''network'' \<longrightarrow> dict_get extra k = dict_get (fp_extra fp) k) \<and>
    length gpus = length (fp_gpus fp) \<and>
    (\<exists>idxs. length idxs = length gpus \<and>
       (\<forall>n < length gpus. int_of_json (default_value (fp_gpus fp ! n) ''index'' (JInt (int n))) = Inr (idxs ! n) \<and>
          gpu_shows (gpu_entries idxs n (case dict_get latest ''gpus'' of Some (JList sgs) \<Rightarrow> sgs | _ \<Rightarrow> [])) (fp_gpus fp ! n) (gpus ! n)))"
proof -
  obtain idxs where i: "gpu_indexes 0 (fp_gpus fp) = Inr idxs"
    and p: "patch_gpus idxs (case dict_get latest ''gpus'' of Some (JList gs) \<Rightarrow> gs | _ \<Rightarrow> []) (fp_gpus fp) = Inr gpus"
    and m: "cpu = live_cpu latest (fp_cpu fp)" "memory = live_memory latest (fp_memory fp)" "extra = live_extra latest (fp_extra fp)"
    using assms by (auto simp: merge_live_sample_metrics_def latest_sample_def try_then_Inr)
  note len = gpu_indexes_length [OF i] patch_gpus_length [OF p]
  have gpus: "\<exists>idxs. length idxs = length gpus \<and>
       (\<forall>n < length gpus. int_of_json (default_value (fp_gpus fp ! n) ''index'' (JInt (int n))) = Inr (idxs ! n) \<and>
          gpu_shows (gpu_entries idxs n (case dict_get latest ''gpus'' of Some (JList sgs) \<Rightarrow> sgs | _ \<Rightarrow> [])) (fp_gpus fp ! n) (gpus ! n))"
    using patch_gpus_shows [OF p len(1)] gpu_indexes_nth [OF i] len by (intro exI [of _ idxs]) auto
  have core: "dict_get cpu ''per_core_percent'' = (case dict_get latest ''per_core_percent'' of
        Some (JList (x # xs)) \<Rightarrow> Some (JList (x # xs)) | _ \<Rightarrow> dict_get (fp_cpu fp) ''per_core_percent'')"
    by (auto simp: m live_cpu_def dict_get_given_shown shown_def given_value_def split: option.split json.split list.split)
  have net: "given_value (dict_get latest ''upload_bps'') = Some v \<Longrightarrow>
       \<exists>n. dict_get extra ''network'' = Some (JObj n) \<and> dict_get n ''tx_bytes_per_sec'' = Some v"
    "given_value (dict_get latest ''download_bps'') = Some v \<Longrightarrow>
       \<exists>n. dict_get extra ''network'' = Some (JObj n) \<and> dict_get n ''rx_bytes_per_sec'' = Some v" for v
    by (simp_all add: m live_extra_def Let_def dict_get_given_shown shown_def)
  show ?thesis
    by (intro conjI allI impI gpus core net len(2))
      (simp_all add: m live_cpu_def live_memory_def live_extra_def Let_def dict_get_given_shown)
qed

definition sample_fingerprint :: fingerprint where
  "sample_fingerprint = \<lparr>fp_boot_id = ''b'', fp_agent_version = ''0.2.0'', fp_hostname = ''h'', fp_heartbeat_interval_sec = 5,
     fp_sample_interval_sec = 1, fp_cpu = [(''model'', JStr ''x''), (''usage_percent'', JInt 1)], fp_memory = [(''total_bytes'', JInt 10)],
     fp_disks = JList [], fp_gpus = [[(''index'', JInt 0), (''model'', JStr ''g'')], [(''index'', JInt 1)]], fp_nvidia = JObj [],
     fp_python_env = JObj [], fp_extra = []\<rparr>"

definition sample_gpu_entries :: "json list" where
  "sample_gpu_entries = [JObj [(''idx'', JInt 1), (''util'', JInt 9), (''vram_used_bytes'', JInt 0)]]"

definition sample_dict :: dict where
  "sample_dict = [(''cpu_percent'', JInt 7), (''gpus'', JList sample_gpu_entries)]"

lemma merge_eq:
  "gpu_indexes 0 (fp_gpus fp) = Inr idxs \<Longrightarrow> dict_get latest ''gpus'' = Some (JList gs) \<Longrightarrow> patch_gpus idxs gs (fp_gpus fp) = Inr gpus \<Longrightarrow>
   merge_live_sample_metrics fp (samples @ [latest]) =
     Inr (live_cpu latest (fp_cpu fp), live_memory latest (fp_memory fp), gpus, live_extra latest (fp_extra fp))"
  by (simp add: merge_live_sample_metrics_def latest_sample_def)

lemma heartbeat_shows_newest_sample_witness:
  "\<exists>cpu memory gpus extra. merge_live_sample_metrics sample_fingerprint [[], sample_dict] = Inr (cpu, memory, gpus, extra) \<and>
     dict_get cpu ''usage_percent'' = Some (JInt 7) \<and> dict_get cpu ''model'' = Some (JStr ''x'') \<and> length gpus = 2 \<and>
     dict_get (gpus ! 0) ''utilization_percent'' = None \<and> dict_get (gpus ! 1) ''utilization_percent'' = Some (JInt 9)"
proof -
  have "list_all gpu_sample_typed sample_gpu_entries"
    by (simp add: gpu_sample_typed_def dict_get_def sample_gpu_entries_def)
  then obtain gpus where gpus: "patch_gpus [0, 1] sample_gpu_entries (fp_gpus sample_fingerprint) = Inr gpus"
    using patch_gpus_typed by blast
  have i: "gpu_indexes 0 (fp_gpus sample_fingerprint) = Inr [0, 1]"
    by (simp add: sample_fingerprint_def default_value_def dict_get_def int_of_json_def)
  have g: "dict_get sample_dict ''gpus'' = Some (JList sample_gpu_entries)"
    by (simp add: sample_dict_def dict_get_def)
  note m = merge_eq [OF i g gpus, of "[[]]"]
  note h = heartbeat_shows_newest_sample [OF m]
  let ?cpu = "live_cpu sample_dict (fp_cpu sample_fingerprint)"
  have "dict_get ?cpu ''usage_percent'' = Some (JInt 7)"
    by (subst conjunct1 [OF h]) (simp add: sample_dict_def dict_get_def shown_def given_value_def)
  moreover have "dict_get ?cpu ''model'' = dict_get (fp_cpu sample_fingerprint) ''model''"
    by (rule h [THEN conjunct2, THEN conjunct2, THEN conjunct2, THEN conjunct1, rule_format]) simp
  then have "dict_get ?cpu ''model'' = Some (JStr ''x'')"
    by (simp add: sample_fingerprint_def dict_get_def)
  moreover have "length gpus = length (fp_gpus sample_fingerprint)" using h by blast
  then have l: "length gpus = 2" by (simp add: sample_fingerprint_def)
  moreover obtain idxs where idxs: "length idxs = length gpus"
    "\<forall>n < length gpus. int_of_json (default_value (fp_gpus sample_fingerprint ! n) ''index'' (JInt (int n))) = Inr (idxs ! n) \<and>
       gpu_shows (gpu_entries idxs n (case dict_get sample_dict ''gpus'' of Some (JList sgs) \<Rightarrow> sgs | _ \<Rightarrow> []))
         (fp_gpus sample_fingerprint ! n) (gpus ! n)"
    using h [THEN conjunct2, THEN conjunct2, THEN conjunct2, THEN conjunct2, THEN conjunct2, THEN conjunct2, THEN conjunct2, THEN conjunct2, THEN conjunct2, THEN conjunct2, THEN conjunct2, THEN conjunct2]
    by (elim exE conjE) (rule that)
  have "idxs ! 0 = 0" "idxs ! 1 = 1" using idxs(2) [rule_format, of 0] idxs(2) [rule_format, of 1] l
    by (simp_all add: sample_fingerprint_def default_value_def dict_get_def int_of_json_def)
  then have "idxs = [0, 1]" using idxs(1) l by (intro nth_equalityI) (auto simp: less_2_cases_iff)
  then have "gpu_entries idxs 0 sample_gpu_entries = []"
    "gpu_entries idxs 1 sample_gpu_entries = [[(''idx'', JInt 1), (''util'', JInt 9), (''vram_used_bytes'', JInt 0)]]"
    by (simp_all add: gpu_entries_def sample_gpu_entries_def entry_index_def dict_get_def given_value_def int_of_json_def)
  then have "gpu_shows [] (fp_gpus sample_fingerprint ! 0) (gpus ! 0)"
    "gpu_shows [[(''idx'', JInt 1), (''util'', JInt 9), (''vram_used_bytes'', JInt 0)]] (fp_gpus sample_fingerprint ! 1) (gpus ! 1)"
    using idxs(2) [rule_format, of 0] idxs(2) [rule_format, of 1] l g by simp_all
  then have "dict_get (gpus ! 0) ''utilization_percent'' = None" "dict_get (gpus ! 1) ''utilization_percent'' = Some (JInt 9)"
    by (simp_all add: gpu_shows_def shown_def given_value_def sample_fingerprint_def dict_get_def)
  ultimately show ?thesis using m by (auto simp only: append.simps)
qed

end
