(* ===== verification/Agent_Collect.thy ===== *)
theory Agent_Collect
  imports Agent_Sampler Review
begin

text \<open>
  The slow probes of the agent (\<open>node_agent/.../collect.py\<close>) on a POSIX host, and the fingerprint they make
  (\<open>collect_full_fingerprint\<close> of \<open>fingerprint.py\<close>). What a command prints, \<open>/proc/meminfo\<close>, the load and the disks
  are an input; the shaping of it is the model. \<open>rd_float\<close> is Python's \<open>float\<close> of a text.
\<close>

section \<open>Commands and their output\<close>

text \<open>\<open>sy_run\<close> is a finished process with its exit code and output, or None when it cannot be started.\<close>

record system =
  sy_host :: host
  sy_run :: "string list \<Rightarrow> (int \<times> string) option"
  sy_reader :: reader
  sy_processor :: string
  sy_cores :: "int option"
  sy_loadavg :: "rat option"
  sy_meminfo :: "string option"
  sy_usage :: "path \<Rightarrow> (int \<times> int) option"
  sy_node :: string
  sy_platform :: string

definition run_command :: "system \<Rightarrow> string list \<Rightarrow> string option" where
  "run_command sy args =
     (case sy_run sy args of None \<Rightarrow> None | Some (rc, out) \<Rightarrow> if rc \<noteq> 0 then None else Some (strip out))"

text \<open>\<open>str.splitlines\<close>\<close>

definition line_end :: "char \<Rightarrow> bool" where
  "line_end c \<longleftrightarrow> (of_char c :: nat) \<in> {10, 11, 12, 13, 28, 29, 30, 133}"

fun split_lines :: "string \<Rightarrow> string \<Rightarrow> string list" where
  "split_lines acc [] = (if acc = [] then [] else [acc])"
| "split_lines acc (c # s) =
     (if c = CHR 13 then
        (case s of [] \<Rightarrow> [acc] | d # s' \<Rightarrow> if d = CHR 10 then acc # split_lines [] s' else acc # split_lines [] (d # s'))
      else if line_end c then acc # split_lines [] s else split_lines (acc @ [c]) s)"

definition splitlines :: "string \<Rightarrow> string list" where
  "splitlines s = split_lines [] s"

section \<open>CPU, memory, disks\<close>

definition collect_cpu :: "system \<Rightarrow> dict" where
  "collect_cpu sy =
     (let cores = (case sy_cores sy of Some n \<Rightarrow> if n = 0 then 1 else n | None \<Rightarrow> 1);
          usage = map_option (\<lambda>load. round2 (min (load / of_int cores) 1 * 100)) (sy_loadavg sy)
      in [(''model'', if sy_processor sy = [] then JNull else JStr (sy_processor sy)), (''logical_cores'', opt_json JInt (sy_cores sy)),
          (''physical_cores'', JNull), (''usage_percent'', opt_json jfloat usage), (''current_clock_mhz'', JNull),
          (''max_clock_mhz'', JNull), (''per_core_percent'', JList [])])"

text \<open>The lines of \<open>/proc/meminfo\<close>; a line that is not understood raises.\<close>

fun words_of :: "string \<Rightarrow> string \<Rightarrow> string list" where
  "words_of acc [] = (if acc = [] then [] else [acc])"
| "words_of acc (c # s) =
     (if is_space c then (if acc = [] then words_of [] s else acc # words_of [] s) else words_of (acc @ [c]) s)"

definition meminfo_line :: "string \<Rightarrow> string + string \<times> int" where
  "meminfo_line line =
     (case dropWhile (\<lambda>c. c \<noteq> CHR '':'') line of
        [] \<Rightarrow> Inl ''ValueError''
      | _ # v \<Rightarrow>
          (case words_of [] (strip v) of
             [] \<Rightarrow> Inl ''IndexError''
           | w # _ \<Rightarrow> (case py_int w of None \<Rightarrow> Inl ''ValueError'' | Some n \<Rightarrow> Inr (takeWhile (\<lambda>c. c \<noteq> CHR '':'') line, n * 1024))))"

fun meminfo_lines :: "string list \<Rightarrow> (string \<times> int) list \<Rightarrow> string + (string \<times> int) list" where
  "meminfo_lines [] data = Inr data"
| "meminfo_lines (l # ls) data = try_then (meminfo_line l) (\<lambda>(k, v). meminfo_lines ls (AList.update k v data))"

definition unknown_memory :: dict where
  "unknown_memory = map (\<lambda>k. (k, JNull)) [''total_bytes'', ''used_bytes'', ''usage_percent'', ''available_bytes'', ''cached_bytes'',
     ''commit_used_bytes'', ''commit_limit_bytes'', ''paged_pool_bytes'', ''nonpaged_pool_bytes'', ''speed_mtps'', ''slots_used'',
     ''slots_total'', ''form_factor'', ''memory_type'', ''installed_bytes'', ''hardware_reserved_bytes'']"

definition memory_of :: "int \<Rightarrow> int \<Rightarrow> dict" where
  "memory_of tot available =
     (let used = max (tot - available) 0 in
      [(''total_bytes'', JInt tot), (''used_bytes'', JInt used),
       (''usage_percent'', if tot = 0 then JNull else jfloat (round2 (of_int used / of_int tot * 100)))])"

definition collect_memory :: "system \<Rightarrow> string + dict" where
  "collect_memory sy =
     (case sy_meminfo sy of
        None \<Rightarrow> Inr unknown_memory
      | Some text \<Rightarrow>
          try_then (meminfo_lines (splitlines text) []) (\<lambda>data.
            Inr (case (map_of data ''MemTotal'', map_of data ''MemAvailable'') of
                   (Some tot, Some available) \<Rightarrow> memory_of tot available
                 | _ \<Rightarrow> unknown_memory)))"

text \<open>The one candidate of a POSIX host is the agent's root; any exception skips it.\<close>

definition collect_disks :: "system \<Rightarrow> agent_settings \<Rightarrow> json list" where
  "collect_disks sy ag =
     (let resolved = full_path (sy_host sy) (path_parts (ag_agent_root ag)) in
      if \<not> ho_exists (sy_host sy) resolved then []
      else (case sy_usage sy resolved of
          None \<Rightarrow> []
        | Some (tot, free) \<Rightarrow>
            [JObj [(''mount'', JStr (hd resolved)), (''total_bytes'', JInt tot), (''free_bytes'', JInt free),
               (''usage_percent'', if tot = 0 then JNull else jfloat (round2 (of_int (tot - free) / of_int tot * 100)))]]))"

definition collect_primary_network :: dict where
  "collect_primary_network = []"

section \<open>GPUs\<close>

definition gpu_query :: "string list" where
  "gpu_query = [''index'', ''name'', ''memory.total'', ''memory.used'', ''utilization.gpu'', ''utilization.encoder'', ''utilization.decoder'',
     ''temperature.gpu'', ''power.draw'', ''power.limit'', ''clocks.current.graphics'', ''clocks.max.graphics'', ''clocks.current.video'',
     ''fan.speed'', ''pcie.link.gen.current'', ''pcie.link.width.current'']"

definition column :: "string list \<Rightarrow> nat \<Rightarrow> string" where
  "column parts idx = (if idx < length parts then parts ! idx else [])"

definition no_value :: "string \<Rightarrow> bool" where
  "no_value v \<longleftrightarrow> v = [] \<or> v = ''[N/A]'' \<or> v = ''N/A''"

definition pyfloat_json :: "pyfloat \<Rightarrow> json" where
  "pyfloat_json x = (case x of Finite r \<Rightarrow> jfloat r | Pos_Inf \<Rightarrow> JFloat 0 ''Infinity'' | Neg_Inf \<Rightarrow> JFloat 0 ''-Infinity''
     | Not_A_Number \<Rightarrow> JFloat 0 ''NaN'')"

text \<open>\<open>_float(idx)\<close> and \<open>_int(idx)\<close>; \<open>int\<close> of an infinity raises \<open>OverflowError\<close>, which is not caught.\<close>

definition float_column :: "reader \<Rightarrow> string list \<Rightarrow> nat \<Rightarrow> json" where
  "float_column rd parts idx =
     (let v = column parts idx in if no_value v then JNull else (case rd_float rd v of None \<Rightarrow> JNull | Some x \<Rightarrow> pyfloat_json x))"

definition int_column :: "reader \<Rightarrow> string list \<Rightarrow> nat \<Rightarrow> string + int option" where
  "int_column rd parts idx =
     (let v = column parts idx in
      if no_value v then Inr None
      else (case rd_float rd v of
          None \<Rightarrow> Inr None
        | Some (Finite r) \<Rightarrow> Inr (Some (truncate_rat r))
        | Some Not_A_Number \<Rightarrow> Inr None
        | Some _ \<Rightarrow> Inl ''OverflowError''))"

fun int_columns :: "reader \<Rightarrow> string list \<Rightarrow> nat list \<Rightarrow> string + int option list" where
  "int_columns rd parts [] = Inr []"
| "int_columns rd parts (i # is) = try_then (int_column rd parts i) (\<lambda>v. try_then (int_columns rd parts is) (\<lambda>vs. Inr (v # vs)))"

definition gpu_row :: "reader \<Rightarrow> string list \<Rightarrow> string + dict" where
  "gpu_row rd parts =
     try_then (int_columns rd parts [0, 2, 3, 10, 11, 12, 13, 14, 15]) (\<lambda>v.
       let int_at = (\<lambda>i. opt_json JInt (v ! i)); float_at = float_column rd parts in
       Inr [(''index'', JInt (case v ! 0 of None \<Rightarrow> 0 | Some i \<Rightarrow> i)), (''model'', if column parts 1 = [] then JNull else JStr (column parts 1)),
         (''total_vram_mb'', int_at 1), (''used_vram_mb'', int_at 2), (''utilization_percent'', float_at 4),
         (''encoder_utilization_percent'', float_at 5), (''decoder_utilization_percent'', float_at 6), (''temperature_c'', float_at 7),
         (''power_draw_w'', float_at 8), (''power_limit_w'', float_at 9), (''clock_graphics_mhz'', int_at 3),
         (''clock_max_graphics_mhz'', int_at 4), (''clock_video_mhz'', int_at 5), (''fan_speed_percent'', int_at 6),
         (''pcie_gen'', int_at 7), (''pcie_width'', int_at 8)])"

fun gpu_rows :: "reader \<Rightarrow> string list \<Rightarrow> string + dict list" where
  "gpu_rows rd [] = Inr []"
| "gpu_rows rd (line # lines) =
     (let parts = map strip (split_on CHR '','' line) in
      if length parts < 8 then gpu_rows rd lines
      else try_then (gpu_row rd parts) (\<lambda>g. try_then (gpu_rows rd lines) (\<lambda>gs. Inr (g # gs))))"

definition collect_gpus :: "system \<Rightarrow> string + dict list" where
  "collect_gpus sy =
     (case ho_which (sy_host sy) ''nvidia-smi'' of
        None \<Rightarrow> Inr []
      | Some nvidia_smi \<Rightarrow>
          if nvidia_smi = [] then Inr []
          else (case run_command sy [nvidia_smi, ''--query-gpu='' @ join '','' gpu_query, ''--format=csv,noheader,nounits''] of
              None \<Rightarrow> Inr []
            | Some output \<Rightarrow> gpu_rows (sy_reader sy) (splitlines output)))"

section \<open>Driver versions\<close>

text \<open>
  \<open>re.search(label + r"\s*([0-9.]+)", text).group(1)\<close>, and with \<open>\s+\<close> when \<open>gap\<close>: the first place where the
  label, the blanks and a version follow each other.
\<close>

definition version_char :: "char \<Rightarrow> bool" where
  "version_char c \<longleftrightarrow> c = CHR ''.'' \<or> digit_val c \<noteq> None"

definition version_here :: "string \<Rightarrow> bool \<Rightarrow> string \<Rightarrow> string option" where
  "version_here label gap s =
     (if \<not> starts_with label s then None
      else (let r = drop (length label) s; v = takeWhile version_char (dropWhile is_space r) in
            if v = [] \<or> gap \<and> takeWhile is_space r = [] then None else Some v))"

fun search_version :: "string \<Rightarrow> bool \<Rightarrow> string \<Rightarrow> string option" where
  "search_version label gap [] = version_here label gap []"
| "search_version label gap (c # s) =
     (case version_here label gap (c # s) of Some v \<Rightarrow> Some v | None \<Rightarrow> search_version label gap s)"

definition bind_opt :: "'a option \<Rightarrow> ('a \<Rightarrow> 'b option) \<Rightarrow> 'b option" where
  "bind_opt x f = (case x of None \<Rightarrow> None | Some a \<Rightarrow> f a)"

definition first_line :: "string \<Rightarrow> string option" where
  "first_line s = (case filter (\<lambda>l. l \<noteq> []) (map strip (splitlines s)) of [] \<Rightarrow> None | l # _ \<Rightarrow> Some l)"

definition collect_nvidia :: "system \<Rightarrow> dict" where
  "collect_nvidia sy =
     (let smi = ho_which (sy_host sy) ''nvidia-smi''; nvcc = ho_which (sy_host sy) ''nvcc'';
          asked = bind_opt (if truthy smi then run_command sy [the smi, ''--query-gpu=driver_version'', ''--format=csv,noheader''] else None) first_line;
          banner = or_else (if truthy smi then run_command sy [the smi] else None) [];
          driver = (case asked of Some d \<Rightarrow> Some d | None \<Rightarrow> search_version ''Driver Version:'' False banner);
          smi_cuda = search_version ''CUDA Version:'' False banner;
          nvcc_version = bind_opt (if truthy nvcc then run_command sy [the nvcc, ''--version''] else None) (search_version ''release'' True);
          cuda = (case smi_cuda of Some c \<Rightarrow> Some c | None \<Rightarrow> nvcc_version)
      in [(''driver_version'', opt_json JStr driver), (''cuda_version'', opt_json JStr cuda), (''nvcc_version'', opt_json JStr nvcc_version),
          (''nvidia_smi_path'', opt_json JStr smi)])"

section \<open>Python and the fingerprint\<close>

text \<open>The text of a resolution error is the name of the exception.\<close>

definition python_env_json :: "python_env \<Rightarrow> bool \<Rightarrow> dict" where
  "python_env_json pe pip_available =
     [(''python_executable'', JStr (pe_python_executable pe)), (''venv_path'', opt_json JStr (pe_venv_path pe)),
      (''python_version'', JStr (pe_python_version pe)),
      (''python_resolution_error'', if pe_resolution_failed pe then JStr ''ValueError'' else JNull),
      (''active_environment_kind'', JStr (pe_environment_kind pe)), (''active_environment_name'', opt_json JStr (pe_environment_name pe)),
      (''conda_prefix'', opt_json JStr (pe_conda_prefix pe)), (''conda_default_env'', opt_json JStr (pe_conda_default_env pe)),
      (''mamba_root_prefix'', opt_json JStr (pe_mamba_root_prefix pe)), (''uv_available'', JBool (truthy (pe_uv_executable pe))),
      (''uv_executable'', opt_json JStr (pe_uv_executable pe)), (''conda_available'', JBool (truthy (pe_conda_executable pe))),
      (''conda_executable'', opt_json JStr (pe_conda_executable pe)),
      (''micromamba_available'', JBool (truthy (pe_micromamba_executable pe))),
      (''micromamba_executable'', opt_json JStr (pe_micromamba_executable pe)),
      (''supported_backends'', JList (map JStr (pe_supported_backends pe))), (''pip_available'', JBool pip_available)]"

definition collect_python_env :: "system \<Rightarrow> agent_settings \<Rightarrow> dict" where
  "collect_python_env sy ag =
     python_env_json (detect_python_env (sy_host sy) ag)
       (case resolve_default_python (sy_host sy) ag of
          Inl _ \<Rightarrow> False
        | Inr python \<Rightarrow> (case sy_run sy [python, ''-m'', ''pip'', ''--version''] of None \<Rightarrow> False | Some (rc, _) \<Rightarrow> rc = 0))"

definition collect_full_fingerprint :: "system \<Rightarrow> agent_settings \<Rightarrow> modal_disk \<Rightarrow> string \<Rightarrow> string + fingerprint" where
  "collect_full_fingerprint sy ag md boot_id =
     try_then (collect_memory sy) (\<lambda>memory.
     try_then (collect_gpus sy) (\<lambda>gpus.
     try_then (collect_modal_runtime_status (sy_host sy) ag md) (\<lambda>modal.
     Inr \<lparr>fp_boot_id = boot_id, fp_agent_version = ''0.2.0'', fp_hostname = sy_node sy,
          fp_heartbeat_interval_sec = ag_heartbeat_interval_sec ag, fp_sample_interval_sec = ag_sample_interval_sec ag,
          fp_cpu = collect_cpu sy, fp_memory = memory, fp_disks = JList (collect_disks sy ag), fp_gpus = gpus,
          fp_nvidia = JObj (collect_nvidia sy), fp_python_env = JObj (collect_python_env sy ag),
          fp_extra = [(''agent_root'', JStr (path_str (full_path (sy_host sy) (path_parts (ag_agent_root ag))))),
            (''platform'', JStr (sy_platform sy)), (''deployment_mode'', JStr (ag_deployment_mode ag)),
            (''effective_deployment_mode'', JStr (effective_deployment_mode (ho_env (sy_host sy)) ag)),
            (''network'', JObj collect_primary_network), (''modal_runtime'', JObj modal)]\<rparr>)))"

section \<open>The fingerprint never breaks a heartbeat\<close>

lemma gpu_row_typed: "gpu_row rd parts = Inr g \<Longrightarrow> gpu_typed g"
  by (auto simp: gpu_row_def try_then_Inr gpu_typed_def dict_get_def Let_def)

lemma gpu_rows_typed: "gpu_rows rd lines = Inr gs \<Longrightarrow> list_all gpu_typed gs"
  by (induction lines arbitrary: gs) (auto simp: Let_def try_then_Inr gpu_row_typed split: if_splits)

lemma collect_gpus_typed: "collect_gpus sy = Inr gs \<Longrightarrow> list_all gpu_typed gs"
  by (auto simp: collect_gpus_def gpu_rows_typed split: option.splits if_splits)

text \<open>C37. A heartbeat can always be built: with a fingerprint that the agent collected and whatever samples its sampler
  has put into the ring buffer since, every GPU has a number as its index and every sampled GPU a number
  as its place and as its used memory, so the payload is built, with the current task in it, and the
  buffer is empty afterwards.\<close>

theorem heartbeat_payload_always_built:
  assumes "new_ring capacity = Inr rb" and "collect_full_fingerprint sy ag md boot_id = Inr fp" and "fs_cache fs = Some fp"
  shows "\<exists>d rb'. build_heartbeat_payload collected t (fs, Some (snd (run_sampler ops rb))) = (Inr d, fs, Some rb') \<and>
    dict_get d ''task_runtime'' = Some (JObj (collect_task_runtime t)) \<and> rb_buf rb' = []"
proof -
  have "list_all gpu_typed (fp_gpus fp)"
    using assms(2) collect_gpus_typed by (auto simp: collect_full_fingerprint_def try_then_Inr)
  moreover have "list_all sample_typed (rb_buf (snd (run_sampler ops rb)))"
    by (rule run_typed) (use assms(1) in \<open>auto simp: new_ring_def split: if_splits\<close>)
  ultimately obtain x where "merge_live_sample_metrics fp (rb_buf (snd (run_sampler ops rb))) = Inr x" using merge_typed by blast
  then show ?thesis using assms(3)
    by (cases x) (simp add: build_heartbeat_payload_def get_cached_def drain_def dict_get_def)
qed

definition sample_system :: system where
  "sample_system = \<lparr>sy_host = (mc_host sample_machine)\<lparr>ho_which := (\<lambda>p. if p = ''nvidia-smi'' then Some ''smi'' else None)\<rparr>,
     sy_run = (\<lambda>args. if length args = 3 then Some (0, ''0, A100, 81920, 10, 5, 0, 0, 30'' @ [CHR 10]) else None),
     sy_reader = \<lparr>rd_loads = (\<lambda>_. None), rd_float = (\<lambda>_. Some (Finite 1))\<rparr>, sy_processor = [], sy_cores = Some 4,
     sy_loadavg = Some 1, sy_meminfo = None, sy_usage = (\<lambda>_. None), sy_node = ''h'', sy_platform = ''Linux''\<rparr>"

lemma int_columns_finite: "\<exists>vs. int_columns (sy_reader sample_system) parts is = Inr vs"
  by (induction "is") (auto simp: int_column_def sample_system_def Let_def)

lemma sample_lines: "splitlines (strip (''0, A100, 81920, 10, 5, 0, 0, 30'' @ [CHR 10])) = [''0, A100, 81920, 10, 5, 0, 0, 30'']"
  by code_simp

lemma sample_columns: "length (split_on CHR '','' ''0, A100, 81920, 10, 5, 0, 0, 30'') = 8"
  by code_simp

lemma sample_gpus: "case collect_gpus sample_system of Inl _ \<Rightarrow> False | Inr gs \<Rightarrow> length gs = 1"
proof -
  obtain vs where "int_columns (sy_reader sample_system) (map strip (split_on CHR '','' ''0, A100, 81920, 10, 5, 0, 0, 30'')) [0, 2, 3, 10, 11, 12, 13, 14, 15] = Inr vs"
    using int_columns_finite by blast
  then obtain g where g: "gpu_row (sy_reader sample_system) (map strip (split_on CHR '','' ''0, A100, 81920, 10, 5, 0, 0, 30'')) = Inr g"
    by (simp only: gpu_row_def try_then.simps Let_def)
  have rows: "gpu_rows (sy_reader sample_system) [''0, A100, 81920, 10, 5, 0, 0, 30''] = Inr [g]"
    by (simp only: gpu_rows.simps Let_def length_map sample_columns g try_then.simps) simp
  have "run_command sample_system [''smi'', q, f] = Some (strip (''0, A100, 81920, 10, 5, 0, 0, 30'' @ [CHR 10]))" for q f
    by (simp only: run_command_def sample_system_def system.simps) simp
  then have "collect_gpus sample_system = gpu_rows (sy_reader sample_system) (splitlines (strip (''0, A100, 81920, 10, 5, 0, 0, 30'' @ [CHR 10])))"
    by (simp add: collect_gpus_def) (simp add: sample_system_def)
  then have "collect_gpus sample_system = Inr [g]" unfolding sample_lines rows .
  then show ?thesis by simp
qed

lemma heartbeat_payload_always_built_witness:
  "\<exists>fp d. collect_full_fingerprint sample_system default_agent_settings \<lparr>md_pool = None, md_state = None\<rparr> ''b'' = Inr fp \<and> length (fp_gpus fp) = 1 \<and>
     fst (build_heartbeat_payload (Inl ''unused'') (Some sample_output_task)
       (\<lparr>fs_cache = Some fp, fs_dirty = False, fs_worker_started = True\<rparr>,
        Some (snd (run_sampler [Tick (Some (sample_probe ''1'')) (sample_net 1 100)]
          \<lparr>rb_capacity = 5, rb_buf = [], rb_last_net_io = None, rb_last_net_time = None\<rparr>)))) = Inr d"
proof -
  obtain gs where gs: "collect_gpus sample_system = Inr gs" "length gs = 1" using sample_gpus by (auto split: sum.splits)
  have "\<exists>m. collect_modal_runtime_status (sy_host sample_system) default_agent_settings \<lparr>md_pool = None, md_state = None\<rparr> = Inr m"
    by (simp add: collect_modal_runtime_status_def load_modal_credential_pool_def default_agent_settings_def)
  then obtain m where "collect_modal_runtime_status (sy_host sample_system) default_agent_settings \<lparr>md_pool = None, md_state = None\<rparr> = Inr m" by blast
  moreover have "collect_memory sample_system = Inr unknown_memory" by (simp add: collect_memory_def sample_system_def)
  ultimately obtain fp where fp: "collect_full_fingerprint sample_system default_agent_settings \<lparr>md_pool = None, md_state = None\<rparr> ''b'' = Inr fp"
    "fp_gpus fp = gs" using gs(1) by (simp add: collect_full_fingerprint_def)
  have rb: "new_ring 5 = Inr \<lparr>rb_capacity = 5, rb_buf = [], rb_last_net_io = None, rb_last_net_time = None\<rparr>" by (simp add: new_ring_def)
  define fs where "fs = \<lparr>fs_cache = Some fp, fs_dirty = False, fs_worker_started = True\<rparr>"
  define ops where "ops = [Tick (Some (sample_probe ''1'')) (sample_net 1 100)]"
  have cache: "fs_cache fs = Some fp" by (simp add: fs_def)
  obtain d rb' where b: "build_heartbeat_payload (Inl ''unused'') (Some sample_output_task)
      (fs, Some (snd (run_sampler ops \<lparr>rb_capacity = 5, rb_buf = [], rb_last_net_io = None, rb_last_net_time = None\<rparr>))) = (Inr d, fs, Some rb')"
    using heartbeat_payload_always_built [OF rb fp(1) cache] by blast
  have "length (fp_gpus fp) = 1" using fp(2) gs(2) by simp
  with fp(1) arg_cong [OF b, of fst, unfolded fst_conv] show ?thesis unfolding fs_def ops_def by blast
qed

end
