(* ===== verification/Spec2Isabelle.thy ===== *)
theory Spec2Isabelle
  imports Task_Claim Node_Runtime Schema Migrations Pagination Admin_Tasks Background Webhook Admin_Auth Observability Admin_Nodes Web Agent_Link Agent_Text Agent_Logs Agent_Secret Agent_Execution Agent_Modal Agent_Disk Agent_Files Agent_Runner Agent_Report Agent_Loop Agent_Sampler Agent_Collect
begin

text \<open>
  GPUFleet, a control plane for GPU nodes and the agent that runs on each of them.

  The program. A node's agent (\<open>node_agent/src/gpufleet_node_agent\<close>) sends signed requests to the control plane
  (\<open>app\<close>): heartbeats, whose answer may hold a task, tasks to cancel and a request to collect the fingerprint anew,
  and the events, log chunks, results and artifacts of the task it runs. The control plane keeps everything in one
  SQLite file and a storage directory; administrators create tasks, which may need a review by a language
  model and a human, and manage nodes over HTTP; a scan in the background settles the tasks of silent nodes and
  deletes what is old. Nobody connects to a node.

  Conventions. An operation takes and returns the state explicitly (\<open>act\<close> in \<open>Prelude\<close>, \<open>step\<close> in
  \<open>Agent_Runner\<close>); an exception is \<open>Inl\<close>, with the code and HTTP status of an \<open>ApiError\<close> or with the name of
  the exception class, and the state it leaves behind. \<open>connect\<close> is the transaction: an exception puts the
  database back and nothing else. The clock, random bytes, and what the network, the operating system or a model
  answers are arguments. An instant is a number of microseconds since year 1; floats are exact rationals; a Python \<open>int\<close>
  is an \<open>int\<close>. Text is a \<open>string\<close> where the program's own values are ASCII, and a list of code points where
  code points and UTF-8 bytes must be told apart (logs, keys). SHA-256 works on 32-bit words. A path is its components.
  A loop that may not end is a \<open>partial_function\<close>; every other recursion is total.

  Shared vocabulary:
  \<^item> \<open>Prelude\<close>: results, actions, SQL's statements on a list of rows, the interface \<open>row_table\<close> of a keyed table
  \<^item> \<open>Py_Time\<close>, \<open>Py_Bytes\<close>, \<open>Codec\<close>, \<open>Sha256\<close>, \<open>Json\<close>: the parts of Python's library that the code computes with
    (\<open>datetime\<close>, UTF-8, base64, SHA-256, HMAC, PBKDF2, \<open>json\<close>)
  \<^item> \<open>Config\<close>: \<open>app/config.py\<close> and \<open>app/metrics.py\<close>; \<open>Examples\<close>: rows for the witnesses

  The control plane:
  \<^item> \<open>Store\<close>: \<open>app/db.py\<close>, the rows of every table, the world (database, metrics, webhook emitter, files, requested
    fingerprints), transactions, and the operations of \<open>Database\<close>; it interprets \<open>row_table\<close> for tasks and nodes
  \<^item> \<open>Schema\<close>: \<open>init_schema\<close> and \<open>_migrate_schema\<close> of \<open>app/db.py\<close>, on tables with columns and constraints;
    \<open>Migrations\<close>: the revisions under \<open>alembic/versions\<close>, both ways, and the insert of a heartbeat against the schema that is
    there; Alembic's batches are the locales \<open>batch_operations\<close> and \<open>batch_rebuild\<close>
  \<^item> \<open>Task_Utils\<close>, \<open>Task_State\<close>, \<open>Task_Claim\<close>: \<open>app/task_utils.py\<close>, \<open>app/services/task_state.py\<close>, and the
    two operations that hand tasks to nodes. \<open>row_step\<close> is the state machine of one task, \<open>transition_task_refines\<close>
    the refinement of the code to it
  \<^item> \<open>Security\<close>, \<open>Node_Auth\<close>: \<open>app/security.py\<close> and \<open>authenticate_node\<close>; the locale \<open>replay_guard\<close> says what keeps
    a request from counting twice, and \<open>same_but_marks\<close> what the authentication leaves alone
  \<^item> \<open>Log_Store\<close>, \<open>Log_Append\<close>, \<open>Log_Chunk\<close>, \<open>Node_Runtime\<close>: \<open>app/services/node_runtime_service.py\<close>, logs on disk with
    rotation, the log endpoint, and the other endpoints of a node; the locale \<open>log_receiver\<close> is the contract between the
    agent's upload and the server
  \<^item> \<open>Review\<close>, \<open>Admin_Tasks\<close>, \<open>Admin_Nodes\<close>, \<open>Admin_Auth\<close>, \<open>Observability\<close>, \<open>Pagination\<close>: \<open>app/review.py\<close>, the services
    and routers of the administrators, and \<open>cursor_pagination.py\<close>, whose locale \<open>page_server\<close> gives that
    following the cursors reads every row once
  \<^item> \<open>Background\<close>, \<open>Webhook\<close>, \<open>Web\<close>: \<open>app/background.py\<close>, \<open>app/webhook.py\<close>, \<open>app/errors.py\<close> and \<open>app/main.py\<close>

  The agent, on a POSIX host:
  \<^item> \<open>Agent_Client\<close>, \<open>Agent_Link\<close>, \<open>Agent_Secret\<close>: settings, signed posts with retries and the circuit breaker, the headers
    against the server's check, and the sealed secret
  \<^item> \<open>Agent_Text\<close>, \<open>Agent_Logs\<close>: \<open>runner/log_pump.py\<close>, reading and uploading output, with the network as a list of fates
  \<^item> \<open>Agent_Disk\<close>, \<open>Agent_Files\<close>, \<open>Agent_Execution\<close>, \<open>Agent_Modal\<close>, \<open>Agent_Runner\<close>: the file system, \<open>runner/artifact.py\<close>,
    \<open>execution.py\<close>, \<open>modal_support.py\<close>, \<open>runner/executor.py\<close> and \<open>runner/dispatcher.py\<close>
  \<^item> \<open>Agent_Report\<close>, \<open>Agent_Loop\<close>: what the agent owes the control plane (the locale \<open>reporting\<close>), \<open>cli.py\<close>, and the
    composition of the agent with the endpoints of the server, authentication included, over a network that loses
    requests and answers; the locale is interpreted on these endpoints
  \<^item> \<open>Agent_Sampler\<close>, \<open>Agent_Collect\<close>: \<open>sampler.py\<close>, \<open>fingerprint.py\<close>, \<open>heartbeat.py\<close> and the probes of \<open>collect.py\<close>

  What the lemmas show. Tasks: transitions refine the state machine, a final status stays but for what the scan may do, a result
  counts once, a review ends by an approval, the scan judges each row (\<open>Task_State\<close>, \<open>Admin_Tasks\<close>, \<open>Background\<close>).
  Requests: an accepted one is authentic and fresh and none counts twice (\<open>Node_Auth\<close>). Logs: the append ends
  and loses nothing, the server holds a prefix of the output, and the agent's rounds bring all of it (\<open>Log_Append\<close>, \<open>Log_Chunk\<close>,
  \<open>Agent_Logs\<close>). Agent and server: the agent forgets a task only when the server knows its end (\<open>Agent_Report\<close>,
  \<open>Agent_Loop\<close>). Secrets, confinement of the file tasks, the environments of commands, the ring of samples and the
  payload of a heartbeat have their theorems where they are modelled. Some theorems exhibit where the code fails its
  purpose: an append that never returns, a truncated log or an unknown type of task that blocks a node, working
  directories that open the disk, a placeholder that replaces a sealed secret, and an old schema that refuses samples.

  Bounds and fuel. The append of a chunk needs a stream limit of at least 4 bytes and free archive numbers
  (\<open>has_room\<close>, \<open>log_cap\<close>: 99999 archives, each full to within 3 bytes); below that \<open>append_log_chunk\<close> may be None, as the code
  loops. \<open>follow\<close> reads pages with a fuel of more steps than there are rows, which suffices because each page has a
  row or is the last. The parser of JSON carries the length of the text as its fuel. The agent makes
  \<open>MAX_RETRIES\<close> attempts at a post.

  Parameters, which are code outside the repository: AES-GCM, PyJWT and passlib (the record \<open>crypto\<close>), the validation of a body
  by pydantic (\<open>parse\<close>), gzip's sizes, Alembic's batch operations and SQLite's \<open>json_extract\<close>, Python's codecs and zip
  reader, psutil, NVML and PDH, the host under the agent (processes, commands, files), the Windows data protection API,
  the model behind the review, and the receiver of a webhook.

  Not modelled: the agent on Windows; the rate limits of slowapi and the Prometheus registry (an observation is an element of
  a list); the routers that only pass a request on; start and end of the server and of the webhook emitter,
  \<open>/healthz\<close> and \<open>/readyz\<close>; logging; \<open>alembic/env.py\<close>, interrupted migrations and \<open>AUTOINCREMENT\<close> as a property of a
  table; concurrent transactions (SQLite serialises them); signals and arguments of the agent's process; symbolic links; damaged or
  unwritable JSON files of the agent (\<open>current_task.json\<close>, \<open>log_offsets.json\<close>); and output of a task whose last character is
  only half written when the agent reads it, but for the lemma \<open>half_written_character_is_lost\<close> of \<open>Agent_Text\<close>.
\<close>

end
